(* ===== verification/Prelude.thy ===== *)
theory Prelude
  imports Main "HOL-Library.Char_ord" "HOL-Library.List_Lexorder" "HOL-Library.Sublist" "HOL-Library.Multiset"
begin

text \<open>
  Shared vocabulary of the development: the fact collections, the result type of fallible
  operations, and the generic lemmas on lists that several components use. Nothing here
  models a function of the program.

  Strings of the program are UTF-8 byte strings, so they are modelled as \<open>char list\<close> with
  one \<open>char\<close> per byte; \<open>length\<close> is Rust's \<open>str::len\<close>, and the order on lists
  (HOL-Library.List_Lexorder over HOL-Library.Char_ord) is Rust's bytewise order on \<open>str\<close>.
\<close>

section \<open>Fact collections\<close>

named_theorems text_simps "unfolding rules of the text helpers"
named_theorems store_simps "frame rules of the message store"
named_theorems engine_simps "frame rules of the context engines"

section \<open>Results\<close>

text \<open>\<open>Result<T, E>\<close> is \<open>'e + 'a\<close>; \<open>bind_res\<close> is the \<open>?\<close> operator.\<close>

definition bind_res :: "'e + 'a \<Rightarrow> ('a \<Rightarrow> 'e + 'b) \<Rightarrow> 'e + 'b" where
  "bind_res r f = (case r of Inl e \<Rightarrow> Inl e | Inr a \<Rightarrow> f a)"

lemma bind_res_simps [simp]:
  "bind_res (Inl e) f = Inl e"
  "bind_res (Inr a) f = f a"
  by (simp_all add: bind_res_def)

lemma bind_res_Inr_iff:
  "bind_res r f = Inr b \<longleftrightarrow> (\<exists>a. r = Inr a \<and> f a = Inr b)"
  by (cases r) simp_all

lemma bind_res_Inl_iff:
  "bind_res r f = Inl e \<longleftrightarrow> r = Inl e \<or> (\<exists>a. r = Inr a \<and> f a = Inl e)"
  by (cases r) auto

text \<open>A loop whose body may fail: stops at the first error, as \<open>?\<close> inside a \<open>for\<close> does.\<close>

fun fold_res :: "('a \<Rightarrow> 's \<Rightarrow> 'e + 's) \<Rightarrow> 'a list \<Rightarrow> 's \<Rightarrow> 'e + 's" where
  "fold_res f [] s = Inr s"
| "fold_res f (x # xs) s = bind_res (f x s) (fold_res f xs)"

lemma fold_res_append:
  "fold_res f (xs @ ys) s = bind_res (fold_res f xs s) (fold_res f ys)"
  by (induction xs arbitrary: s) (auto simp: bind_res_def split: sum.splits)

lemma fold_res_invariant:
  assumes "fold_res f xs s = Inr s'" and "P s"
    and "\<And>x s s'. x \<in> set xs \<Longrightarrow> P s \<Longrightarrow> f x s = Inr s' \<Longrightarrow> P s'"
  shows "P s'"
  using assms
proof (induction xs arbitrary: s)
  case Nil
  then show ?case by simp
next
  case (Cons x xs)
  from Cons.prems(1) obtain t where t: "f x s = Inr t" "fold_res f xs t = Inr s'"
    by (auto simp: bind_res_Inr_iff)
  from Cons.prems(2,3) t(1) have "P t" by (metis list.set_intros(1))
  with t(2) show ?case
    using Cons.IH Cons.prems(3) by (metis list.set_intros(2))
qed

text \<open>\<open>collect::<Result<Vec<_>, _>>()\<close>.\<close>

fun map_res :: "('a \<Rightarrow> 'e + 'b) \<Rightarrow> 'a list \<Rightarrow> 'e + 'b list" where
  "map_res f [] = Inr []"
| "map_res f (x # xs) =
     bind_res (f x) (\<lambda>y. bind_res (map_res f xs) (\<lambda>ys. Inr (y # ys)))"

lemma map_res_Inr_iff:
  "map_res f xs = Inr ys \<longleftrightarrow> list_all2 (\<lambda>x y. f x = Inr y) xs ys"
  by (induction xs arbitrary: ys) (auto simp: bind_res_Inr_iff list_all2_Cons1)

lemma map_res_pure: "(\<And>x. x \<in> set xs \<Longrightarrow> f x = Inr (g x)) \<Longrightarrow> map_res f xs = Inr (map g xs)"
  by (induction xs) simp_all

lemma map_res_append:
  "map_res f (xs @ ys) =
     bind_res (map_res f xs) (\<lambda>us. bind_res (map_res f ys) (\<lambda>vs. Inr (us @ vs)))"
  by (induction xs) (auto simp: bind_res_def split: sum.splits)

lemma map_res_length: "map_res f xs = Inr ys \<Longrightarrow> length ys = length xs"
  by (simp add: map_res_Inr_iff list_all2_lengthD)

section \<open>Lists\<close>

lemma list_all2_set1: "list_all2 P xs ys \<Longrightarrow> x \<in> set xs \<Longrightarrow> \<exists>y \<in> set ys. P x y"
  by (induction rule: list_all2_induct) auto

lemma list_all2_set2: "list_all2 P xs ys \<Longrightarrow> y \<in> set ys \<Longrightarrow> \<exists>x \<in> set xs. P x y"
  by (induction rule: list_all2_induct) auto

lemma sum_list_filter_le: "sum_list (map f (filter P xs)) \<le> (sum_list (map f xs) :: nat)"
  by (induction xs) auto

lemma concat_singletons: "concat (map (\<lambda>x. [f x]) xs) = map f xs"
  by (induction xs) auto

lemma filter_pairwise_disjoint:
  "(\<And>x. x \<in> set xs \<Longrightarrow> \<not> (P x \<and> Q x)) \<Longrightarrow> filter P (filter Q xs) = []"
  by (auto simp: filter_empty_conv)

text \<open>Rust's \<open>Iterator::min\<close> and \<open>max\<close> with \<open>unwrap_or("")\<close>.\<close>

definition min_str :: "string list \<Rightarrow> string" where
  "min_str xs = (case xs of [] \<Rightarrow> '''' | y # ys \<Rightarrow> fold min ys y)"

definition max_str :: "string list \<Rightarrow> string" where
  "max_str xs = (case xs of [] \<Rightarrow> '''' | y # ys \<Rightarrow> fold max ys y)"

lemma fold_min_le: "fold min ys (y :: 'a :: linorder) \<le> y \<and> (\<forall>z \<in> set ys. fold min ys y \<le> z)"
proof (induction ys arbitrary: y)
  case (Cons a ys)
  from Cons.IH [of "min a y"] show ?case by (auto simp: min_le_iff_disj)
qed simp

lemma fold_max_ge: "(y :: 'a :: linorder) \<le> fold max ys y \<and> (\<forall>z \<in> set ys. z \<le> fold max ys y)"
proof (induction ys arbitrary: y)
  case (Cons a ys)
  from Cons.IH [of "max a y"] show ?case by (auto simp: le_max_iff_disj)
qed simp

lemma min_str_le: "x \<in> set xs \<Longrightarrow> min_str xs \<le> x"
  using fold_min_le by (cases xs) (auto simp: min_str_def)

lemma max_str_ge: "x \<in> set xs \<Longrightarrow> x \<le> max_str xs"
  using fold_max_ge by (cases xs) (auto simp: max_str_def)

text \<open>The last element of a list as an option, \<open>slice::last\<close>; \<open>slice::first\<close> likewise.\<close>

definition first_opt :: "'a list \<Rightarrow> 'a option" where
  "first_opt xs = (case xs of [] \<Rightarrow> None | x # _ \<Rightarrow> Some x)"

definition last_opt :: "'a list \<Rightarrow> 'a option" where
  "last_opt xs = (if xs = [] then None else Some (last xs))"

text \<open>\<open>find_map\<close>.\<close>

fun first_some :: "('a \<Rightarrow> 'b option) \<Rightarrow> 'a list \<Rightarrow> 'b option" where
  "first_some f [] = None"
| "first_some f (a # as) = (case f a of Some b \<Rightarrow> Some b | None \<Rightarrow> first_some f as)"

lemma first_some_set: "a \<in> set as \<Longrightarrow> f a \<noteq> None \<Longrightarrow> first_some f as \<noteq> None"
  by (induction as) (auto split: option.splits)

end
