(* ===== verification/Action.thy ===== *)
theory Action
  imports Prelude
begin

text \<open>
  Sequential code with a mutable state and early returns: an action takes the state and
  returns an error or a value with the new state, so that an error keeps what was done
  before it (\<open>async fn f(&mut self) -> Result<A, E>\<close>). \<open>act_bind\<close> is \<open>f().await?\<close>
  followed by the rest. A triple \<open>hoare P m Q E\<close> has one postcondition for a return and one
  for an error; the rules are in the collection \<open>hoare_rules\<close>, applied backwards.
\<close>

type_synonym ('s, 'e, 'a) action = "'s \<Rightarrow> ('e + 'a) \<times> 's"

definition act_return :: "'a \<Rightarrow> ('s, 'e, 'a) action" where
  "act_return a s = (Inr a, s)"

definition act_throw :: "'e \<Rightarrow> ('s, 'e, 'a) action" where
  "act_throw e s = (Inl e, s)"

definition act_update :: "('s \<Rightarrow> 's) \<Rightarrow> ('s, 'e, unit) action" where
  "act_update f s = (Inr (), f s)"

definition act_bind :: "('s, 'e, 'a) action \<Rightarrow> ('a \<Rightarrow> ('s, 'e, 'b) action) \<Rightarrow> ('s, 'e, 'b) action" where
  "act_bind m f s = (case m s of (Inl e, s') \<Rightarrow> (Inl e, s') | (Inr a, s') \<Rightarrow> f a s')"

definition act_then :: "('s, 'e, unit) action \<Rightarrow> ('s, 'e, 'b) action \<Rightarrow> ('s, 'e, 'b) action" where
  "act_then m n = act_bind m (\<lambda>_. n)"

definition act_when :: "bool \<Rightarrow> ('s, 'e, unit) action \<Rightarrow> ('s, 'e, unit) action" where
  "act_when b m = (if b then m else act_return ())"

fun act_each :: "('x \<Rightarrow> ('s, 'e, unit) action) \<Rightarrow> 'x list \<Rightarrow> ('s, 'e, unit) action" where
  "act_each f [] = act_return ()"
| "act_each f (x # xs) = act_then (f x) (act_each f xs)"

named_theorems act_simps "evaluation of actions"

lemma act_eval [act_simps]:
  "act_return a s = (Inr a, s)"
  "act_throw e s = (Inl e, s)"
  "act_update f s = (Inr (), f s)"
  "act_bind m g s = (case m s of (Inl e, s') \<Rightarrow> (Inl e, s') | (Inr a, s') \<Rightarrow> g a s')"
  "act_then m' n s = (case m' s of (Inl e, s') \<Rightarrow> (Inl e, s') | (Inr _, s') \<Rightarrow> n s')"
  "act_when b m' s = (if b then m' s else (Inr (), s))"
  by (simp_all add: act_return_def act_throw_def act_update_def act_bind_def act_then_def act_when_def)

section \<open>Triples\<close>

definition hoare ::
  "('s \<Rightarrow> bool) \<Rightarrow> ('s, 'e, 'a) action \<Rightarrow> ('a \<Rightarrow> 's \<Rightarrow> bool) \<Rightarrow> ('e \<Rightarrow> 's \<Rightarrow> bool) \<Rightarrow> bool" where
  "hoare P m Q E \<longleftrightarrow> (\<forall>s. P s \<longrightarrow> (case m s of (Inl e, s') \<Rightarrow> E e s' | (Inr a, s') \<Rightarrow> Q a s'))"

lemma hoareI:
  "(\<And>s e s'. P s \<Longrightarrow> m s = (Inl e, s') \<Longrightarrow> E e s') \<Longrightarrow>
   (\<And>s a s'. P s \<Longrightarrow> m s = (Inr a, s') \<Longrightarrow> Q a s') \<Longrightarrow> hoare P m Q E"
  by (auto simp: hoare_def split: prod.splits sum.splits)

lemma hoare_result:
  "hoare P m Q E \<Longrightarrow> P s \<Longrightarrow> m s = (r, s') \<Longrightarrow> (case r of Inl e \<Rightarrow> E e s' | Inr a \<Rightarrow> Q a s')"
  by (fastforce simp: hoare_def split: sum.splits)

named_theorems hoare_rules "backward rules for actions"

lemma hoare_return [hoare_rules]: "(\<And>s. P s \<Longrightarrow> Q a s) \<Longrightarrow> hoare P (act_return a) Q E"
  by (simp add: hoare_def act_simps)

lemma hoare_throw [hoare_rules]: "(\<And>s. P s \<Longrightarrow> E e s) \<Longrightarrow> hoare P (act_throw e) Q E"
  by (simp add: hoare_def act_simps)

lemma hoare_update [hoare_rules]: "(\<And>s. P s \<Longrightarrow> Q () (f s)) \<Longrightarrow> hoare P (act_update f) Q E"
  by (simp add: hoare_def act_simps)

lemma hoare_bind:
  "hoare P m R E \<Longrightarrow> (\<And>a. hoare (R a) (f a) Q E) \<Longrightarrow> hoare P (act_bind m f) Q E"
  by (fastforce simp: hoare_def act_simps split: prod.splits sum.splits)

lemma hoare_then:
  "hoare P m (\<lambda>_. R) E \<Longrightarrow> hoare R n Q E \<Longrightarrow> hoare P (act_then m n) Q E"
  unfolding act_then_def by (rule hoare_bind)

lemma hoare_if [hoare_rules]:
  "(b \<Longrightarrow> hoare P m Q E) \<Longrightarrow> (\<not> b \<Longrightarrow> hoare P n Q E) \<Longrightarrow> hoare P (if b then m else n) Q E"
  by simp

lemma hoare_if_state:
  "hoare P m Q E \<Longrightarrow> hoare P n Q E \<Longrightarrow> hoare P (\<lambda>s. if b s then m s else n s) Q E"
  by (auto simp: hoare_def)

lemma hoare_when [hoare_rules]:
  "(b \<Longrightarrow> hoare P m Q E) \<Longrightarrow> (\<And>s. \<not> b \<Longrightarrow> P s \<Longrightarrow> Q () s) \<Longrightarrow> hoare P (act_when b m) Q E"
  by (auto simp: hoare_def act_simps)

lemma hoare_trivial: "hoare P m (\<lambda>_ _. True) (\<lambda>_ _. True)"
  by (auto simp: hoare_def split: prod.splits sum.splits)

text \<open>What is known of the values alone, with nothing known of the state.\<close>

lemma hoare_const: "(R \<Longrightarrow> hoare (\<lambda>_. True) m Q E) \<Longrightarrow> hoare (\<lambda>_. R) m Q E"
  by (auto simp: hoare_def)

lemma hoare_pure:
  "hoare (\<lambda>_. True) m (\<lambda>a _. R a) E \<Longrightarrow> (\<And>a. R a \<Longrightarrow> hoare (\<lambda>_. True) (f a) Q E) \<Longrightarrow>
   hoare (\<lambda>_. True) (act_bind m f) Q E"
  by (erule hoare_bind) (rule hoare_const)

lemma hoare_returns: "(\<And>s. \<exists>a s'. m s = (Inr a, s') \<and> R a) \<Longrightarrow> hoare P m (\<lambda>a _. R a) E"
proof (rule hoareI)
  fix s e s' assume "\<And>s. \<exists>a s'. m s = (Inr a, s') \<and> R a" and "m s = (Inl e, s')"
  then show "E e s'" by (metis Inl_Inr_False fst_conv)
next
  fix s a s' assume "\<And>s. \<exists>a s'. m s = (Inr a, s') \<and> R a" and "m s = (Inr a, s')"
  then show "R a" by (metis Pair_inject sum.inject(2))
qed

lemma hoare_weaken:
  "hoare P' m Q' E' \<Longrightarrow> (\<And>s. P s \<Longrightarrow> P' s) \<Longrightarrow> (\<And>a s. Q' a s \<Longrightarrow> Q a s) \<Longrightarrow> (\<And>e s. E' e s \<Longrightarrow> E e s)
   \<Longrightarrow> hoare P m Q E"
  by (fastforce simp: hoare_def split: prod.splits sum.splits)

lemma hoare_conj:
  "hoare P m Q E \<Longrightarrow> hoare P' m Q' E' \<Longrightarrow>
   hoare (\<lambda>s. P s \<and> P' s) m (\<lambda>a s. Q a s \<and> Q' a s) (\<lambda>e s. E e s \<and> E' e s)"
  by (fastforce simp: hoare_def split: prod.splits sum.splits)

lemma hoare_each:
  "(\<And>x. x \<in> set xs \<Longrightarrow> hoare I (f x) (\<lambda>_. I) E) \<Longrightarrow> hoare I (act_each f xs) (\<lambda>_. I) E"
proof (induction xs)
  case (Cons x xs)
  have "hoare I (act_each f xs) (\<lambda>_. I) E" by (rule Cons.IH) (simp add: Cons.prems)
  then show ?case using Cons.prems [of x] by (simp add: hoare_then)
qed (simp add: hoare_return)

text \<open>An action that keeps an invariant whatever its outcome.\<close>

abbreviation keeps :: "('s \<Rightarrow> bool) \<Rightarrow> ('s, 'e, 'a) action \<Rightarrow> bool" where
  "keeps I m \<equiv> hoare I m (\<lambda>_. I) (\<lambda>_. I)"

lemma keepsI: "(\<And>s. I s \<Longrightarrow> I (snd (m s))) \<Longrightarrow> keeps I m"
  by (fastforce simp: hoare_def split: prod.splits sum.splits)

lemma keepsD: "keeps I m \<Longrightarrow> I s \<Longrightarrow> I (snd (m s))"
  by (cases "m s"; cases "fst (m s)") (auto simp: hoare_def dest!: spec [of _ s])

end
