(* ===== verification/Rust_Text.thy ===== *)
theory Rust_Text
  imports Prelude
begin

text \<open>
  Byte strings and the part of Rust's \<open>str\<close> API the program uses, followed by the string
  helpers of \<^verbatim>\<open>src/src/text.rs\<close>: \<open>text_prefix\<close> and \<open>text_suffix\<close> cut a string to a byte
  budget on a character boundary. The lemmas show that the cuts respect the budget, fall on
  boundaries and are the longest such cuts.
\<close>

abbreviation newline :: string where
  "newline \<equiv> [CHR 0x0A]"

section \<open>UTF-8 boundaries\<close>

definition is_cont :: "char \<Rightarrow> bool" where
  "is_cont c \<longleftrightarrow> 128 \<le> (of_char c :: nat) \<and> (of_char c :: nat) < 192"

definition is_char_boundary :: "string \<Rightarrow> nat \<Rightarrow> bool" where
  "is_char_boundary s i \<longleftrightarrow>
     (if i = 0 then True else if i < length s then \<not> is_cont (s ! i) else i = length s)"

primrec floor_char_boundary :: "string \<Rightarrow> nat \<Rightarrow> nat" where
  "floor_char_boundary s 0 = 0"
| "floor_char_boundary s (Suc i) =
     (if length s \<le> Suc i then length s
      else if is_char_boundary s (Suc i) then Suc i
      else floor_char_boundary s i)"

function ceil_char_boundary :: "string \<Rightarrow> nat \<Rightarrow> nat" where
  "ceil_char_boundary s i =
     (if length s \<le> i then length s
      else if is_char_boundary s i then i
      else ceil_char_boundary s (Suc i))"
  by pat_completeness auto
termination
  by (relation "measure (\<lambda>(s, i). length s - i)") auto

declare ceil_char_boundary.simps [simp del]

lemma boundary_0 [simp]: "is_char_boundary s 0"
  by (simp add: is_char_boundary_def)

lemma boundary_length [simp]: "is_char_boundary s (length s)"
  by (simp add: is_char_boundary_def)

lemma boundary_le_length: "is_char_boundary s i \<Longrightarrow> i \<le> length s"
  by (auto simp: is_char_boundary_def split: if_splits)

lemma floor_le: "floor_char_boundary s i \<le> i"
  by (induction i) auto

lemma floor_le_length: "floor_char_boundary s i \<le> length s"
  by (induction i) auto

lemma floor_boundary: "is_char_boundary s (floor_char_boundary s i)"
  by (induction i) auto

lemma floor_greatest: "is_char_boundary s j \<Longrightarrow> j \<le> i \<Longrightarrow> j \<le> floor_char_boundary s i"
proof (induction i)
  case (Suc i)
  then show ?case
    by (cases "j = Suc i") (auto dest: boundary_le_length)
qed simp

lemma ceil_ge: "i \<le> length s \<Longrightarrow> i \<le> ceil_char_boundary s i"
proof (induction s i rule: ceil_char_boundary.induct)
  case (1 s i)
  then show ?case
    by (cases "length s \<le> i \<or> is_char_boundary s i")
      (auto simp: ceil_char_boundary.simps [of s i])
qed

lemma ceil_le_length: "ceil_char_boundary s i \<le> length s"
proof (induction s i rule: ceil_char_boundary.induct)
  case (1 s i)
  then show ?case by (auto simp: ceil_char_boundary.simps [of s i])
qed

lemma ceil_boundary: "is_char_boundary s (ceil_char_boundary s i)"
proof (induction s i rule: ceil_char_boundary.induct)
  case (1 s i)
  then show ?case by (auto simp: ceil_char_boundary.simps [of s i])
qed

lemma ceil_least: "is_char_boundary s j \<Longrightarrow> i \<le> j \<Longrightarrow> ceil_char_boundary s i \<le> j"
proof (induction s i rule: ceil_char_boundary.induct)
  case (1 s i)
  show ?case
  proof (cases "length s \<le> i \<or> is_char_boundary s i")
    case True
    with 1 show ?thesis
      by (auto simp: ceil_char_boundary.simps [of s i] dest: boundary_le_length)
  next
    case False
    with 1 have "Suc i \<le> j" by (metis not_less_eq_eq order_antisym)
    with False 1 show ?thesis by (simp add: ceil_char_boundary.simps [of s i])
  qed
qed

section \<open>The helpers of text.rs\<close>

definition text_prefix :: "string \<Rightarrow> nat \<Rightarrow> string" where
  "text_prefix s max_bytes = take (floor_char_boundary s max_bytes) s"

definition text_suffix :: "string \<Rightarrow> nat \<Rightarrow> string" where
  "text_suffix s max_bytes = drop (ceil_char_boundary s (length s - max_bytes)) s"

lemma length_text_prefix: "length (text_prefix s n) = floor_char_boundary s n"
  by (simp add: text_prefix_def min_absorb2 floor_le_length)

lemma length_text_prefix_le: "length (text_prefix s n) \<le> n"
  by (simp add: length_text_prefix floor_le)

lemma length_text_suffix:
  "length (text_suffix s n) = length s - ceil_char_boundary s (length s - n)"
  by (simp add: text_suffix_def)

lemma length_text_suffix_le: "length (text_suffix s n) \<le> n"
  using ceil_ge [of "length s - n" s] by (simp add: length_text_suffix)

lemma prefix_text_prefix: "prefix (text_prefix s n) s"
  by (simp add: text_prefix_def take_is_prefix)

lemma suffix_text_suffix: "suffix (text_suffix s n) s"
  by (simp add: text_suffix_def suffix_drop)

lemma text_prefix_longest:
  assumes "prefix p s" and "is_char_boundary s (length p)" and "length p \<le> n"
  shows "prefix p (text_prefix s n)"
proof -
  have "length p \<le> floor_char_boundary s n"
    using assms(2,3) by (rule floor_greatest)
  with assms(1) show ?thesis
    by (metis length_text_prefix prefix_length_prefix prefix_text_prefix)
qed

lemma text_suffix_longest:
  assumes "suffix q s" and "is_char_boundary s (length s - length q)" and "length q \<le> n"
  shows "suffix q (text_suffix s n)"
proof -
  have "ceil_char_boundary s (length s - n) \<le> length s - length q"
    using assms(2,3) by (intro ceil_least) auto
  then have "length q \<le> length (text_suffix s n)"
    using suffix_length_le [OF assms(1)] by (simp add: length_text_suffix)
  with assms(1) show ?thesis
    by (metis suffix_length_suffix suffix_text_suffix)
qed

lemma text_prefix_id: "length s \<le> n \<Longrightarrow> text_prefix s n = s"
proof -
  assume "length s \<le> n"
  then have "length s \<le> floor_char_boundary s n" by (rule floor_greatest [OF boundary_length])
  then show ?thesis by (simp add: text_prefix_def)
qed

section \<open>The str API\<close>

definition str_contains :: "string \<Rightarrow> string \<Rightarrow> bool" where
  "str_contains s pat \<longleftrightarrow> sublist pat s"

fun strip_prefix :: "string \<Rightarrow> string \<Rightarrow> string option" where
  "strip_prefix s [] = Some s"
| "strip_prefix [] (p # ps) = None"
| "strip_prefix (c # cs) (p # ps) = (if c = p then strip_prefix cs ps else None)"

definition strip_suffix :: "string \<Rightarrow> string \<Rightarrow> string option" where
  "strip_suffix s p = map_option rev (strip_prefix (rev s) (rev p))"

lemma strip_prefix_Some_iff: "strip_prefix s p = Some r \<longleftrightarrow> s = p @ r"
  by (induction s p rule: strip_prefix.induct) auto

lemma strip_prefix_append [simp]: "strip_prefix (p @ r) p = Some r"
  by (simp add: strip_prefix_Some_iff)

lemma strip_prefix_None_iff: "strip_prefix s p = None \<longleftrightarrow> \<not> prefix p s"
  by (metis not_Some_eq prefix_def strip_prefix_Some_iff)

lemma strip_suffix_Some_iff: "strip_suffix s p = Some r \<longleftrightarrow> s = r @ p"
proof -
  have "rev s = rev p @ x \<longleftrightarrow> s = rev x @ p" for x
    by (metis rev_append rev_rev_ident)
  then have "strip_suffix s p = Some r \<longleftrightarrow> (\<exists>x. s = rev x @ p \<and> rev x = r)"
    by (simp add: strip_suffix_def strip_prefix_Some_iff)
  then show ?thesis by (metis rev_rev_ident)
qed

text \<open>\<open>split_once(c)\<close>: the parts before and after the first occurrence.\<close>

fun split_once :: "char \<Rightarrow> string \<Rightarrow> (string \<times> string) option" where
  "split_once c [] = None"
| "split_once c (x # xs) =
     (if x = c then Some ([], xs)
      else map_option (\<lambda>(a, b). (x # a, b)) (split_once c xs))"

lemma split_once_Some_iff:
  "split_once c s = Some (a, b) \<longleftrightarrow> s = a @ c # b \<and> c \<notin> set a"
proof (induction s arbitrary: a)
  case (Cons x xs)
  then show ?case by (cases a) auto
qed simp

lemma split_once_None_iff: "split_once c s = None \<longleftrightarrow> c \<notin> set s"
  by (induction s) auto

text \<open>\<open>split(c)\<close>: always at least one (possibly empty) part.\<close>

fun split_on :: "char \<Rightarrow> string \<Rightarrow> string list" where
  "split_on c [] = [[]]"
| "split_on c (x # xs) =
     (if x = c then [] # split_on c xs
      else (case split_on c xs of [] \<Rightarrow> [[x]] | p # ps \<Rightarrow> (x # p) # ps))"

lemma split_on_not_Nil [simp]: "split_on c s \<noteq> []"
  by (induction s) (auto split: list.splits)

text \<open>Joining with a separator undoes \<open>split\<close>.\<close>

fun join_with :: "string \<Rightarrow> string list \<Rightarrow> string" where
  "join_with sep [] = []"
| "join_with sep [x] = x"
| "join_with sep (x # y # ys) = x @ sep @ join_with sep (y # ys)"

lemma join_split: "join_with [c] (split_on c s) = s"
proof (induction s)
  case (Cons x xs)
  then show ?case
    by (cases "split_on c xs"; cases "tl (split_on c xs)") auto
qed simp

lemma split_on_parts: "p \<in> set (split_on c s) \<Longrightarrow> c \<notin> set p"
  by (induction s arbitrary: p) (auto split: list.splits if_splits)

lemma split_on_no_sep: "c \<notin> set p \<Longrightarrow> split_on c p = [p]"
  by (induction p) auto

lemma split_on_append_sep: "c \<notin> set p \<Longrightarrow> split_on c (p @ c # r) = p # split_on c r"
  by (induction p) auto

text \<open>\<open>replace(from, to)\<close> for a non-empty pattern: leftmost, non-overlapping, one pass.\<close>

function str_replace :: "string \<Rightarrow> string \<Rightarrow> string \<Rightarrow> string" where
  "str_replace from to s =
     (case s of
        [] \<Rightarrow> []
      | c # cs \<Rightarrow>
          (if from \<noteq> [] \<and> take (length from) s = from
           then to @ str_replace from to (drop (length from) s)
           else c # str_replace from to cs))"
  by pat_completeness auto
termination
  by (relation "measure (\<lambda>(f, t, s). length s)") auto

declare str_replace.simps [simp del]

lemma str_replace_Nil [simp]: "str_replace f t [] = []"
  by (simp add: str_replace.simps)

lemma str_replace_match:
  "f \<noteq> [] \<Longrightarrow> str_replace f t (f @ s) = t @ str_replace f t s"
  using str_replace.simps [of f t "f @ s"] by (cases f) simp_all

lemma str_replace_skip:
  "\<not> prefix f (c # cs) \<Longrightarrow> str_replace f t (c # cs) = c # str_replace f t cs"
proof -
  assume "\<not> prefix f (c # cs)"
  then have "take (length f) (c # cs) \<noteq> f"
    by (metis take_is_prefix)
  then show ?thesis by (subst str_replace.simps) simp
qed

lemma str_replace_char:
  "str_replace [c] t s = concat (map (\<lambda>x. if x = c then t else [x]) s)"
proof (induction s)
  case (Cons x xs)
  then show ?case
    by (cases "x = c") (simp_all add: str_replace.simps [of "[c]" t "_ # xs"])
qed simp

text \<open>ASCII case folding and comparison.\<close>

definition ascii_lower :: "char \<Rightarrow> char" where
  "ascii_lower c =
     (if 65 \<le> (of_char c :: nat) \<and> (of_char c :: nat) \<le> 90 then char_of (of_char c + 32 :: nat) else c)"

definition eq_ignore_ascii_case :: "string \<Rightarrow> string \<Rightarrow> bool" where
  "eq_ignore_ascii_case a b \<longleftrightarrow> map ascii_lower a = map ascii_lower b"

lemma eq_ignore_ascii_case_refl [simp]: "eq_ignore_ascii_case a a"
  by (simp add: eq_ignore_ascii_case_def)

lemma eq_ignore_ascii_case_sym: "eq_ignore_ascii_case a b \<longleftrightarrow> eq_ignore_ascii_case b a"
  by (auto simp: eq_ignore_ascii_case_def)

lemma eq_ignore_ascii_case_trans:
  "eq_ignore_ascii_case a b \<Longrightarrow> eq_ignore_ascii_case b c \<Longrightarrow> eq_ignore_ascii_case a c"
  by (simp add: eq_ignore_ascii_case_def)

definition is_ascii_digit :: "char \<Rightarrow> bool" where
  "is_ascii_digit c \<longleftrightarrow> 48 \<le> (of_char c :: nat) \<and> (of_char c :: nat) \<le> 57"

definition is_ascii_alphanumeric :: "char \<Rightarrow> bool" where
  "is_ascii_alphanumeric c \<longleftrightarrow>
     is_ascii_digit c
     \<or> (65 \<le> (of_char c :: nat) \<and> (of_char c :: nat) \<le> 90)
     \<or> (97 \<le> (of_char c :: nat) \<and> (of_char c :: nat) \<le> 122)"

text \<open>\<open>trim_end_matches(pat)\<close>: strips every trailing occurrence.\<close>

function trim_end_matches :: "string \<Rightarrow> string \<Rightarrow> string" where
  "trim_end_matches p s =
     (if p = [] then s
      else (case strip_suffix s p of None \<Rightarrow> s | Some r \<Rightarrow> trim_end_matches p r))"
  by pat_completeness auto
termination
  by (relation "measure (\<lambda>(p, s). length s)") (auto simp: strip_suffix_Some_iff)

declare trim_end_matches.simps [simp del]

lemma trim_end_matches_no_suffix: "p \<noteq> [] \<Longrightarrow> \<not> suffix p (trim_end_matches p s)"
proof (induction p s rule: trim_end_matches.induct)
  case (1 p s)
  show ?case
  proof (cases "strip_suffix s p")
    case None
    with 1(2) have "trim_end_matches p s = s" by (simp add: trim_end_matches.simps [of p s])
    with None show ?thesis
      by (metis option.distinct(1) strip_suffix_Some_iff suffix_def)
  next
    case (Some r)
    with 1 show ?thesis by (simp add: trim_end_matches.simps [of p s])
  qed
qed

lemma trim_end_matches_id: "\<not> suffix p s \<Longrightarrow> trim_end_matches p s = s"
  by (subst trim_end_matches.simps)
    (auto split: option.splits simp: strip_suffix_Some_iff suffix_def)

lemma trim_end_matches_append:
  "p \<noteq> [] \<Longrightarrow> trim_end_matches p (s @ p) = trim_end_matches p s"
proof -
  have "strip_suffix (s @ p) p = Some s" by (simp add: strip_suffix_Some_iff)
  then show "p \<noteq> [] \<Longrightarrow> ?thesis" by (simp add: trim_end_matches.simps [of p "s @ p"])
qed

section \<open>Decimal numbers\<close>

definition digit_char :: "nat \<Rightarrow> char" where
  "digit_char d = char_of (48 + d)"

fun nat_str :: "nat \<Rightarrow> string" where
  "nat_str n = (if n < 10 then [digit_char n] else nat_str (n div 10) @ [digit_char (n mod 10)])"

declare nat_str.simps [simp del]

text \<open>The decimal text of a signed integer.\<close>

definition int_str :: "int \<Rightarrow> string" where
  "int_str n = (if n < 0 then ''-'' @ nat_str (nat (- n)) else nat_str (nat n))"

definition digit_val :: "char \<Rightarrow> nat" where
  "digit_val c = of_char c - 48"

text \<open>
  \<open>str::parse\<close> for an unsigned type with maximum \<open>bound\<close>: an optional \<open>+\<close>, then one or
  more decimal digits, \<open>None\<close> on overflow.
\<close>

definition digits_value :: "string \<Rightarrow> nat" where
  "digits_value s = foldl (\<lambda>n c. 10 * n + digit_val c) 0 s"

definition parse_unsigned :: "nat \<Rightarrow> string \<Rightarrow> nat option" where
  "parse_unsigned bound s =
     (let d = (case s of [] \<Rightarrow> [] | c # cs \<Rightarrow> if c = CHR ''+'' then cs else s)
      in if d \<noteq> [] \<and> list_all is_ascii_digit d \<and> digits_value d \<le> bound
         then Some (digits_value d) else None)"

lemma digit_char_digit: "d < 10 \<Longrightarrow> is_ascii_digit (digit_char d)"
  by (simp add: is_ascii_digit_def digit_char_def)

lemma digit_val_char: "d < 10 \<Longrightarrow> digit_val (digit_char d) = d"
  by (simp add: digit_val_def digit_char_def)

lemma nat_str_digits: "list_all is_ascii_digit (nat_str n)"
proof (induction n rule: nat_str.induct)
  case (1 n)
  then show ?case
    by (subst nat_str.simps) (auto simp: digit_char_digit)
qed

lemma nat_str_not_Nil [simp]: "nat_str n \<noteq> []"
  by (subst nat_str.simps) simp

lemma digits_value_nat_str: "digits_value (nat_str n) = n"
proof (induction n rule: nat_str.induct)
  case (1 n)
  then show ?case
    by (subst nat_str.simps) (auto simp: digits_value_def digit_val_char)
qed

lemma parse_nat_str: "n \<le> bound \<Longrightarrow> parse_unsigned bound (nat_str n) = Some n"
proof -
  assume n: "n \<le> bound"
  obtain c cs where s: "nat_str n = c # cs"
    using nat_str_not_Nil [of n] by (cases "nat_str n") auto
  moreover from s have "is_ascii_digit c"
    using nat_str_digits [of n] by simp
  then have "c \<noteq> CHR ''+''" by (auto simp: is_ascii_digit_def)
  ultimately show ?thesis
    using n digits_value_nat_str [of n] nat_str_digits [of n]
    by (simp add: parse_unsigned_def)
qed

lemma parse_unsigned_le: "parse_unsigned bound s = Some n \<Longrightarrow> n \<le> bound"
  by (auto simp: parse_unsigned_def Let_def split: if_splits)

text \<open>\<open>chars().take(n).collect()\<close>: the first \<open>n\<close> characters, each with its continuation bytes.\<close>

fun take_chars :: "nat \<Rightarrow> string \<Rightarrow> string" where
  "take_chars 0 s = []"
| "take_chars (Suc n) [] = []"
| "take_chars (Suc n) (c # cs) =
     c # takeWhile is_cont cs @ take_chars n (dropWhile is_cont cs)"

lemma prefix_take_chars: "prefix (take_chars n s) s"
proof (induction n s rule: take_chars.induct)
  case (3 n c cs)
  have "prefix (takeWhile is_cont cs @ take_chars n (dropWhile is_cont cs))
     (takeWhile is_cont cs @ dropWhile is_cont cs)"
    using 3 by (simp only: same_prefix_prefix)
  then show ?case by simp
qed simp_all

section \<open>Trimming white space\<close>

text \<open>
  The UTF-8 encodings of the characters with the Unicode property \<open>White_Space\<close>, which
  \<open>str::trim\<close> removes: the ASCII ones, U+0085, U+00A0, U+1680, U+2000 to U+200A, U+2028,
  U+2029, U+202F, U+205F and U+3000.
\<close>

definition white_space :: "string list" where
  "white_space =
     map (\<lambda>n. [char_of n]) [9, 10, 11, 12, 13, 32 :: nat]
     @ map (map char_of) [[0xC2, 0x85], [0xC2, 0xA0], [0xE1, 0x9A, 0x80 :: nat]]
     @ map (\<lambda>n. map char_of [0xE2, 0x80, n]) ([0x80..<0x8B] @ [0xA8, 0xA9, 0xAF])
     @ map (map char_of) [[0xE2, 0x81, 0x9F], [0xE3, 0x80, 0x80 :: nat]]"

lemma white_space_code [code]:
  "white_space =
    [[CHR 0x09], [CHR 0x0A], [CHR 0x0B], [CHR 0x0C], [CHR 0x0D], [CHR 0x20], [CHR 0xC2, CHR 0x85],
     [CHR 0xC2, CHR 0xA0], [CHR 0xE1, CHR 0x9A, CHR 0x80], [CHR 0xE2, CHR 0x80, CHR 0x80],
     [CHR 0xE2, CHR 0x80, CHR 0x81], [CHR 0xE2, CHR 0x80, CHR 0x82], [CHR 0xE2, CHR 0x80, CHR 0x83],
     [CHR 0xE2, CHR 0x80, CHR 0x84], [CHR 0xE2, CHR 0x80, CHR 0x85], [CHR 0xE2, CHR 0x80, CHR 0x86],
     [CHR 0xE2, CHR 0x80, CHR 0x87], [CHR 0xE2, CHR 0x80, CHR 0x88], [CHR 0xE2, CHR 0x80, CHR 0x89],
     [CHR 0xE2, CHR 0x80, CHR 0x8A], [CHR 0xE2, CHR 0x80, CHR 0xA8], [CHR 0xE2, CHR 0x80, CHR 0xA9],
     [CHR 0xE2, CHR 0x80, CHR 0xAF], [CHR 0xE2, CHR 0x81, CHR 0x9F], [CHR 0xE3, CHR 0x80, CHR 0x80]]"
  by code_simp

lemma white_space_not_Nil: "w \<in> set white_space \<Longrightarrow> w \<noteq> []"
  by (auto simp: white_space_def)

function trim_start :: "string \<Rightarrow> string" where
  "trim_start s = (case find (\<lambda>w. prefix w s) white_space of
     None \<Rightarrow> s | Some w \<Rightarrow> trim_start (drop (length w) s))"
  by auto

termination
proof (relation "measure length")
  fix s w assume "find (\<lambda>w. prefix w s) white_space = Some w"
  then have "w \<in> set white_space" and "prefix w s" by (auto simp: find_Some_iff)
  then show "(drop (length w) s, s) \<in> measure length"
    using white_space_not_Nil [of w] by (cases s) auto
qed simp

declare trim_start.simps [simp del]

function trim_end :: "string \<Rightarrow> string" where
  "trim_end s = (case find (\<lambda>w. suffix w s) white_space of
     None \<Rightarrow> s | Some w \<Rightarrow> trim_end (take (length s - length w) s))"
  by auto

termination
proof (relation "measure length")
  fix s w assume "find (\<lambda>w. suffix w s) white_space = Some w"
  then have "w \<in> set white_space" and "suffix w s" by (auto simp: find_Some_iff)
  then show "(take (length s - length w) s, s) \<in> measure length"
    using white_space_not_Nil [of w] by (cases s) auto
qed simp

declare trim_end.simps [simp del]

lemma suffix_trim_start: "suffix (trim_start s) s"
proof (induction s rule: trim_start.induct)
  case (1 s)
  show ?case
    by (subst trim_start.simps)
      (auto split: option.splits intro: suffix_order.trans [OF "1.IH" suffix_drop])
qed

lemma prefix_trim_end: "prefix (trim_end s) s"
proof (induction s rule: trim_end.induct)
  case (1 s)
  show ?case
    by (subst trim_end.simps)
      (auto split: option.splits intro: prefix_order.trans [OF "1.IH" take_is_prefix])
qed

lemma trim_start_no_space: "w \<in> set white_space \<Longrightarrow> \<not> prefix w (trim_start s)"
proof (induction s rule: trim_start.induct)
  case (1 s)
  then show ?case
    by (subst trim_start.simps) (auto simp: find_None_iff split: option.splits)
qed

lemma trim_end_no_space: "w \<in> set white_space \<Longrightarrow> \<not> suffix w (trim_end s)"
proof (induction s rule: trim_end.induct)
  case (1 s)
  then show ?case
    by (subst trim_end.simps) (auto simp: find_None_iff split: option.splits)
qed

lemma trim_Nil [simp]: "trim_start [] = []" "trim_end [] = []"
  using suffix_trim_start [of "[]"] prefix_trim_end [of "[]"] by simp_all

definition trim :: "string \<Rightarrow> string" where
  "trim s = trim_end (trim_start s)"

text \<open>The em dash the program's messages use.\<close>

definition em_dash :: string where
  "em_dash = [CHR 0xE2, CHR 0x80, CHR 0x94]"

end
