(* ===== verification/Errors.thy ===== *)
theory Errors
  imports Rust_Text
begin

text \<open>
  The error types of the agent (\<^verbatim>\<open>src/src/error.rs\<close>) with the texts the model and the
  channels read (\<open>Display\<close>), the classification of tool failures
  (\<^verbatim>\<open>src/src/agent/mod.rs\<close>, \<open>error_class\<close>) and of provider failures. Errors of other
  packages (I/O, SQLite, HTTP, JSON) are the text they print; \<open>dbg\<close> is the \<open>{:?}\<close> form of a
  string.
\<close>

section \<open>Types\<close>

datatype provider_error =
    Authentication
  | EmptyResponse
  | InvalidResponse string
  | MalformedToolCall string
  | ProviderNetwork string
  | ServerError string
  | BadRequest string
  | RateLimited
  | TruncatedResponse

datatype session_failure = SessionIo string | SessionParse string | SessionSerialize string

datatype engine_failure =
    EngineProvider provider_error
  | EngineSession session_failure
  | EngineSqlite string
  | EngineJoin string
  | EngineIo string string string
  | EngineStorage string

datatype github_error =
    GithubApi nat string
  | GithubDeserialize string
  | GithubNetwork string
  | GithubRateLimited nat "nat option" string

datatype linear_error = LinearApi string | LinearDeserialize string | LinearNetwork string

datatype telegram_error =
    TelegramApi int string "nat option"
  | TelegramDeserialize string
  | TelegramNetwork string

datatype mcp_error = McpTransport string | McpRpc int string | McpProtocol string | McpCall string

datatype edit_futility = FailedIdentically | NoChange

record timeout_evidence =
  te_output_tail :: string
  te_pressure :: string

datatype tool_error =
    Blocked string string
  | ToolCancelled
  | CommandFailed string int string
  | EditLoop string nat edit_futility
  | FtsQuery string string
  | GithubFailed github_error
  | LinearFailed linear_error
  | HttpFailed string string
  | HttpStatus string nat
  | InvalidArguments string
  | JoinFailed string
  | IoFailed string string string
  | McpFailed string mcp_error
  | NotFound string
  | Precondition string
  | SqliteFailed string string
  | Spawn string string string
  | SubAgent turn_error
  | TelegramFailed telegram_error
  | WebSearch provider_error
  | Timeout string nat timeout_evidence
and turn_error =
    EngineFailed engine_failure
  | Cancelled
  | MaxIterationsReached string
  | NoProgress
  | ProviderFailed provider_error
  | SessionFailed session_failure
  | ToolFailed tool_error

section \<open>Texts\<close>

fun provider_error_str :: "(string \<Rightarrow> string) \<Rightarrow> provider_error \<Rightarrow> string" where
  "provider_error_str dbg Authentication = ''Authentication failed''"
| "provider_error_str dbg EmptyResponse = ''Provider returned an empty response''"
| "provider_error_str dbg (InvalidResponse s) = ''Invalid response: '' @ s"
| "provider_error_str dbg (MalformedToolCall name) =
     ''Provider returned a tool call with a malformed name: '' @ dbg name"
| "provider_error_str dbg (ProviderNetwork s) = ''Network error: '' @ s"
| "provider_error_str dbg (ServerError s) = ''Provider server error: '' @ s"
| "provider_error_str dbg (BadRequest s) = ''Provider rejected the request: '' @ s"
| "provider_error_str dbg RateLimited = ''Rate limited''"
| "provider_error_str dbg TruncatedResponse =
     ''Provider response truncated at max_tokens before any content''"

definition is_transient :: "provider_error \<Rightarrow> bool" where
  "is_transient e = (case e of
     EmptyResponse \<Rightarrow> True | MalformedToolCall _ \<Rightarrow> True | ProviderNetwork _ \<Rightarrow> True
   | RateLimited \<Rightarrow> True | ServerError _ \<Rightarrow> True | _ \<Rightarrow> False)"

fun session_failure_str :: "session_failure \<Rightarrow> string" where
  "session_failure_str (SessionIo s) = ''Session I/O error: '' @ s"
| "session_failure_str (SessionParse s) = ''Failed to parse session: '' @ s"
| "session_failure_str (SessionSerialize s) = ''Failed to serialize session: '' @ s"

fun engine_failure_str :: "(string \<Rightarrow> string) \<Rightarrow> engine_failure \<Rightarrow> string" where
  "engine_failure_str dbg (EngineProvider e) = ''Provider error: '' @ provider_error_str dbg e"
| "engine_failure_str dbg (EngineSession e) = ''Session error: '' @ session_failure_str e"
| "engine_failure_str dbg (EngineSqlite s) = ''Storage error: '' @ s"
| "engine_failure_str dbg (EngineJoin s) = ''blocking task failed: '' @ s"
| "engine_failure_str dbg (EngineIo operation path source) =
     ''failed to '' @ operation @ '' '' @ path @ '': '' @ source"
| "engine_failure_str dbg (EngineStorage s) = ''Storage error: '' @ s"

definition opt_debug :: "nat option \<Rightarrow> string" where
  "opt_debug v = (case v of None \<Rightarrow> ''None'' | Some n \<Rightarrow> ''Some('' @ nat_str n @ '')'')"

fun github_error_str :: "github_error \<Rightarrow> string" where
  "github_error_str (GithubApi status body) = ''GitHub API error ('' @ nat_str status @ ''): '' @ body"
| "github_error_str (GithubDeserialize s) = ''Deserialize error: '' @ s"
| "github_error_str (GithubNetwork s) = ''Network error: '' @ s"
| "github_error_str (GithubRateLimited status retry_after_secs body) =
     ''GitHub rate limited ('' @ nat_str status @ ''), retry after '' @ opt_debug retry_after_secs @ ''s: '' @ body"

fun linear_error_str :: "linear_error \<Rightarrow> string" where
  "linear_error_str (LinearApi s) = ''Linear API error: '' @ s"
| "linear_error_str (LinearDeserialize s) = ''Deserialize error: '' @ s"
| "linear_error_str (LinearNetwork s) = ''Network error: '' @ s"

fun telegram_error_str :: "telegram_error \<Rightarrow> string" where
  "telegram_error_str (TelegramApi error_code description _) =
     ''Telegram API error ('' @ int_str error_code @ ''): '' @ description"
| "telegram_error_str (TelegramDeserialize s) = ''Deserialize error: '' @ s"
| "telegram_error_str (TelegramNetwork s) = ''Network error: '' @ s"

definition retry_after :: "telegram_error \<Rightarrow> nat option" where
  "retry_after e = (case e of TelegramApi _ _ retry \<Rightarrow> retry | _ \<Rightarrow> None)"

fun mcp_error_str :: "mcp_error \<Rightarrow> string" where
  "mcp_error_str (McpTransport s) = ''transport: '' @ s"
| "mcp_error_str (McpRpc code message) = ''rpc error '' @ int_str code @ '': '' @ message"
| "mcp_error_str (McpProtocol s) = ''protocol: '' @ s"
| "mcp_error_str (McpCall s) = ''tool error: '' @ s"

fun edit_futility_str :: "edit_futility \<Rightarrow> string" where
  "edit_futility_str FailedIdentically = ''failed identically''"
| "edit_futility_str NoChange = ''produced no change''"

definition timeout_evidence_str :: "timeout_evidence \<Rightarrow> string" where
  "timeout_evidence_str ev =
     (if te_pressure ev \<noteq> [] then CHR 0x0A # ''cgroup at kill: '' @ te_pressure ev else []) @
     (if te_output_tail ev \<noteq> [] then CHR 0x0A # ''last output:'' @ CHR 0x0A # te_output_tail ev else [])"

fun tool_error_str :: "(string \<Rightarrow> string) \<Rightarrow> tool_error \<Rightarrow> string"
  and turn_error_str :: "(string \<Rightarrow> string) \<Rightarrow> turn_error \<Rightarrow> string" where
  "tool_error_str dbg (Blocked operation guidance) = ''Blocked: '' @ operation @ '' ('' @ guidance @ '')''"
| "tool_error_str dbg ToolCancelled = ''cancelled''"
| "tool_error_str dbg (CommandFailed _ _ output) = ''Execution failed: '' @ output"
| "tool_error_str dbg (EditLoop path attempts outcome) =
     ''file_edit on '' @ path @ '' '' @ edit_futility_str outcome @ '' '' @ nat_str attempts @
     '' times running; re-read the file to re-anchor before editing it again''"
| "tool_error_str dbg (FtsQuery pattern source) =
     ''FTS5 failed to parse search pattern '' @ dbg pattern @ '': '' @ source @
     ''. Hyphens and colons are query syntax in fts mode; quote each literal term (\"security-lane\") or use mode=\"regex\".''"
| "tool_error_str dbg (GithubFailed e) = github_error_str e"
| "tool_error_str dbg (LinearFailed e) = linear_error_str e"
| "tool_error_str dbg (HttpFailed url source) = ''fetch '' @ url @ '': '' @ source"
| "tool_error_str dbg (HttpStatus url status) = ''HTTP '' @ nat_str status @ '' from '' @ url"
| "tool_error_str dbg (InvalidArguments s) = ''Invalid arguments: '' @ s"
| "tool_error_str dbg (JoinFailed s) = ''blocking task failed: '' @ s"
| "tool_error_str dbg (IoFailed operation path source) =
     ''failed to '' @ operation @ '' '' @ path @ '': '' @ source"
| "tool_error_str dbg (McpFailed tool source) = tool @ '': '' @ mcp_error_str source"
| "tool_error_str dbg (NotFound s) = ''Tool not found: '' @ s"
| "tool_error_str dbg (Precondition s) = ''precondition failed: '' @ s"
| "tool_error_str dbg (SqliteFailed ctx source) = ctx @ '': '' @ source"
| "tool_error_str dbg (Spawn argv cwd source) =
     ''Failed to spawn `'' @ argv @ ''` (cwd '' @ cwd @ ''): '' @ source"
| "tool_error_str dbg (SubAgent source) = ''sub-agent failed: '' @ turn_error_str dbg source"
| "tool_error_str dbg (TelegramFailed e) = telegram_error_str e"
| "tool_error_str dbg (WebSearch e) = ''search request failed: '' @ provider_error_str dbg e"
| "tool_error_str dbg (Timeout command secs evidence) =
     ''`'' @ command @ ''` timed out after '' @ nat_str secs @ ''s'' @ timeout_evidence_str evidence"
| "turn_error_str dbg (EngineFailed e) = ''Engine error: '' @ engine_failure_str dbg e"
| "turn_error_str dbg Cancelled = ''Turn cancelled''"
| "turn_error_str dbg (MaxIterationsReached report) =
     ''Maximum iterations reached without completion. State at exit:'' @ CHR 0x0A # report"
| "turn_error_str dbg NoProgress =
     ''Turn made no progress: the same tool call was repeated after being refused''"
| "turn_error_str dbg (ProviderFailed e) = ''Provider error: '' @ provider_error_str dbg e"
| "turn_error_str dbg (SessionFailed e) = ''Session error: '' @ session_failure_str e"
| "turn_error_str dbg (ToolFailed e) = ''Tool error: '' @ tool_error_str dbg e"

section \<open>Bounded texts\<close>

definition truncate_output :: "string \<Rightarrow> nat \<Rightarrow> string" where
  "truncate_output s max_bytes =
     (if length s \<le> max_bytes then s
      else (let kept = text_prefix s max_bytes
            in kept @ ''...'' @ CHR 0x0A # ''[truncated '' @ nat_str (length s - length kept) @ '' bytes]''))"

definition truncate_head :: "string \<Rightarrow> nat \<Rightarrow> string" where
  "truncate_head s max_bytes =
     (if length s \<le> max_bytes then s
      else (let kept = text_suffix s max_bytes
            in ''[truncated '' @ nat_str (length s - length kept) @ '' leading bytes]'' @ CHR 0x0A # kept))"

definition PRECONDITION_LOG_MAX :: nat where
  "PRECONDITION_LOG_MAX = 500"

definition log_summary :: "(string \<Rightarrow> string) \<Rightarrow> tool_error \<Rightarrow> string" where
  "log_summary dbg e = (case e of
     CommandFailed command exit_code _ \<Rightarrow> ''`'' @ command @ ''` exited '' @ int_str exit_code
   | Precondition _ \<Rightarrow> truncate_output (tool_error_str dbg e) PRECONDITION_LOG_MAX
   | _ \<Rightarrow> tool_error_str dbg e)"

section \<open>Classes of tool failures\<close>

fun error_class :: "tool_error \<Rightarrow> string" where
  "error_class (Blocked _ _) = ''blocked''"
| "error_class ToolCancelled = ''cancelled''"
| "error_class (CommandFailed _ exit_code _) = ''command_failed:'' @ int_str exit_code"
| "error_class (EditLoop _ _ _) = ''edit_loop''"
| "error_class (FtsQuery _ _) = ''fts_query''"
| "error_class (GithubFailed (GithubApi status _)) = ''github:api:'' @ nat_str status"
| "error_class (GithubFailed (GithubDeserialize _)) = ''github:deserialize''"
| "error_class (GithubFailed (GithubNetwork _)) = ''github:network''"
| "error_class (GithubFailed (GithubRateLimited _ _ _)) = ''github:rate_limited''"
| "error_class (LinearFailed (LinearApi _)) = ''linear:api''"
| "error_class (LinearFailed (LinearDeserialize _)) = ''linear:deserialize''"
| "error_class (LinearFailed (LinearNetwork _)) = ''linear:network''"
| "error_class (HttpFailed _ _) = ''http''"
| "error_class (HttpStatus _ status) = ''http_status:'' @ nat_str status"
| "error_class (InvalidArguments _) = ''invalid_arguments''"
| "error_class (JoinFailed _) = ''join''"
| "error_class (IoFailed _ _ _) = ''io''"
| "error_class (McpFailed _ _) = ''mcp''"
| "error_class (NotFound _) = ''not_found''"
| "error_class (Precondition _) = ''precondition''"
| "error_class (SqliteFailed ctx _) = ''sqlite:'' @ ctx"
| "error_class (Spawn _ _ _) = ''spawn''"
| "error_class (SubAgent _) = ''sub_agent''"
| "error_class (TelegramFailed _) = ''telegram''"
| "error_class (Timeout _ _ _) = ''timeout''"
| "error_class (WebSearch _) = ''web_search''"

text \<open>A truncated text starts with what was kept of the original.\<close>

lemma truncate_output_keeps: "\<exists>rest. truncate_output s max_bytes = text_prefix s max_bytes @ rest"
proof (cases "length s \<le> max_bytes")
  case True
  then have "text_prefix s max_bytes = s" by (rule text_prefix_id)
  with True show ?thesis by (simp add: truncate_output_def)
qed (simp add: truncate_output_def Let_def)

end
