(* ===== verification/Json.thy ===== *)
theory Json
  imports Rust_Text
begin

text \<open>
  JSON values (\<open>serde_json::Value\<close>) and the program's own functions on them
  (\<^verbatim>\<open>src/src/agent/mod.rs\<close>). Parsing and printing are serde's: \<open>json_codec\<close> holds them as
  arguments. An object is the list of its entries in key order, which is how serde's map
  keeps them; a number is the text it prints.
\<close>

datatype json =
    JNull
  | JBool bool
  | JNumber string
  | JString string
  | JArray "json list"
  | JObject "(string \<times> json) list"

record json_codec =
  js_parse :: "string \<Rightarrow> json option"
  js_print :: "json \<Rightarrow> string"

text \<open>\<open>value.get(key)\<close> and \<open>as_str\<close>.\<close>

definition json_get :: "json \<Rightarrow> string \<Rightarrow> json option" where
  "json_get v key = (case v of JObject kvs \<Rightarrow> map_of kvs key | _ \<Rightarrow> None)"

definition json_str :: "json \<Rightarrow> string option" where
  "json_str v = (case v of JString s \<Rightarrow> Some s | _ \<Rightarrow> None)"

definition arg_str :: "json_codec \<Rightarrow> string \<Rightarrow> string \<Rightarrow> string option" where
  "arg_str js args key =
     (case js_parse js args of
        None \<Rightarrow> None
      | Some value \<Rightarrow> Option.bind (json_get value key) json_str)"

fun canonicalize_value :: "json \<Rightarrow> json" where
  "canonicalize_value (JObject kvs) = JObject (sort_key fst (map (\<lambda>(k, v). (k, canonicalize_value v)) kvs))"
| "canonicalize_value (JArray items) = JArray (map canonicalize_value items)"
| "canonicalize_value other = other"

definition canonical_args :: "json_codec \<Rightarrow> string \<Rightarrow> string" where
  "canonical_args js args =
     (case js_parse js args of Some v \<Rightarrow> js_print js (canonicalize_value v) | None \<Rightarrow> args)"

text \<open>Canonicalizing twice changes nothing more, and the order of entries does not matter.\<close>

lemma insort_key_map_snd:
  "insort_key fst (k, f v) (map (\<lambda>(k, v). (k, f v)) xs) = map (\<lambda>(k, v). (k, f v)) (insort_key fst (k, v) xs)"
  by (induction xs) auto

lemma sort_key_map_snd: "sort_key fst (map (\<lambda>(k, v). (k, f v)) kvs) = map (\<lambda>(k, v). (k, f v)) (sort_key fst kvs)"
  by (induction kvs) (auto simp: insort_key_map_snd [where f = f])

lemma canonicalize_idem: "canonicalize_value (canonicalize_value v) = canonicalize_value v"
proof (induction v rule: canonicalize_value.induct)
  case (1 kvs)
  let ?g = "\<lambda>(k :: string, v). (k, canonicalize_value v)"
  have "map ?g (map ?g (sort_key fst kvs)) = map ?g (sort_key fst kvs)"
    using 1 by auto
  moreover have "sort_key fst (sort_key fst kvs) = sort_key fst kvs"
    by (simp add: sort_key_id_if_sorted)
  ultimately show ?case
    by (simp only: canonicalize_value.simps sort_key_map_snd)
qed auto

lemma canonicalize_permuted:
  assumes "distinct (map fst kvs)" and "mset kvs = mset kvs'"
  shows "canonicalize_value (JObject kvs) = canonicalize_value (JObject kvs')"
proof -
  have "inj_on fst (set kvs)" using assms(1) by (simp add: distinct_map)
  then have "sort_key fst kvs = sort_key fst kvs'"
    using assms(2) by (intro sort_key_inj_key_eq) simp_all
  then show ?thesis by (simp add: sort_key_map_snd)
qed

end
