(* ===== verification/Message.thy ===== *)
theory Message
  imports Rust_Text
begin

text \<open>
  The conversation messages of \<^verbatim>\<open>src/src/types.rs\<close> and the two renderings every engine
  shares (\<^verbatim>\<open>src/src/context/mod.rs\<close>): the transcript handed to a summarizer and the
  tail-biased truncation of tool output. A \<open>ToolName\<close> is a string that passed
  \<open>is_valid_tool_name\<close>; it is modelled by its text, and the places that construct one by
  \<open>parse_tool_name\<close>.
\<close>

section \<open>Messages\<close>

record tool_function =
  fn_name :: string
  fn_arguments :: string

record tool_call =
  tc_id :: string
  tc_function :: tool_function

datatype message =
    Assistant string
  | System string
  | Tool string string
  | ToolCalls string "tool_call list"
  | User string

definition is_valid_tool_name :: "string \<Rightarrow> bool" where
  "is_valid_tool_name name \<longleftrightarrow>
     name \<noteq> [] \<and> list_all (\<lambda>b. is_ascii_alphanumeric b \<or> b = CHR ''_'' \<or> b = CHR ''-'') name"

text \<open>\<open>ToolName::from_str\<close>: the error carries the rejected text.\<close>

definition parse_tool_name :: "string \<Rightarrow> string + string" where
  "parse_tool_name s = (if is_valid_tool_name s then Inr s else Inl s)"

fun content_of :: "message \<Rightarrow> string" where
  "content_of (Assistant c) = c"
| "content_of (System c) = c"
| "content_of (Tool _ c) = c"
| "content_of (ToolCalls c _) = c"
| "content_of (User c) = c"

fun char_count :: "message \<Rightarrow> nat" where
  "char_count (ToolCalls c calls) =
     length c + sum_list (map (\<lambda>tc. length (fn_name (tc_function tc)) + length (fn_arguments (tc_function tc))) calls)"
| "char_count m = length (content_of m)"

definition estimate_tokens_from_chars :: "nat \<Rightarrow> nat" where
  "estimate_tokens_from_chars chars = chars div 4"

definition estimate_tokens :: "string \<Rightarrow> nat" where
  "estimate_tokens s = estimate_tokens_from_chars (length s)"

definition token_estimate :: "message \<Rightarrow> nat" where
  "token_estimate m = estimate_tokens_from_chars (char_count m)"

lemma estimate_tokens_le_iff: "estimate_tokens s \<le> n \<longleftrightarrow> length s < 4 * n + 4"
  by (auto simp: estimate_tokens_def estimate_tokens_from_chars_def)

lemma estimate_tokens_mono: "length s \<le> length t \<Longrightarrow> estimate_tokens s \<le> estimate_tokens t"
  by (simp add: estimate_tokens_def estimate_tokens_from_chars_def div_le_mono)

lemma char_count_ge_content: "length (content_of m) \<le> char_count m"
  by (cases m) auto

text \<open>The estimate of a concatenation is at least the sum of the estimates (flooring).\<close>

lemma estimate_sum_le:
  "sum_list (map token_estimate ms) \<le> estimate_tokens_from_chars (sum_list (map char_count ms))"
proof (induction ms)
  case (Cons m ms)
  have "a div 4 + b div 4 \<le> (a + b) div 4" for a b :: nat by simp
  then show ?case
    using Cons by (simp add: token_estimate_def estimate_tokens_from_chars_def)
qed (simp add: estimate_tokens_from_chars_def)

section \<open>The transcript for a summarizer\<close>

definition format_tool_call :: "tool_call \<Rightarrow> string" where
  "format_tool_call tc =
     newline @ ''  [tool_call] '' @ fn_name (tc_function tc) @ ''('' @ fn_arguments (tc_function tc) @ '')''"

fun format_message :: "message \<Rightarrow> string" where
  "format_message (Assistant c) = ''[assistant] '' @ c"
| "format_message (System c) = ''[system] '' @ c"
| "format_message (Tool call_id c) = ''[tool:'' @ call_id @ ''] '' @ c"
| "format_message (ToolCalls c calls) = ''[assistant] '' @ c @ concat (map format_tool_call calls)"
| "format_message (User c) = ''[user] '' @ c"

definition format_messages_for_summary :: "message list \<Rightarrow> string" where
  "format_messages_for_summary ms = concat (map (\<lambda>m. format_message m @ newline) ms)"

lemma format_messages_append:
  "format_messages_for_summary (xs @ ys) = format_messages_for_summary xs @ format_messages_for_summary ys"
  by (simp add: format_messages_for_summary_def)

lemma length_format_message: "char_count m \<le> length (format_message m)"
proof (cases m)
  case (ToolCalls c calls)
  have "sum_list (map (\<lambda>tc. length (fn_name (tc_function tc)) + length (fn_arguments (tc_function tc))) calls)
      \<le> length (concat (map format_tool_call calls))"
    by (induction calls) (auto simp: format_tool_call_def)
  with ToolCalls show ?thesis by simp
qed auto

text \<open>Nothing the messages say is lost: the transcript is at least as long as their content.\<close>

lemma length_format_messages:
  "sum_list (map char_count ms) + length ms \<le> length (format_messages_for_summary ms)"
proof (induction ms)
  case (Cons m ms)
  then show ?case
    using length_format_message [of m] by (simp add: format_messages_for_summary_def)
qed (simp add: format_messages_for_summary_def)

lemma format_messages_contains:
  "m \<in> set ms \<Longrightarrow> str_contains (format_messages_for_summary ms) (format_message m)"
  by (auto simp: format_messages_for_summary_def str_contains_def dest!: split_list)

section \<open>Truncating tool output\<close>

definition truncation_marker :: "nat \<Rightarrow> string" where
  "truncation_marker omitted =
     newline @ ''... [~'' @ nat_str omitted @ '' tokens truncated] ...'' @ newline"

definition truncate_tool_output :: "string \<Rightarrow> nat \<Rightarrow> string" where
  "truncate_tool_output content max_tokens =
     (if estimate_tokens content \<le> max_tokens then content
      else
        let keep = max_tokens * 4 div 2;
            head = text_prefix content keep;
            tail = text_suffix content keep;
            omitted = estimate_tokens
              (take (length content - length tail - length head) (drop (length head) content))
        in head @ truncation_marker omitted @ tail)"

lemma truncate_tool_output_id:
  "estimate_tokens content \<le> max_tokens \<Longrightarrow> truncate_tool_output content max_tokens = content"
  by (simp add: truncate_tool_output_def)

lemma split_around:
  assumes "prefix h s" and "suffix t s" and len: "length h + length t \<le> length s"
  shows "s = h @ take (length s - length t - length h) (drop (length h) s) @ t"
proof -
  obtain l where l: "s = l @ t" using assms(2) by (auto simp: suffix_def)
  then have "prefix h l"
    using assms(1) len prefix_length_prefix [of h s l] by (simp add: prefixI)
  then obtain m where "l = h @ m" by (auto simp: prefix_def)
  with l show ?thesis by simp
qed

text \<open>Over the threshold the two kept sides never overlap: the content splits around them.\<close>

lemma truncate_tool_output_split:
  assumes "max_tokens < estimate_tokens content"
  obtains mid where
    "content = text_prefix content (2 * max_tokens) @ mid @ text_suffix content (2 * max_tokens)"
    and "truncate_tool_output content max_tokens =
      text_prefix content (2 * max_tokens) @ truncation_marker (estimate_tokens mid)
      @ text_suffix content (2 * max_tokens)"
proof -
  let ?h = "text_prefix content (2 * max_tokens)"
  let ?t = "text_suffix content (2 * max_tokens)"
  let ?mid = "take (length content - length ?t - length ?h) (drop (length ?h) content)"
  have len: "length ?h + length ?t \<le> length content"
    using assms length_text_prefix_le [of content "2 * max_tokens"]
      length_text_suffix_le [of content "2 * max_tokens"]
    by (simp add: estimate_tokens_def estimate_tokens_from_chars_def)
  have mid: "content = ?h @ ?mid @ ?t"
    using prefix_text_prefix suffix_text_suffix len by (rule split_around)
  moreover have "truncate_tool_output content max_tokens =
      ?h @ truncation_marker (estimate_tokens ?mid) @ ?t"
    using assms by (simp add: truncate_tool_output_def Let_def mult.commute)
  ultimately show ?thesis by (rule that)
qed

end
