(* ===== verification/Agent_Guards.thy ===== *)
theory Agent_Guards
  imports Errors Json Message
begin

text \<open>
  The per-turn guards of the agent loop (\<^verbatim>\<open>src/src/agent/mod.rs\<close>, \<^verbatim>\<open>src/src/agent/hints.rs\<close>):
  the detector of repeated tool calls, the counter of identical tool failures, the counter
  of policy violations, and the one-shot corrective hints.
\<close>

section \<open>Repeated calls\<close>

definition REPEAT_LIMIT :: nat where "REPEAT_LIMIT = 3"
definition REPEAT_STRIKE_LIMIT :: nat where "REPEAT_STRIKE_LIMIT = 2"
definition POLICY_STRIKE_LIMIT :: nat where "POLICY_STRIKE_LIMIT = 2"
definition POLICY_ROUND_LIMIT :: nat where "POLICY_ROUND_LIMIT = 4"
definition STRIKE_NOTICE :: nat where "STRIKE_NOTICE = 3"
definition STRIKE_HALT :: nat where "STRIKE_HALT = 5"

record repeat_detector =
  rd_prev :: "(string \<times> json) list option"
  rd_count :: nat

definition new_detector :: repeat_detector where
  "new_detector = \<lparr>rd_prev = None, rd_count = 0\<rparr>"

definition fingerprint :: "json_codec \<Rightarrow> tool_call list \<Rightarrow> (string \<times> json) list" where
  "fingerprint js calls = map (\<lambda>c.
     (fn_name (tc_function c),
      case js_parse js (fn_arguments (tc_function c)) of
        Some args \<Rightarrow> args | None \<Rightarrow> JString (fn_arguments (tc_function c)))) calls"

definition record_calls ::
  "json_codec \<Rightarrow> tool_call list \<Rightarrow> repeat_detector \<Rightarrow> bool \<times> repeat_detector" where
  "record_calls js calls d =
     (let fp = fingerprint js calls;
          d' = (if rd_prev d = Some fp then d\<lparr>rd_count := rd_count d + 1\<rparr>
                else \<lparr>rd_prev = Some fp, rd_count = 1\<rparr>)
      in (REPEAT_LIMIT \<le> rd_count d', d'))"

section \<open>Identical failures\<close>

type_synonym tool_strikes = "string \<times> string \<times> string \<Rightarrow> nat option"

definition strike_key :: "json_codec \<Rightarrow> tool_call \<Rightarrow> tool_error \<Rightarrow> string \<times> string \<times> string" where
  "strike_key js c e =
     (fn_name (tc_function c), canonical_args js (fn_arguments (tc_function c)), error_class e)"

definition is_blocked :: "tool_error \<Rightarrow> bool" where
  "is_blocked e = (case e of Blocked _ _ \<Rightarrow> True | _ \<Rightarrow> False)"

definition bump :: "'k \<Rightarrow> ('k \<Rightarrow> nat option) \<Rightarrow> nat \<times> ('k \<Rightarrow> nat option)" where
  "bump k m = (let n = (case m k of None \<Rightarrow> 0 | Some n \<Rightarrow> n) + 1 in (n, m(k \<mapsto> n)))"

definition record_strike ::
  "json_codec \<Rightarrow> tool_call \<Rightarrow> tool_error \<Rightarrow> tool_strikes \<Rightarrow> nat option \<times> tool_strikes" where
  "record_strike js c e m =
     (if is_blocked e then (None, m)
      else (let (n, m') = bump (strike_key js c e) m in (Some n, m')))"

definition augment_notice :: "string \<Rightarrow> nat \<Rightarrow> string" where
  "augment_notice content hits =
     (if hits \<ge> STRIKE_NOTICE then
        content @ newline @ newline @ ''This exact call has failed '' @ nat_str hits @
        '' times this turn. The failure is deterministic '' @ em_dash @
        '' stop retrying and adapt your approach or report the problem.''
      else content)"

definition timeout_notice :: "string \<Rightarrow> nat \<Rightarrow> nat \<Rightarrow> string" where
  "timeout_notice command secs hits =
     (let base = ''Error: `'' @ command @ ''` timed out after '' @ nat_str secs @ ''s''
      in if hits \<ge> STRIKE_NOTICE then
           base @ newline @ newline @ ''This command has timed out '' @ nat_str hits @
           '' times this turn. Partial progress persists '' @ em_dash @
           '' a retry resumes where this stopped. But if the underlying store/target mtimes '' @
           ''have not advanced, the failure is deterministic: stop retrying and report the problem.''
         else base @ newline @ newline @ ''Partial progress persists '' @ em_dash @
           '' a retry resumes where this stopped.'')"

text \<open>The text recorded for a failed call.\<close>

definition failure_content :: "(string \<Rightarrow> string) \<Rightarrow> tool_error \<Rightarrow> nat option \<Rightarrow> string" where
  "failure_content dbg e hits =
     (let base = ''Error: '' @ tool_error_str dbg e
      in case hits of
           None \<Rightarrow> base
         | Some n \<Rightarrow> (case e of Timeout command secs _ \<Rightarrow> timeout_notice command secs n
                                | _ \<Rightarrow> augment_notice base n))"

section \<open>Policy violations\<close>

text \<open>The blocked results of a round: the reason shown and the rule's guidance.\<close>

definition blocked_of :: "(tool_error + string) list \<Rightarrow> (string \<times> string) list" where
  "blocked_of results = List.map_filter (\<lambda>r. case r of
     Inl (Blocked operation guidance) \<Rightarrow> Some (operation @ '' ('' @ guidance @ '')'', guidance)
   | _ \<Rightarrow> None) results"

text \<open>Every rule counts once per round; the flag says whether one reached its limit.\<close>

definition policy_strike :: "string \<Rightarrow> bool \<times> (string \<Rightarrow> nat option) \<Rightarrow> bool \<times> (string \<Rightarrow> nat option)" where
  "policy_strike guidance st =
     (case bump guidance (snd st) of (n, m) \<Rightarrow> (fst st \<or> POLICY_STRIKE_LIMIT \<le> n, m))"

definition policy_round :: "string list \<Rightarrow> (string \<Rightarrow> nat option) \<Rightarrow> bool \<Rightarrow> bool \<times> (string \<Rightarrow> nat option)" where
  "policy_round guidances strikes halt = fold policy_strike (sort (remdups guidances)) (halt, strikes)"

section \<open>Hints\<close>

definition ASSERT_HINT :: string where
  "ASSERT_HINT = ''Hint: a test assertion failed. Derive the expected value by hand from the '' @
     ''inputs before changing code: the test'' @ [CHR 0x27] @ ''s own expectation may be the bug.''"

definition RERUN_HINT :: string where
  "RERUN_HINT = ''Hint: that test command already ran and no file_edit or file_write has '' @
     ''happened since; the result will not change. Edit something first or ask a different question.''"

definition STALE_EDIT_HINT :: string where
  "STALE_EDIT_HINT = ''Hint: file_edit failed to match twice on that file; your view of it is '' @
     ''stale. Re-read the region before retrying.''"

definition TEST_COMMANDS :: "string list" where
  "TEST_COMMANDS = [''cargo test'', ''go test'', ''just check'', ''just rust-check'', ''just test'',
     ''npm test'', ''pnpm test'', ''pytest'', ''vitest'']"

datatype hint_kind = Assert | Rerun | StaleEdit

record hint_tracker =
  ht_fired :: "hint_kind list"
  ht_last_test :: "string option"
  ht_edited :: bool
  ht_no_match :: "string \<Rightarrow> nat option"

definition new_tracker :: hint_tracker where
  "new_tracker = \<lparr>ht_fired = [], ht_last_test = None, ht_edited = True, ht_no_match = Map.empty\<rparr>"

definition fire :: "hint_kind \<Rightarrow> string \<Rightarrow> hint_tracker \<Rightarrow> string option \<times> hint_tracker" where
  "fire kind hint t =
     (if kind \<in> set (ht_fired t) then (None, t)
      else (Some hint, t\<lparr>ht_fired := ht_fired t @ [kind]\<rparr>))"

definition assertion_failed :: "string \<Rightarrow> bool" where
  "assertion_failed t \<longleftrightarrow>
     (str_contains t ''assertion'' \<and> str_contains t ''failed'') \<or> str_contains t ''panicked at''"

text \<open>The end of \<open>observe\<close>, reached when no earlier branch returned.\<close>

definition observe_assert :: "string \<Rightarrow> hint_tracker \<Rightarrow> string option \<times> hint_tracker" where
  "observe_assert t tr = (if assertion_failed t then fire Assert ASSERT_HINT tr else (None, tr))"

text \<open>\<open>result\<close>: the output, or the text of the error.\<close>

definition observe ::
  "json_codec \<Rightarrow> string \<Rightarrow> string \<Rightarrow> string + string \<Rightarrow> hint_tracker \<Rightarrow> string option \<times> hint_tracker" where
  "observe js tool args result t =
     (let shown = (case result of Inl e \<Rightarrow> e | Inr output \<Rightarrow> output) in
      if tool = ''file_edit'' \<or> tool = ''file_write'' then
        (case result of
           Inr _ \<Rightarrow> observe_assert shown (t\<lparr>ht_edited := True\<rparr>)
         | Inl e \<Rightarrow>
             if tool = ''file_edit'' \<and> str_contains e ''no match found for old_string'' then
               (let path = (case arg_str js args ''path'' of None \<Rightarrow> [] | Some p \<Rightarrow> p);
                    (hits, m) = bump path (ht_no_match t);
                    t' = t\<lparr>ht_no_match := m\<rparr>
                in if 2 \<le> hits then fire StaleEdit STALE_EDIT_HINT t' else observe_assert shown t')
             else observe_assert shown t)
      else if tool = ''exec'' then
        (case arg_str js args ''command'' of
           None \<Rightarrow> observe_assert shown t
         | Some command \<Rightarrow>
             if list_ex (str_contains command) TEST_COMMANDS then
               (let rerun = (ht_last_test t = Some command \<and> \<not> ht_edited t);
                    t' = t\<lparr>ht_last_test := Some command, ht_edited := False\<rparr>
                in if rerun then fire Rerun RERUN_HINT t' else observe_assert shown t')
             else observe_assert shown t)
      else observe_assert shown t)"

section \<open>Facts\<close>

lemma bump_simps: "fst (bump k m) = (case m k of None \<Rightarrow> 0 | Some n \<Rightarrow> n) + 1"
  "snd (bump k m) = m(k \<mapsto> fst (bump k m))"
  by (simp_all add: bump_def Let_def)

text \<open>A hint is given exactly when its kind has not fired, and then it has.\<close>

definition hint_text :: "hint_kind \<Rightarrow> string" where
  "hint_text k = (case k of Assert \<Rightarrow> ASSERT_HINT | Rerun \<Rightarrow> RERUN_HINT | StaleEdit \<Rightarrow> STALE_EDIT_HINT)"

definition hint_once :: "hint_tracker \<Rightarrow> string option \<times> hint_tracker \<Rightarrow> bool" where
  "hint_once t r \<longleftrightarrow> (fst r = None \<and> ht_fired (snd r) = ht_fired t)
     \<or> (\<exists>k. fst r = Some (hint_text k) \<and> k \<notin> set (ht_fired t) \<and> ht_fired (snd r) = ht_fired t @ [k])"

lemma fire_once:
  "ht_fired u = ht_fired t \<Longrightarrow> hint_once t (fire k (hint_text k) u)"
  by (simp add: hint_once_def fire_def)

lemma fire_hints_once:
  assumes "ht_fired u = ht_fired t"
  shows "hint_once t (fire StaleEdit STALE_EDIT_HINT u)" and "hint_once t (fire Rerun RERUN_HINT u)"
    and "hint_once t (observe_assert x u)"
  using fire_once [OF assms, of StaleEdit] fire_once [OF assms, of Rerun] fire_once [OF assms, of Assert] assms
  by (simp_all add: hint_text_def observe_assert_def) (simp add: hint_once_def)

lemma observe_once: "hint_once t (observe js tool args result t)"
  unfolding observe_def Let_def
  by (simp add: fire_hints_once split: sum.split option.split prod.split)

end
