(* ===== verification/Safety.thy ===== *)
theory Safety
  imports Message
begin

text \<open>
  The safety layer over tool output (\<^verbatim>\<open>src/src/safety.rs\<close>): the secret patterns, the
  redaction of every match and the wrapping of the result. The regular-expression engine is
  an argument: \<open>rx_set\<close> gives the indices of the patterns that match, in order, and
  \<open>rx_replace_all\<close> replaces the matches of one pattern.
\<close>

record regex_engine =
  rx_set :: "string list \<Rightarrow> string \<Rightarrow> nat list"
  rx_replace_all :: "string \<Rightarrow> string \<Rightarrow> string \<Rightarrow> string"

definition PATTERNS :: "(string \<times> string) list" where
  "PATTERNS =
    [(''sk-ant-[a-zA-Z0-9_-]{20,}'', ''Anthropic API key''),
     (''sk-[a-zA-Z0-9_-]{20,}'', ''OpenAI API key''),
     (''ghp_[a-zA-Z0-9]{30,}'', ''GitHub PAT''),
     (''gho_[a-zA-Z0-9]{30,}'', ''GitHub OAuth''),
     (''ghs_[a-zA-Z0-9]{30,}'', ''GitHub server token''),
     (''AKIA[0-9A-Z]{16}'', ''AWS access key''),
     (''(?s)-----BEGIN [A-Z ]+PRIVATE KEY-----.*?(?:-----END [A-Z ]+PRIVATE KEY-----|'' @
        [CHR 0x5C] @ ''z)'', ''Private key''),
     (''postgres://'' @ [CHR 0x5C] @ ''S+:'' @ [CHR 0x5C] @ ''S+@'', ''PostgreSQL connection string''),
     (''mysql://'' @ [CHR 0x5C] @ ''S+:'' @ [CHR 0x5C] @ ''S+@'', ''MySQL connection string''),
     (''mongodb('' @ [CHR 0x5C] @ ''+srv)?://'' @ [CHR 0x5C] @ ''S+:'' @ [CHR 0x5C] @ ''S+@'',
        ''MongoDB connection string''),
     (''redis://'' @ [CHR 0x5C] @ ''S+:'' @ [CHR 0x5C] @ ''S+@'', ''Redis connection string'')]"

record checked_output =
  co_wrapped :: string
  co_redactions :: "string list"

definition redaction_marker :: "string \<Rightarrow> string" where
  "redaction_marker name = ''[REDACTED: '' @ name @ '']''"

text \<open>One pattern that hit: only a replacement that changes the text is reported.\<close>

definition redact_one :: "regex_engine \<Rightarrow> nat \<Rightarrow> string \<times> string list \<Rightarrow> string \<times> string list" where
  "redact_one rx idx st = (case st of (content, redactions) \<Rightarrow>
     (let (regex, name) = PATTERNS ! idx;
          replaced = rx_replace_all rx regex (redaction_marker name) content
      in if replaced \<noteq> content then (replaced, redactions @ [name]) else (content, redactions)))"

definition check_tool_output :: "regex_engine \<Rightarrow> string \<Rightarrow> string \<Rightarrow> checked_output" where
  "check_tool_output rx tool_name output =
     (let (content, redactions) = fold (redact_one rx) (rx_set rx (map fst PATTERNS) output) (output, [])
      in \<lparr>co_wrapped = ''<tool_output name=\"'' @ tool_name @ ''\">'' @ newline @ content @ newline
            @ ''</tool_output>'', co_redactions = redactions\<rparr>)"

text \<open>No pattern reported: the output is passed on unchanged.\<close>

lemma redact_none:
  "snd (fold (redact_one rx) idxs (content, rs)) = rs \<Longrightarrow>
   fst (fold (redact_one rx) idxs (content, rs)) = content"
proof -
  have grows: "\<exists>more. snd (fold (redact_one rx) idxs st) = snd st @ more" for idxs st
    by (induction idxs arbitrary: st)
      (auto simp: redact_one_def Let_def split: prod.splits, metis append_assoc snd_conv)
  show "snd (fold (redact_one rx) idxs (content, rs)) = rs \<Longrightarrow>
   fst (fold (redact_one rx) idxs (content, rs)) = content"
  proof (induction idxs arbitrary: content)
    case (Cons i idxs)
    obtain c' r' where step: "redact_one rx i (content, rs) = (c', r')" by fastforce
    obtain tail where tail: "snd (fold (redact_one rx) idxs (c', r')) = r' @ tail"
      using grows [of idxs "(c', r')"] by auto
    have "(c', r') = (content, rs) \<or> length rs < length r'"
      using step by (auto simp: redact_one_def Let_def split: prod.splits if_splits)
    moreover have "r' @ tail = rs" using Cons.prems step tail by simp
    then have "\<not> length rs < length r'" by (metis length_append not_add_less1)
    ultimately have "(c', r') = (content, rs)" by blast
    with Cons step show ?case by simp
  qed simp
qed

end
