(* ===== verification/Names.thy ===== *)
theory Names
  imports Rust_Text
begin

text \<open>
  Session names (\<^verbatim>\<open>src/src/context/names.rs\<close>): the storage form of a session name, its
  display form, and what sanitization guarantees about a name used as a file name.
\<close>

definition sanitize_name :: "string \<Rightarrow> string" where
  "sanitize_name name =
     str_replace ''/'' ''--'' (str_replace ''..'' [] (str_replace [CHR 0x00] [] name))"

definition desanitize_name :: "string \<Rightarrow> string" where
  "desanitize_name stem = str_replace ''--'' ''/'' stem"

definition display_name :: "string \<Rightarrow> string" where
  "display_name session = desanitize_name session"

section \<open>What the replacements leave\<close>

lemma str_replace_erase_char: "str_replace [c] [] s = filter (\<lambda>x. x \<noteq> c) s"
  by (induction s) (auto simp: str_replace_char)

lemma no_dots_Cons:
  "str_contains (c # cs) ''..'' \<longleftrightarrow> (c = CHR ''.'' \<and> cs \<noteq> [] \<and> hd cs = CHR ''.'') \<or> str_contains cs ''..''"
  by (cases cs) (auto simp: str_contains_def sublist_Cons_right)

text \<open>
  One pass that erases non-overlapping \<open>..\<close> pairs leaves none behind: a run of dots loses
  all its pairs, and the erased text never joins two runs.
\<close>

lemma erase_dots_clean: "\<not> str_contains (str_replace ''..'' [] s) ''..''"
proof (induction "''..''" "[] :: string" s rule: str_replace.induct)
  case (1 s)
  show ?case
  proof (cases s)
    case Nil
    then show ?thesis by (simp add: str_contains_def)
  next
    case (Cons c cs)
    show ?thesis
    proof (cases "take 2 (c # cs) = ''..''")
      case True
      with Cons have "str_replace ''..'' [] s = str_replace ''..'' [] (drop 2 s)"
        by (subst str_replace.simps) simp
      moreover have "\<not> str_contains (str_replace ''..'' [] (drop 2 s)) ''..''"
        using 1(1) [OF Cons] True Cons by simp
      ultimately show ?thesis by simp
    next
      case False
      then have "\<not> prefix ''..'' (c # cs)" by (cases cs) auto
      then have eq: "str_replace ''..'' [] s = c # str_replace ''..'' [] cs"
        using Cons by (simp add: str_replace_skip)
      have ih: "\<not> str_contains (str_replace ''..'' [] cs) ''..''"
        using 1 Cons False by simp
      have "\<not> (c = CHR ''.'' \<and> str_replace ''..'' [] cs \<noteq> [] \<and> hd (str_replace ''..'' [] cs) = CHR ''.'')"
      proof
        assume a: "c = CHR ''.'' \<and> str_replace ''..'' [] cs \<noteq> [] \<and> hd (str_replace ''..'' [] cs) = CHR ''.''"
        with False obtain d ds where "cs = d # ds" and "d \<noteq> CHR ''.''"
          by (cases cs) auto
        with a show False
          by (auto simp: str_replace.simps [of "''..''" "[]" "d # ds"])
      qed
      with ih eq show ?thesis by (simp add: no_dots_Cons)
    qed
  qed
qed

lemma set_erase_dots: "set (str_replace ''..'' [] s) \<subseteq> set s"
proof (induction "''..''" "[] :: string" s rule: str_replace.induct)
  case (1 s)
  show ?case
  proof (cases s)
    case (Cons c cs)
    then show ?thesis
      using 1 set_drop_subset [of 2 s]
      by (auto simp: str_replace.simps [of "''..''" "[]" "c # cs"])
  qed simp
qed

lemma slash_expand_no_dots:
  "\<not> str_contains s ''..'' \<Longrightarrow> \<not> str_contains (str_replace ''/'' ''--'' s) ''..''"
proof (induction s)
  case (Cons c cs)
  have step: "str_replace ''/'' ''--'' (c # cs) =
      (if c = CHR ''/'' then ''--'' else [c]) @ str_replace ''/'' ''--'' cs"
    by (simp add: str_replace_char)
  have hd: "hd (str_replace ''/'' ''--'' cs) = CHR ''.'' \<Longrightarrow> str_replace ''/'' ''--'' cs \<noteq> []
      \<Longrightarrow> cs \<noteq> [] \<and> hd cs = CHR ''.''"
    by (cases cs) (auto simp: str_replace_char split: if_splits)
  from Cons hd show ?case
    by (auto simp: step no_dots_Cons)
qed (simp add: str_contains_def)

lemma sanitize_no_slash: "CHR ''/'' \<notin> set (sanitize_name n)"
  by (auto simp: sanitize_name_def str_replace_char split: if_splits)

lemma sanitize_no_nul: "CHR 0x00 \<notin> set (sanitize_name n)"
  using set_erase_dots [of "str_replace [CHR 0x00] [] n"]
  by (auto simp: sanitize_name_def str_replace_char [of "CHR ''/''"] str_replace_erase_char split: if_splits)

lemma sanitize_no_dots: "\<not> str_contains (sanitize_name n) ''..''"
  by (simp add: sanitize_name_def slash_expand_no_dots erase_dots_clean)

text \<open>Text without the three patterns is left alone, so sanitizing twice is sanitizing once.\<close>

lemma str_replace_absent: "\<not> str_contains s f \<Longrightarrow> f \<noteq> [] \<Longrightarrow> str_replace f t s = s"
proof (induction s)
  case (Cons c cs)
  then have "\<not> prefix f (c # cs)" "\<not> str_contains cs f"
    by (auto simp: str_contains_def sublist_Cons_right)
  with Cons show ?case by (simp add: str_replace_skip)
qed simp

lemma str_contains_char: "str_contains s [c] \<longleftrightarrow> c \<in> set s"
  by (auto simp: str_contains_def sublist_def dest: split_list)

lemma sanitize_clean_id:
  assumes "CHR ''/'' \<notin> set n" and "CHR 0x00 \<notin> set n" and "\<not> str_contains n ''..''"
  shows "sanitize_name n = n"
  using assms by (simp add: sanitize_name_def str_replace_absent str_contains_char)

lemma sanitize_idem: "sanitize_name (sanitize_name n) = sanitize_name n"
  by (rule sanitize_clean_id) (simp_all add: sanitize_no_slash sanitize_no_nul sanitize_no_dots)

section \<open>Round trip of repository names\<close>

lemma desanitize_part:
  "CHR ''-'' \<notin> set p \<Longrightarrow> str_replace ''--'' ''/'' (p @ s) = p @ str_replace ''--'' ''/'' s"
proof (induction p)
  case (Cons c cs)
  then have "\<not> prefix ''--'' (c # cs @ s)" by (auto)
  with Cons show ?case by (simp add: str_replace_skip)
qed simp

lemma sanitize_slash_pair:
  assumes "CHR ''/'' \<notin> set a" and "CHR ''/'' \<notin> set b"
    and "CHR 0x00 \<notin> set (a @ b)" and "\<not> str_contains (a @ ''/'' @ b) ''..''"
  shows "sanitize_name (a @ ''/'' @ b) = a @ ''--'' @ b"
proof -
  have "str_replace [CHR 0x00] [] (a @ ''/'' @ b) = a @ ''/'' @ b"
    using assms(3) by (intro str_replace_absent) (auto simp: str_contains_char)
  moreover have "str_replace ''..'' [] (a @ ''/'' @ b) = a @ ''/'' @ b"
    using assms(4) by (intro str_replace_absent) auto
  moreover have "str_replace ''/'' ''--'' (a @ ''/'' @ b) = a @ ''--'' @ b"
  proof -
    have id: "concat (map (\<lambda>x. if x = CHR ''/'' then ''--'' else [x]) p) = p"
      if "CHR ''/'' \<notin> set p" for p
      using that by (induction p) auto
    show ?thesis using id [OF assms(1)] id [OF assms(2)] by (simp add: str_replace_char)
  qed
  ultimately show ?thesis by (simp add: sanitize_name_def)
qed

end
