(* ===== verification/Lcm_Store.thy ===== *)
theory Lcm_Store
  imports Message Names
begin

text \<open>
  The LCM database (\<^verbatim>\<open>src/src/context/lcm/migrations\<close>, \<^verbatim>\<open>src/src/context/lcm/engine.rs\<close>):
  the tables as lists of rows in insertion order, the constraints of the schema as errors
  of the insert operations, and the storage functions of the engine: pushing a message,
  rebuilding one from its row and parts, and repairing tool calls that were cut off.
  Full-text mirrors and the conversations' timestamps play no part in these functions and
  are left out; \<open>part_id\<close> is a function of \<open>(message_id, ordinal)\<close>, so its primary key is
  the uniqueness of that pair. Integers of the database are 64-bit; ids, ordinals and token
  counts are modelled without a bound.
\<close>

section \<open>Tables\<close>

record conversation =
  cv_id :: int
  cv_name :: string

record message_row =
  mr_id :: int
  mr_conv :: int
  mr_seq :: int
  mr_role :: string
  mr_content :: string
  mr_tokens :: int
  mr_created :: string

datatype part_type = TextPart | ToolCallPart | ToolOutputPart

record part =
  pt_message :: int
  pt_type :: part_type
  pt_ordinal :: int
  pt_text :: "string option"
  pt_call_id :: "string option"
  pt_tool_name :: "string option"
  pt_tool_input :: "string option"

datatype summary_kind = Leaf | Condensed

record summary_row =
  sr_id :: string
  sr_conv :: int
  sr_kind :: summary_kind
  sr_depth :: int
  sr_content :: string
  sr_tokens :: int
  sr_earliest :: string
  sr_latest :: string
  sr_desc_count :: int
  sr_desc_tokens :: int
  sr_source_tokens :: int
  sr_model :: string
  sr_created :: string

datatype item = MessageItem int | SummaryItem string

record context_item =
  ci_conv :: int
  ci_ordinal :: int
  ci_item :: item

record large_file =
  lf_id :: string
  lf_conv :: int
  lf_path :: string
  lf_mime :: string
  lf_bytes :: int
  lf_tokens :: int
  lf_summary :: string
  lf_first_seen :: int
  lf_created :: string

record db =
  conversations :: "conversation list"
  messages :: "message_row list"
  parts :: "part list"
  summaries :: "summary_row list"
  summary_messages :: "(string \<times> int) list"
  summary_parents :: "(string \<times> string) list"
  large_files :: "large_file list"
  summary_files :: "(string \<times> string) list"
  context_items :: "context_item list"
  next_conversation_id :: int
  next_message_id :: int

definition empty_db :: db where
  "empty_db = \<lparr>conversations = [], messages = [], parts = [], summaries = [],
     summary_messages = [], summary_parents = [], large_files = [], summary_files = [],
     context_items = [], next_conversation_id = 1, next_message_id = 1\<rparr>"

datatype store_error =
    ConstraintViolation string
  | QueryReturnedNoRows
  | InvalidColumnType
  | CorruptMessage int string
  | UnknownRole string

section \<open>Queries\<close>

definition find_message :: "db \<Rightarrow> int \<Rightarrow> message_row option" where
  "find_message d i = find (\<lambda>r. mr_id r = i) (messages d)"

definition find_summary :: "db \<Rightarrow> string \<Rightarrow> summary_row option" where
  "find_summary d i = find (\<lambda>r. sr_id r = i) (summaries d)"

definition parts_of :: "db \<Rightarrow> int \<Rightarrow> part list" where
  "parts_of d i = filter (\<lambda>p. pt_message p = i) (parts d)"

text \<open>\<open>context_items\<close> of a conversation \<open>ORDER BY ordinal\<close>.\<close>

definition items_of :: "db \<Rightarrow> int \<Rightarrow> context_item list" where
  "items_of d c = sort_key ci_ordinal (filter (\<lambda>i. ci_conv i = c) (context_items d))"

text \<open>\<open>COALESCE(MAX(x), -1) + 1\<close>.\<close>

definition sql_next :: "int list \<Rightarrow> int" where
  "sql_next xs = (case xs of [] \<Rightarrow> -1 | y # ys \<Rightarrow> fold max ys y) + 1"

lemma sql_next_gt: "x \<in> set xs \<Longrightarrow> x < sql_next xs"
  using fold_max_ge [of "hd xs" "tl xs"] by (cases xs) (auto simp: sql_next_def)

lemma sql_next_nonneg: "(\<And>x. x \<in> set xs \<Longrightarrow> 0 \<le> x) \<Longrightarrow> 0 \<le> sql_next xs"
proof (cases xs)
  case (Cons y ys)
  assume "\<And>x. x \<in> set xs \<Longrightarrow> 0 \<le> x"
  then have "0 \<le> y" using Cons by simp
  then show ?thesis using sql_next_gt [of y xs] Cons by simp
qed (simp add: sql_next_def)

section \<open>Inserts with the schema's constraints\<close>

definition conversation_exists :: "db \<Rightarrow> int \<Rightarrow> bool" where
  "conversation_exists d c \<longleftrightarrow> c \<in> cv_id ` set (conversations d)"

definition message_exists :: "db \<Rightarrow> int \<Rightarrow> bool" where
  "message_exists d m \<longleftrightarrow> m \<in> mr_id ` set (messages d)"

definition summary_exists :: "db \<Rightarrow> string \<Rightarrow> bool" where
  "summary_exists d s \<longleftrightarrow> s \<in> sr_id ` set (summaries d)"

definition insert_message_row :: "message_row \<Rightarrow> db \<Rightarrow> store_error + db" where
  "insert_message_row r d =
     (if \<not> conversation_exists d (mr_conv r) then Inl (ConstraintViolation ''FOREIGN KEY'')
      else if (mr_conv r, mr_seq r) \<in> (\<lambda>m. (mr_conv m, mr_seq m)) ` set (messages d)
      then Inl (ConstraintViolation ''UNIQUE messages'')
      else Inr (d\<lparr>messages := messages d @ [r], next_message_id := mr_id r + 1\<rparr>))"

definition insert_part :: "part \<Rightarrow> db \<Rightarrow> store_error + db" where
  "insert_part p d =
     (if \<not> message_exists d (pt_message p) then Inl (ConstraintViolation ''FOREIGN KEY'')
      else if (pt_message p, pt_ordinal p) \<in> (\<lambda>q. (pt_message q, pt_ordinal q)) ` set (parts d)
      then Inl (ConstraintViolation ''UNIQUE message_parts'')
      else Inr (d\<lparr>parts := parts d @ [p]\<rparr>))"

definition item_exists :: "db \<Rightarrow> item \<Rightarrow> bool" where
  "item_exists d i = (case i of MessageItem m \<Rightarrow> message_exists d m | SummaryItem s \<Rightarrow> summary_exists d s)"

definition insert_context_item :: "context_item \<Rightarrow> db \<Rightarrow> store_error + db" where
  "insert_context_item ci d =
     (if \<not> conversation_exists d (ci_conv ci) \<or> \<not> item_exists d (ci_item ci)
      then Inl (ConstraintViolation ''FOREIGN KEY'')
      else if (ci_conv ci, ci_ordinal ci) \<in> (\<lambda>i. (ci_conv i, ci_ordinal i)) ` set (context_items d)
      then Inl (ConstraintViolation ''PRIMARY KEY context_items'')
      else Inr (d\<lparr>context_items := context_items d @ [ci]\<rparr>))"

text \<open>\<open>INSERT OR IGNORE INTO large_files\<close>: the first row of a content-addressed id stays.\<close>

definition insert_large_file :: "large_file \<Rightarrow> db \<Rightarrow> db" where
  "insert_large_file f d =
     (if lf_id f \<in> lf_id ` set (large_files d) then d
      else d\<lparr>large_files := large_files d @ [f]\<rparr>)"

section \<open>Storing a message\<close>

fun role_str :: "message \<Rightarrow> string" where
  "role_str (User _) = ''user''"
| "role_str (Assistant _) = ''assistant''"
| "role_str (ToolCalls _ _) = ''assistant''"
| "role_str (Tool _ _) = ''tool''"
| "role_str (System _) = ''system''"

definition text_part :: "int \<Rightarrow> int \<Rightarrow> string \<Rightarrow> part" where
  "text_part m ord content =
     \<lparr>pt_message = m, pt_type = TextPart, pt_ordinal = ord, pt_text = Some content,
      pt_call_id = None, pt_tool_name = None, pt_tool_input = None\<rparr>"

definition tool_output_part :: "int \<Rightarrow> string \<Rightarrow> string \<Rightarrow> part" where
  "tool_output_part m call_id content =
     \<lparr>pt_message = m, pt_type = ToolOutputPart, pt_ordinal = 0, pt_text = Some content,
      pt_call_id = Some call_id, pt_tool_name = None, pt_tool_input = None\<rparr>"

definition tool_call_part :: "int \<Rightarrow> nat \<times> tool_call \<Rightarrow> part" where
  "tool_call_part m itc = (case itc of (i, tc) \<Rightarrow>
     \<lparr>pt_message = m, pt_type = ToolCallPart, pt_ordinal = int i + 1, pt_text = None,
      pt_call_id = Some (tc_id tc), pt_tool_name = Some (fn_name (tc_function tc)),
      pt_tool_input = Some (fn_arguments (tc_function tc))\<rparr>)"

fun message_parts :: "int \<Rightarrow> message \<Rightarrow> part list" where
  "message_parts m (Tool call_id content) = [tool_output_part m call_id content]"
| "message_parts m (ToolCalls content calls) =
     text_part m 0 content # map (tool_call_part m) (enumerate 0 calls)"
| "message_parts m msg = [text_part m 0 (content_of msg)]"

definition insert_parts :: "int \<Rightarrow> message \<Rightarrow> db \<Rightarrow> store_error + db" where
  "insert_parts m msg = fold_res insert_part (message_parts m msg)"

text \<open>
  \<open>push_message_sync\<close>: one transaction, so an error leaves the database as it was; the
  caller keeps the old state then. \<open>now\<close> is SQLite's \<open>datetime('now')\<close>.
\<close>

definition push_message_sync ::
  "string \<Rightarrow> int \<Rightarrow> message \<Rightarrow> (int \<Rightarrow> large_file) option \<Rightarrow> db \<Rightarrow> store_error + db" where
  "push_message_sync now c msg large_file d =
     (let seq = sql_next (map mr_seq (filter (\<lambda>r. mr_conv r = c) (messages d)));
          message_id = next_message_id d
      in bind_res (insert_message_row
             \<lparr>mr_id = message_id, mr_conv = c, mr_seq = seq, mr_role = role_str msg,
              mr_content = content_of msg, mr_tokens = int (token_estimate msg),
              mr_created = now\<rparr> d) (\<lambda>d1.
         bind_res (insert_parts message_id msg d1) (\<lambda>d2.
         let d3 = (case large_file of None \<Rightarrow> d2 | Some f \<Rightarrow> insert_large_file ((f message_id)\<lparr>lf_conv := c, lf_created := now\<rparr>) d2);
             next_ord = sql_next (map ci_ordinal (filter (\<lambda>i. ci_conv i = c) (context_items d3)))
         in insert_context_item
              \<lparr>ci_conv = c, ci_ordinal = next_ord, ci_item = MessageItem message_id\<rparr> d3)))"

section \<open>Rebuilding a message\<close>

definition column_text :: "string option \<Rightarrow> store_error + string" where
  "column_text v = (case v of None \<Rightarrow> Inl InvalidColumnType | Some s \<Rightarrow> Inr s)"

text \<open>Reading the three columns of a \<open>tool_call\<close> part; then parsing the name.\<close>

definition call_columns :: "part \<Rightarrow> store_error + string \<times> string \<times> string" where
  "call_columns p =
     bind_res (column_text (pt_call_id p)) (\<lambda>call_id.
     bind_res (column_text (pt_tool_name p)) (\<lambda>name.
     bind_res (column_text (pt_tool_input p)) (\<lambda>arguments. Inr (call_id, name, arguments))))"

definition rebuild_call :: "int \<Rightarrow> string \<times> string \<times> string \<Rightarrow> store_error + tool_call" where
  "rebuild_call m row = (case row of (call_id, name, arguments) \<Rightarrow>
     (case parse_tool_name name of
        Inl e \<Rightarrow> Inl (CorruptMessage m e)
      | Inr n \<Rightarrow> Inr \<lparr>tc_id = call_id, tc_function = \<lparr>fn_name = n, fn_arguments = arguments\<rparr>\<rparr>))"

definition reconstruct_message :: "db \<Rightarrow> int \<Rightarrow> string \<Rightarrow> string \<Rightarrow> store_error + message" where
  "reconstruct_message d m role content =
     (if role = ''user'' then Inr (User content)
      else if role = ''system'' then Inr (System content)
      else if role = ''tool'' then
        (case filter (\<lambda>p. pt_type p = ToolOutputPart) (parts_of d m) of
           [] \<Rightarrow> Inl QueryReturnedNoRows
         | p # _ \<Rightarrow> bind_res (column_text (pt_call_id p)) (\<lambda>call_id. Inr (Tool call_id content)))
      else if role = ''assistant'' then
        bind_res (map_res call_columns
            (sort_key pt_ordinal (filter (\<lambda>p. pt_type p = ToolCallPart) (parts_of d m)))) (\<lambda>rows.
        bind_res (map_res (rebuild_call m) rows) (\<lambda>calls.
          Inr (if calls = [] then Assistant content else ToolCalls content calls)))
      else Inl (UnknownRole role))"

definition reconstruct_row :: "db \<Rightarrow> message_row \<Rightarrow> store_error + message" where
  "reconstruct_row d r = reconstruct_message d (mr_id r) (mr_role r) (mr_content r)"

section \<open>Conversations\<close>

definition find_conversation :: "db \<Rightarrow> string \<Rightarrow> int option" where
  "find_conversation d name = map_option cv_id (find (\<lambda>c. cv_name c = name) (conversations d))"

definition ensure_conversation :: "string \<Rightarrow> db \<Rightarrow> int \<times> db" where
  "ensure_conversation name d =
     (case find_conversation d name of
        Some i \<Rightarrow> (i, d)
      | None \<Rightarrow>
          (next_conversation_id d,
           d\<lparr>conversations := conversations d @ [\<lparr>cv_id = next_conversation_id d, cv_name = name\<rparr>],
             next_conversation_id := next_conversation_id d + 1\<rparr>))"

definition clear_context :: "int \<Rightarrow> db \<Rightarrow> db" where
  "clear_context c d = d\<lparr>context_items := filter (\<lambda>i. ci_conv i \<noteq> c) (context_items d)\<rparr>"

section \<open>Repairing interrupted tool calls\<close>

definition INTERRUPTED_TOOL_CALL :: string where
  "INTERRUPTED_TOOL_CALL = ''Error: the previous turn ended before this tool call completed.''"

definition messages_of :: "db \<Rightarrow> int \<Rightarrow> message_row list" where
  "messages_of d c = sort_key mr_seq (filter (\<lambda>r. mr_conv r = c) (messages d))"

definition has_tool_calls :: "db \<Rightarrow> message_row \<Rightarrow> bool" where
  "has_tool_calls d r = list_ex (\<lambda>p. pt_type p = ToolCallPart) (parts_of d (mr_id r))"

text \<open>The newest message of the conversation that carries tool calls (\<open>latest_tool_calls\<close>).\<close>

definition latest_tool_calls :: "db \<Rightarrow> int \<Rightarrow> message_row option" where
  "latest_tool_calls d c = last_opt (filter (has_tool_calls d) (messages_of d c))"

definition answered :: "db \<Rightarrow> int \<Rightarrow> int \<Rightarrow> string option \<Rightarrow> bool" where
  "answered d c seq call_id \<longleftrightarrow>
     list_ex (\<lambda>r. mr_seq r > seq \<and>
       list_ex (\<lambda>p. pt_type p = ToolOutputPart \<and> call_id \<noteq> None \<and> pt_call_id p = call_id)
         (parts_of d (mr_id r))) (messages_of d c)"

definition dangling_calls :: "db \<Rightarrow> int \<Rightarrow> string option list" where
  "dangling_calls d c =
     (case latest_tool_calls d c of
        None \<Rightarrow> []
      | Some latest \<Rightarrow>
          if list_ex (\<lambda>r. mr_seq r > mr_seq latest \<and> mr_role r \<noteq> ''tool'') (messages_of d c) then []
          else map pt_call_id
            (filter (\<lambda>p. \<not> answered d c (mr_seq latest) (pt_call_id p))
              (sort_key pt_ordinal
                (filter (\<lambda>p. pt_type p = ToolCallPart) (parts_of d (mr_id latest))))))"

definition repair_dangling_tool_calls :: "string \<Rightarrow> int \<Rightarrow> db \<Rightarrow> store_error + db" where
  "repair_dangling_tool_calls now c d =
     bind_res (map_res column_text (dangling_calls d c)) (\<lambda>call_ids.
       fold_res (\<lambda>call_id. push_message_sync now c (Tool call_id INTERRUPTED_TOOL_CALL) None)
         call_ids d)"

section \<open>Well-formed databases\<close>

definition wf_conversations :: "db \<Rightarrow> bool" where
  "wf_conversations d \<longleftrightarrow>
     distinct (map cv_id (conversations d)) \<and> distinct (map cv_name (conversations d))
     \<and> (\<forall>c \<in> set (conversations d). cv_id c < next_conversation_id d)"

definition wf_messages :: "db \<Rightarrow> bool" where
  "wf_messages d \<longleftrightarrow>
     distinct (map mr_id (messages d))
     \<and> distinct (map (\<lambda>r. (mr_conv r, mr_seq r)) (messages d))
     \<and> (\<forall>r \<in> set (messages d).
          mr_id r < next_message_id d \<and> 0 \<le> mr_seq r \<and> conversation_exists d (mr_conv r))"

definition wf_parts :: "db \<Rightarrow> bool" where
  "wf_parts d \<longleftrightarrow>
     distinct (map (\<lambda>p. (pt_message p, pt_ordinal p)) (parts d))
     \<and> (\<forall>p \<in> set (parts d). message_exists d (pt_message p))"

definition wf_summaries :: "db \<Rightarrow> bool" where
  "wf_summaries d \<longleftrightarrow>
     distinct (map sr_id (summaries d))
     \<and> (\<forall>(s, m) \<in> set (summary_messages d). summary_exists d s \<and> message_exists d m)
     \<and> (\<forall>(s, p) \<in> set (summary_parents d). summary_exists d s \<and> summary_exists d p)"

definition wf_items :: "db \<Rightarrow> bool" where
  "wf_items d \<longleftrightarrow>
     distinct (map (\<lambda>i. (ci_conv i, ci_ordinal i)) (context_items d))
     \<and> (\<forall>i \<in> set (context_items d).
          conversation_exists d (ci_conv i) \<and> item_exists d (ci_item i) \<and> 0 \<le> ci_ordinal i)"

definition wf_db :: "db \<Rightarrow> bool" where
  "wf_db d \<longleftrightarrow>
     wf_conversations d \<and> wf_messages d \<and> wf_parts d \<and> wf_summaries d \<and> wf_items d"

lemmas wf_defs = wf_conversations_def wf_messages_def wf_parts_def wf_summaries_def wf_items_def

lemma wf_empty_db: "wf_db empty_db"
  by (simp add: wf_db_def wf_defs empty_db_def)

section \<open>Sorting by a key\<close>

lemma insort_key_snoc: "f a \<le> f x \<Longrightarrow> insort_key f a (ys @ [x]) = insort_key f a ys @ [x]"
  by (induction ys) auto

lemma sort_key_snoc:
  "(\<And>y. y \<in> set xs \<Longrightarrow> f y \<le> f x) \<Longrightarrow> sort_key f (xs @ [x]) = sort_key f xs @ [x]"
  by (induction xs) (simp_all add: insort_key_snoc)

lemma sort_key_sorted: "sorted (map f xs) \<Longrightarrow> sort_key f xs = xs"
  by (induction xs) (auto simp: insort_is_Cons)

section \<open>Pushing a message succeeds and what it adds\<close>

lemma message_parts_message [simp]: "p \<in> set (message_parts m msg) \<Longrightarrow> pt_message p = m"
  by (cases msg) (auto simp: text_part_def tool_output_part_def tool_call_part_def)

lemma tool_call_parts_ordinals:
  "map pt_ordinal (map (tool_call_part m) (enumerate n calls)) = map (\<lambda>i. int i + 1) [n..<n + length calls]"
  by (induction calls arbitrary: n) (simp_all add: tool_call_part_def upt_rec)

lemma message_parts_ordinals: "distinct (map pt_ordinal (message_parts m msg))"
proof (cases msg)
  case (ToolCalls c calls)
  have "distinct (map (\<lambda>i. int i + 1) [0..<0 + length calls])"
    by (simp add: distinct_map inj_on_def)
  then have "distinct (map pt_ordinal (map (tool_call_part m) (enumerate 0 calls)))"
    by (simp only: tool_call_parts_ordinals)
  moreover have "pt_ordinal (tool_call_part m x) \<noteq> 0" for x
    by (cases x) (simp add: tool_call_part_def)
  ultimately show ?thesis
    using ToolCalls by (auto simp: text_part_def simp del: map_map)
qed (simp_all add: text_part_def tool_output_part_def)

lemma fold_insert_part:
  assumes "\<And>p. p \<in> set ps \<Longrightarrow> message_exists d (pt_message p)"
    and "distinct (map (\<lambda>p. (pt_message p, pt_ordinal p)) (parts d @ ps))"
  shows "fold_res insert_part ps d = Inr (d\<lparr>parts := parts d @ ps\<rparr>)"
  using assms
proof (induction ps arbitrary: d)
  case Nil
  then show ?case by simp
next
  case (Cons p ps)
  let ?d = "d\<lparr>parts := parts d @ [p]\<rparr>"
  have "insert_part p d = Inr ?d"
    using Cons.prems by (auto simp: insert_part_def)
  moreover have "fold_res insert_part ps ?d = Inr (?d\<lparr>parts := parts ?d @ ps\<rparr>)"
    using Cons.prems by (intro Cons.IH) (auto simp: message_exists_def)
  ultimately show ?case by simp
qed

lemma insert_parts_ok:
  assumes "wf_parts d" and "message_exists d m" and "\<And>p. p \<in> set (parts d) \<Longrightarrow> pt_message p \<noteq> m"
  shows "insert_parts m msg d = Inr (d\<lparr>parts := parts d @ message_parts m msg\<rparr>)"
  unfolding insert_parts_def
proof (rule fold_insert_part)
  have "distinct (map (\<lambda>p. (pt_message p, pt_ordinal p)) (message_parts m msg))"
    using message_parts_ordinals [of m msg] by (auto simp: distinct_map inj_on_def)
  then show "distinct (map (\<lambda>p. (pt_message p, pt_ordinal p)) (parts d @ message_parts m msg))"
    using assms(1,3) by (auto simp: wf_parts_def)
qed (use assms(2) in simp)

text \<open>The row, the item and the database a successful push produces.\<close>

definition pushed_row :: "string \<Rightarrow> int \<Rightarrow> message \<Rightarrow> db \<Rightarrow> message_row" where
  "pushed_row now c msg d =
     \<lparr>mr_id = next_message_id d, mr_conv = c,
      mr_seq = sql_next (map mr_seq (filter (\<lambda>r. mr_conv r = c) (messages d))),
      mr_role = role_str msg, mr_content = content_of msg,
      mr_tokens = int (token_estimate msg), mr_created = now\<rparr>"

definition pushed_item :: "int \<Rightarrow> db \<Rightarrow> context_item" where
  "pushed_item c d =
     \<lparr>ci_conv = c,
      ci_ordinal = sql_next (map ci_ordinal (filter (\<lambda>i. ci_conv i = c) (context_items d))),
      ci_item = MessageItem (next_message_id d)\<rparr>"

definition pushed_db :: "string \<Rightarrow> int \<Rightarrow> message \<Rightarrow> (int \<Rightarrow> large_file) option \<Rightarrow> db \<Rightarrow> db" where
  "pushed_db now c msg lf d =
     d\<lparr>messages := messages d @ [pushed_row now c msg d],
       parts := parts d @ message_parts (next_message_id d) msg,
       large_files := (case lf of None \<Rightarrow> large_files d
         | Some f \<Rightarrow> large_files (insert_large_file ((f (next_message_id d))\<lparr>lf_conv := c, lf_created := now\<rparr>) d)),
       context_items := context_items d @ [pushed_item c d],
       next_message_id := next_message_id d + 1\<rparr>"

lemma pushed_db_simps [simp]:
  "messages (pushed_db now c msg lf d) = messages d @ [pushed_row now c msg d]"
  "parts (pushed_db now c msg lf d) = parts d @ message_parts (next_message_id d) msg"
  "context_items (pushed_db now c msg lf d) = context_items d @ [pushed_item c d]"
  "summaries (pushed_db now c msg lf d) = summaries d"
  "summary_messages (pushed_db now c msg lf d) = summary_messages d"
  "summary_parents (pushed_db now c msg lf d) = summary_parents d"
  "conversations (pushed_db now c msg lf d) = conversations d"
  "next_message_id (pushed_db now c msg lf d) = next_message_id d + 1"
  "next_conversation_id (pushed_db now c msg lf d) = next_conversation_id d"
  by (simp_all add: pushed_db_def)

lemma pushed_row_simps [simp]:
  "mr_id (pushed_row now c msg d) = next_message_id d"
  "mr_conv (pushed_row now c msg d) = c"
  "mr_role (pushed_row now c msg d) = role_str msg"
  "mr_content (pushed_row now c msg d) = content_of msg"
  "mr_tokens (pushed_row now c msg d) = int (token_estimate msg)"
  by (simp_all add: pushed_row_def)

lemma pushed_item_simps [simp]:
  "ci_conv (pushed_item c d) = c"
  "ci_item (pushed_item c d) = MessageItem (next_message_id d)"
  by (simp_all add: pushed_item_def)

lemma pushed_item_ordinal:
  "i \<in> set (context_items d) \<Longrightarrow> ci_conv i = c \<Longrightarrow> ci_ordinal i < ci_ordinal (pushed_item c d)"
  by (simp add: pushed_item_def sql_next_gt)

lemma pushed_row_seq:
  "r \<in> set (messages d) \<Longrightarrow> mr_conv r = c \<Longrightarrow> mr_seq r < mr_seq (pushed_row now c msg d)"
  by (simp add: pushed_row_def sql_next_gt)

lemma wf_fresh_message:
  assumes "wf_db d"
  shows "next_message_id d \<notin> mr_id ` set (messages d)"
    and "p \<in> set (parts d) \<Longrightarrow> pt_message p \<noteq> next_message_id d"
proof -
  show *: "next_message_id d \<notin> mr_id ` set (messages d)"
    using assms by (force simp: wf_db_def wf_messages_def)
  show "p \<in> set (parts d) \<Longrightarrow> pt_message p \<noteq> next_message_id d"
    using assms * by (auto simp: wf_db_def wf_parts_def message_exists_def) (metis imageI)
qed

lemma push_message_sync_ok:
  assumes "wf_db d" and "conversation_exists d c"
  shows "push_message_sync now c msg lf d = Inr (pushed_db now c msg lf d)"
proof -
  let ?r = "pushed_row now c msg d"
  let ?d1 = "d\<lparr>messages := messages d @ [?r], next_message_id := next_message_id d + 1\<rparr>"
  let ?d2 = "?d1\<lparr>parts := parts d @ message_parts (next_message_id d) msg\<rparr>"
  have 1: "insert_message_row ?r d = Inr ?d1"
    using assms pushed_row_seq [of _ d c now msg]
    by (fastforce simp: insert_message_row_def)
  have "wf_parts ?d1"
    using assms(1) by (auto simp: wf_db_def wf_parts_def message_exists_def)
  then have 2: "insert_parts (next_message_id d) msg ?d1 = Inr ?d2"
    using wf_fresh_message [OF assms(1)]
    using insert_parts_ok [of ?d1 "next_message_id d" msg] by (simp add: message_exists_def)
  have 3: "context_items (case lf of None \<Rightarrow> ?d2 | Some f \<Rightarrow> insert_large_file ((f m)\<lparr>lf_conv := c, lf_created := now\<rparr>) ?d2) = context_items d"
    for m by (auto simp: insert_large_file_def split: option.splits)
  have 4: "insert_context_item (pushed_item c d)
      (case lf of None \<Rightarrow> ?d2 | Some f \<Rightarrow> insert_large_file ((f (next_message_id d))\<lparr>lf_conv := c, lf_created := now\<rparr>) ?d2)
    = Inr (pushed_db now c msg lf d)"
    using assms(2) pushed_item_ordinal [of _ d c]
    by (fastforce simp: insert_context_item_def pushed_db_def insert_large_file_def
        conversation_exists_def item_exists_def message_exists_def split: option.splits)
  have "push_message_sync now c msg lf d =
      bind_res (insert_message_row ?r d) (\<lambda>d1.
      bind_res (insert_parts (next_message_id d) msg d1) (\<lambda>d2.
      let d3 = (case lf of None \<Rightarrow> d2 | Some f \<Rightarrow> insert_large_file ((f (next_message_id d))\<lparr>lf_conv := c, lf_created := now\<rparr>) d2)
      in insert_context_item
           \<lparr>ci_conv = c,
            ci_ordinal = sql_next (map ci_ordinal (filter (\<lambda>i. ci_conv i = c) (context_items d3))),
            ci_item = MessageItem (next_message_id d)\<rparr> d3))"
    by (simp only: push_message_sync_def pushed_row_def Let_def)
  also have "\<dots> = Inr (pushed_db now c msg lf d)"
    using 4 by (simp add: 1 2 3 Let_def pushed_item_def)
  finally show ?thesis .
qed

lemma wf_pushed_db:
  assumes "wf_db d" and "conversation_exists d c"
  shows "wf_db (pushed_db now c msg lf d)"
proof -
  let ?d = "pushed_db now c msg lf d"
  have w: "wf_conversations d" "wf_messages d" "wf_parts d" "wf_summaries d" "wf_items d"
    using assms(1) by (simp_all add: wf_db_def)
  have exists_mono: "message_exists d m \<Longrightarrow> message_exists ?d m" for m
    by (simp add: message_exists_def)
  have conv_eq: "conversation_exists ?d = conversation_exists d" "summary_exists ?d = summary_exists d"
    by (auto simp: conversation_exists_def summary_exists_def)
  have "wf_conversations ?d" using w(1) by (simp add: wf_conversations_def)
  moreover have "wf_messages ?d"
    using w(2) assms(2) pushed_row_seq [of _ d c now msg] wf_fresh_message(1) [OF assms(1)]
      sql_next_nonneg [of "map mr_seq (filter (\<lambda>r. mr_conv r = c) (messages d))"]
    by (fastforce simp: wf_messages_def conv_eq pushed_row_def)
  moreover have "wf_parts ?d"
  proof -
    have "distinct (map (\<lambda>p. (pt_message p, pt_ordinal p)) (message_parts (next_message_id d) msg))"
      using message_parts_ordinals [of "next_message_id d" msg] by (auto simp: distinct_map inj_on_def)
    moreover have "message_exists ?d (next_message_id d)" by (simp add: message_exists_def)
    ultimately show ?thesis
      using w(3) wf_fresh_message(2) [OF assms(1)] exists_mono
      unfolding wf_parts_def by fastforce
  qed
  moreover have "wf_summaries ?d"
    using w(4) exists_mono by (auto simp: wf_summaries_def conv_eq)
  moreover have "wf_items ?d"
  proof -
    have "0 \<le> ci_ordinal (pushed_item c d)"
      using w(5) unfolding wf_items_def pushed_item_def by (auto intro!: sql_next_nonneg)
    moreover have "item_exists d i \<Longrightarrow> item_exists ?d i" for i
      using exists_mono by (simp add: item_exists_def conv_eq split: item.splits)
    moreover have "item_exists ?d (MessageItem (next_message_id d))"
      by (simp add: item_exists_def message_exists_def)
    moreover have "(ci_conv (pushed_item c d), ci_ordinal (pushed_item c d))
        \<notin> (\<lambda>i. (ci_conv i, ci_ordinal i)) ` set (context_items d)"
      using pushed_item_ordinal [of _ d c] by fastforce
    ultimately show ?thesis
      using w(5) assms(2) by (simp add: wf_items_def conv_eq)
  qed
  ultimately show ?thesis by (simp add: wf_db_def)
qed

section \<open>A pushed message is read back unchanged\<close>

text \<open>
  What the engine can represent: tool calls with at least one call, each with a valid name
  (\<open>ToolName\<close> guarantees the names; an empty call list would be read back as plain text).
\<close>

fun storable :: "message \<Rightarrow> bool" where
  "storable (ToolCalls _ calls) \<longleftrightarrow>
     calls \<noteq> [] \<and> list_all (\<lambda>tc. is_valid_tool_name (fn_name (tc_function tc))) calls"
| "storable _ \<longleftrightarrow> True"

lemma columns_all:
  "map_res call_columns (map (tool_call_part m) (enumerate n calls))
     = Inr (map (\<lambda>tc. (tc_id tc, fn_name (tc_function tc), fn_arguments (tc_function tc))) calls)"
  by (induction calls arbitrary: n) (simp_all add: call_columns_def tool_call_part_def column_text_def)

lemma rebuild_all:
  "list_all (\<lambda>tc. is_valid_tool_name (fn_name (tc_function tc))) calls
   \<Longrightarrow> map_res (rebuild_call m) (map (\<lambda>tc. (tc_id tc, fn_name (tc_function tc), fn_arguments (tc_function tc))) calls)
     = Inr calls"
  by (induction calls) (simp_all add: rebuild_call_def parse_tool_name_def)

lemma filter_tool_call_parts:
  "filter (\<lambda>p. pt_type p = ToolCallPart) (map (tool_call_part m) xs) = map (tool_call_part m) xs"
  by (auto simp: filter_id_conv tool_call_part_def)

lemma sort_tool_call_parts:
  "sort_key pt_ordinal (map (tool_call_part m) (enumerate 0 calls)) = map (tool_call_part m) (enumerate 0 calls)"
proof (rule sort_key_sorted)
  have "sorted (map (\<lambda>i. int i + 1) [0..<0 + length calls])"
    by (simp add: sorted_iff_nth_mono)
  then show "sorted (map pt_ordinal (map (tool_call_part m) (enumerate 0 calls)))"
    by (simp only: tool_call_parts_ordinals)
qed

lemma reconstruct_from_parts:
  assumes "storable msg" and "parts_of d m = message_parts m msg"
  shows "reconstruct_message d m (role_str msg) (content_of msg) = Inr msg"
proof (cases msg)
  case (ToolCalls c calls)
  with assms show ?thesis
    by (simp add: reconstruct_message_def text_part_def filter_tool_call_parts
        sort_tool_call_parts columns_all rebuild_all)
qed (use assms in \<open>simp_all add: reconstruct_message_def text_part_def tool_output_part_def column_text_def\<close>)

lemma parts_of_pushed_new:
  "wf_db d \<Longrightarrow> parts_of (pushed_db now c msg lf d) (next_message_id d)
     = message_parts (next_message_id d) msg"
  using wf_fresh_message(2) by (force simp: parts_of_def filter_id_conv filter_empty_conv)

lemma parts_of_pushed_old:
  "m \<noteq> next_message_id d \<Longrightarrow> parts_of (pushed_db now c msg lf d) m = parts_of d m"
  by (auto simp: parts_of_def filter_empty_conv)

lemma reconstruct_pushed_new:
  "wf_db d \<Longrightarrow> storable msg \<Longrightarrow>
     reconstruct_row (pushed_db now c msg lf d) (pushed_row now c msg d) = Inr msg"
  by (simp add: reconstruct_row_def reconstruct_from_parts parts_of_pushed_new)

lemma reconstruct_cong:
  "parts_of d' m = parts_of d m \<Longrightarrow> reconstruct_message d' m role content = reconstruct_message d m role content"
  by (simp add: reconstruct_message_def)

lemma reconstruct_pushed_old:
  "wf_db d \<Longrightarrow> r \<in> set (messages d) \<Longrightarrow>
     reconstruct_row (pushed_db now c msg lf d) r = reconstruct_row d r"
  using wf_fresh_message(1) [of d]
  by (auto simp: reconstruct_row_def intro!: reconstruct_cong parts_of_pushed_old) (metis imageI)

end
