(* ===== verification/Lcm_Summarize.thy ===== *)
theory Lcm_Summarize
  imports Message
begin

text \<open>
  Three-level summarization escalation (\<^verbatim>\<open>src/src/context/lcm/summarize.rs\<close>): two LLM
  levels whose answers are accepted only when they compress, then a deterministic
  truncation. The model call is a parameter that threads the state \<open>'w\<close> of the outside
  world, so that it may answer differently each time; an error is any value \<open>'pe\<close>. The
  lemmas give the outcome on every path: an accepted answer is strictly smaller than the
  input, the third level is bounded and needs no call.
\<close>

type_synonym ('w, 'pe) level_call = "string \<Rightarrow> 'w \<Rightarrow> ('pe + string) \<times> 'w"

section \<open>Prompts and limits\<close>

definition LEVEL_1_PROMPT :: string where
  "LEVEL_1_PROMPT = join_with newline
    [''You are summarizing a SEGMENT of an agent conversation for future model turns. '' @
      ''Treat this as incremental memory compaction input, not a full-conversation '' @
      ''summary.'',
     '''',
     ''Normal summary policy:'',
     ''- Preserve key decisions, rationale, constraints, and active tasks.'',
     ''- Keep essential technical details needed to continue work safely.'',
     ''- Preserve specifics: file paths, commands, tool names and their outcomes, open '' @
      ''questions.'',
     ''- Preserve any <file id=\"...\"> reference tags exactly as they appear.'',
     ''- Include timestamps for key decisions if they appear in the input.'',
     ''- Remove obvious repetition, conversational filler, and verbose tool output '' @
      ''(the originals remain on disk).'',
     '''',
     ''Output requirements:'',
     ''- Plain text only. No preamble, headings, or markdown formatting.'',
     ''- Include a \"Files:\" line tracking file operations (created, modified, '' @
      ''deleted, renamed). Each entry: the path plus a short clause on why it matters, '' @
      ''e.g. \"src/exec.rs (modified: added retry wrapper)\".'',
     ''- If no file operations appear, include exactly: \"Files: none\".'',
     ''- End with exactly: \"Expand for details about: <comma-separated list of what '' @
      ''was dropped or compressed>\".'']"

definition LEVEL_2_PROMPT :: string where
  "LEVEL_2_PROMPT = join_with newline
    [''You are aggressively summarizing a SEGMENT of an agent conversation for future '' @
      ''model turns. The level-1 summary was rejected for being too long; produce '' @
      ''something tighter.'',
     '''',
     ''Aggressive summary policy:'',
     ''- Keep only durable facts and current task state.'',
     ''- One bullet per key decision or outcome where useful.'',
     ''- Drop everything that is not load-bearing.'',
     ''- Preserve explicit TODOs, blockers, decisions, and constraints.'',
     ''- Preserve any <file id=\"...\"> reference tags exactly as they appear.'',
     ''- Aim for the smallest summary that still lets a future reader reconstruct what '' @
      ''happened. Originals remain available via lcm_grep and lcm_expand if details are '' @
      ''needed.'',
     '''',
     ''Output requirements:'',
     ''- Plain text only. No preamble, headings, or markdown formatting.'',
     ''- Include a \"Files:\" line tracking file operations (created, modified, '' @
      ''deleted, renamed). Each entry: the path plus a short clause on why it matters, '' @
      ''e.g. \"src/exec.rs (modified: added retry wrapper)\".'',
     ''- If no file operations appear, include exactly: \"Files: none\".'',
     ''- End with exactly: \"Expand for details about: <comma-separated list of what '' @
      ''was dropped or compressed>\".'']"

definition LEVEL_3_TOKEN_BUDGET :: nat where
  "LEVEL_3_TOKEN_BUDGET = 512"

definition DEGENERATE_FLOOR_CHARS :: nat where
  "DEGENERATE_FLOOR_CHARS = 500"

definition DEGENERATE_FLOOR_MIN_INPUT_CHARS :: nat where
  "DEGENERATE_FLOOR_MIN_INPUT_CHARS = 4 * DEGENERATE_FLOOR_CHARS"

section \<open>The ladder\<close>

datatype escalation_level = Normal | Aggressive | Deterministic

fun level_tag :: "escalation_level \<Rightarrow> string" where
  "level_tag Normal = ''level1''"
| "level_tag Aggressive = ''level2''"
| "level_tag Deterministic = ''level3-truncate''"

record escalation_outcome =
  eo_content :: string
  eo_level :: escalation_level
  eo_input_tokens :: nat
  eo_output_tokens :: nat

definition estimate_messages_tokens :: "message list \<Rightarrow> nat" where
  "estimate_messages_tokens ms = sum_list (map token_estimate ms)"

definition accept :: "string \<Rightarrow> nat \<Rightarrow> nat option" where
  "accept content input_tokens =
     (let output_tokens = estimate_tokens content in
      if input_tokens \<le> output_tokens then None
      else
        let input_chars = input_tokens * 4 in
        if length content < DEGENERATE_FLOOR_CHARS
           \<and> DEGENERATE_FLOOR_MIN_INPUT_CHARS \<le> input_chars
        then None
        else Some output_tokens)"

definition truncation_note :: "nat \<Rightarrow> nat \<Rightarrow> string" where
  "truncation_note input_tokens max_tokens =
     newline @ newline @ ''[Truncated from '' @ nat_str input_tokens @ '' tokens; ''
     @ nat_str max_tokens @ '' tokens preserved.]''"

definition truncate_messages :: "message list \<Rightarrow> nat \<Rightarrow> nat \<Rightarrow> string" where
  "truncate_messages ms max_tokens input_tokens =
     (let formatted = format_messages_for_summary ms;
          max_chars = max_tokens * 4
      in if length formatted \<le> max_chars then formatted
         else text_prefix formatted max_chars @ truncation_note input_tokens max_tokens)"

definition summarize_with_escalation ::
  "message list \<Rightarrow> ('w, 'pe) level_call \<Rightarrow> 'w \<Rightarrow> escalation_outcome \<times> 'w" where
  "summarize_with_escalation ms call w =
     (let input_tokens = estimate_messages_tokens ms;
          (r1, w1) = call LEVEL_1_PROMPT w;
          accepted = (\<lambda>r. case r of Inl e \<Rightarrow> None
                       | Inr content \<Rightarrow> map_option (\<lambda>t. (content, t)) (accept content input_tokens))
      in case accepted r1 of
           Some (content, t) \<Rightarrow>
             (\<lparr>eo_content = content, eo_level = Normal,
               eo_input_tokens = input_tokens, eo_output_tokens = t\<rparr>, w1)
         | None \<Rightarrow>
             (let (r2, w2) = call LEVEL_2_PROMPT w1
              in case accepted r2 of
                   Some (content, t) \<Rightarrow>
                     (\<lparr>eo_content = content, eo_level = Aggressive,
                       eo_input_tokens = input_tokens, eo_output_tokens = t\<rparr>, w2)
                 | None \<Rightarrow>
                     (let content = truncate_messages ms LEVEL_3_TOKEN_BUDGET input_tokens
                      in (\<lparr>eo_content = content, eo_level = Deterministic,
                           eo_input_tokens = input_tokens,
                           eo_output_tokens = estimate_tokens content\<rparr>, w2))))"

section \<open>Acceptance\<close>

lemma accept_Some_iff:
  "accept content n = Some t \<longleftrightarrow>
     t = estimate_tokens content \<and> t < n
     \<and> (500 \<le> length content \<or> n < 500)"
  by (auto simp: accept_def Let_def DEGENERATE_FLOOR_CHARS_def DEGENERATE_FLOOR_MIN_INPUT_CHARS_def)

section \<open>The deterministic level\<close>

lemma length_nat_str: "n < 10 ^ Suc k \<Longrightarrow> length (nat_str n) \<le> Suc k"
proof (induction k arbitrary: n)
  case 0
  then show ?case by (subst nat_str.simps) simp
next
  case (Suc k)
  then have "n div 10 < 10 ^ Suc k" by (simp add: less_mult_imp_div_less)
  with Suc.IH have "length (nat_str (n div 10)) \<le> Suc k" by blast
  then show ?case by (subst nat_str.simps) simp
qed

lemma length_truncation_note:
  "length (truncation_note n m) = 46 + length (nat_str n) + length (nat_str m)"
  by (simp add: truncation_note_def)

lemma truncate_messages_fits:
  "length (format_messages_for_summary ms) \<le> 4 * m
   \<Longrightarrow> truncate_messages ms m n = format_messages_for_summary ms"
  by (simp add: truncate_messages_def mult.commute)

lemma truncate_messages_bound:
  "length (truncate_messages ms m n) \<le> 4 * m + length (truncation_note n m)"
  using length_text_prefix_le [of "format_messages_for_summary ms" "m * 4"]
  by (simp add: truncate_messages_def Let_def)

lemma truncate_messages_prefix:
  "\<exists>k. truncate_messages ms m n = text_prefix (format_messages_for_summary ms) (4 * m) @ k"
  by (auto simp: truncate_messages_def Let_def mult.commute text_prefix_id)

lemma nat_str_512: "nat_str 512 = ''512''"
  by code_simp

section \<open>The outcome on every path\<close>

definition answer_accepted :: "message list \<Rightarrow> 'pe + string \<Rightarrow> bool" where
  "answer_accepted ms r \<longleftrightarrow>
     (\<exists>content t. r = Inr content \<and> accept content (estimate_messages_tokens ms) = Some t)"

lemma escalation_level1:
  assumes "call LEVEL_1_PROMPT w = (Inr content, w1)"
    and "accept content (estimate_messages_tokens ms) = Some t"
  shows "summarize_with_escalation ms call w =
    (\<lparr>eo_content = content, eo_level = Normal,
      eo_input_tokens = estimate_messages_tokens ms, eo_output_tokens = t\<rparr>, w1)"
  using assms by (simp add: summarize_with_escalation_def)

lemma escalation_level2:
  assumes "call LEVEL_1_PROMPT w = (r1, w1)" and "\<not> answer_accepted ms r1"
    and "call LEVEL_2_PROMPT w1 = (Inr content, w2)"
    and "accept content (estimate_messages_tokens ms) = Some t"
  shows "summarize_with_escalation ms call w =
    (\<lparr>eo_content = content, eo_level = Aggressive,
      eo_input_tokens = estimate_messages_tokens ms, eo_output_tokens = t\<rparr>, w2)"
  using assms
  by (auto simp: summarize_with_escalation_def answer_accepted_def Let_def
      split: sum.splits option.splits)

lemma escalation_level3:
  assumes "call LEVEL_1_PROMPT w = (r1, w1)" and "\<not> answer_accepted ms r1"
    and "call LEVEL_2_PROMPT w1 = (r2, w2)" and "\<not> answer_accepted ms r2"
  shows "summarize_with_escalation ms call w =
    (let content = truncate_messages ms LEVEL_3_TOKEN_BUDGET (estimate_messages_tokens ms)
     in (\<lparr>eo_content = content, eo_level = Deterministic,
          eo_input_tokens = estimate_messages_tokens ms,
          eo_output_tokens = estimate_tokens content\<rparr>, w2))"
  using assms
  by (auto simp: summarize_with_escalation_def answer_accepted_def Let_def
      split: sum.splits option.splits)

lemma escalation_cases:
  obtains (level1) content w1 where "call LEVEL_1_PROMPT w = (Inr content, w1)"
      and "summarize_with_escalation ms call w =
        (\<lparr>eo_content = content, eo_level = Normal,
          eo_input_tokens = estimate_messages_tokens ms,
          eo_output_tokens = estimate_tokens content\<rparr>, w1)"
      and "accept content (estimate_messages_tokens ms) = Some (estimate_tokens content)"
  | (level2) r1 w1 content w2 where "call LEVEL_1_PROMPT w = (r1, w1)" "\<not> answer_accepted ms r1"
      and "call LEVEL_2_PROMPT w1 = (Inr content, w2)"
      and "summarize_with_escalation ms call w =
        (\<lparr>eo_content = content, eo_level = Aggressive,
          eo_input_tokens = estimate_messages_tokens ms,
          eo_output_tokens = estimate_tokens content\<rparr>, w2)"
      and "accept content (estimate_messages_tokens ms) = Some (estimate_tokens content)"
  | (level3) r1 w1 r2 w2 where "call LEVEL_1_PROMPT w = (r1, w1)" "\<not> answer_accepted ms r1"
      and "call LEVEL_2_PROMPT w1 = (r2, w2)" "\<not> answer_accepted ms r2"
      and "summarize_with_escalation ms call w =
        (\<lparr>eo_content = truncate_messages ms LEVEL_3_TOKEN_BUDGET (estimate_messages_tokens ms),
          eo_level = Deterministic,
          eo_input_tokens = estimate_messages_tokens ms,
          eo_output_tokens = estimate_tokens
            (truncate_messages ms LEVEL_3_TOKEN_BUDGET (estimate_messages_tokens ms))\<rparr>, w2)"
proof -
  obtain r1 w1 where c1: "call LEVEL_1_PROMPT w = (r1, w1)" by fastforce
  obtain r2 w2 where c2: "call LEVEL_2_PROMPT w1 = (r2, w2)" by fastforce
  show ?thesis
  proof (cases "answer_accepted ms r1")
    case True
    then obtain content t where "r1 = Inr content"
      and a: "accept content (estimate_messages_tokens ms) = Some t"
      by (auto simp: answer_accepted_def)
    moreover from a have "t = estimate_tokens content" by (simp add: accept_Some_iff)
    ultimately show ?thesis using level1 c1 escalation_level1 by metis
  next
    case n1: False
    show ?thesis
    proof (cases "answer_accepted ms r2")
      case True
      then obtain content t where "r2 = Inr content"
        and a: "accept content (estimate_messages_tokens ms) = Some t"
        by (auto simp: answer_accepted_def)
      moreover from a have "t = estimate_tokens content" by (simp add: accept_Some_iff)
      ultimately show ?thesis using level2 c1 c2 n1 escalation_level2 by metis
    next
      case False
      with level3 c1 c2 n1 escalation_level3 [OF c1 n1 c2 False] show ?thesis
        by (simp add: Let_def)
    qed
  qed
qed

lemma escalation_tokens:
  "eo_output_tokens (fst (summarize_with_escalation ms call w)) =
     estimate_tokens (eo_content (fst (summarize_with_escalation ms call w)))"
  "eo_input_tokens (fst (summarize_with_escalation ms call w)) = estimate_messages_tokens ms"
  by (rule escalation_cases [of call w ms]; simp)+

end
