(* ===== verification/Context_Config.thy ===== *)
theory Context_Config
  imports Prelude
begin

text \<open>
  The context section of the configuration (\<^verbatim>\<open>src/src/config.rs\<close>): the two records the
  engines read, their defaults and their validation. The lemmas are the facts the engines
  rely on: a validated configuration has a fanout of at least two and its soft threshold is
  not above its hard one.
\<close>

record lcm_config =
  fresh_tail_count :: nat
  leaf_chunk_tokens :: nat
  min_condensed_fanout :: nat
  soft_budget_percent :: nat
  hard_budget_percent :: nat
  large_file_threshold :: nat
  large_file_summary_tokens :: nat

datatype engine_kind = FlatEngine | LcmEngineKind

record context_config =
  cfg_engine :: engine_kind
  cfg_max_tokens :: nat
  cfg_budget_percent :: nat
  cfg_tool_output_tokens :: nat
  cfg_lcm :: lcm_config

definition default_lcm_config :: lcm_config where
  "default_lcm_config =
     \<lparr>fresh_tail_count = 32, leaf_chunk_tokens = 20000, min_condensed_fanout = 2,
      soft_budget_percent = 70, hard_budget_percent = 90,
      large_file_threshold = 25000, large_file_summary_tokens = 400\<rparr>"

definition default_context_config :: context_config where
  "default_context_config =
     \<lparr>cfg_engine = FlatEngine, cfg_max_tokens = 200000, cfg_budget_percent = 80,
      cfg_tool_output_tokens = 4096, cfg_lcm = default_lcm_config\<rparr>"

text \<open>A sequence of \<open>if bad { return Err(msg) }\<close>: the first failing check wins.\<close>

fun first_failure :: "(bool \<times> string) list \<Rightarrow> string + unit" where
  "first_failure [] = Inr ()"
| "first_failure ((bad, msg) # rest) = (if bad then Inl msg else first_failure rest)"

lemma first_failure_ok_iff: "first_failure cs = Inr u \<longleftrightarrow> (\<forall>(bad, msg) \<in> set cs. \<not> bad)"
  by (induction cs rule: first_failure.induct) auto

definition validate_lcm :: "lcm_config \<Rightarrow> string + unit" where
  "validate_lcm c = first_failure
     [(fresh_tail_count c = 0, ''context.lcm fresh_tail_count must be > 0''),
      (leaf_chunk_tokens c = 0, ''context.lcm leaf_chunk_tokens must be > 0''),
      (min_condensed_fanout c < 2, ''context.lcm min_condensed_fanout must be >= 2''),
      (soft_budget_percent c = 0 \<or> soft_budget_percent c > 100,
         ''context.lcm soft_budget_percent must be 1..=100''),
      (hard_budget_percent c = 0 \<or> hard_budget_percent c > 100,
         ''context.lcm hard_budget_percent must be 1..=100''),
      (soft_budget_percent c \<ge> hard_budget_percent c,
         ''context.lcm soft_budget_percent must be < hard_budget_percent''),
      (large_file_threshold c = 0, ''context.lcm large_file_threshold must be > 0''),
      (large_file_summary_tokens c = 0, ''context.lcm large_file_summary_tokens must be > 0'')]"

definition validate_context :: "context_config \<Rightarrow> string + unit" where
  "validate_context c = bind_res (first_failure
     [(cfg_max_tokens c = 0, ''context max_tokens must be > 0''),
      (cfg_budget_percent c = 0 \<or> cfg_budget_percent c > 100,
         ''context budget_percent must be 1..=100''),
      (cfg_tool_output_tokens c = 0, ''context tool_output_tokens must be > 0'')])
     (\<lambda>_. validate_lcm (cfg_lcm c))"

lemma validate_lcm_ok_iff:
  "validate_lcm c = Inr () \<longleftrightarrow>
     0 < fresh_tail_count c \<and> 0 < leaf_chunk_tokens c \<and> 2 \<le> min_condensed_fanout c
     \<and> 0 < soft_budget_percent c \<and> soft_budget_percent c < hard_budget_percent c
     \<and> hard_budget_percent c \<le> 100
     \<and> 0 < large_file_threshold c \<and> 0 < large_file_summary_tokens c"
  by (auto simp: validate_lcm_def first_failure_ok_iff)

lemma validate_context_ok_iff:
  "validate_context c = Inr () \<longleftrightarrow>
     0 < cfg_max_tokens c \<and> 0 < cfg_budget_percent c \<and> cfg_budget_percent c \<le> 100
     \<and> 0 < cfg_tool_output_tokens c \<and> validate_lcm (cfg_lcm c) = Inr ()"
  by (auto simp: validate_context_def bind_res_Inr_iff first_failure_ok_iff)

lemma default_context_config_valid: "validate_context default_context_config = Inr ()"
  by (simp add: validate_context_ok_iff validate_lcm_ok_iff default_context_config_def
      default_lcm_config_def)

end
