(* ===== verification/Lcm_Compaction.thy ===== *)
theory Lcm_Compaction
  imports Lcm_Store Lcm_Summarize Context_Config
begin

text \<open>
  LCM compaction (\<^verbatim>\<open>src/src/context/lcm/compaction.rs\<close>): choosing leaf and condensed chunks,
  summarizing one chunk (riding the provider's cached prefix when it can), writing the
  summary, and the cycle that runs the leaf pass and then condensed passes until no run of
  summaries is left to collapse. Statements that change the database return the new
  database with the result, because each chunk commits on its own: an error in a later chunk
  keeps the earlier ones.
\<close>

section \<open>Cache-prefix riding\<close>

text \<open>
  What comes from other packages: SHA-256, the matches of the file-id regular expression,
  and the formatting of a string as a Rust literal (\<open>{:?}\<close>).
\<close>

record lcm_env =
  sha256 :: "string \<Rightarrow> string"
  file_id_matches :: "string \<Rightarrow> string list"
  debug_str :: "string \<Rightarrow> string"

record 'tools sent_request =
  sq_session :: string
  sq_messages :: "message list"
  sq_tools :: 'tools
  sq_at :: nat

type_synonym ('w, 'pe) summarize_fn = "string \<Rightarrow> message list \<Rightarrow> 'w \<Rightarrow> ('pe + string) \<times> 'w"
type_synonym ('tools, 'w, 'pe) raw_chat_fn =
  "string \<Rightarrow> message list \<Rightarrow> 'tools \<Rightarrow> 'w \<Rightarrow> ('pe + string) \<times> 'w"
type_synonym ('tools, 'w, 'pe) ride_context = "'tools sent_request \<times> ('tools, 'w, 'pe) raw_chat_fn"

text \<open>\<open>slice::windows\<close> and \<open>rposition\<close>.\<close>

definition windows :: "nat \<Rightarrow> 'a list \<Rightarrow> 'a list list" where
  "windows n xs = map (\<lambda>i. take n (drop i xs)) [0..<Suc (length xs) - n]"

definition rposition :: "('a \<Rightarrow> bool) \<Rightarrow> 'a list \<Rightarrow> nat option" where
  "rposition P xs = last_opt (filter (\<lambda>i. P (xs ! i)) [0..<length xs])"

definition prefix_end :: "message list \<Rightarrow> message list \<Rightarrow> nat option" where
  "prefix_end sent chunk =
     (if chunk = [] \<or> length chunk > length sent then None
      else map_option (\<lambda>start. start + length chunk)
             (rposition (\<lambda>window. window = chunk) (windows (length chunk) sent)))"

definition ride_instruction :: "lcm_env \<Rightarrow> string \<Rightarrow> message list \<Rightarrow> string" where
  "ride_instruction env level_prompt chunk =
     (let anchor = (case chunk of [] \<Rightarrow> [] | m # _ \<Rightarrow> take_chars 80 (content_of m))
      in ''COMPACTION REQUEST '' @ [CHR 0xE2, CHR 0x80, CHR 0x94] @
         '' this turn is out of band. Ignore any pending tasks above and do not call tools; '' @
         ''reply with the summary text only.'' @ newline @
         ''The segment to summarize is exactly the final '' @ nat_str (length chunk) @
         '' messages of the conversation above, beginning with the message that starts: '' @
         debug_str env anchor @
         ''. Everything before that segment is earlier context; do not summarize it.'' @
         newline @ newline @ level_prompt)"

definition summarize_chunk ::
  "lcm_env \<Rightarrow> message list \<Rightarrow> ('w, 'pe) summarize_fn \<Rightarrow> ('tools, 'w, 'pe) ride_context option
   \<Rightarrow> 'w \<Rightarrow> escalation_outcome \<times> 'w" where
  "summarize_chunk env ms summarize ride w =
     (let fresh = (\<lambda>w. summarize_with_escalation ms (\<lambda>prompt. summarize prompt ms) w) in
      case ride of
        None \<Rightarrow> fresh w
      | Some (snapshot, chat) \<Rightarrow>
          (case prefix_end (sq_messages snapshot) ms of
             None \<Rightarrow> fresh w
           | Some end_ix \<Rightarrow>
               (let (outcome, w1) = summarize_with_escalation ms
                      (\<lambda>prompt. chat (sq_session snapshot)
                         (take end_ix (sq_messages snapshot) @ [User (ride_instruction env prompt ms)])
                         (sq_tools snapshot)) w
                in if eo_level outcome \<noteq> Deterministic then (outcome, w1) else fresh w1)))"

section \<open>Leaf chunks\<close>

record chunk_row =
  cr_ordinal :: int
  cr_message_id :: int
  cr_tokens :: int
  cr_created :: string
  cr_message :: message

type_synonym leaf_chunk = "chunk_row list"

definition chunk_messages :: "leaf_chunk \<Rightarrow> message list" where
  "chunk_messages chunk = map cr_message chunk"

text \<open>The message items of a conversation in order, joined with their rows.\<close>

definition message_items :: "db \<Rightarrow> int \<Rightarrow> (int \<times> message_row) list" where
  "message_items d c = List.map_filter
     (\<lambda>i. case ci_item i of
        MessageItem m \<Rightarrow> map_option (Pair (ci_ordinal i)) (find_message d m)
      | SummaryItem _ \<Rightarrow> None) (items_of d c)"

definition max_opt :: "int list \<Rightarrow> int option" where
  "max_opt xs = (case xs of [] \<Rightarrow> None | y # ys \<Rightarrow> Some (fold max ys y))"

definition pinned_ordinal :: "(int \<times> message_row) list \<Rightarrow> int option" where
  "pinned_ordinal raw = max_opt (map fst (filter (\<lambda>(_, r). mr_role r = ''user'') raw))"

fun leaf_loop ::
  "db \<Rightarrow> int option \<Rightarrow> int \<Rightarrow> (int \<times> message_row) list \<Rightarrow> leaf_chunk list \<Rightarrow> leaf_chunk \<Rightarrow> int
   \<Rightarrow> store_error + leaf_chunk list" where
  "leaf_loop d pin budget [] chunks current tokens =
     Inr (if current \<noteq> [] then chunks @ [current] else chunks)"
| "leaf_loop d pin budget ((ordinal, r) # rs) chunks current tokens =
     (if Some ordinal = pin then
        (if current \<noteq> [] then leaf_loop d pin budget rs (chunks @ [current]) [] 0
         else leaf_loop d pin budget rs chunks current tokens)
      else bind_res (reconstruct_row d r) (\<lambda>msg.
        let row = \<lparr>cr_ordinal = ordinal, cr_message_id = mr_id r, cr_tokens = mr_tokens r,
                   cr_created = mr_created r, cr_message = msg\<rparr>
        in if current \<noteq> [] \<and> tokens + mr_tokens r > budget
           then leaf_loop d pin budget rs (chunks @ [current]) [row] (0 + mr_tokens r)
           else leaf_loop d pin budget rs chunks (current @ [row]) (tokens + mr_tokens r)))"

definition load_leaf_chunks :: "db \<Rightarrow> int \<Rightarrow> lcm_config \<Rightarrow> store_error + leaf_chunk list" where
  "load_leaf_chunks d c cfg =
     (let raw = message_items d c; fresh_tail = fresh_tail_count cfg
      in if length raw \<le> fresh_tail then Inr []
         else leaf_loop d (pinned_ordinal raw) (int (leaf_chunk_tokens cfg))
                (take (length raw - fresh_tail) raw) [] [] 0)"

section \<open>Summary ids\<close>

definition hex_digit :: "nat \<Rightarrow> char" where
  "hex_digit n = (if n < 10 then char_of (48 + n) else char_of (87 + n))"

definition hex_byte :: "char \<Rightarrow> string" where
  "hex_byte b = [hex_digit (of_char b div 16), hex_digit (of_char b mod 16)]"

definition to_le_bytes :: "int \<Rightarrow> string" where
  "to_le_bytes n = map (\<lambda>k. char_of (nat (n div 256 ^ k mod 256))) [0..<8]"

definition summary_preimage :: "string \<Rightarrow> string list \<Rightarrow> string" where
  "summary_preimage content sorted_keys = content @ concat (map (\<lambda>k. ''|'' @ k) sorted_keys)"

definition derive_summary_id_inner :: "lcm_env \<Rightarrow> string \<Rightarrow> string list \<Rightarrow> string" where
  "derive_summary_id_inner env content sorted_keys =
     ''sum_'' @ concat (map hex_byte (take 8 (sha256 env (summary_preimage content sorted_keys))))"

definition derive_summary_id :: "lcm_env \<Rightarrow> string \<Rightarrow> int list \<Rightarrow> string" where
  "derive_summary_id env content source_ids =
     derive_summary_id_inner env content (map to_le_bytes (sort source_ids))"

definition derive_summary_id_str :: "lcm_env \<Rightarrow> string \<Rightarrow> string list \<Rightarrow> string" where
  "derive_summary_id_str env content source_ids =
     derive_summary_id_inner env content (sort source_ids)"

section \<open>Writing a summary\<close>

definition insert_summary :: "summary_row \<Rightarrow> db \<Rightarrow> store_error + db" where
  "insert_summary s d =
     (if \<not> conversation_exists d (sr_conv s) then Inl (ConstraintViolation ''FOREIGN KEY'')
      else if summary_exists d (sr_id s) then Inl (ConstraintViolation ''PRIMARY KEY summaries'')
      else Inr (d\<lparr>summaries := summaries d @ [s]\<rparr>))"

definition link_message :: "string \<Rightarrow> int \<Rightarrow> db \<Rightarrow> store_error + db" where
  "link_message s m d =
     (if \<not> summary_exists d s \<or> \<not> message_exists d m then Inl (ConstraintViolation ''FOREIGN KEY'')
      else if (s, m) \<in> set (summary_messages d)
      then Inl (ConstraintViolation ''PRIMARY KEY summary_messages'')
      else Inr (d\<lparr>summary_messages := summary_messages d @ [(s, m)]\<rparr>))"

definition link_parent :: "string \<Rightarrow> string \<Rightarrow> db \<Rightarrow> store_error + db" where
  "link_parent child parent d =
     (if \<not> summary_exists d child \<or> \<not> summary_exists d parent
      then Inl (ConstraintViolation ''FOREIGN KEY'')
      else if (child, parent) \<in> set (summary_parents d)
      then Inl (ConstraintViolation ''PRIMARY KEY summary_parents'')
      else Inr (d\<lparr>summary_parents := summary_parents d @ [(child, parent)]\<rparr>))"

text \<open>\<open>INSERT OR IGNORE INTO summary_files\<close> of the ids that exist in \<open>large_files\<close>.\<close>

definition add_summary_file :: "string \<Rightarrow> string \<Rightarrow> db \<Rightarrow> db" where
  "add_summary_file s f d =
     (if f \<in> lf_id ` set (large_files d) \<and> (s, f) \<notin> set (summary_files d)
      then d\<lparr>summary_files := summary_files d @ [(s, f)]\<rparr> else d)"

text \<open>Replacing the chunk's ordinal range by one summary item at its first ordinal.\<close>

definition delete_range :: "int \<Rightarrow> int \<Rightarrow> int \<Rightarrow> db \<Rightarrow> db" where
  "delete_range c first_ord last_ord d =
     d\<lparr>context_items := filter
        (\<lambda>i. \<not> (ci_conv i = c \<and> first_ord \<le> ci_ordinal i \<and> ci_ordinal i \<le> last_ord))
        (context_items d)\<rparr>"

definition replace_range :: "int \<Rightarrow> int \<Rightarrow> int \<Rightarrow> string \<Rightarrow> db \<Rightarrow> store_error + db" where
  "replace_range c first_ord last_ord s d =
     insert_context_item \<lparr>ci_conv = c, ci_ordinal = first_ord, ci_item = SummaryItem s\<rparr>
       (delete_range c first_ord last_ord d)"

definition extract_file_ids :: "lcm_env \<Rightarrow> string \<Rightarrow> string list" where
  "extract_file_ids env content =
     rev (remdups (rev (map (map ascii_lower) (file_id_matches env content))))"

definition head_or_zero :: "int list \<Rightarrow> int" where
  "head_or_zero xs = (case xs of [] \<Rightarrow> 0 | x # _ \<Rightarrow> x)"

definition last_or_zero :: "int list \<Rightarrow> int" where
  "last_or_zero xs = (case last_opt xs of None \<Rightarrow> 0 | Some x \<Rightarrow> x)"

definition leaf_summary_row ::
  "lcm_env \<Rightarrow> string \<Rightarrow> int \<Rightarrow> leaf_chunk \<Rightarrow> escalation_outcome \<Rightarrow> summary_row" where
  "leaf_summary_row env now c chunk outcome =
     (let source_tokens = sum_list (map cr_tokens chunk) in
      \<lparr>sr_id = derive_summary_id env (eo_content outcome) (map cr_message_id chunk),
       sr_conv = c, sr_kind = Leaf, sr_depth = 0, sr_content = eo_content outcome,
       sr_tokens = int (eo_output_tokens outcome),
       sr_earliest = min_str (map cr_created chunk), sr_latest = max_str (map cr_created chunk),
       sr_desc_count = int (length chunk), sr_desc_tokens = source_tokens,
       sr_source_tokens = source_tokens, sr_model = level_tag (eo_level outcome),
       sr_created = now\<rparr>)"

definition write_leaf_summary ::
  "lcm_env \<Rightarrow> string \<Rightarrow> int \<Rightarrow> leaf_chunk \<Rightarrow> escalation_outcome \<Rightarrow> db \<Rightarrow> store_error + db" where
  "write_leaf_summary env now c chunk outcome d =
     (let row = leaf_summary_row env now c chunk outcome; summary_id = sr_id row in
      bind_res (insert_summary row d) (\<lambda>d1.
      bind_res (fold_res (\<lambda>r. link_message summary_id (cr_message_id r)) chunk d1) (\<lambda>d2.
      let d3 = fold (\<lambda>r. fold (add_summary_file summary_id)
                   (extract_file_ids env (content_of (cr_message r)))) chunk d2
      in replace_range c (head_or_zero (map cr_ordinal chunk)) (last_or_zero (map cr_ordinal chunk))
           summary_id d3)))"

section \<open>Condensed chunks\<close>

record condensed_row =
  cd_ordinal :: int
  cd_id :: string
  cd_depth :: int
  cd_tokens :: int
  cd_earliest :: string
  cd_latest :: string
  cd_desc_count :: int
  cd_desc_tokens :: int
  cd_source_tokens :: int
  cd_content :: string

record condensed_chunk =
  cc_rows :: "condensed_row list"
  cc_depth :: int

definition condensed_messages :: "condensed_chunk \<Rightarrow> message list" where
  "condensed_messages chunk = map (\<lambda>r. System
     (''<summary id=\"'' @ cd_id r @ ''\" depth=\"'' @ int_str (cd_depth r) @ ''\">'' @ newline
      @ cd_content r @ newline @ ''</summary>'')) (cc_rows chunk)"

definition condensed_row_of :: "int \<Rightarrow> summary_row \<Rightarrow> condensed_row" where
  "condensed_row_of ordinal s =
     \<lparr>cd_ordinal = ordinal, cd_id = sr_id s, cd_depth = sr_depth s, cd_tokens = sr_tokens s,
      cd_earliest = sr_earliest s, cd_latest = sr_latest s, cd_desc_count = sr_desc_count s,
      cd_desc_tokens = sr_desc_tokens s, cd_source_tokens = sr_source_tokens s,
      cd_content = sr_content s\<rparr>"

text \<open>One row of the \<open>LEFT JOIN\<close>: \<open>None\<close> for a message; a summary that is missing has NULL columns.\<close>

definition condensed_entry :: "db \<Rightarrow> context_item \<Rightarrow> store_error + condensed_row option" where
  "condensed_entry d i =
     (case ci_item i of
        MessageItem _ \<Rightarrow> Inr None
      | SummaryItem s \<Rightarrow>
          (case find_summary d s of
             None \<Rightarrow> Inl InvalidColumnType
           | Some row \<Rightarrow> Inr (Some (condensed_row_of (ci_ordinal i) row))))"

text \<open>The run in progress: its rows, its depth, its tokens, and the chunks found so far.\<close>

type_synonym run_state = "condensed_row list \<times> int option \<times> int \<times> condensed_chunk list"

fun flush_run :: "nat \<Rightarrow> int \<Rightarrow> run_state \<Rightarrow> run_state" where
  "flush_run min_fanout budget (rows, depth, tokens, out) =
     ([], None, 0,
      (case depth of
         Some dep \<Rightarrow>
           if min_fanout \<le> length rows \<and> tokens \<le> budget
           then out @ [\<lparr>cc_rows = rows, cc_depth = dep\<rparr>] else out
       | None \<Rightarrow> out))"

fun run_step :: "nat \<Rightarrow> int \<Rightarrow> condensed_row option \<Rightarrow> run_state \<Rightarrow> run_state" where
  "run_step min_fanout budget None st = flush_run min_fanout budget st"
| "run_step min_fanout budget (Some row) (rows, depth, tokens, out) =
     (if depth = Some (cd_depth row) then (rows @ [row], depth, tokens + cd_tokens row, out)
      else
        (let (rows', _, _, out') = flush_run min_fanout budget (rows, depth, tokens, out)
         in (rows' @ [row], Some (cd_depth row), cd_tokens row, out')))"

definition collect_runs :: "nat \<Rightarrow> int \<Rightarrow> condensed_row option list \<Rightarrow> condensed_chunk list" where
  "collect_runs min_fanout budget raw =
     (case flush_run min_fanout budget (fold (run_step min_fanout budget) raw ([], None, 0, []))
      of (_, _, _, out) \<Rightarrow> out)"

definition load_condensed_chunks :: "db \<Rightarrow> int \<Rightarrow> lcm_config \<Rightarrow> store_error + condensed_chunk list" where
  "load_condensed_chunks d c cfg =
     bind_res (map_res (condensed_entry d) (items_of d c)) (\<lambda>raw.
       Inr (collect_runs (min_condensed_fanout cfg) (int (leaf_chunk_tokens cfg)) raw))"

definition condensed_summary_row ::
  "lcm_env \<Rightarrow> string \<Rightarrow> int \<Rightarrow> condensed_chunk \<Rightarrow> escalation_outcome \<Rightarrow> summary_row" where
  "condensed_summary_row env now c chunk outcome =
     (let rows = cc_rows chunk in
      \<lparr>sr_id = derive_summary_id_str env (eo_content outcome) (map cd_id rows),
       sr_conv = c, sr_kind = Condensed, sr_depth = cc_depth chunk + 1,
       sr_content = eo_content outcome, sr_tokens = int (eo_output_tokens outcome),
       sr_earliest = min_str (map cd_earliest rows), sr_latest = max_str (map cd_latest rows),
       sr_desc_count = sum_list (map cd_desc_count rows),
       sr_desc_tokens = sum_list (map cd_desc_tokens rows),
       sr_source_tokens = sum_list (map cd_source_tokens rows),
       sr_model = level_tag (eo_level outcome), sr_created = now\<rparr>)"

text \<open>Copies the file links of one child to the new summary.\<close>

definition copy_summary_files :: "string \<Rightarrow> string \<Rightarrow> db \<Rightarrow> db" where
  "copy_summary_files s child d =
     fold (\<lambda>f d. if (s, f) \<in> set (summary_files d) then d
                 else d\<lparr>summary_files := summary_files d @ [(s, f)]\<rparr>)
       (map snd (filter (\<lambda>(x, _). x = child) (summary_files d))) d"

definition write_condensed_summary ::
  "lcm_env \<Rightarrow> string \<Rightarrow> int \<Rightarrow> condensed_chunk \<Rightarrow> escalation_outcome \<Rightarrow> db \<Rightarrow> store_error + db" where
  "write_condensed_summary env now c chunk outcome d =
     (let row = condensed_summary_row env now c chunk outcome; summary_id = sr_id row;
          rows = cc_rows chunk in
      bind_res (insert_summary row d) (\<lambda>d1.
      bind_res (fold_res (\<lambda>r. link_parent (cd_id r) summary_id) rows d1) (\<lambda>d2.
      let d3 = fold (\<lambda>r. copy_summary_files summary_id (cd_id r)) rows d2
      in replace_range c (head_or_zero (map cd_ordinal rows)) (last_or_zero (map cd_ordinal rows))
           summary_id d3)))"

section \<open>The compaction cycle\<close>

definition item_tokens :: "db \<Rightarrow> item \<Rightarrow> int" where
  "item_tokens d i =
     (case i of
        MessageItem m \<Rightarrow> (case find_message d m of None \<Rightarrow> 0 | Some r \<Rightarrow> mr_tokens r)
      | SummaryItem s \<Rightarrow> (case find_summary d s of None \<Rightarrow> 0 | Some r \<Rightarrow> sr_tokens r))"

text \<open>\<open>token_estimate_sync\<close>: \<open>usize::try_from(..).unwrap_or(0)\<close> of the sum.\<close>

definition token_estimate_sync :: "db \<Rightarrow> int \<Rightarrow> nat" where
  "token_estimate_sync d c = nat (sum_list (map (\<lambda>i. item_tokens d (ci_item i)) (items_of d c)))"

record compaction_event =
  ev_before :: nat
  ev_after :: nat

text \<open>One pass over chunks: summarize, then write; an error stops with the chunks written so far.\<close>

fun chunk_pass ::
  "('c \<Rightarrow> message list) \<Rightarrow> ('c \<Rightarrow> escalation_outcome \<Rightarrow> db \<Rightarrow> store_error + db)
   \<Rightarrow> (message list \<Rightarrow> 'w \<Rightarrow> escalation_outcome \<times> 'w)
   \<Rightarrow> 'c list \<Rightarrow> db \<Rightarrow> 'w \<Rightarrow> (store_error + unit) \<times> db \<times> 'w" where
  "chunk_pass msgs write summ [] d w = (Inr (), d, w)"
| "chunk_pass msgs write summ (chunk # chunks) d w =
     (let (outcome, w1) = summ (msgs chunk) w in
      case write chunk outcome d of
        Inl e \<Rightarrow> (Inl e, d, w1)
      | Inr d1 \<Rightarrow> chunk_pass msgs write summ chunks d1 w1)"

fun condensed_loop ::
  "nat \<Rightarrow> lcm_env \<Rightarrow> string \<Rightarrow> int \<Rightarrow> lcm_config
   \<Rightarrow> (message list \<Rightarrow> 'w \<Rightarrow> escalation_outcome \<times> 'w)
   \<Rightarrow> db \<Rightarrow> 'w \<Rightarrow> ((store_error + unit) \<times> db \<times> 'w) option" where
  "condensed_loop 0 env now c cfg summ d w = None"
| "condensed_loop (Suc fuel) env now c cfg summ d w =
     (case load_condensed_chunks d c cfg of
        Inl e \<Rightarrow> Some (Inl e, d, w)
      | Inr chunks \<Rightarrow>
          if chunks = [] then Some (Inr (), d, w)
          else
            (case chunk_pass condensed_messages (write_condensed_summary env now c) summ chunks d w of
               (Inl e, d1, w1) \<Rightarrow> Some (Inl e, d1, w1)
             | (Inr _, d1, w1) \<Rightarrow> condensed_loop fuel env now c cfg summ d1 w1))"

definition run_compaction ::
  "nat \<Rightarrow> lcm_env \<Rightarrow> string \<Rightarrow> int \<Rightarrow> lcm_config \<Rightarrow> ('w, 'pe) summarize_fn
   \<Rightarrow> ('tools, 'w, 'pe) ride_context option \<Rightarrow> db \<Rightarrow> 'w
   \<Rightarrow> ((store_error + compaction_event) \<times> db \<times> 'w) option" where
  "run_compaction fuel env now c cfg summarize ride d w =
     (let before = token_estimate_sync d c;
          summ = (\<lambda>ms. summarize_chunk env ms summarize ride)
      in case load_leaf_chunks d c cfg of
           Inl e \<Rightarrow> Some (Inl e, d, w)
         | Inr leaf_chunks \<Rightarrow>
             (case chunk_pass chunk_messages (write_leaf_summary env now c) summ leaf_chunks d w of
                (Inl e, d1, w1) \<Rightarrow> Some (Inl e, d1, w1)
              | (Inr _, d1, w1) \<Rightarrow>
                  (case condensed_loop fuel env now c cfg summ d1 w1 of
                     None \<Rightarrow> None
                   | Some (Inl e, d2, w2) \<Rightarrow> Some (Inl e, d2, w2)
                   | Some (Inr _, d2, w2) \<Rightarrow>
                       Some (Inr \<lparr>ev_before = before, ev_after = token_estimate_sync d2 c\<rparr>, d2, w2))))"

end
