(* ===== verification/Agent_Turn.thy ===== *)
theory Agent_Turn
  imports Action Agent_Guards Safety Lcm_Compaction
begin

text \<open>
  The agent loop (\<^verbatim>\<open>src/src/agent/mod.rs\<close>, with the provider interface of
  \<^verbatim>\<open>src/src/provider/mod.rs\<close> and the events of \<^verbatim>\<open>src/src/activity.rs\<close>): one turn is a
  bounded sequence of rounds, each one completion and, when the model asks for tools, one
  parallel execution whose results are recorded in call order. The context engine \<open>'e\<close>,
  the provider and the tools are reached through \<open>turn_env\<close>; everything outside is the world
  \<open>'w\<close>, and \<open>None\<close> from a provider or tool call means the cancellation token fired while it
  was pending. Costs are of a type \<open>'f\<close> of which only \<open>0\<close> and \<open>+\<close> are used, because sums of
  floating-point numbers obey no other law.
\<close>

section \<open>Provider replies and usage\<close>

datatype response = TextResponse string | CallsResponse string "tool_call list"

record 'f call_usage =
  cu_prompt_tokens :: "nat option"
  cu_cached_tokens :: "nat option"
  cu_provider :: "string option"
  cu_completion_tokens :: nat
  cu_cost :: "'f option"

record 'f chat_outcome =
  oc_response :: response
  oc_usage :: "'f call_usage"
  oc_failed :: "'f call_usage list"

record 'f chat_error =
  ce_error :: provider_error
  ce_failed :: "'f call_usage list"

record 'f turn_usage =
  tu_calls :: nat
  tu_prompt_tokens :: nat
  tu_cached_tokens :: "nat option"
  tu_completion_tokens :: nat
  tu_cost :: "'f option"
  tu_provider :: "string option"

definition no_usage :: "'f turn_usage" where
  "no_usage = \<lparr>tu_calls = 0, tu_prompt_tokens = 0, tu_cached_tokens = None,
     tu_completion_tokens = 0, tu_cost = None, tu_provider = None\<rparr>"

definition or_zero :: "'a::zero option \<Rightarrow> 'a" where
  "or_zero v = (case v of None \<Rightarrow> 0 | Some x \<Rightarrow> x)"

definition add_call :: "'f::{zero,plus} call_usage \<Rightarrow> 'f turn_usage \<Rightarrow> 'f turn_usage" where
  "add_call c u =
     \<lparr>tu_calls = tu_calls u + 1,
      tu_prompt_tokens = tu_prompt_tokens u + or_zero (cu_prompt_tokens c),
      tu_cached_tokens = (case cu_cached_tokens c of None \<Rightarrow> tu_cached_tokens u
        | Some n \<Rightarrow> Some (or_zero (tu_cached_tokens u) + n)),
      tu_completion_tokens = tu_completion_tokens u + cu_completion_tokens c,
      tu_cost = (case cu_cost c of None \<Rightarrow> tu_cost u | Some x \<Rightarrow> Some (or_zero (tu_cost u) + x)),
      tu_provider = (case cu_provider c of None \<Rightarrow> tu_provider u | Some p \<Rightarrow> Some p)\<rparr>"

definition opt_sum :: "'a::{zero,plus} option \<Rightarrow> 'a option \<Rightarrow> 'a option" where
  "opt_sum a b = (if a = None \<and> b = None then None else Some (or_zero a + or_zero b))"

definition add_turn :: "'f::{zero,plus} turn_usage \<Rightarrow> 'f turn_usage \<Rightarrow> 'f turn_usage" where
  "add_turn other u =
     \<lparr>tu_calls = tu_calls u + tu_calls other,
      tu_prompt_tokens = tu_prompt_tokens u + tu_prompt_tokens other,
      tu_cached_tokens = opt_sum (tu_cached_tokens u) (tu_cached_tokens other),
      tu_completion_tokens = tu_completion_tokens u + tu_completion_tokens other,
      tu_cost = opt_sum (tu_cost u) (tu_cost other),
      tu_provider = (case tu_provider other of None \<Rightarrow> tu_provider u | Some p \<Rightarrow> Some p)\<rparr>"

definition add_failed :: "'f::{zero,plus} call_usage list \<Rightarrow> 'f turn_usage \<Rightarrow> 'f turn_usage" where
  "add_failed failed u = fold add_call failed u"

section \<open>Outcomes\<close>

datatype turn_output =
    TurnText string
  | PolicyHalt "string list"
  | ToolHalt string string string nat

definition policy_halt_msg :: "string list \<Rightarrow> string" where
  "policy_halt_msg reasons =
     ''I attempted to use a blocked operation multiple times. The turn was halted automatically.'' @
     (if reasons \<noteq> [] then '' Blocked: '' @ join_with ''; '' reasons else []) @
     '' Please advise how to proceed.''"

definition tool_halt_msg :: "string \<Rightarrow> string \<Rightarrow> string \<Rightarrow> nat \<Rightarrow> string" where
  "tool_halt_msg tool args error hits =
     ''A tool call failed identically '' @ nat_str hits @ '' times this turn. The failure is '' @
     ''deterministic '' @ em_dash @ '' retrying will not help. Tool: '' @ tool @ '', args: '' @ args @
     '', error class: '' @ error @ ''. Please advise how to proceed.''"

fun into_text :: "turn_output \<Rightarrow> string" where
  "into_text (TurnText s) = s"
| "into_text (PolicyHalt reasons) = policy_halt_msg reasons"
| "into_text (ToolHalt tool args error hits) = tool_halt_msg tool args error hits"

definition outcome_label :: "turn_error + turn_output \<Rightarrow> string" where
  "outcome_label r = (case r of
     Inr (PolicyHalt _) \<Rightarrow> ''policy_halt''
   | Inr (TurnText _) \<Rightarrow> ''text''
   | Inr (ToolHalt _ _ _ _) \<Rightarrow> ''tool_halt''
   | Inl Cancelled \<Rightarrow> ''cancelled''
   | Inl (MaxIterationsReached _) \<Rightarrow> ''max_iterations''
   | Inl NoProgress \<Rightarrow> ''no_progress''
   | Inl _ \<Rightarrow> ''error'')"

datatype activity =
    ActCancelled
  | ActCompaction nat nat
  | ActMaxIterations
  | ActNested string activity
  | ActToolEnd string "string option"
  | ActToolStart string
  | ActWaiting string string

fun activity_str :: "activity \<Rightarrow> string" where
  "activity_str ActCancelled = ''Turn cancelled''"
| "activity_str (ActCompaction before after) =
     ''Compacting context: '' @ nat_str before @ '' -> '' @ nat_str after @ '' tokens''"
| "activity_str ActMaxIterations = ''Max iterations reached''"
| "activity_str (ActNested agent event) = ''['' @ agent @ ''] '' @ activity_str event"
| "activity_str (ActToolEnd tool None) = ''Tool finished: '' @ tool"
| "activity_str (ActToolEnd tool (Some e)) = ''Tool failed: '' @ tool @ '' ('' @ e @ '')''"
| "activity_str (ActToolStart tool) = ''Running tool: '' @ tool"
| "activity_str (ActWaiting tool on) = tool @ '' waiting on '' @ on"

section \<open>The state of a turn\<close>

record 'f turn_stats =
  st_iterations :: nat
  st_tool_calls :: nat
  st_prompt_tokens :: "nat option"
  st_usage :: "'f turn_usage"
  st_squeezed :: bool
  st_nudged :: bool
  st_checkpointed :: bool

definition no_stats :: "'f turn_stats" where
  "no_stats = \<lparr>st_iterations = 0, st_tool_calls = 0, st_prompt_tokens = None,
     st_usage = no_usage, st_squeezed = False, st_nudged = False, st_checkpointed = False\<rparr>"

record ('e, 'w, 'f) turn_state =
  ts_engine :: 'e
  ts_world :: 'w
  ts_events :: "activity list"
  ts_stats :: "'f turn_stats"

record ('e, 'w, 't, 'f) turn_env =
  tv_push :: "message \<Rightarrow> 'e \<times> 'w \<Rightarrow> (engine_failure + unit) \<times> 'e \<times> 'w"
  tv_compact_if_urgent :: "'e \<times> 'w \<Rightarrow> (engine_failure + compaction_event option) \<times> 'e \<times> 'w"
  tv_assemble :: "string \<Rightarrow> 'e \<Rightarrow> engine_failure + message list"
  tv_observe_request :: "message list \<Rightarrow> 't list \<Rightarrow> 'e \<times> 'w \<Rightarrow> 'e \<times> 'w"
  tv_observe_tokens :: "nat \<Rightarrow> 'e \<Rightarrow> 'e"
  tv_active_session :: "'e \<Rightarrow> string"
  tv_chat :: "string \<Rightarrow> message list \<Rightarrow> 't list \<Rightarrow> 'w \<Rightarrow> ('f chat_error + 'f chat_outcome) option \<times> 'w"
  tv_execute :: "tool_call list \<Rightarrow> 'w \<Rightarrow> (nat \<Rightarrow> tool_error + string) option \<times> 'w"
  tv_cancelled :: "'w \<Rightarrow> bool"
  tv_tools :: "'t list"
  tv_json :: json_codec
  tv_regex :: regex_engine
  tv_debug :: "string \<Rightarrow> string"

datatype budget_policy = FailBudget | FinalAnswer
datatype reply_policy = AcceptReply | ConfirmReply

record turn_params =
  tp_system_prompt :: string
  tp_max_iterations :: nat
  tp_budget :: budget_policy
  tp_reply :: reply_policy

record loop_vars =
  lv_repeats :: repeat_detector
  lv_hints :: hint_tracker
  lv_policy_strikes :: "string \<Rightarrow> nat option"
  lv_blocked_rounds :: nat
  lv_repeat_strikes :: nat
  lv_tool_strikes :: tool_strikes

definition initial_vars :: loop_vars where
  "initial_vars = \<lparr>lv_repeats = new_detector, lv_hints = new_tracker, lv_policy_strikes = Map.empty,
     lv_blocked_rounds = 0, lv_repeat_strikes = 0, lv_tool_strikes = Map.empty\<rparr>"

section \<open>Steps\<close>

type_synonym ('e, 'w, 'f, 'a) turn_action = "(('e, 'w, 'f) turn_state, turn_error, 'a) action"

definition emit :: "activity \<Rightarrow> ('e, 'w, 'f, unit) turn_action" where
  "emit a = act_update (\<lambda>s. s\<lparr>ts_events := ts_events s @ [a]\<rparr>)"

definition stats :: "('f turn_stats \<Rightarrow> 'f turn_stats) \<Rightarrow> ('e, 'w, 'f, unit) turn_action" where
  "stats f = act_update (\<lambda>s. s\<lparr>ts_stats := f (ts_stats s)\<rparr>)"

definition usage :: "('f turn_usage \<Rightarrow> 'f turn_usage) \<Rightarrow> ('e, 'w, 'f, unit) turn_action" where
  "usage f = stats (\<lambda>t. t\<lparr>st_usage := f (st_usage t)\<rparr>)"

text \<open>An engine call with \<open>?\<close>: its error becomes the turn's.\<close>

definition engine_call ::
  "('e \<times> 'w \<Rightarrow> (engine_failure + 'a) \<times> 'e \<times> 'w) \<Rightarrow> ('e, 'w, 'f, 'a) turn_action" where
  "engine_call f s = (case f (ts_engine s, ts_world s) of (r, e, w) \<Rightarrow>
     ((case r of Inl x \<Rightarrow> Inl (EngineFailed x) | Inr a \<Rightarrow> Inr a), s\<lparr>ts_engine := e, ts_world := w\<rparr>))"

definition push :: "('e, 'w, 't, 'f) turn_env \<Rightarrow> message \<Rightarrow> ('e, 'w, 'f, unit) turn_action" where
  "push env m = engine_call (tv_push env m)"

definition assemble :: "('e, 'w, 't, 'f) turn_env \<Rightarrow> string \<Rightarrow> ('e, 'w, 'f, message list) turn_action" where
  "assemble env prompt = engine_call (\<lambda>(e, w). (tv_assemble env prompt e, e, w))"

definition check_cancelled :: "('e, 'w, 't, 'f) turn_env \<Rightarrow> ('e, 'w, 'f, unit) turn_action" where
  "check_cancelled env s =
     (if tv_cancelled env (ts_world s) then act_then (emit ActCancelled) (act_throw Cancelled) s
      else act_return () s)"

definition cancellable :: "('w \<Rightarrow> 'a option \<times> 'w) \<Rightarrow> ('e, 'w, 'f, 'a) turn_action" where
  "cancellable f s = (case f (ts_world s) of
     (None, w) \<Rightarrow> act_then (emit ActCancelled) (act_throw Cancelled) (s\<lparr>ts_world := w\<rparr>)
   | (Some a, w) \<Rightarrow> (Inr a, s\<lparr>ts_world := w\<rparr>))"

text \<open>One completion: what \<open>turn_loop\<close> and \<open>squeeze\<close> do between \<open>assemble\<close> and the response.\<close>

definition complete ::
  "('e, 'w, 't, 'f::{zero,plus}) turn_env \<Rightarrow> string \<Rightarrow> 't list \<Rightarrow> ('e, 'w, 'f, response) turn_action" where
  "complete env prompt tools =
     act_bind (assemble env prompt) (\<lambda>ms.
     act_bind (\<lambda>s. cancellable (tv_chat env (tv_active_session env (ts_engine s)) ms tools) s) (\<lambda>r.
     case r of
       Inl e \<Rightarrow> act_then (usage (add_failed (ce_failed e))) (act_throw (ProviderFailed (ce_error e)))
     | Inr outcome \<Rightarrow>
         act_then (engine_call (\<lambda>ew. (Inr (), tv_observe_request env ms tools ew)))
         (act_then (usage (add_failed (oc_failed outcome)))
         (act_then (case cu_prompt_tokens (oc_usage outcome) of
              None \<Rightarrow> act_return ()
            | Some n \<Rightarrow> act_then (engine_call (\<lambda>(e, w). (Inr (), tv_observe_tokens env n e, w)))
                          (stats (\<lambda>t. t\<lparr>st_prompt_tokens := Some n\<rparr>)))
         (act_then (usage (add_call (oc_usage outcome)))
         (act_return (oc_response outcome)))))))"

section \<open>Recording tool results\<close>

record recorded =
  rc_halt :: "turn_output option"
  rc_hints :: "string list"
  rc_strikes :: tool_strikes
  rc_tracker :: hint_tracker

text \<open>What one result changes in the trackers, and the text recorded for it.\<close>

definition judge_result ::
  "('e, 'w, 't, 'f) turn_env \<Rightarrow> tool_call \<Rightarrow> tool_error + string \<Rightarrow> recorded \<Rightarrow> recorded \<times> string" where
  "judge_result env call result acc =
     (let name = fn_name (tc_function call); args = fn_arguments (tc_function call);
          (hint, tracker) = observe (tv_json env) name args
            (case result of Inl e \<Rightarrow> Inl (tool_error_str (tv_debug env) e) | Inr output \<Rightarrow> Inr output)
            (rc_tracker acc);
          acc1 = acc\<lparr>rc_tracker := tracker,
            rc_hints := rc_hints acc @ (case hint of None \<Rightarrow> [] | Some h \<Rightarrow> [h])\<rparr>
      in case result of
           Inr output \<Rightarrow> (acc1, co_wrapped (check_tool_output (tv_regex env) name output))
         | Inl e \<Rightarrow>
             (let (hits, strikes) = record_strike (tv_json env) call e (rc_strikes acc1);
                  halt = (case hits of
                      Some n \<Rightarrow> if n \<ge> STRIKE_HALT then Some (ToolHalt name args (error_class e) n)
                                else rc_halt acc1
                    | None \<Rightarrow> rc_halt acc1)
              in (acc1\<lparr>rc_strikes := strikes, rc_halt := halt\<rparr>, failure_content (tv_debug env) e hits)))"

text \<open>The event and the tool message of one result; a failing push is ignored.\<close>

definition record_result ::
  "('e, 'w, 't, 'f) turn_env \<Rightarrow> tool_call \<Rightarrow> tool_error + string \<Rightarrow> string
   \<Rightarrow> ('e, 'w, 'f) turn_state \<Rightarrow> ('e, 'w, 'f) turn_state" where
  "record_result env call result content s =
     (let error = (case result of Inl e \<Rightarrow> Some (tool_error_str (tv_debug env) e) | Inr _ \<Rightarrow> None);
          s1 = s\<lparr>ts_events := ts_events s @ [ActToolEnd (fn_name (tc_function call)) error]\<rparr>
      in snd ((push env (Tool (tc_id call) content) :: ('e, 'w, 'f, unit) turn_action) s1))"

fun record_tool_results ::
  "('e, 'w, 't, 'f) turn_env \<Rightarrow> (tool_call \<times> (tool_error + string)) list \<Rightarrow> recorded
   \<Rightarrow> ('e, 'w, 'f, recorded) turn_action" where
  "record_tool_results env [] acc s = (Inr acc, s)"
| "record_tool_results env ((call, result) # rest) acc s =
     (let (acc', content) = judge_result env call result acc
      in record_tool_results env rest acc' (record_result env call result content s))"

section \<open>One round\<close>

definition REPEAT_ERROR :: string where
  "REPEAT_ERROR = ''ERROR: You have called this tool with identical arguments multiple times and '' @
     ''received the same result. Do NOT retry the same call. Either use a different tool or action, '' @
     ''or respond to the user explaining what you tried and why it did not work.''"

definition POLICY_STOP_DIRECTIVE :: string where
  "POLICY_STOP_DIRECTIVE = ''POLICY VIOLATION: A tool call was blocked. Do NOT work around this. '' @
     ''Report the situation to the user and await direction.''"

definition CONFIRM_REPLY_DIRECTIVE :: string where
  "CONFIRM_REPLY_DIRECTIVE = ''Your previous message was not published. You are working unattended; '' @
     ''your next text reply will be posted verbatim as a public comment. If the work is unfinished, '' @
     ''continue with tool calls. Otherwise reply with exactly the comment to publish: what was done, '' @
     ''what remains, and any branch or PR created.''"

definition MIDPOINT_CHECKPOINT_DIRECTIVE :: string where
  "MIDPOINT_CHECKPOINT_DIRECTIVE = ''Half the iteration budget for this task is spent. In your next '' @
     ''reasoning, restate the objective, list what is verified done, and name the current obstacle. '' @
     ''If you are debugging a failing check, derive the expected value from first principles before '' @
     ''suspecting the code: your own expectation may be the bug. If an approach has failed twice, '' @
     ''drop it and take a different one. Then continue with tool calls; do not end the turn with a '' @
     ''status summary.''"

definition FINAL_ANSWER_DIRECTIVE :: string where
  "FINAL_ANSWER_DIRECTIVE = ''Your tool-call budget for this task is exhausted; no further tool calls '' @
     ''will be executed. Reply now with your final answer from the evidence gathered so far, and '' @
     ''state what remains unverified.''"

definition STATE_REPORT_DIRECTIVE :: string where
  "STATE_REPORT_DIRECTIVE = ''Your iteration budget is exhausted and this turn is about to be reported '' @
     ''as failed. No further tool calls will be executed. Reply now with a state report for a '' @
     ''successor: what you were doing, what is complete (branch names and commits pushed or left in '' @
     ''the working tree), what remains, and the specific obstacle if you were stuck. Concrete paths '' @
     ''and refs over prose.''"

definition STATE_REPORT_MAX :: nat where
  "STATE_REPORT_MAX = 3000"

text \<open>A round ends the turn with an output, or goes on with new loop variables.\<close>

type_synonym ('e, 'w, 'f) round_action = "('e, 'w, 'f, turn_output option \<times> loop_vars) turn_action"

definition text_round ::
  "('e, 'w, 't, 'f) turn_env \<Rightarrow> turn_params \<Rightarrow> nat \<Rightarrow> loop_vars \<Rightarrow> string \<Rightarrow> ('e, 'w, 'f) round_action" where
  "text_round env tp iteration lv content =
     act_then (push env (Assistant content)) (\<lambda>s.
       if tp_reply tp = ConfirmReply \<and> \<not> st_nudged (ts_stats s) \<and> iteration + 1 < tp_max_iterations tp
       then act_then (stats (\<lambda>t. t\<lparr>st_nudged := True\<rparr>))
            (act_then (push env (System CONFIRM_REPLY_DIRECTIVE)) (act_return (None, lv))) s
       else act_return (Some (TurnText content), lv) s)"

definition repeated_round ::
  "('e, 'w, 't, 'f) turn_env \<Rightarrow> loop_vars \<Rightarrow> tool_call list \<Rightarrow> ('e, 'w, 'f) round_action" where
  "repeated_round env lv calls =
     (let strikes = lv_repeat_strikes lv + 1 in
      act_then (act_each (\<lambda>call. push env (Tool (tc_id call) REPEAT_ERROR)) calls)
      (if strikes \<ge> REPEAT_STRIKE_LIMIT then act_throw NoProgress
       else act_return (None, lv\<lparr>lv_repeat_strikes := strikes\<rparr>)))"

definition policy_step ::
  "('e, 'w, 't, 'f) turn_env \<Rightarrow> loop_vars \<Rightarrow> (string \<times> string) list \<Rightarrow> ('e, 'w, 'f) round_action" where
  "policy_step env lv blocked =
     (if blocked = [] then act_return (None, lv)
      else
        (let rounds = lv_blocked_rounds lv + 1;
             (halt, strikes) = policy_round (map snd blocked) (lv_policy_strikes lv) (rounds \<ge> POLICY_ROUND_LIMIT);
             lv' = lv\<lparr>lv_blocked_rounds := rounds, lv_policy_strikes := strikes\<rparr>
         in if halt then act_return (Some (PolicyHalt (map fst blocked)), lv')
            else act_then (push env (System POLICY_STOP_DIRECTIVE)) (act_return (None, lv'))))"

text \<open>\<open>join_all\<close>: one result per call, in the order of the calls; \<open>tv_execute\<close> gives the \<open>i\<close>th.\<close>

definition join_all ::
  "('e, 'w, 't, 'f) turn_env \<Rightarrow> tool_call list \<Rightarrow> 'w \<Rightarrow> (tool_error + string) list option \<times> 'w" where
  "join_all env calls w = (case tv_execute env calls w of (outcome, w') \<Rightarrow>
     (map_option (\<lambda>f. map f [0..<length calls]) outcome, w'))"

definition executed_round ::
  "('e, 'w, 't, 'f) turn_env \<Rightarrow> loop_vars \<Rightarrow> tool_call list \<Rightarrow> ('e, 'w, 'f) round_action" where
  "executed_round env lv calls =
     act_then (stats (\<lambda>t. t\<lparr>st_tool_calls := st_tool_calls t + length calls\<rparr>))
     (act_then (act_each (\<lambda>call. emit (ActToolStart (fn_name (tc_function call)))) calls)
     (act_bind (cancellable (join_all env calls)) (\<lambda>results.
     act_bind (record_tool_results env (zip calls results)
         \<lparr>rc_halt = None, rc_hints = [], rc_strikes = lv_tool_strikes lv, rc_tracker = lv_hints lv\<rparr>) (\<lambda>rc.
     act_then (act_when (rc_hints rc \<noteq> []) (push env (System (join_with newline (rc_hints rc)))))
     (let lv' = lv\<lparr>lv_tool_strikes := rc_strikes rc, lv_hints := rc_tracker rc\<rparr>
      in case rc_halt rc of
           Some halt \<Rightarrow> act_return (Some halt, lv')
         | None \<Rightarrow> policy_step env lv' (blocked_of results))))))"

definition calls_round ::
  "('e, 'w, 't, 'f) turn_env \<Rightarrow> loop_vars \<Rightarrow> string \<Rightarrow> tool_call list \<Rightarrow> ('e, 'w, 'f) round_action" where
  "calls_round env lv content calls =
     act_then (push env (ToolCalls content calls))
     (let (repeated, detector) = record_calls (tv_json env) calls (lv_repeats lv);
          lv1 = lv\<lparr>lv_repeats := detector\<rparr>
      in if repeated then repeated_round env lv1 calls
         else executed_round env (lv1\<lparr>lv_repeat_strikes := 0\<rparr>) calls)"

definition turn_round ::
  "('e, 'w, 't, 'f::{zero,plus}) turn_env \<Rightarrow> turn_params \<Rightarrow> nat \<Rightarrow> loop_vars \<Rightarrow> ('e, 'w, 'f) round_action" where
  "turn_round env tp iteration lv =
     act_then (check_cancelled env)
     (act_then (stats (\<lambda>t. t\<lparr>st_iterations := iteration + 1\<rparr>))
     (act_bind (engine_call (tv_compact_if_urgent env)) (\<lambda>event.
     act_then (case event of None \<Rightarrow> act_return () | Some ev \<Rightarrow> emit (ActCompaction (ev_before ev) (ev_after ev)))
     (act_then (act_when (iteration = tp_max_iterations tp div 2 \<and> iteration > 0)
        (act_then (stats (\<lambda>t. t\<lparr>st_checkpointed := True\<rparr>))
                  (push env (System MIDPOINT_CHECKPOINT_DIRECTIVE))))
     (act_bind (complete env (tp_system_prompt tp) (tv_tools env)) (\<lambda>response.
     case response of
       TextResponse content \<Rightarrow> text_round env tp iteration lv content
     | CallsResponse content calls \<Rightarrow> calls_round env lv content calls))))))"

section \<open>The end of the budget\<close>

definition squeeze ::
  "('e, 'w, 't, 'f::{zero,plus}) turn_env \<Rightarrow> turn_params \<Rightarrow> string \<Rightarrow> ('e, 'w, 'f, string) turn_action" where
  "squeeze env tp directive =
     act_then (stats (\<lambda>t. t\<lparr>st_squeezed := True\<rparr>))
     (act_then (push env (System directive))
     (act_bind (complete env (tp_system_prompt tp) []) (\<lambda>response.
      let content = (case response of TextResponse content \<Rightarrow> content | CallsResponse content _ \<Rightarrow> content)
      in act_then (push env (Assistant content)) (act_return content))))"

definition state_report ::
  "('e, 'w, 't, 'f::{zero,plus}) turn_env \<Rightarrow> turn_params \<Rightarrow> ('e, 'w, 'f, turn_output) turn_action" where
  "state_report env tp s =
     (case squeeze env tp STATE_REPORT_DIRECTIVE s of
        (Inr report, s') \<Rightarrow> (Inl (MaxIterationsReached (truncate_output report STATE_REPORT_MAX)), s')
      | (Inl e, s') \<Rightarrow>
          (Inl (if e = Cancelled then Cancelled
                else MaxIterationsReached
                  (''(state report unavailable: '' @ turn_error_str (tv_debug env) e @ '')'')), s'))"

definition final_answer ::
  "('e, 'w, 't, 'f::{zero,plus}) turn_env \<Rightarrow> turn_params \<Rightarrow> ('e, 'w, 'f, turn_output) turn_action" where
  "final_answer env tp =
     act_bind (squeeze env tp FINAL_ANSWER_DIRECTIVE) (\<lambda>content. act_return (TurnText content))"

definition budget_exhausted ::
  "('e, 'w, 't, 'f::{zero,plus}) turn_env \<Rightarrow> turn_params \<Rightarrow> ('e, 'w, 'f, turn_output) turn_action" where
  "budget_exhausted env tp =
     act_then (emit ActMaxIterations)
     (case tp_budget tp of FailBudget \<Rightarrow> state_report env tp | FinalAnswer \<Rightarrow> final_answer env tp)"

section \<open>The turn\<close>

fun turn_iterations ::
  "('e, 'w, 't, 'f::{zero,plus}) turn_env \<Rightarrow> turn_params \<Rightarrow> nat list \<Rightarrow> loop_vars
   \<Rightarrow> ('e, 'w, 'f, turn_output) turn_action" where
  "turn_iterations env tp [] lv = budget_exhausted env tp"
| "turn_iterations env tp (iteration # rest) lv =
     act_bind (turn_round env tp iteration lv) (\<lambda>(output, lv').
       case output of Some out \<Rightarrow> act_return out | None \<Rightarrow> turn_iterations env tp rest lv')"

definition turn_loop ::
  "('e, 'w, 't, 'f::{zero,plus}) turn_env \<Rightarrow> turn_params \<Rightarrow> string \<Rightarrow> ('e, 'w, 'f, turn_output) turn_action" where
  "turn_loop env tp user_message =
     act_then (check_cancelled env)
     (act_then (push env (User user_message))
     (turn_iterations env tp [0..<tp_max_iterations tp] initial_vars))"

record 'f turn_meter =
  tm_usage :: "'f turn_usage"
  tm_outcome :: string

definition run_turn_metered ::
  "('e, 'w, 't, 'f::{zero,plus}) turn_env \<Rightarrow> turn_params \<Rightarrow> string \<Rightarrow> 'e \<times> 'w
   \<Rightarrow> (turn_error + turn_output) \<times> 'f turn_meter \<times> ('e, 'w, 'f) turn_state" where
  "run_turn_metered env tp user_message ew =
     (case turn_loop env tp user_message
        \<lparr>ts_engine = fst ew, ts_world = snd ew, ts_events = [], ts_stats = no_stats\<rparr> of
        (r, s) \<Rightarrow> (r, \<lparr>tm_usage = st_usage (ts_stats s), tm_outcome = outcome_label r\<rparr>, s))"

section \<open>Root turns\<close>

text \<open>The pieces of the root system prompt, in the order they are appended.\<close>

definition root_system_prompt ::
  "string \<Rightarrow> string option \<Rightarrow> string option \<Rightarrow> string option \<Rightarrow> string list \<Rightarrow> string" where
  "root_system_prompt base index conventions gates segments =
     (case index of Some ix \<Rightarrow> base @ newline @ ix | None \<Rightarrow> base) @
     (case conventions of Some c \<Rightarrow> c | None \<Rightarrow> []) @
     (case gates of Some g \<Rightarrow> newline @ newline @ g | None \<Rightarrow> []) @
     concat (map (\<lambda>segment. newline @ newline @ segment) segments)"

definition process_message_metered ::
  "('e, 'w, 't, 'f::{zero,plus}) turn_env \<Rightarrow> string \<Rightarrow> string option \<Rightarrow> string option \<Rightarrow> string option
   \<Rightarrow> string list \<Rightarrow> nat \<Rightarrow> string \<Rightarrow> 'e \<times> 'w
   \<Rightarrow> (turn_error + turn_output) \<times> 'f turn_meter \<times> ('e, 'w, 'f) turn_state" where
  "process_message_metered env base index conventions gates segments max_iterations user_message ew =
     run_turn_metered env
       \<lparr>tp_system_prompt = root_system_prompt base index conventions gates segments,
        tp_max_iterations = max_iterations, tp_budget = FailBudget, tp_reply = AcceptReply\<rparr>
       user_message ew"

end
