(* ===== verification/Agent_Guards_Correct.thy ===== *)
theory Agent_Guards_Correct
  imports Agent_Turn
begin

text \<open>
  The guards of a turn against what they promise, stated over whole sequences of rounds and
  results: the counters of \<open>Agent_Guards\<close> are compared with counting in the history.
\<close>

section \<open>Repeated calls\<close>

definition detector_after :: "json_codec \<Rightarrow> tool_call list list \<Rightarrow> repeat_detector" where
  "detector_after js rounds = fold (\<lambda>calls d. snd (record_calls js calls d)) rounds new_detector"

definition streak :: "'a list \<Rightarrow> nat" where
  "streak xs = (case rev xs of [] \<Rightarrow> 0 | x # before \<Rightarrow> Suc (length (takeWhile (\<lambda>y. y = x) before)))"

lemma streak_snoc: "streak (xs @ [x]) = (if xs \<noteq> [] \<and> last xs = x then Suc (streak xs) else 1)"
  by (cases xs rule: rev_cases) (auto simp: streak_def)

lemma detector_counts:
  "detector_after js rounds =
     \<lparr>rd_prev = (if rounds = [] then None else Some (fingerprint js (last rounds))),
      rd_count = streak (map (fingerprint js) rounds)\<rparr>"
proof (induction rounds rule: rev_induct)
  case (snoc calls rounds)
  then show ?case
    by (auto simp: detector_after_def record_calls_def Let_def streak_snoc last_map)
qed (simp add: detector_after_def new_detector_def streak_def)

text \<open>
  C26: A round is refused exactly when it is at least the third in a row asking for the same
  calls: same tools, same arguments up to their JSON value, in the same order. The
  incremental detector agrees with counting the tail of the whole history of rounds.
\<close>

theorem repeats_are_three_in_a_row:
  "fst (record_calls js calls (detector_after js before)) \<longleftrightarrow>
     3 \<le> streak (map (fingerprint js) (before @ [calls]))"
  using detector_counts [of js before]
  by (auto simp: record_calls_def Let_def REPEAT_LIMIT_def streak_snoc last_map)

section \<open>Identical failures\<close>

definition strikes_after :: "json_codec \<Rightarrow> (tool_call \<times> tool_error) list \<Rightarrow> tool_strikes" where
  "strikes_after js failures = fold (\<lambda>(c, e) m. snd (record_strike js c e m)) failures Map.empty"

definition same_failures :: "json_codec \<Rightarrow> tool_call \<times> tool_error \<Rightarrow> (tool_call \<times> tool_error) list \<Rightarrow> nat" where
  "same_failures js x failures = length (filter (\<lambda>y. \<not> is_blocked (snd y)
     \<and> strike_key js (fst y) (snd y) = strike_key js (fst x) (snd x)) failures)"

lemma strikes_count:
  "strikes_after js failures k =
     (let n = length (filter (\<lambda>y. \<not> is_blocked (snd y) \<and> strike_key js (fst y) (snd y) = k) failures)
      in if n = 0 then None else Some n)"
proof (induction failures rule: rev_induct)
  case (snoc y failures)
  then show ?case
    by (auto simp: strikes_after_def record_strike_def bump_def Let_def split: prod.splits option.splits if_splits)
qed (simp add: strikes_after_def)

text \<open>
  The strike counter counts identical failures: the number given to a failure is how
  often this tool, with these arguments up to the order of object keys, has failed this way
  in the turn, itself included; policy blocks are not counted.
\<close>

theorem strikes_count_identical_failures:
  "fst (record_strike js call e (strikes_after js failures)) =
     (if is_blocked e then None else Some (same_failures js (call, e) (failures @ [(call, e)])))"
  using strikes_count [of js failures "strike_key js call e"]
  by (auto simp: record_strike_def bump_def Let_def same_failures_def split: if_splits option.splits)

section \<open>Hints\<close>

definition hints_after ::
  "json_codec \<Rightarrow> (string \<times> string \<times> (string + string)) list \<Rightarrow> string list \<times> hint_tracker" where
  "hints_after js results = fold (\<lambda>(tool, args, result) (hs, t).
     (case observe js tool args result t of (h, t') \<Rightarrow> (hs @ (case h of None \<Rightarrow> [] | Some x \<Rightarrow> [x]), t')))
     results ([], new_tracker)"

lemma hint_text_distinct: "hint_text k = hint_text k' \<longleftrightarrow> k = k'"
  by (cases k; cases k') (simp_all add: hint_text_def ASSERT_HINT_def RERUN_HINT_def STALE_EDIT_HINT_def)

lemma hints_are_fired:
  "fst (hints_after js results) = map hint_text (ht_fired (snd (hints_after js results)))
   \<and> distinct (ht_fired (snd (hints_after js results)))"
proof (induction results rule: rev_induct)
  case (snoc r results)
  obtain tool args result where r: "r = (tool, args, result)" by (metis prod_cases3)
  obtain hs t where h: "hints_after js results = (hs, t)" by fastforce
  have "hint_once t (observe js tool args result t)" by (rule observe_once)
  then show ?case
    using snoc.IH h
    by (cases "observe js tool args result t") (auto simp: hints_after_def r hint_once_def)
qed (simp add: hints_after_def new_tracker_def)

text \<open>
  Corrective hints do not pile up. Over all tool results of a turn each of the three
  hints is given at most once, so at most three are ever added to the context.
\<close>

theorem hints_are_one_shot:
  "distinct (fst (hints_after js results)) \<and> length (fst (hints_after js results)) \<le> 3"
proof -
  let ?ks = "ht_fired (snd (hints_after js results))"
  have ks: "fst (hints_after js results) = map hint_text ?ks" and d: "distinct ?ks"
    using hints_are_fired [of js results] by auto
  have "inj_on hint_text (set ?ks)" by (simp add: inj_on_def hint_text_distinct)
  with d have "distinct (map hint_text ?ks)" by (simp add: distinct_map)
  moreover have "set ?ks \<subseteq> set [Assert, Rerun, StaleEdit]"
    using hint_kind.exhaust by auto
  with d have "length ?ks \<le> length [Assert, Rerun, StaleEdit]"
    by (metis card_mono distinct_card finite_set le_trans card_length)
  ultimately show ?thesis using ks by simp
qed

section \<open>Timeouts\<close>

lemma judged_failure:
  "snd (judge_result env call (Inl e) acc) =
     failure_content (tv_debug env) e (fst (record_strike (tv_json env) call e (rc_strikes acc)))"
  by (simp add: judge_result_def Let_def split: prod.splits)

text \<open>
  The evidence of a timed-out command never reaches the model. Whatever output tail and
  cgroup pressure were captured when the command was killed, the text recorded as the tool
  result is the same: \<open>timeout_notice\<close> replaces the error's own text, although the error
  type documents that a timeout is never a bare ``timed out'' and says what the child was
  doing when it died.
\<close>

theorem timeout_evidence_is_not_recorded:
  "snd (judge_result env call (Inl (Timeout command secs evidence)) acc) =
   snd (judge_result env call (Inl (Timeout command secs other)) acc)"
  by (simp add: judged_failure failure_content_def record_strike_def strike_key_def is_blocked_def bump_def Let_def)

end
