(* ===== verification/Agent_Metering.thy ===== *)
theory Agent_Metering
  imports Agent_Turn
begin

text \<open>
  What a turn costs. \<open>turn_counter\<close> is the interface of a quantity that only completions
  change, each by one step; the loop then takes at most one step per iteration and one for
  the squeeze at the end of the budget. \<open>recorded\<close> runs any environment with a log of the
  exchanges with the provider, on which the interface is interpreted.
\<close>

section \<open>Quantities that completions change\<close>

locale turn_counter =
  fixes env :: "('e, 'w, 't, 'f::{zero,plus}) turn_env"
    and J :: "nat \<Rightarrow> 'w \<Rightarrow> 'f turn_usage \<Rightarrow> bool"
  assumes later: "J n w u \<Longrightarrow> J (Suc n) w u"
    and push_J: "J n w u \<Longrightarrow> tv_push env m (e, w) = (r, e', w') \<Longrightarrow> J n w' u"
    and compact_J: "J n w u \<Longrightarrow> tv_compact_if_urgent env (e, w) = (c, e', w') \<Longrightarrow> J n w' u"
    and request_J: "J n w u \<Longrightarrow> tv_observe_request env ms tools (e, w) = (e', w') \<Longrightarrow> J n w' u"
    and execute_J: "J n w u \<Longrightarrow> tv_execute env calls w = (x, w') \<Longrightarrow> J n w' u"
    and chat_J: "J n w u \<Longrightarrow> tv_chat env session ms tools w = (a, w') \<Longrightarrow>
      J (Suc n) w' (case a of None \<Rightarrow> u | Some (Inl e) \<Rightarrow> add_failed (ce_failed e) u
        | Some (Inr oc) \<Rightarrow> add_call (oc_usage oc) (add_failed (oc_failed oc) u))"
begin

definition at :: "nat \<Rightarrow> ('f turn_usage \<Rightarrow> 'f turn_usage) \<Rightarrow> ('e, 'w, 'f) turn_state \<Rightarrow> bool" where
  "at n g s \<longleftrightarrow> J n (ts_world s) (g (st_usage (ts_stats s)))"

abbreviation now :: "nat \<Rightarrow> ('e, 'w, 'f) turn_state \<Rightarrow> bool" where
  "now n \<equiv> at n (\<lambda>u. u)"

lemma at_later: "at n g s \<Longrightarrow> at (Suc n) g s"
  using later by (simp add: at_def)

lemma at_later_more: "at n g s \<Longrightarrow> n \<le> m \<Longrightarrow> at m g s"
  by (rule dec_induct [of n m "\<lambda>m. at m g s"]) (auto intro: at_later)

lemma keeps_later:
  "hoare (at n g) m (\<lambda>_. at n g) (\<lambda>_. at n g) \<Longrightarrow> n \<le> k \<Longrightarrow> hoare (at n g) m (\<lambda>_. at n g) (\<lambda>_. at k g)"
  by (erule hoare_weaken) (auto intro: at_later_more)

lemma emit_at: "hoare (at n g) (emit a) (\<lambda>_. at n g) E"
  by (simp add: hoare_def emit_def act_simps at_def)

lemma stats_at: "(\<And>t. st_usage (f t) = st_usage t) \<Longrightarrow> hoare (at n g) (stats f) (\<lambda>_. at n g) E"
  by (simp add: hoare_def stats_def act_simps at_def)

lemma usage_at: "hoare (at n (g \<circ> f)) (usage f) (\<lambda>_. at n g) E"
  by (simp add: hoare_def usage_def stats_def act_simps at_def)

lemma push_at: "hoare (at n g) (push env m) (\<lambda>_. at n g) (\<lambda>_. at n g)"
  using push_J by (auto simp: hoare_def push_def engine_call_def at_def split: prod.splits sum.splits)

lemma compact_at: "hoare (at n g) (engine_call (tv_compact_if_urgent env)) (\<lambda>_. at n g) (\<lambda>_. at n g)"
  using compact_J by (auto simp: hoare_def engine_call_def at_def split: prod.splits sum.splits)

lemma request_at:
  "hoare (at n g) (engine_call (\<lambda>ew. (Inr (), tv_observe_request env ms tools ew))) (\<lambda>_. at n g) (\<lambda>_. at n g)"
  using request_J by (auto simp: hoare_def engine_call_def at_def split: prod.splits)

lemma tokens_at:
  "hoare (at n g) (engine_call (\<lambda>(e, w). (Inr (), tv_observe_tokens env k e, w))) (\<lambda>_. at n g) (\<lambda>_. at n g)"
  by (auto simp: hoare_def engine_call_def at_def)

lemma check_at: "hoare (at n g) (check_cancelled env) (\<lambda>_. at n g) (\<lambda>_. at n g)"
  by (auto simp: hoare_def check_cancelled_def act_simps emit_def at_def)

lemma assemble_at: "hoare (at n g) (assemble env prompt) (\<lambda>_. at n g) (\<lambda>_. at n g)"
  by (auto simp: hoare_def assemble_def engine_call_def at_def split: sum.splits)

lemma execute_at: "hoare (at n g) (cancellable (join_all env calls)) (\<lambda>_. at n g) (\<lambda>_. at n g)"
  using execute_J
  by (auto simp: hoare_def cancellable_def join_all_def act_simps emit_def at_def split: prod.splits option.splits)

lemma record_at: "hoare (at n g) (record_tool_results env crs acc) (\<lambda>_. at n g) E"
proof (induction crs arbitrary: acc)
  case (Cons cr crs)
  obtain c r where cr: "cr = (c, r)" by fastforce
  have "at n g (record_result env c r content s)" if "at n g s" for content s
    using that keepsD [OF push_at, of n g]
    by (simp add: record_result_def Let_def) (simp add: at_def)
  with Cons show ?case by (fastforce simp: cr hoare_def split: prod.splits)
qed (simp add: hoare_def)

lemma return_at: "hoare (at n g) (act_return a) (\<lambda>_. at n g) E"
  by (rule hoare_return)

lemma complete_at: "hoare (now n) (complete env prompt tools) (\<lambda>_. now (Suc n)) (\<lambda>_. now (Suc n))"
proof -
  let ?used = "\<lambda>r. case r of Inl e \<Rightarrow> add_failed (ce_failed e)
    | Inr oc \<Rightarrow> add_call (oc_usage oc) \<circ> add_failed (oc_failed oc)"
  have chat: "hoare (now n) (\<lambda>s. cancellable (tv_chat env (tv_active_session env (ts_engine s)) ms tools) s)
      (\<lambda>r. at (Suc n) (?used r)) (\<lambda>_. now (Suc n))" for ms
    using chat_J [where ms = ms and tools = tools]
    by (fastforce simp: hoare_def cancellable_def act_simps emit_def at_def split: prod.splits option.splits sum.splits)
  have failed: "hoare (at (Suc n) (?used (Inl e))) (act_then (usage (add_failed (ce_failed e))) (act_throw err))
      (\<lambda>_. now (Suc n)) (\<lambda>_. now (Suc n))" for e err
    by (rule hoare_then [where R = "now (Suc n)"])
      (auto simp: hoare_def usage_def stats_def act_simps at_def)
  have total: "hoare (at (Suc n) (add_call c \<circ> add_failed fs)) (usage (add_failed fs))
      (\<lambda>_. at (Suc n) (add_call c)) (\<lambda>_. now (Suc n))" for c fs
    by (rule usage_at)
  have billed: "hoare (at (Suc n) (add_call c)) (usage (add_call c)) (\<lambda>_. now (Suc n)) (\<lambda>_. now (Suc n))" for c
    using usage_at [of "Suc n" "\<lambda>u. u" "add_call c" "\<lambda>_. now (Suc n)"] by (simp add: comp_def)
  have seen: "hoare (at (Suc n) g) (case p of None \<Rightarrow> act_return ()
        | Some k \<Rightarrow> act_then (engine_call (\<lambda>(e, w). (Inr (), tv_observe_tokens env k e, w)))
            (stats (\<lambda>t. t\<lparr>st_prompt_tokens := Some k\<rparr>))) (\<lambda>_. at (Suc n) g) E" for p g E
    by (auto simp: hoare_def act_simps engine_call_def stats_def at_def split: option.split)
  have req: "hoare (at (Suc n) g) (engine_call (\<lambda>ew. (Inr (), tv_observe_request env ms tools ew)))
      (\<lambda>_. at (Suc n) g) E" for ms g E
    using request_J by (auto simp: hoare_def engine_call_def at_def split: prod.splits)
  show ?thesis
    unfolding complete_def
  proof (rule hoare_bind [OF keeps_later [OF assemble_at le_SucI [OF order_refl]]], rule hoare_bind [OF chat])
    fix ms r
    show "hoare (at (Suc n) (?used r)) (case r of
         Inl e \<Rightarrow> act_then (usage (add_failed (ce_failed e))) (act_throw (ProviderFailed (ce_error e)))
       | Inr outcome \<Rightarrow> act_then (engine_call (\<lambda>ew. (Inr (), tv_observe_request env ms tools ew)))
         (act_then (usage (add_failed (oc_failed outcome)))
         (act_then (case cu_prompt_tokens (oc_usage outcome) of
              None \<Rightarrow> act_return ()
            | Some k \<Rightarrow> act_then (engine_call (\<lambda>(e, w). (Inr (), tv_observe_tokens env k e, w)))
                          (stats (\<lambda>t. t\<lparr>st_prompt_tokens := Some k\<rparr>)))
         (act_then (usage (add_call (oc_usage outcome))) (act_return (oc_response outcome))))))
       (\<lambda>_. now (Suc n)) (\<lambda>_. now (Suc n))"
      by (cases r) (auto intro!: failed [simplified] hoare_then [OF req] hoare_then [OF total]
          hoare_then [OF seen] hoare_then [OF billed] return_at)
  qed
qed

text \<open>After the completion of a round nothing moves the counter any more.\<close>

lemma throw_at: "hoare (at n g) (act_throw e) Q (\<lambda>_. at n g)"
  by (rule hoare_throw)

lemma each_at: "(\<And>x. hoare (at n g) (f x) (\<lambda>_. at n g) (\<lambda>_. at n g)) \<Longrightarrow>
  hoare (at n g) (act_each f xs) (\<lambda>_. at n g) (\<lambda>_. at n g)"
  by (rule hoare_each)

lemmas at_steps = hoare_then [OF push_at] hoare_then [OF stats_at] hoare_then [OF each_at]
  hoare_bind [OF execute_at] hoare_bind [OF record_at] return_at throw_at push_at emit_at

lemma text_round_at: "hoare (now n) (text_round env tp i lv content) (\<lambda>_. now n) (\<lambda>_. now n)"
  unfolding text_round_def by (intro at_steps hoare_if_state) auto

lemma repeated_round_at: "hoare (now n) (repeated_round env lv calls) (\<lambda>_. now n) (\<lambda>_. now n)"
  unfolding repeated_round_def Let_def by (intro at_steps hoare_if)

lemma policy_step_at: "hoare (now n) (policy_step env lv blocked) (\<lambda>_. now n) (\<lambda>_. now n)"
  unfolding policy_step_def Let_def by (auto intro!: at_steps split: prod.split)

lemma executed_round_at: "hoare (now n) (executed_round env lv calls) (\<lambda>_. now n) (\<lambda>_. now n)"
proof -
  have hints: "hoare (now n) (act_when b (push env m)) (\<lambda>_. now n) (\<lambda>_. now n)" for b m
    by (intro hoare_when push_at)
  show ?thesis
    unfolding executed_round_def Let_def
    by (intro at_steps hoare_then [OF hints]) (auto intro: return_at policy_step_at split: option.split)
qed

lemma calls_round_at: "hoare (now n) (calls_round env lv content calls) (\<lambda>_. now n) (\<lambda>_. now n)"
  unfolding calls_round_def Let_def
  by (auto intro!: at_steps repeated_round_at executed_round_at split: prod.split)

lemma turn_round_at: "hoare (now n) (turn_round env tp i lv) (\<lambda>_. now (Suc n)) (\<lambda>_. now (Suc n))"
proof -
  have event: "hoare (now n) (case ev of None \<Rightarrow> act_return () | Some x \<Rightarrow> emit (f x)) (\<lambda>_. now n) (\<lambda>_. now n)"
    for ev :: "compaction_event option" and f
    by (auto intro: return_at emit_at split: option.split)
  have mid: "hoare (now n) (act_when b (act_then (stats f) (push env m))) (\<lambda>_. now n) (\<lambda>_. now n)"
    if "\<And>t. st_usage (f t) = st_usage t" for b f m
    using that by (intro hoare_when hoare_then [OF stats_at] push_at) simp_all
  have tally: "hoare (now n) (stats (\<lambda>t. t\<lparr>st_iterations := i + 1\<rparr>)) (\<lambda>_. now n) (\<lambda>_. now n)"
    by (rule stats_at) simp
  show ?thesis
    unfolding turn_round_def
    by (intro hoare_then [OF keeps_later [OF check_at]] hoare_then [OF keeps_later [OF tally]]
        hoare_bind [OF keeps_later [OF compact_at]] hoare_then [OF keeps_later [OF event]]
        hoare_then [OF keeps_later [OF mid]] hoare_bind [OF complete_at])
      (auto intro: text_round_at calls_round_at split: response.split)
qed

lemma squeeze_at: "hoare (now n) (squeeze env tp directive) (\<lambda>_. now (Suc n)) (\<lambda>_. now (Suc n))"
proof -
  have mark: "hoare (now n) (stats (\<lambda>t. t\<lparr>st_squeezed := True\<rparr>)) (\<lambda>_. now n) E" for E
    by (rule stats_at) simp
  show ?thesis
    unfolding squeeze_def Let_def
    by (intro hoare_then [OF mark] hoare_then [OF keeps_later [OF push_at]] hoare_bind [OF complete_at] at_steps) simp
qed

lemma budget_exhausted_at: "hoare (now n) (budget_exhausted env tp) (\<lambda>_. now (Suc n)) (\<lambda>_. now (Suc n))"
proof -
  have report: "hoare (now n) (state_report env tp) (\<lambda>_. now (Suc n)) (\<lambda>_. now (Suc n))"
    using squeeze_at [of n tp STATE_REPORT_DIRECTIVE]
    by (fastforce simp: hoare_def state_report_def split: prod.splits sum.splits)
  have final: "hoare (now n) (final_answer env tp) (\<lambda>_. now (Suc n)) (\<lambda>_. now (Suc n))"
    unfolding final_answer_def by (rule hoare_bind [OF squeeze_at return_at])
  show ?thesis
    unfolding budget_exhausted_def
    by (rule hoare_then [OF emit_at]) (simp add: report final split: budget_policy.split)
qed

lemma turn_iterations_at:
  "hoare (now n) (turn_iterations env tp iterations lv) (\<lambda>_. now (n + length iterations + 1))
     (\<lambda>_. now (n + length iterations + 1))"
proof (induction iterations arbitrary: n lv)
  case Nil
  then show ?case using budget_exhausted_at by simp
next
  case (Cons i iterations)
  let ?m = "n + length (i # iterations) + 1"
  have round: "hoare (now n) (turn_round env tp i lv) (\<lambda>_. now (Suc n)) (\<lambda>_. now ?m)"
    by (rule hoare_weaken [OF turn_round_at [of n]]) (auto intro: at_later_more)
  have rest: "hoare (now (Suc n)) (turn_iterations env tp iterations lv') (\<lambda>_. now ?m) (\<lambda>_. now ?m)" for lv'
    using Cons.IH [of "Suc n" lv'] by simp
  have out: "hoare (now (Suc n)) (act_return out) (\<lambda>_. now ?m) E" for out :: turn_output and E
    by (rule hoare_return) (rule at_later_more [of "Suc n"], auto)
  show ?case
    by (simp only: turn_iterations.simps, rule hoare_bind [OF round])
      (auto intro: rest [simplified] out [simplified] split: option.split prod.split)
qed

lemma turn_counts:
  assumes "J 0 w no_usage" and "run_turn_metered env tp user_message (e, w) = (r, meter, s)"
  shows "J (tp_max_iterations tp + 1) (ts_world s) (tm_usage meter)"
proof -
  let ?m = "tp_max_iterations tp + 1"
  have iterations: "hoare (now 0) (turn_iterations env tp [0..<tp_max_iterations tp] initial_vars) (\<lambda>_. now ?m) (\<lambda>_. now ?m)"
    using turn_iterations_at [of 0 tp "[0..<tp_max_iterations tp]"] by simp
  have turn: "hoare (now 0) (turn_loop env tp user_message) (\<lambda>_. now ?m) (\<lambda>_. now ?m)"
    unfolding turn_loop_def
    by (intro hoare_then [OF keeps_later [OF check_at]] hoare_then [OF keeps_later [OF push_at]] iterations) simp_all
  let ?s = "\<lparr>ts_engine = e, ts_world = w, ts_events = [], ts_stats = no_stats\<rparr>"
  have "now 0 ?s" using assms(1) by (simp add: at_def no_stats_def)
  moreover have "turn_loop env tp user_message ?s = (r, s)" and meter: "tm_usage meter = st_usage (ts_stats s)"
    using assms(2) by (auto simp: run_turn_metered_def split: prod.splits)
  ultimately have "case r of Inl err \<Rightarrow> now ?m s | Inr _ \<Rightarrow> now ?m s"
    by (intro hoare_result [OF turn])
  then show ?thesis by (simp add: at_def meter split: sum.splits)
qed

end

section \<open>The log of the exchanges\<close>

record 'f exchange =
  ex_request :: "message list"
  ex_draws :: "'f call_usage list"

text \<open>What a reply bills: the failed draws and the one that succeeded.\<close>

definition draws_of :: "('f chat_error + 'f chat_outcome) option \<Rightarrow> 'f call_usage list" where
  "draws_of a = (case a of None \<Rightarrow> [] | Some (Inl e) \<Rightarrow> ce_failed e
     | Some (Inr oc) \<Rightarrow> oc_failed oc @ [oc_usage oc])"

definition recorded ::
  "('e, 'w, 't, 'f) turn_env \<Rightarrow> ('e, 'w \<times> 'f exchange list, 't, 'f) turn_env" where
  "recorded env =
     \<lparr>tv_push = (\<lambda>m (e, w, xs). case tv_push env m (e, w) of (r, e', w') \<Rightarrow> (r, e', w', xs)),
      tv_compact_if_urgent = (\<lambda>(e, w, xs). case tv_compact_if_urgent env (e, w) of (r, e', w') \<Rightarrow> (r, e', w', xs)),
      tv_assemble = tv_assemble env,
      tv_observe_request = (\<lambda>ms tools (e, w, xs).
         case tv_observe_request env ms tools (e, w) of (e', w') \<Rightarrow> (e', w', xs)),
      tv_observe_tokens = tv_observe_tokens env,
      tv_active_session = tv_active_session env,
      tv_chat = (\<lambda>session ms tools (w, xs). case tv_chat env session ms tools w of (a, w') \<Rightarrow>
         (a, w', xs @ [\<lparr>ex_request = ms, ex_draws = draws_of a\<rparr>])),
      tv_execute = (\<lambda>calls (w, xs). case tv_execute env calls w of (r, w') \<Rightarrow> (r, w', xs)),
      tv_cancelled = (\<lambda>(w, _). tv_cancelled env w),
      tv_tools = tv_tools env, tv_json = tv_json env, tv_regex = tv_regex env, tv_debug = tv_debug env\<rparr>"

definition billed :: "'f::{zero,plus} exchange list \<Rightarrow> 'f turn_usage" where
  "billed xs = fold add_call (concat (map ex_draws xs)) no_usage"

lemma billed_Nil [simp]: "billed [] = no_usage"
  by (simp add: billed_def)

lemma billed_snoc:
  "billed (xs @ [\<lparr>ex_request = ms, ex_draws = ds\<rparr>]) = fold add_call ds (billed xs)"
  by (simp add: billed_def)

lemma calls_of_draws: "tu_calls (fold add_call ds u) = tu_calls u + length ds"
  by (induction ds arbitrary: u) (simp_all add: add_call_def)

lemma billed_calls: "tu_calls (billed xs) = length (concat (map ex_draws xs))"
  by (simp add: billed_def no_usage_def calls_of_draws)

interpretation metered: turn_counter "recorded env"
  "\<lambda>n (w, xs) u. u = billed xs \<and> length xs \<le> n"
  by unfold_locales
    (auto simp: recorded_def billed_snoc draws_of_def add_failed_def split: prod.splits option.splits sum.splits)


end
