(* ===== verification/Context_Engine.thy ===== *)
theory Context_Engine
  imports Message Names
begin

text \<open>
  The interface of a context engine (\<^verbatim>\<open>src/src/context/mod.rs\<close>, trait \<open>ContextEngine\<close>):
  what the agent loop relies on, as a locale over the operations it calls. \<open>view\<close> is the
  history an engine contributes to a provider call after the system prompt, \<open>stored\<close> what
  it keeps of a pushed message, \<open>admissible\<close> the messages it can keep at all. The flat, the
  ephemeral and the LCM engine interpret it. Also here: the parts all engines share, the
  statistics record and the active-session cursor.
\<close>

section \<open>Shared parts\<close>

record context_stats =
  cs_token_estimate :: nat
  cs_budget :: nat
  cs_message_count :: nat

text \<open>The cursor file: \<open>None\<close> when it cannot be read.\<close>

definition read_active_session :: "string option \<Rightarrow> string option" where
  "read_active_session file =
     (case map_option trim file of None \<Rightarrow> None | Some s \<Rightarrow> if s \<noteq> [] then Some s else None)"

definition persist_active_session :: "bool \<Rightarrow> string \<Rightarrow> string option \<Rightarrow> string option" where
  "persist_active_session stored name file = (if stored then Some name else file)"

section \<open>The interface\<close>

locale context_engine =
  fixes inv :: "'s \<Rightarrow> bool"
    and admissible :: "'s \<Rightarrow> message \<Rightarrow> bool"
    and stored :: "'s \<Rightarrow> message \<Rightarrow> message"
    and push :: "message \<Rightarrow> 's \<Rightarrow> 'e + 's"
    and clear :: "'s \<Rightarrow> 's"
    and view :: "'s \<Rightarrow> message list"
    and count :: "'s \<Rightarrow> nat"
  assumes push_ok: "inv s \<Longrightarrow> admissible s m \<Longrightarrow>
      \<exists>s'. push m s = Inr s' \<and> inv s' \<and> view s' = view s @ [stored s m]
        \<and> admissible s' = admissible s \<and> stored s' = stored s"
    and clear_ok: "inv s \<Longrightarrow> inv (clear s) \<and> view (clear s) = []
        \<and> admissible (clear s) = admissible s \<and> stored (clear s) = stored s"
    and count_view: "inv s \<Longrightarrow> count s = length (view s)"
begin

text \<open>Pushing any sequence of admissible messages succeeds and appends them in order.\<close>

lemma pushes_ok:
  assumes "inv s" and "\<And>m. m \<in> set ms \<Longrightarrow> admissible s m"
  shows "\<exists>s'. fold_res push ms s = Inr s' \<and> inv s' \<and> view s' = view s @ map (stored s) ms
    \<and> admissible s' = admissible s \<and> stored s' = stored s"
  using assms
proof (induction ms arbitrary: s)
  case (Cons m ms)
  obtain t where t: "push m s = Inr t" "inv t" "view t = view s @ [stored s m]"
    "admissible t = admissible s" "stored t = stored s"
    using push_ok [OF Cons.prems(1), of m] Cons.prems(2) by auto
  have "\<exists>s'. fold_res push ms t = Inr s' \<and> inv s' \<and> view s' = view t @ map (stored t) ms
      \<and> admissible s' = admissible t \<and> stored s' = stored t"
    using t Cons.prems(2) by (intro Cons.IH) auto
  with t show ?case by auto
qed simp

lemma pushes_count:
  assumes "inv s" and "\<And>m. m \<in> set ms \<Longrightarrow> admissible s m" and "fold_res push ms s = Inr s'"
  shows "count s' = count s + length ms"
proof -
  obtain t where t: "fold_res push ms s = Inr t" "inv t" "view t = view s @ map (stored s) ms"
    using pushes_ok [OF assms(1,2)] by blast
  then have "s' = t" using assms(3) by simp
  with t count_view [OF t(2)] count_view [OF assms(1)] show ?thesis by simp
qed

text \<open>After a clear the history is exactly what is pushed from then on.\<close>

lemma pushes_after_clear:
  assumes "inv s" and "\<And>m. m \<in> set ms \<Longrightarrow> admissible s m"
  shows "\<exists>s'. fold_res push ms (clear s) = Inr s' \<and> inv s' \<and> view s' = map (stored s) ms"
  using pushes_ok [of "clear s" ms] clear_ok [OF assms(1)] assms(2) by auto

end

end
