(* ===== verification/Lcm_Items.thy ===== *)
theory Lcm_Items
  imports Lcm_Compaction
begin

text \<open>
  The context of a conversation as the list of its items in ordinal order, and what the
  statements of compaction do to that list: replacing an ordinal range is \<open>collapse\<close>, a
  push appends. Everything the compaction proofs say about \<open>context_items\<close> rests on these
  few equations. The second half defines which raw messages a context still reaches.
\<close>

section \<open>Items in order\<close>

lemma set_items_of: "set (items_of d c) = {i \<in> set (context_items d). ci_conv i = c}"
  by (auto simp: items_of_def)

lemma wf_item_exists: "wf_items d \<Longrightarrow> i \<in> set (items_of d c) \<Longrightarrow> item_exists d (ci_item i)"
  by (simp add: wf_items_def set_items_of)

lemma distinct_item_keys:
  assumes "distinct (map (\<lambda>i. (ci_conv i, ci_ordinal i)) xs)"
  shows "distinct (map ci_ordinal (filter (\<lambda>i. ci_conv i = c) xs))"
  using assms by (induction xs) (auto simp: image_iff)

lemma sorted_items_of:
  assumes "wf_items d"
  shows "sorted_wrt (<) (map ci_ordinal (items_of d c))"
proof -
  have "distinct (map ci_ordinal (items_of d c))"
    using assms distinct_item_keys [of "context_items d" c]
    by (simp add: items_of_def wf_items_def distinct_map set_sort)
  moreover have "sorted (map ci_ordinal (items_of d c))"
    by (simp add: items_of_def)
  ultimately show ?thesis by (simp add: strict_sorted_iff)
qed

lemma items_of_unique:
  assumes "mset xs = mset (filter (\<lambda>i. ci_conv i = c) (context_items d))"
    and "sorted_wrt (<) (map ci_ordinal xs)"
  shows "items_of d c = xs"
proof -
  have "inj_on ci_ordinal (set xs)"
    using assms(2) by (simp add: strict_sorted_iff distinct_map)
  moreover have "set xs = set (filter (\<lambda>i. ci_conv i = c) (context_items d))"
    using assms(1) by (rule mset_eq_setD)
  ultimately show ?thesis
    unfolding items_of_def
    using assms by (intro sort_key_inj_key_eq) (auto simp: strict_sorted_iff)
qed

lemma items_of_cong: "context_items d' = context_items d \<Longrightarrow> items_of d' c = items_of d c"
  by (simp add: items_of_def)

text \<open>Pushing appends one message item.\<close>

lemma items_of_pushed:
  assumes "wf_db d"
  shows "items_of (pushed_db now c msg lf d) c = items_of d c @ [pushed_item c d]"
proof -
  have "sort_key ci_ordinal (filter (\<lambda>i. ci_conv i = c) (context_items d) @ [pushed_item c d])
      = sort_key ci_ordinal (filter (\<lambda>i. ci_conv i = c) (context_items d)) @ [pushed_item c d]"
    using pushed_item_ordinal [of _ d c] by (intro sort_key_snoc) (fastforce simp: less_imp_le)
  then show ?thesis by (simp add: items_of_def)
qed

lemma items_of_pushed_other:
  "c' \<noteq> c \<Longrightarrow> items_of (pushed_db now c msg lf d) c' = items_of d c'"
  by (simp add: items_of_def)

section \<open>Collapsing a range\<close>

definition summary_item :: "int \<Rightarrow> int \<Rightarrow> string \<Rightarrow> context_item" where
  "summary_item c ord s = \<lparr>ci_conv = c, ci_ordinal = ord, ci_item = SummaryItem s\<rparr>"

lemma summary_item_simps [simp]:
  "ci_conv (summary_item c ord s) = c"
  "ci_ordinal (summary_item c ord s) = ord"
  "ci_item (summary_item c ord s) = SummaryItem s"
  by (simp_all add: summary_item_def)

definition in_range :: "int \<Rightarrow> int \<Rightarrow> context_item \<Rightarrow> bool" where
  "in_range a b i \<longleftrightarrow> a \<le> ci_ordinal i \<and> ci_ordinal i \<le> b"

definition collapse :: "int \<Rightarrow> int \<Rightarrow> context_item \<Rightarrow> context_item list \<Rightarrow> context_item list" where
  "collapse a b new L =
     filter (\<lambda>i. ci_ordinal i < a) L @ [new] @ filter (\<lambda>i. b < ci_ordinal i) L"

lemma mset_outside_range:
  "a \<le> b \<Longrightarrow> mset (filter (\<lambda>i. \<not> in_range a b i) L)
     = mset (filter (\<lambda>i. ci_ordinal i < a) L) + mset (filter (\<lambda>i. b < ci_ordinal i) L)"
  by (induction L) (auto simp: in_range_def)

lemma length_collapse:
  "a \<le> b \<Longrightarrow> length (collapse a b new L) + length (filter (in_range a b) L) = Suc (length L)"
  unfolding collapse_def by (induction L) (auto simp: in_range_def)

lemma set_collapse:
  "set (collapse a b new L) = insert new {i \<in> set L. ci_ordinal i < a \<or> b < ci_ordinal i}"
  by (auto simp: collapse_def)

lemma sorted_collapse:
  assumes "sorted_wrt (<) (map ci_ordinal L)" and "a \<le> b" and "ci_ordinal new = a"
  shows "sorted_wrt (<) (map ci_ordinal (collapse a b new L))"
  using assms
  by (auto simp: collapse_def sorted_wrt_append sorted_wrt_map sorted_wrt_filter)

lemma filter_collapse_after:
  assumes "ci_ordinal new = a" and "b < lo" and "a \<le> b"
  shows "filter (in_range lo hi) (collapse a b new L) = filter (in_range lo hi) L"
proof -
  have "filter (in_range lo hi) (filter (\<lambda>i. ci_ordinal i < a) L) = []"
    using assms by (auto simp: filter_empty_conv in_range_def)
  moreover have "filter (in_range lo hi) (filter (\<lambda>i. b < ci_ordinal i) L) = filter (in_range lo hi) L"
    using assms by (auto simp: in_range_def intro!: filter_cong)
  moreover have "\<not> in_range lo hi new" using assms by (simp add: in_range_def)
  ultimately show ?thesis by (simp add: collapse_def)
qed

lemma items_of_delete_range:
  "items_of (delete_range c a b d) c = filter (\<lambda>i. \<not> in_range a b i) (items_of d c)"
proof -
  have "filter (\<lambda>i. ci_conv i = c) (context_items (delete_range c a b d))
      = filter (\<lambda>i. \<not> in_range a b i) (filter (\<lambda>i. ci_conv i = c) (context_items d))"
    by (auto simp: delete_range_def in_range_def intro!: filter_cong)
  then show ?thesis by (simp add: items_of_def filter_sort)
qed

text \<open>The database after a successful \<open>replace_range\<close>, and the context it leaves.\<close>

definition replaced_db :: "int \<Rightarrow> int \<Rightarrow> int \<Rightarrow> string \<Rightarrow> db \<Rightarrow> db" where
  "replaced_db c a b s d =
     (delete_range c a b d)\<lparr>context_items := context_items (delete_range c a b d) @ [summary_item c a s]\<rparr>"

lemma replaced_db_simps [simp]:
  "messages (replaced_db c a b s d) = messages d"
  "parts (replaced_db c a b s d) = parts d"
  "summaries (replaced_db c a b s d) = summaries d"
  "summary_messages (replaced_db c a b s d) = summary_messages d"
  "summary_parents (replaced_db c a b s d) = summary_parents d"
  "conversations (replaced_db c a b s d) = conversations d"
  "large_files (replaced_db c a b s d) = large_files d"
  "next_message_id (replaced_db c a b s d) = next_message_id d"
  "next_conversation_id (replaced_db c a b s d) = next_conversation_id d"
  by (simp_all add: replaced_db_def delete_range_def)

lemma replace_range_cases:
  "replace_range c a b s d = Inr d' \<Longrightarrow> d' = replaced_db c a b s d"
  by (auto simp: replace_range_def insert_context_item_def replaced_db_def summary_item_def
      split: if_splits)

lemma replace_range_ok:
  assumes "conversation_exists d c" and "summary_exists d s" and "a \<le> b"
  shows "replace_range c a b s d = Inr (replaced_db c a b s d)"
  using assms
  by (auto simp: replace_range_def insert_context_item_def replaced_db_def summary_item_def
      delete_range_def conversation_exists_def summary_exists_def item_exists_def)

lemma items_of_replaced:
  assumes "wf_items d" and "a \<le> b"
  shows "items_of (replaced_db c a b s d) c = collapse a b (summary_item c a s) (items_of d c)"
proof (rule items_of_unique)
  show "sorted_wrt (<) (map ci_ordinal (collapse a b (summary_item c a s) (items_of d c)))"
    using assms by (intro sorted_collapse sorted_items_of) simp_all
  have "mset (filter (\<lambda>i. ci_conv i = c) (context_items (replaced_db c a b s d)))
      = mset (filter (\<lambda>i. \<not> in_range a b i) (items_of d c)) + {#summary_item c a s#}"
    by (simp add: replaced_db_def items_of_delete_range [symmetric]) (simp add: items_of_def)
  then show "mset (collapse a b (summary_item c a s) (items_of d c))
      = mset (filter (\<lambda>i. ci_conv i = c) (context_items (replaced_db c a b s d)))"
    by (simp only: mset_outside_range [OF assms(2)]) (simp add: collapse_def)
qed

lemma items_of_replaced_other:
  "c' \<noteq> c \<Longrightarrow> items_of (replaced_db c a b s d) c' = items_of d c'"
  unfolding items_of_def replaced_db_def delete_range_def
  by (auto intro!: arg_cong [where f = "sort_key ci_ordinal"] filter_cong)

lemma wf_items_replaced:
  assumes "wf_items d" and "conversation_exists d c" and "summary_exists d s" and "0 \<le> a" and "a \<le> b"
  shows "wf_items (replaced_db c a b s d)"
proof -
  have "distinct (map (\<lambda>i. (ci_conv i, ci_ordinal i)) (filter P (context_items d)))" for P
    using assms(1) by (simp add: wf_items_def distinct_map_filter)
  moreover have "item_exists (replaced_db c a b s d) i = item_exists d i" for i
    by (simp add: item_exists_def message_exists_def summary_exists_def split: item.splits)
  moreover have "conversation_exists (replaced_db c a b s d) = conversation_exists d"
    by (simp add: conversation_exists_def fun_eq_iff)
  ultimately show ?thesis
    using assms
    by (auto simp: wf_items_def replaced_db_def delete_range_def item_exists_def)
qed

section \<open>What a context reaches\<close>

inductive covers :: "db \<Rightarrow> string \<Rightarrow> int \<Rightarrow> bool" for d where
  direct: "(s, m) \<in> set (summary_messages d) \<Longrightarrow> covers d s m"
| child: "(ch, s) \<in> set (summary_parents d) \<Longrightarrow> covers d ch m \<Longrightarrow> covers d s m"

inductive_cases covers_cases: "covers d s m"

inductive_simps covers_simp: "covers d s m"

definition item_covers :: "db \<Rightarrow> item \<Rightarrow> int \<Rightarrow> bool" where
  "item_covers d i m = (case i of MessageItem k \<Rightarrow> k = m | SummaryItem s \<Rightarrow> covers d s m)"

text \<open>The raw messages reachable from the active context of conversation \<open>c\<close>.\<close>

definition context_covers :: "db \<Rightarrow> int \<Rightarrow> int \<Rightarrow> bool" where
  "context_covers d c m \<longleftrightarrow> (\<exists>i \<in> set (items_of d c). item_covers d (ci_item i) m)"

lemma covers_mono:
  assumes "covers d s m"
    and "set (summary_messages d) \<subseteq> set (summary_messages d')"
    and "set (summary_parents d) \<subseteq> set (summary_parents d')"
  shows "covers d' s m"
  using assms by induction (auto intro: covers.intros)

lemma item_covers_mono:
  "item_covers d i m \<Longrightarrow> set (summary_messages d) \<subseteq> set (summary_messages d')
   \<Longrightarrow> set (summary_parents d) \<subseteq> set (summary_parents d') \<Longrightarrow> item_covers d' i m"
  by (auto simp: item_covers_def intro: covers_mono split: item.splits)

end
