(* ===== verification/Lcm_Transcript.thy ===== *)
theory Lcm_Transcript
  imports Lcm_Items
begin

text \<open>
  Reading the raw store across sessions (\<^verbatim>\<open>src/src/context/lcm/engine.rs\<close>): the session
  list, each session's tip and undistilled tokens, and the span of a transcript that one
  distillation pass reads. The caller advances its watermark by the number of messages it
  got; with dense sequence numbers that is exactly the position after the span, so passes
  neither skip nor repeat a message.
\<close>

section \<open>Sessions\<close>

record session_info =
  si_name :: string
  si_count :: nat
  si_tokens :: nat

definition conversation_tokens :: "db \<Rightarrow> int \<Rightarrow> int" where
  "conversation_tokens d c = sum_list (map (\<lambda>i. item_tokens d (ci_item i)) (items_of d c))"

definition list_sessions_sync :: "db \<Rightarrow> session_info list" where
  "list_sessions_sync d =
     map (\<lambda>cv. \<lparr>si_name = desanitize_name (cv_name cv),
                si_count = length (items_of d (cv_id cv)),
                si_tokens = nat (conversation_tokens d (cv_id cv))\<rparr>)
       (sort_key cv_name (conversations d))"

text \<open>A \<open>BTreeMap\<close> collected from pairs: a later pair replaces an earlier one.\<close>

definition collect_map :: "('k \<times> 'v) list \<Rightarrow> 'k \<Rightarrow> 'v option" where
  "collect_map ps = map_of (rev ps)"

definition latest_positions_sync :: "db \<Rightarrow> string \<Rightarrow> nat option" where
  "latest_positions_sync d = collect_map (List.map_filter
     (\<lambda>cv. map_option (\<lambda>tip. (desanitize_name (cv_name cv), nat (tip + 1)))
        (max_opt (map mr_seq (filter (\<lambda>r. mr_conv r = cv_id cv) (messages d))))) (conversations d))"

definition i64_max :: int where
  "i64_max = 2 ^ 63 - 1"

text \<open>\<open>i64::try_from(u64).unwrap_or(i64::MAX)\<close>.\<close>

definition clamp_i64 :: "nat \<Rightarrow> int" where
  "clamp_i64 n = min (int n) i64_max"

definition pending_tokens :: "db \<Rightarrow> int \<Rightarrow> int \<Rightarrow> int" where
  "pending_tokens d c watermark =
     sum_list (map mr_tokens (filter (\<lambda>r. mr_conv r = c \<and> watermark \<le> mr_seq r) (messages d)))"

definition pending_distill_tokens_sync :: "db \<Rightarrow> (string \<Rightarrow> nat option) \<Rightarrow> string \<Rightarrow> nat option" where
  "pending_distill_tokens_sync d since = collect_map (List.map_filter
     (\<lambda>cv. let name = desanitize_name (cv_name cv);
              watermark = clamp_i64 (case since name of None \<Rightarrow> 0 | Some n \<Rightarrow> n);
              s = pending_tokens d (cv_id cv) watermark
          in if 0 < s then Some (name, nat s) else None) (conversations d))"

section \<open>One span of a transcript\<close>

text \<open>The first pass over \<open>(seq, token_count)\<close>: the cutoff, and whether any row was kept.\<close>

fun span_cutoff :: "nat \<Rightarrow> (int \<times> int) list \<Rightarrow> bool \<Rightarrow> nat \<Rightarrow> int option \<times> bool" where
  "span_cutoff max_tokens [] kept used = (None, kept)"
| "span_cutoff max_tokens ((sq, tokens) # rows) kept used =
     (if kept \<and> used + nat tokens > max_tokens then (Some sq, kept)
      else span_cutoff max_tokens rows True (used + nat tokens))"

definition transcript_since_sync :: "db \<Rightarrow> string \<Rightarrow> nat \<Rightarrow> nat \<Rightarrow> store_error + message list" where
  "transcript_since_sync d stem after max_tokens =
     (case find_conversation d stem of
        None \<Rightarrow> Inr []
      | Some c \<Rightarrow>
          (let from = clamp_i64 after;
               rows = filter (\<lambda>r. from \<le> mr_seq r) (messages_of d c);
               (cutoff, kept) = span_cutoff max_tokens (map (\<lambda>r. (mr_seq r, mr_tokens r)) rows) False 0
           in if kept then
                map_res (reconstruct_row d)
                  (filter (\<lambda>r. mr_seq r < (case cutoff of None \<Rightarrow> i64_max | Some q \<Rightarrow> q)) rows)
              else Inr []))"

section \<open>Dense positions\<close>

text \<open>Positions of a conversation are \<open>0, 1, .., n - 1\<close>.\<close>

definition dense_seqs :: "db \<Rightarrow> int \<Rightarrow> bool" where
  "dense_seqs d c \<longleftrightarrow>
     map mr_seq (messages_of d c) = map int [0..<length (messages_of d c)]
     \<and> int (length (messages_of d c)) \<le> i64_max"

lemma messages_of_pushed:
  "messages_of (pushed_db now c msg lf d) c = messages_of d c @ [pushed_row now c msg d]"
proof -
  have "sort_key mr_seq (filter (\<lambda>r. mr_conv r = c) (messages d) @ [pushed_row now c msg d])
      = sort_key mr_seq (filter (\<lambda>r. mr_conv r = c) (messages d)) @ [pushed_row now c msg d]"
    using pushed_row_seq [of _ d c now msg] by (intro sort_key_snoc) (fastforce simp: less_imp_le)
  then show ?thesis by (simp add: messages_of_def)
qed

lemma set_messages_of: "set (messages_of d c) = {r \<in> set (messages d). mr_conv r = c}"
  by (auto simp: messages_of_def)

lemma sql_next_dense:
  assumes "set xs = int ` {0..<n}"
  shows "sql_next xs = int n"
proof (cases n)
  case 0
  with assms show ?thesis by (simp add: sql_next_def)
next
  case (Suc k)
  have ne: "xs \<noteq> []" using assms Suc by auto
  have "Max (set xs) = int k"
    unfolding assms Suc by (intro Max_eqI) auto
  moreover have "fold max (tl xs) (hd xs) = Max (set xs)"
    using ne by (metis Max.set_eq_fold list.collapse)
  ultimately show ?thesis using ne Suc by (cases xs) (auto simp: sql_next_def)
qed

lemma dense_seqs_pushed:
  assumes "dense_seqs d c" and "int (length (messages_of d c)) < i64_max"
  shows "dense_seqs (pushed_db now c msg lf d) c"
proof -
  let ?n = "length (messages_of d c)"
  have "set (map mr_seq (filter (\<lambda>r. mr_conv r = c) (messages d))) = set (map mr_seq (messages_of d c))"
    by (simp add: set_messages_of)
  also have "\<dots> = int ` {0..<?n}" using assms(1) by (simp add: dense_seqs_def del: upt_Suc)
  finally have "mr_seq (pushed_row now c msg d) = int ?n"
    by (simp add: pushed_row_def sql_next_dense)
  then show ?thesis
    using assms by (simp add: dense_seqs_def messages_of_pushed)
qed

text \<open>\<open>n\<close> rows are kept: within the budget unless a single row, and as many as fit.\<close>

definition span_ok :: "nat \<Rightarrow> (int \<times> int) list \<Rightarrow> bool \<Rightarrow> nat \<Rightarrow> nat \<Rightarrow> bool" where
  "span_ok max_tokens rows kept used n \<longleftrightarrow>
     n \<le> length rows \<and> (\<not> kept \<and> rows \<noteq> [] \<longrightarrow> 1 \<le> n)
     \<and> (used + sum_list (map (nat \<circ> snd) (take n rows)) \<le> max_tokens \<or> n \<le> (if kept then 0 else 1))
     \<and> (n < length rows \<longrightarrow> max_tokens < used + sum_list (map (nat \<circ> snd) (take (Suc n) rows)))"

definition cutoff_at :: "(int \<times> int) list \<Rightarrow> nat \<Rightarrow> int option" where
  "cutoff_at rows n = (if n < length rows then Some (fst (rows ! n)) else None)"

lemma span_ok_Cons:
  assumes "span_ok max_tokens rows True (used + nat tokens) n" and "\<not> (kept \<and> used + nat tokens > max_tokens)"
  shows "span_ok max_tokens ((sq, tokens) # rows) kept used (Suc n)"
  using assms by (auto simp: span_ok_def)

lemma span_cutoff_spec:
  assumes "span_cutoff max_tokens rows kept used = (cutoff, kept')"
  shows "(kept' \<longleftrightarrow> kept \<or> rows \<noteq> [])
    \<and> (\<exists>n. span_ok max_tokens rows kept used n \<and> cutoff = cutoff_at rows n)"
  using assms
proof (induction max_tokens rows kept used rule: span_cutoff.induct)
  case (1 max_tokens kept used)
  then show ?case by (auto simp: span_ok_def cutoff_at_def)
next
  case (2 max_tokens sq tokens rows kept used)
  show ?case
  proof (cases "kept \<and> used + nat tokens > max_tokens")
    case True
    with 2 show ?thesis by (auto simp: span_ok_def cutoff_at_def intro!: exI [of _ 0])
  next
    case False
    with 2 have "kept'" and "\<exists>n. span_ok max_tokens rows True (used + nat tokens) n \<and> cutoff = cutoff_at rows n"
      by auto
    then obtain n where "span_ok max_tokens rows True (used + nat tokens) n" and "cutoff = cutoff_at rows n"
      by blast
    then have "span_ok max_tokens ((sq, tokens) # rows) kept used (Suc n)"
      and "cutoff = cutoff_at ((sq, tokens) # rows) (Suc n)"
      using span_ok_Cons False by (blast, simp add: cutoff_at_def)
    with \<open>kept'\<close> show ?thesis by auto
  qed
qed

lemma filter_between_nth:
  assumes "map f xs = map int [0..<length xs]"
  shows "filter (\<lambda>x. int a \<le> f x \<and> f x < int b) xs = take (b - a) (drop a xs)"
  using assms
proof (induction xs rule: rev_induct)
  case (snoc x xs)
  then have "map f xs = map int [0..<length xs]" and "f x = int (length xs)" by simp_all
  with snoc.IH show ?case
    by (cases "a \<le> length xs"; cases "length xs < b") (auto simp: take_append drop_append)
qed simp

section \<open>What one span returns\<close>

lemma dense_from:
  assumes "dense_seqs d c" and "after \<le> length (messages_of d c)"
  shows "clamp_i64 after = int after"
    and "filter (\<lambda>r. int after \<le> mr_seq r) (messages_of d c) = drop after (messages_of d c)"
proof -
  let ?rows = "messages_of d c"
  show "clamp_i64 after = int after"
    using assms by (simp add: dense_seqs_def clamp_i64_def)
  have seq: "map mr_seq ?rows = map int [0..<length ?rows]"
    using assms(1) by (simp add: dense_seqs_def)
  have "mr_seq r < int (length ?rows)" if "r \<in> set ?rows" for r
  proof -
    have "mr_seq r \<in> set (map mr_seq ?rows)" using that by simp
    then show ?thesis unfolding seq by auto
  qed
  then have "filter (\<lambda>r. int after \<le> mr_seq r) ?rows
      = filter (\<lambda>r. int after \<le> mr_seq r \<and> mr_seq r < int (length ?rows)) ?rows"
    by (auto intro: filter_cong)
  then show "filter (\<lambda>r. int after \<le> mr_seq r) ?rows = drop after ?rows"
    using filter_between_nth [OF seq, of after "length ?rows"] by simp
qed

lemma dense_upto:
  assumes "dense_seqs d c" and "n \<le> length (messages_of d c) - after"
  shows "filter (\<lambda>r. mr_seq r < (case cutoff_at (map (\<lambda>r. (mr_seq r, mr_tokens r)) (drop after (messages_of d c))) n
      of None \<Rightarrow> i64_max | Some q \<Rightarrow> q)) (filter (\<lambda>r. int after \<le> mr_seq r) (messages_of d c))
    = take n (drop after (messages_of d c))"
proof -
  let ?rows = "messages_of d c"
  have seq: "map mr_seq ?rows = map int [0..<length ?rows]" and len: "int (length ?rows) \<le> i64_max"
    using assms(1) by (simp_all add: dense_seqs_def)
  show ?thesis
  proof (cases "n < length ?rows - after")
    case True
    then have "map mr_seq ?rows ! (after + n) = int (after + n)" unfolding seq by simp
    then have "cutoff_at (map (\<lambda>r. (mr_seq r, mr_tokens r)) (drop after ?rows)) n = Some (int (after + n))"
      using True by (simp add: cutoff_at_def)
    then show ?thesis
      using filter_between_nth [OF seq, of after "after + n"] by (simp add: conj_commute)
  next
    case False
    then have "cutoff_at (map (\<lambda>r. (mr_seq r, mr_tokens r)) (drop after ?rows)) n = None"
      by (simp add: cutoff_at_def)
    moreover have "take n (drop after ?rows) = drop after ?rows" using False by simp
    moreover have "filter (\<lambda>r. int after \<le> mr_seq r \<and> mr_seq r < int (nat i64_max)) ?rows = drop after ?rows"
      unfolding filter_between_nth [OF seq] using len by simp
    moreover have "int (nat i64_max) = i64_max" by (simp add: i64_max_def)
    ultimately show ?thesis by (simp add: conj_commute)
  qed
qed

lemma transcript_since_rows:
  assumes "find_conversation d stem = Some c" and "dense_seqs d c" and "after < length (messages_of d c)"
  obtains n where "1 \<le> n" and "after + n \<le> length (messages_of d c)"
    and "transcript_since_sync d stem after max_tokens
      = map_res (reconstruct_row d) (take n (drop after (messages_of d c)))"
    and "span_ok max_tokens (map (\<lambda>r. (mr_seq r, mr_tokens r)) (drop after (messages_of d c))) False 0 n"
proof -
  let ?rows = "drop after (messages_of d c)"
  let ?pairs = "map (\<lambda>r. (mr_seq r, mr_tokens r)) ?rows"
  obtain cutoff kept where span: "span_cutoff max_tokens ?pairs False 0 = (cutoff, kept)"
    by fastforce
  have "?rows \<noteq> []" using assms(3) by simp
  then obtain n where n: "span_ok max_tokens ?pairs False 0 n" "cutoff = cutoff_at ?pairs n" and "kept"
    using span_cutoff_spec [OF span] by auto
  then have "1 \<le> n" and le: "n \<le> length (messages_of d c) - after"
    using \<open>?rows \<noteq> []\<close> by (auto simp: span_ok_def)
  have "transcript_since_sync d stem after max_tokens = map_res (reconstruct_row d) (take n ?rows)"
    using dense_upto [OF assms(2) le] dense_from [OF assms(2), of after] assms(1,3) span \<open>kept\<close> n(2)
    by (simp add: transcript_since_sync_def Let_def)
  with \<open>1 \<le> n\<close> le n(1) assms(3) show ?thesis by (intro that) auto
qed

end
