(* ===== verification/Flat_Engine.thy ===== *)
theory Flat_Engine
  imports Context_Engine Context_Config Lcm_Summarize Lcm_Transcript
begin

text \<open>
  The flat and the ephemeral engine (\<^verbatim>\<open>src/src/context/flat/mod.rs\<close>, \<open>flat/session.rs\<close>,
  \<open>ephemeral.rs\<close>). The session directory is the list of its \<open>.json\<close> files, each a session or
  \<open>None\<close> when it does not parse; \<open>now\<close> is the clock in seconds. The summarizer acts on the
  outside world \<open>'w\<close>. Failing disk writes and directory reads are not modelled.
\<close>

section \<open>Sessions on disk\<close>

record session =
  se_messages :: "message list"
  se_created :: nat
  se_updated :: nat

definition new_session :: "nat \<Rightarrow> session" where
  "new_session now = \<lparr>se_messages = [], se_created = now, se_updated = now\<rparr>"

definition add_message :: "nat \<Rightarrow> message \<Rightarrow> session \<Rightarrow> session" where
  "add_message now m s = s\<lparr>se_messages := se_messages s @ [m], se_updated := now\<rparr>"

definition compact_session :: "nat \<Rightarrow> message \<Rightarrow> session \<Rightarrow> session" where
  "compact_session now summary s = s\<lparr>se_messages := [summary], se_updated := now\<rparr>"

definition clear_session :: "nat \<Rightarrow> session \<Rightarrow> session" where
  "clear_session now s = s\<lparr>se_messages := [], se_updated := now\<rparr>"

datatype session_error = ParseError

type_synonym session_files = "(string \<times> session option) list"

definition load_session :: "nat \<Rightarrow> session_files \<Rightarrow> string \<Rightarrow> session_error + session" where
  "load_session now files stem =
     (case map_of files stem of
        None \<Rightarrow> Inr (new_session now)
      | Some None \<Rightarrow> Inl ParseError
      | Some (Some s) \<Rightarrow> Inr s)"

text \<open>Writing replaces an existing file or creates one.\<close>

definition put_file :: "string \<Rightarrow> session \<Rightarrow> session_files \<Rightarrow> session_files" where
  "put_file stem s files =
     (if stem \<in> fst ` set files
      then map (\<lambda>(k, v). if k = stem then (k, Some s) else (k, v)) files
      else files @ [(stem, Some s)])"

section \<open>The flat engine\<close>

record flat_session =
  fs_session :: session
  fs_active :: string
  fs_files :: session_files
  fs_cursor :: "string option"
  fs_ctx :: context_config
  fs_observed :: "nat option"

definition FLAT_SUMMARIZE_PROMPT :: string where
  "FLAT_SUMMARIZE_PROMPT = join_with newline
    [''Produce a concise summary of the conversation below. Preserve all '' @
     ''important facts, decisions, tool results, and open questions. Omit '' @
     ''pleasantries and filler. The summary will replace the original '' @
     ''messages, so nothing important should be lost.'', [],
     ''Output requirements:'',
     ''- Plain text only. No preamble, headings, or markdown formatting.'',
     ''- Include a \"Files:\" line tracking file operations (created, '' @
     ''modified, deleted, renamed). Each entry: the path plus a short clause '' @
     ''on why it matters, e.g. \"src/exec.rs (modified: added retry wrapper)\".'',
     ''- If no file operations appear, include exactly: \"Files: none\".'']"

text \<open>\<open>session_path\<close>: the file of a session name.\<close>

definition session_stem :: "string \<Rightarrow> string" where
  "session_stem name = sanitize_name name"

definition flat_new :: "nat \<Rightarrow> context_config \<Rightarrow> string option \<Rightarrow> session_files \<Rightarrow> session_error + flat_session" where
  "flat_new now ctx cursor files =
     (let active_name = (case read_active_session cursor of None \<Rightarrow> ''general'' | Some s \<Rightarrow> s)
      in bind_res (load_session now files (session_stem active_name)) (\<lambda>s.
         Inr \<lparr>fs_session = s, fs_active = active_name, fs_files = files, fs_cursor = cursor,
              fs_ctx = ctx, fs_observed = None\<rparr>))"

definition messages_chars :: "message list \<Rightarrow> nat" where
  "messages_chars ms = sum_list (map char_count ms)"

definition flat_token_estimate :: "flat_session \<Rightarrow> nat \<Rightarrow> nat" where
  "flat_token_estimate f system_prompt_chars =
     estimate_tokens_from_chars (system_prompt_chars + messages_chars (se_messages (fs_session f)))"

definition current_tokens :: "flat_session \<Rightarrow> nat" where
  "current_tokens f = max (flat_token_estimate f 0) (case fs_observed f of None \<Rightarrow> 0 | Some n \<Rightarrow> n)"

definition flat_budget :: "flat_session \<Rightarrow> nat" where
  "flat_budget f = cfg_max_tokens (fs_ctx f) * cfg_budget_percent (fs_ctx f) div 100"

definition do_compact ::
  "nat \<Rightarrow> ('w, 'pe) summarize_fn \<Rightarrow> flat_session \<Rightarrow> 'w
   \<Rightarrow> ('pe + compaction_event option) \<times> flat_session \<times> 'w" where
  "do_compact now summarize f w =
     (if length (se_messages (fs_session f)) < 2 then (Inr None, f, w)
      else
        (let before = current_tokens f;
             (r, w1) = summarize FLAT_SUMMARIZE_PROMPT (se_messages (fs_session f)) w
         in case r of
              Inl e \<Rightarrow> (Inl e, f, w1)
            | Inr summary \<Rightarrow>
                (let f1 = f\<lparr>fs_session := compact_session now (System summary) (fs_session f),
                            fs_observed := None\<rparr>
                 in (Inr (Some \<lparr>ev_before = before, ev_after = flat_token_estimate f1 0\<rparr>), f1, w1))))"

text \<open>Oversized tool output is cut down at push.\<close>

fun stored_message :: "nat \<Rightarrow> message \<Rightarrow> message" where
  "stored_message limit (Tool call_id content) = Tool call_id (truncate_tool_output content limit)"
| "stored_message limit m = m"

definition flat_push :: "nat \<Rightarrow> message \<Rightarrow> flat_session \<Rightarrow> flat_session" where
  "flat_push now m f =
     f\<lparr>fs_session := add_message now (stored_message (cfg_tool_output_tokens (fs_ctx f)) m) (fs_session f)\<rparr>"

definition flat_assemble :: "string \<Rightarrow> flat_session \<Rightarrow> message list" where
  "flat_assemble system_prompt f = System system_prompt # se_messages (fs_session f)"

definition flat_observe_tokens :: "nat \<Rightarrow> flat_session \<Rightarrow> flat_session" where
  "flat_observe_tokens n f = f\<lparr>fs_observed := Some n\<rparr>"

definition flat_compact_if_urgent where
  "flat_compact_if_urgent now summarize f w =
     (if current_tokens f \<le> flat_budget f \<or> length (se_messages (fs_session f)) < 2
      then (Inr None, f, w)
      else do_compact now summarize f w)"

definition flat_force_compact where
  "flat_force_compact now summarize f w =
     (case do_compact now summarize f w of
        (Inl e, f1, w1) \<Rightarrow> (Inl e, f1, w1)
      | (Inr (Some event), f1, w1) \<Rightarrow> (Inr event, f1, w1)
      | (Inr None, f1, w1) \<Rightarrow> (Inr \<lparr>ev_before = 0, ev_after = 0\<rparr>, f1, w1))"

definition flat_clear :: "nat \<Rightarrow> flat_session \<Rightarrow> flat_session" where
  "flat_clear now f = f\<lparr>fs_session := clear_session now (fs_session f), fs_observed := None\<rparr>"

definition flat_save :: "nat \<Rightarrow> flat_session \<Rightarrow> flat_session" where
  "flat_save now f =
     (let s = (fs_session f)\<lparr>se_updated := now\<rparr>
      in f\<lparr>fs_session := s, fs_files := put_file (session_stem (fs_active f)) s (fs_files f)\<rparr>)"

definition flat_stats :: "flat_session \<Rightarrow> context_stats" where
  "flat_stats f = \<lparr>cs_token_estimate = current_tokens f, cs_budget = flat_budget f,
     cs_message_count = length (se_messages (fs_session f))\<rparr>"

definition flat_switch_session :: "nat \<Rightarrow> bool \<Rightarrow> string \<Rightarrow> flat_session \<Rightarrow> (session_error + unit) \<times> flat_session" where
  "flat_switch_session now stored name f =
     (let sanitized = sanitize_name name in
      if sanitized = fs_active f then (Inr (), f)
      else
        (let f1 = flat_save now f
         in case load_session now (fs_files f1) (session_stem sanitized) of
              Inl e \<Rightarrow> (Inl e, f1)
            | Inr s \<Rightarrow> (Inr (), f1\<lparr>fs_session := s, fs_observed := None, fs_active := sanitized,
                fs_cursor := persist_active_session stored sanitized (fs_cursor f1)\<rparr>)))"

section \<open>Listing and reading sessions\<close>

definition active_info :: "flat_session \<Rightarrow> session_info" where
  "active_info f = \<lparr>si_name = fs_active f, si_count = length (se_messages (fs_session f)),
     si_tokens = flat_token_estimate f 0\<rparr>"

definition file_info :: "flat_session \<Rightarrow> string \<times> session option \<Rightarrow> session_info option" where
  "file_info f entry = (case entry of (stem, content) \<Rightarrow>
     (let name = desanitize_name stem in
      if name = fs_active f then Some (active_info f)
      else map_option (\<lambda>s. \<lparr>si_name = name, si_count = length (se_messages s),
             si_tokens = estimate_tokens_from_chars (messages_chars (se_messages s))\<rparr>) content))"

definition flat_list_sessions :: "flat_session \<Rightarrow> session_info list" where
  "flat_list_sessions f =
     (let sessions = List.map_filter (file_info f) (fs_files f);
          sessions' = (if list_ex (\<lambda>s. si_name s = fs_active f) sessions then sessions
                       else sessions @ [active_info f])
      in sort_key si_name sessions')"

text \<open>The message lists that \<open>report\<close> renders: one for every session.\<close>

definition report_sessions :: "flat_session \<Rightarrow> message list list" where
  "report_sessions f =
     (let active = se_messages (fs_session f);
          sessions = List.map_filter (\<lambda>(stem, content). if stem = fs_active f then Some active
                        else map_option se_messages content) (fs_files f)
      in if list_ex (\<lambda>(stem, _). stem = fs_active f) (fs_files f) then sessions
         else sessions @ [active])"

definition session_messages :: "flat_session \<Rightarrow> string \<Rightarrow> message list" where
  "session_messages f name =
     (if name = fs_active f then se_messages (fs_session f)
      else (case load_session 0 (fs_files f) (session_stem name) of
              Inl _ \<Rightarrow> [] | Inr s \<Rightarrow> se_messages s))"

definition flat_latest_positions :: "flat_session \<Rightarrow> string \<Rightarrow> nat option" where
  "flat_latest_positions f = collect_map (List.map_filter
     (\<lambda>info. let n = length (session_messages f (si_name info))
             in if 0 < n then Some (si_name info, n) else None) (flat_list_sessions f))"

definition flat_pending_distill_tokens :: "flat_session \<Rightarrow> (string \<Rightarrow> nat option) \<Rightarrow> string \<Rightarrow> nat option" where
  "flat_pending_distill_tokens f since = collect_map (List.map_filter
     (\<lambda>info. let after = (case since (si_name info) of None \<Rightarrow> 0 | Some n \<Rightarrow> n);
                tokens = estimate_tokens_from_chars
                  (messages_chars (drop after (session_messages f (si_name info))))
            in if 0 < tokens then Some (si_name info, tokens) else None) (flat_list_sessions f))"

fun take_span :: "nat \<Rightarrow> message list \<Rightarrow> message list \<Rightarrow> nat \<Rightarrow> message list" where
  "take_span max_tokens [] out used = out"
| "take_span max_tokens (m # ms) out used =
     (let tokens = estimate_tokens_from_chars (char_count m) in
      if out \<noteq> [] \<and> used + tokens > max_tokens then out
      else take_span max_tokens ms (out @ [m]) (used + tokens))"

definition flat_transcript_since :: "flat_session \<Rightarrow> string \<Rightarrow> nat \<Rightarrow> nat \<Rightarrow> message list" where
  "flat_transcript_since f session after max_tokens =
     take_span max_tokens (drop after (session_messages f session)) [] 0"

section \<open>The ephemeral engine\<close>

record ephemeral_session =
  es_messages :: "message list"
  es_tool_output_tokens :: nat

definition ephemeral_new :: "nat \<Rightarrow> ephemeral_session" where
  "ephemeral_new limit = \<lparr>es_messages = [], es_tool_output_tokens = limit\<rparr>"

definition ephemeral_push :: "message \<Rightarrow> ephemeral_session \<Rightarrow> ephemeral_session" where
  "ephemeral_push m s = s\<lparr>es_messages := es_messages s @ [stored_message (es_tool_output_tokens s) m]\<rparr>"

definition ephemeral_assemble :: "string \<Rightarrow> ephemeral_session \<Rightarrow> message list" where
  "ephemeral_assemble system_prompt s = System system_prompt # es_messages s"

definition ephemeral_force_compact :: "ephemeral_session \<Rightarrow> compaction_event" where
  "ephemeral_force_compact s =
     (let tokens = estimate_messages_tokens (es_messages s) in \<lparr>ev_before = tokens, ev_after = tokens\<rparr>)"

definition ephemeral_clear :: "ephemeral_session \<Rightarrow> ephemeral_session" where
  "ephemeral_clear s = s\<lparr>es_messages := []\<rparr>"

definition ephemeral_stats :: "ephemeral_session \<Rightarrow> context_stats" where
  "ephemeral_stats s = \<lparr>cs_token_estimate = estimate_messages_tokens (es_messages s),
     cs_budget = 2 ^ 64 - 1, cs_message_count = length (es_messages s)\<rparr>"

end
