(* ===== verification/Agent_Env.thy ===== *)
theory Agent_Env
  imports Agent_Turn Flat_Engine
begin

text \<open>
  The agent loop on the ephemeral engine, which is how a sub-agent runs
  (\<^verbatim>\<open>src/src/agent/task.rs\<close>); and a small concrete outside on which statements about turns
  are tried: a model that always asks for the one tool, which a policy blocks.
\<close>

record ('w, 't, 'f) outside =
  os_chat :: "string \<Rightarrow> message list \<Rightarrow> 't list \<Rightarrow> 'w \<Rightarrow> ('f chat_error + 'f chat_outcome) option \<times> 'w"
  os_execute :: "tool_call list \<Rightarrow> 'w \<Rightarrow> (nat \<Rightarrow> tool_error + string) option \<times> 'w"
  os_cancelled :: "'w \<Rightarrow> bool"
  os_tools :: "'t list"
  os_json :: json_codec
  os_regex :: regex_engine
  os_debug :: "string \<Rightarrow> string"

definition ephemeral_env :: "('w, 't, 'f) outside \<Rightarrow> (ephemeral_session, 'w, 't, 'f) turn_env" where
  "ephemeral_env os =
     \<lparr>tv_push = (\<lambda>m (e, w). (Inr (), ephemeral_push m e, w)),
      tv_compact_if_urgent = (\<lambda>(e, w). (Inr None, e, w)),
      tv_assemble = (\<lambda>prompt e. Inr (ephemeral_assemble prompt e)),
      tv_observe_request = (\<lambda>_ _ ew. ew),
      tv_observe_tokens = (\<lambda>_ e. e),
      tv_active_session = (\<lambda>_. ''ephemeral''),
      tv_chat = os_chat os, tv_execute = os_execute os, tv_cancelled = os_cancelled os,
      tv_tools = os_tools os, tv_json = os_json os, tv_regex = os_regex os, tv_debug = os_debug os\<rparr>"

definition sample_outside :: "(unit, unit, nat) outside" where
  "sample_outside =
     \<lparr>os_chat = (\<lambda>_ _ _ w. (Some (Inr \<lparr>oc_response = CallsResponse [] [\<lparr>tc_id = ''k'',
          tc_function = \<lparr>fn_name = ''f'', fn_arguments = []\<rparr>\<rparr>],
        oc_usage = \<lparr>cu_prompt_tokens = Some 7, cu_cached_tokens = None, cu_provider = None,
          cu_completion_tokens = 1, cu_cost = None\<rparr>, oc_failed = []\<rparr>), w)),
      os_execute = (\<lambda>_ w. (Some (\<lambda>_. Inl (Blocked ''f'' ''no'')), w)),
      os_cancelled = (\<lambda>_. False), os_tools = [], os_json = \<lparr>js_parse = (\<lambda>_. None), js_print = (\<lambda>_. [])\<rparr>,
      os_regex = \<lparr>rx_set = (\<lambda>_ _. []), rx_replace_all = (\<lambda>_ _ content. content)\<rparr>, os_debug = (\<lambda>s. s)\<rparr>"

definition sample_turn_env :: "(ephemeral_session, unit, unit, nat) turn_env" where
  "sample_turn_env = ephemeral_env sample_outside"

definition sample_turn :: turn_params where
  "sample_turn = \<lparr>tp_system_prompt = ''p'', tp_max_iterations = 9, tp_budget = FailBudget, tp_reply = AcceptReply\<rparr>"

definition sample_turn_state :: "(ephemeral_session, unit, nat) turn_state" where
  "sample_turn_state = \<lparr>ts_engine = ephemeral_new 9, ts_world = (), ts_events = [], ts_stats = no_stats\<rparr>"

end
