(* ===== verification/Agent_Limits.thy ===== *)
theory Agent_Limits
  imports Agent_Metering Agent_Env
begin

text \<open>
  The limits of a turn: what the guards allow before they end it. \<open>loop_head\<close> collects the
  loop variables with which an iteration can start, so an invariant of it says how far a
  turn that goes on can have come.
\<close>

section \<open>Guards\<close>

definition below :: "nat \<Rightarrow> ('k \<Rightarrow> nat option) \<Rightarrow> bool" where
  "below n m \<longleftrightarrow> (\<forall>k hits. m k = Some hits \<longrightarrow> hits < n)"

definition vars_ok :: "loop_vars \<Rightarrow> bool" where
  "vars_ok lv \<longleftrightarrow> lv_blocked_rounds lv < POLICY_ROUND_LIMIT
     \<and> below POLICY_STRIKE_LIMIT (lv_policy_strikes lv)
     \<and> below STRIKE_HALT (lv_tool_strikes lv)
     \<and> lv_repeat_strikes lv < REPEAT_STRIKE_LIMIT
     \<and> distinct (ht_fired (lv_hints lv))"

lemma below_bump: "below n m \<Longrightarrow> fst (bump k m) < n \<Longrightarrow> below n (snd (bump k m))"
  by (auto simp: below_def bump_simps split: if_splits)

lemma policy_strikes_below:
  "fold policy_strike gs st = (False, m) \<Longrightarrow> below POLICY_STRIKE_LIMIT (snd st)
   \<Longrightarrow> below POLICY_STRIKE_LIMIT m \<and> \<not> fst st"
proof (induction gs arbitrary: st)
  case (Cons g gs)
  obtain n m1 where b: "bump g (snd st) = (n, m1)" by fastforce
  have halted: "fst (fold policy_strike xs st)" if "fst st" for xs st
    using that by (induction xs arbitrary: st) (simp_all add: policy_strike_def split: prod.split)
  have step: "fold policy_strike gs (policy_strike g st) = (False, m)" using Cons.prems(1) by simp
  have "\<not> fst (policy_strike g st)" using halted [of "policy_strike g st" gs] step by auto
  then have n: "\<not> fst st" "n < POLICY_STRIKE_LIMIT" by (simp_all add: policy_strike_def b)
  then have "below POLICY_STRIKE_LIMIT m1"
    using below_bump [OF Cons.prems(2), of g] b by simp
  then have "below POLICY_STRIKE_LIMIT (snd (policy_strike g st))" by (simp add: policy_strike_def b)
  with Cons.IH [OF step] n show ?case by simp
qed simp

lemma policy_round_below:
  "policy_round gs strikes halt = (False, strikes') \<Longrightarrow> below POLICY_STRIKE_LIMIT strikes
   \<Longrightarrow> below POLICY_STRIKE_LIMIT strikes' \<and> \<not> halt"
  using policy_strikes_below [of "sort (remdups gs)" "(halt, strikes)"] by (simp add: policy_round_def)

lemma judge_result_ok:
  assumes "judge_result env call result acc = (acc', content)"
    and "distinct (ht_fired (rc_tracker acc))"
    and "rc_halt acc = None \<longrightarrow> below STRIKE_HALT (rc_strikes acc)"
  shows "distinct (ht_fired (rc_tracker acc'))
    \<and> (rc_halt acc' = None \<longrightarrow> rc_halt acc = None \<and> below STRIKE_HALT (rc_strikes acc'))"
proof -
  obtain hint tracker where obs: "observe (tv_json env) (fn_name (tc_function call)) (fn_arguments (tc_function call))
      (case result of Inl e \<Rightarrow> Inl (tool_error_str (tv_debug env) e) | Inr output \<Rightarrow> Inr output)
      (rc_tracker acc) = (hint, tracker)"
    by fastforce
  have "distinct (ht_fired tracker)"
    using observe_once [of "rc_tracker acc" "tv_json env" "fn_name (tc_function call)"
        "fn_arguments (tc_function call)"
        "case result of Inl e \<Rightarrow> Inl (tool_error_str (tv_debug env) e) | Inr output \<Rightarrow> Inr output"]
      assms(2)
    unfolding obs hint_once_def by auto
  moreover have "below STRIKE_HALT m \<Longrightarrow> record_strike js c e m = (h, m')
      \<Longrightarrow> (case h of None \<Rightarrow> True | Some n \<Rightarrow> n < STRIKE_HALT) \<Longrightarrow> below STRIKE_HALT m'" for js c e m h m'
    using below_bump [of STRIKE_HALT m "strike_key js c e"]
    by (auto simp: record_strike_def split: if_splits prod.splits)
  ultimately show ?thesis
    using assms(1,3)
    by (auto simp: judge_result_def Let_def obs split: sum.splits prod.splits option.splits if_splits)
qed

lemma record_results_ok:
  assumes "record_tool_results env crs acc s = (Inr rc, s')"
    and "distinct (ht_fired (rc_tracker acc))"
    and "rc_halt acc = None \<longrightarrow> below STRIKE_HALT (rc_strikes acc)"
  shows "distinct (ht_fired (rc_tracker rc)) \<and> (rc_halt rc = None \<longrightarrow> below STRIKE_HALT (rc_strikes rc))"
  using assms
proof (induction env crs acc s rule: record_tool_results.induct)
  case (2 env call result rest acc s)
  obtain acc1 content where j: "judge_result env call result acc = (acc1, content)" by fastforce
  show ?case
    using judge_result_ok [OF j 2(3,4)] 2(2) by (intro 2(1) [OF j [symmetric] refl]) (auto simp: j)
qed simp

section \<open>Rounds that go on\<close>

text \<open>A round that does not end the turn leaves variables with \<open>P\<close>.\<close>

definition goes_on :: "(loop_vars \<Rightarrow> bool) \<Rightarrow> ('e, 'w, 'f) round_action \<Rightarrow> bool" where
  "goes_on P m \<longleftrightarrow> hoare (\<lambda>_. True) m (\<lambda>(out, lv) _. out = None \<longrightarrow> P lv) (\<lambda>_ _. True)"

lemma goes_on_then: "goes_on P n \<Longrightarrow> goes_on P (act_then m n)"
  unfolding goes_on_def by (rule hoare_then [OF hoare_trivial])

lemma goes_on_bind: "(\<And>a. goes_on P (f a)) \<Longrightarrow> goes_on P (act_bind m f)"
  unfolding goes_on_def by (rule hoare_bind [OF hoare_trivial])

lemma goes_on_return: "(out = None \<Longrightarrow> P lv) \<Longrightarrow> goes_on P (act_return (out, lv))"
  unfolding goes_on_def by (rule hoare_return) simp

lemma goes_on_throw: "goes_on P (act_throw e)"
  unfolding goes_on_def by (rule hoare_throw) simp

lemma goes_on_if_state: "goes_on P m \<Longrightarrow> goes_on P n \<Longrightarrow> goes_on P (\<lambda>s. if b s then m s else n s)"
  unfolding goes_on_def by (rule hoare_if_state)

lemma goes_onD: "goes_on P m \<Longrightarrow> m s = (Inr (None, lv), s') \<Longrightarrow> P lv"
  unfolding goes_on_def by (drule hoare_result [where s = s]) auto

lemmas goes_on_steps = goes_on_then goes_on_bind goes_on_throw

lemma policy_step_ok:
  assumes "vars_ok lv"
  shows "goes_on vars_ok (policy_step env lv blocked)"
proof (cases "blocked = []")
  case True
  with assms show ?thesis by (simp add: policy_step_def goes_on_return)
next
  case False
  let ?rounds = "lv_blocked_rounds lv + 1"
  obtain halt strikes where p: "policy_round (map snd blocked) (lv_policy_strikes lv) (?rounds \<ge> POLICY_ROUND_LIMIT)
      = (halt, strikes)"
    by fastforce
  have "vars_ok (lv\<lparr>lv_blocked_rounds := ?rounds, lv_policy_strikes := strikes\<rparr>)" if "\<not> halt"
    using policy_round_below [of _ _ _ strikes] p that assms by (fastforce simp: vars_ok_def)
  then show ?thesis
    unfolding policy_step_def Let_def p using False
    by (auto intro!: goes_on_then goes_on_return)
qed

lemma executed_round_ok:
  assumes "vars_ok lv"
  shows "goes_on vars_ok (executed_round env lv calls)"
proof -
  have recorded: "hoare (\<lambda>_. True) (record_tool_results env crs
      \<lparr>rc_halt = None, rc_hints = [], rc_strikes = lv_tool_strikes lv, rc_tracker = lv_hints lv\<rparr>)
      (\<lambda>rc _. distinct (ht_fired (rc_tracker rc)) \<and> (rc_halt rc = None \<longrightarrow> below STRIKE_HALT (rc_strikes rc)))
      (\<lambda>_ _. True)" for crs
  proof (rule hoareI)
    fix s rc s'
    assume "record_tool_results env crs
      \<lparr>rc_halt = None, rc_hints = [], rc_strikes = lv_tool_strikes lv, rc_tracker = lv_hints lv\<rparr> s = (Inr rc, s')"
    from record_results_ok [OF this] assms
    show "distinct (ht_fired (rc_tracker rc)) \<and> (rc_halt rc = None \<longrightarrow> below STRIKE_HALT (rc_strikes rc))"
      by (simp add: vars_ok_def)
  qed simp
  have after: "goes_on vars_ok (case rc_halt rc of
        Some halt \<Rightarrow> act_return (Some halt, lv\<lparr>lv_tool_strikes := rc_strikes rc, lv_hints := rc_tracker rc\<rparr>)
      | None \<Rightarrow> policy_step env (lv\<lparr>lv_tool_strikes := rc_strikes rc, lv_hints := rc_tracker rc\<rparr>) blocked)"
    if "distinct (ht_fired (rc_tracker rc)) \<and> (rc_halt rc = None \<longrightarrow> below STRIKE_HALT (rc_strikes rc))" for rc blocked
    using that assms
    by (auto intro!: goes_on_return policy_step_ok simp: vars_ok_def split: option.split)
  show ?thesis
    unfolding executed_round_def Let_def
    apply (intro goes_on_then, rule goes_on_bind)
    unfolding goes_on_def
    by (rule hoare_pure [OF recorded]) (intro after [unfolded goes_on_def] hoare_then [OF hoare_trivial])
qed

lemma calls_round_ok:
  assumes "vars_ok lv"
  shows "goes_on vars_ok (calls_round env lv content calls)"
proof -
  obtain rep det where r: "record_calls (tv_json env) calls (lv_repeats lv) = (rep, det)" by fastforce
  have one: "goes_on vars_ok (repeated_round env (lv\<lparr>lv_repeats := det\<rparr>) calls)"
    using assms unfolding repeated_round_def Let_def
    by (auto intro!: goes_on_steps goes_on_return simp: vars_ok_def)
  have "vars_ok (lv\<lparr>lv_repeats := det, lv_repeat_strikes := 0\<rparr>)"
    using assms by (simp add: vars_ok_def REPEAT_STRIKE_LIMIT_def)
  then have two: "goes_on vars_ok (executed_round env (lv\<lparr>lv_repeats := det, lv_repeat_strikes := 0\<rparr>) calls)"
    by (rule executed_round_ok)
  show ?thesis
    unfolding calls_round_def r Let_def using one two by (auto intro!: goes_on_then)
qed

lemma turn_round_goes_on:
  assumes "P lv" and "\<And>content calls. goes_on P (calls_round env lv content calls)"
  shows "goes_on P (turn_round env tp i lv)"
proof -
  have "goes_on P (text_round env tp i lv content)" for content
    unfolding text_round_def
    by (intro goes_on_then goes_on_if_state goes_on_return) (simp_all add: assms(1))
  then show ?thesis
    unfolding turn_round_def
    by (intro goes_on_steps) (auto intro: assms(2) split: response.split)
qed

lemma turn_round_ok: "vars_ok lv \<Longrightarrow> goes_on vars_ok (turn_round env tp i lv)"
  by (intro turn_round_goes_on calls_round_ok)

inductive loop_head ::
  "('e, 'w, 't, 'f::{zero,plus}) turn_env \<Rightarrow> turn_params \<Rightarrow> nat \<Rightarrow> loop_vars \<Rightarrow> bool"
  for env tp where
  start: "loop_head env tp 0 initial_vars"
| round: "loop_head env tp i lv \<Longrightarrow> turn_round env tp i lv s = (Inr (None, lv'), s') \<Longrightarrow>
    loop_head env tp (Suc i) lv'"

lemma initial_ok: "vars_ok initial_vars"
  by (simp add: vars_ok_def initial_vars_def below_def POLICY_ROUND_LIMIT_def REPEAT_STRIKE_LIMIT_def new_tracker_def)

text \<open>
  C14: A turn that goes on has not exhausted any guard. Before every iteration, whatever the
  model, the tools and the engine did: fewer than four rounds were blocked, no rule has
  blocked twice, no call has failed identically five times, at most one round in a row was
  refused as a repetition, and no hint was given twice.
\<close>

theorem guards_bound_the_turn:
  assumes "loop_head env tp i lv"
  shows "lv_blocked_rounds lv < 4
    \<and> (\<forall>rule hits. lv_policy_strikes lv rule = Some hits \<longrightarrow> hits < 2)
    \<and> (\<forall>failure hits. lv_tool_strikes lv failure = Some hits \<longrightarrow> hits < 5)
    \<and> lv_repeat_strikes lv < 2 \<and> distinct (ht_fired (lv_hints lv))"
proof -
  from assms have "vars_ok lv"
    by (induction rule: loop_head.induct) (auto intro: initial_ok goes_onD [OF turn_round_ok])
  then show ?thesis
    by (auto simp: vars_ok_def below_def POLICY_ROUND_LIMIT_def POLICY_STRIKE_LIMIT_def STRIKE_HALT_def
        REPEAT_STRIKE_LIMIT_def)
qed

lemma sample_calm: "\<not> assertion_failed ''Blocked: f (no)''"
  by code_simp

lemma sample_round:
  "\<exists>lv s. turn_round sample_turn_env sample_turn 0 initial_vars sample_turn_state = (Inr (None, lv), s)
    \<and> lv_blocked_rounds lv = 1"
  by (simp add: turn_round_def act_simps check_cancelled_def sample_turn_env_def ephemeral_env_def
      sample_outside_def emit_def stats_def usage_def engine_call_def push_def complete_def assemble_def
      cancellable_def sample_turn_def calls_round_def record_calls_def initial_vars_def new_detector_def
      REPEAT_LIMIT_def executed_round_def join_all_def policy_step_def policy_round_def blocked_of_def
      policy_strike_def bump_def POLICY_ROUND_LIMIT_def POLICY_STRIKE_LIMIT_def judge_result_def
      record_strike_def is_blocked_def List.map_filter_simps Let_def observe_def observe_assert_def sample_calm)

theorem guards_bound_the_turn_witness:
  "\<exists>lv. loop_head sample_turn_env sample_turn 1 lv \<and> lv_blocked_rounds lv = 1 \<and> lv_repeat_strikes lv < 2"
proof -
  obtain lv s where round: "turn_round sample_turn_env sample_turn 0 initial_vars sample_turn_state = (Inr (None, lv), s)"
    and blocked: "lv_blocked_rounds lv = 1"
    using sample_round by blast
  have head: "loop_head sample_turn_env sample_turn 1 lv"
    using loop_head.round [OF loop_head.start round] by simp
  from guards_bound_the_turn [OF head] blocked head show ?thesis by blast
qed

end
