(* ===== verification/Agent_Stuck.thy ===== *)
theory Agent_Stuck
  imports Agent_Limits
begin

text \<open>
  A model that keeps asking for the same calls. The repeat detector lets a set of calls run
  twice, refuses it twice and ends the turn, so such a turn costs four completions whatever
  its budget.
\<close>

section \<open>Errors of the steps\<close>

definition in_budget :: "turn_error \<Rightarrow> bool" where
  "in_budget e \<longleftrightarrow> (case e of MaxIterationsReached _ \<Rightarrow> False | _ \<Rightarrow> True)"

definition calm :: "('a \<Rightarrow> bool) \<Rightarrow> ('e, 'w, 'f, 'a) turn_action \<Rightarrow> bool" where
  "calm R m \<longleftrightarrow> hoare (\<lambda>_. True) m (\<lambda>a _. R a) (\<lambda>e _. in_budget e)"

lemma calm_then: "calm (\<lambda>_. True) m \<Longrightarrow> calm R n \<Longrightarrow> calm R (act_then m n)"
  unfolding calm_def by (rule hoare_then [where R = "\<lambda>_. True"])

lemma calm_bind: "calm S m \<Longrightarrow> (\<And>a. S a \<Longrightarrow> calm R (f a)) \<Longrightarrow> calm R (act_bind m f)"
  unfolding calm_def by (rule hoare_pure)

lemma calm_return: "R a \<Longrightarrow> calm R (act_return a)"
  unfolding calm_def by (rule hoare_return) simp

lemma calm_throw: "in_budget e \<Longrightarrow> calm R (act_throw e)"
  unfolding calm_def by (rule hoare_throw) simp

lemma calm_engine_call: "calm (\<lambda>_. True) (engine_call f)"
  unfolding calm_def
  by (auto simp: hoare_def engine_call_def in_budget_def split: prod.splits sum.splits)

lemma calm_steps:
  "calm (\<lambda>_. True) (push env m)" "calm (\<lambda>_. True) (emit a)" "calm (\<lambda>_. True) (stats f)"
  "calm (\<lambda>_. True) (usage g)" "calm (\<lambda>_. True) (check_cancelled env)" "calm (\<lambda>_. True) (assemble env prompt)"
  "calm (\<lambda>_. True) (cancellable h)"
  unfolding push_def assemble_def
  by (rule calm_engine_call,
      auto simp: calm_def hoare_def emit_def stats_def usage_def act_simps check_cancelled_def in_budget_def
        engine_call_def cancellable_def split: sum.splits option.splits prod.splits)

lemma calm_each: "(\<And>x. calm (\<lambda>_. True) (f x)) \<Longrightarrow> calm (\<lambda>_. True) (act_each f xs)"
  by (induction xs) (auto intro: calm_return calm_then)

lemma calm_when: "calm (\<lambda>_. True) m \<Longrightarrow> calm (\<lambda>_. True) (act_when b m)"
  by (simp add: act_when_def calm_return)

lemma calm_record: "calm (\<lambda>_. True) (record_tool_results env crs acc)"
proof -
  have "\<exists>rc s'. record_tool_results env crs acc s = (Inr rc, s')" for s
    by (induction env crs acc s rule: record_tool_results.induct) (auto split: prod.split)
  then show ?thesis
    unfolding calm_def by (intro hoare_returns) simp
qed

section \<open>The rounds of a stuck model\<close>

definition asks :: "json_codec \<Rightarrow> (string \<times> json) list \<Rightarrow> response \<Rightarrow> bool" where
  "asks js fp r \<longleftrightarrow> (case r of CallsResponse _ calls \<Rightarrow> fingerprint js calls = fp | TextResponse _ \<Rightarrow> False)"

definition stuck :: "('e, 'w, 't, 'f) turn_env \<Rightarrow> (string \<times> json) list \<Rightarrow> bool" where
  "stuck env fp \<longleftrightarrow> (\<forall>session ms tools w oc w'.
     tv_chat env session ms tools w = (Some (Inr oc), w') \<longrightarrow> asks (tv_json env) fp (oc_response oc))"

text \<open>After \<open>k\<close> rounds: how often the calls were seen, and how often in a row refused.\<close>

definition stage :: "(string \<times> json) list \<Rightarrow> nat \<Rightarrow> loop_vars \<Rightarrow> bool" where
  "stage fp k lv \<longleftrightarrow>
     (if k = 0 then rd_prev (lv_repeats lv) = None
      else rd_prev (lv_repeats lv) = Some fp \<and> rd_count (lv_repeats lv) = k)
     \<and> lv_repeat_strikes lv = k - 2"

definition no_text :: "turn_output option \<Rightarrow> bool" where
  "no_text out \<longleftrightarrow> (case out of Some (TurnText _) \<Rightarrow> False | _ \<Rightarrow> True)"

lemma no_text_None [simp]: "no_text None"
  by (simp add: no_text_def)

text \<open>The result of a round of stage \<open>k\<close>: the next stage, or an end that is not a text.\<close>

definition moves :: "(string \<times> json) list \<Rightarrow> nat \<Rightarrow> turn_output option \<times> loop_vars \<Rightarrow> bool" where
  "moves fp k r \<longleftrightarrow> (case r of
     (None, lv) \<Rightarrow> k < 3 \<and> stage fp (Suc k) lv
   | (Some out, _) \<Rightarrow> no_text (Some out))"

lemma complete_asks:
  assumes "stuck env fp"
  shows "calm (asks (tv_json env) fp) (complete env prompt tools)"
proof -
  have chat: "calm (\<lambda>r. case r of Inl _ \<Rightarrow> True | Inr oc \<Rightarrow> asks (tv_json env) fp (oc_response oc))
      (\<lambda>s. cancellable (tv_chat env (tv_active_session env (ts_engine s)) ms tools) s)" for ms
    using assms
    by (fastforce simp: calm_def hoare_def cancellable_def act_simps emit_def in_budget_def stuck_def
        split: prod.splits option.splits sum.splits)
  have seen: "calm (\<lambda>_. True) (case p of None \<Rightarrow> act_return () | Some k \<Rightarrow> act_then (engine_call (f k)) (stats (g k)))"
    for p :: "nat option" and f :: "nat \<Rightarrow> 'a \<times> 'b \<Rightarrow> (engine_failure + unit) \<times> 'a \<times> 'b" and g
    by (auto intro: calm_return calm_then calm_engine_call calm_steps split: option.split)
  show ?thesis
    unfolding complete_def
    by (rule calm_bind [OF calm_steps(6)], rule calm_bind [OF chat])
      (auto intro!: calm_then calm_steps calm_engine_call seen calm_return calm_throw
        simp: in_budget_def split: sum.split)
qed

lemma policy_step_moves:
  "stage fp (Suc k) lv \<Longrightarrow> k < 3 \<Longrightarrow> calm (moves fp k) (policy_step env lv blocked)"
  unfolding policy_step_def Let_def
  by (auto intro!: calm_return calm_then calm_steps simp: moves_def stage_def no_text_def split: prod.split)

lemma judge_no_text: "no_text (rc_halt acc) \<Longrightarrow> no_text (rc_halt (fst (judge_result env call result acc)))"
  by (auto simp: judge_result_def Let_def no_text_def split: prod.splits sum.splits option.splits)

lemma executed_round_moves:
  assumes "stage fp (Suc k) lv" and "k < 2"
  shows "calm (moves fp k) (executed_round env lv calls)"
proof -
  have halts: "calm (\<lambda>rc. no_text (rc_halt rc))
      (record_tool_results env crs acc)"
    if "no_text (rc_halt acc)" for crs acc
  proof -
    have "\<exists>rc s'. record_tool_results env crs acc s = (Inr rc, s')
        \<and> no_text (rc_halt rc)" for s
      using that
    proof (induction env crs acc s rule: record_tool_results.induct)
      case (2 env call result rest acc s)
      obtain a c where j: "judge_result env call result acc = (a, c)" by fastforce
      have "no_text (rc_halt a)"
        using judge_no_text [OF 2(2), of env call result] by (simp add: j)
      from 2(1) [OF j [symmetric] refl this] show ?case by (simp add: j)
    qed simp
    then show ?thesis
      unfolding calm_def by (rule hoare_returns)
  qed
  have after: "calm (moves fp k) (case rc_halt rc of
        Some halt \<Rightarrow> act_return (Some halt, lv\<lparr>lv_tool_strikes := a, lv_hints := b\<rparr>)
      | None \<Rightarrow> policy_step env (lv\<lparr>lv_tool_strikes := a, lv_hints := b\<rparr>) blocked)"
    if "no_text (rc_halt rc)" for rc a b blocked
  proof (cases "rc_halt rc")
    case None
    have "stage fp (Suc k) (lv\<lparr>lv_tool_strikes := a, lv_hints := b\<rparr>)"
      using assms(1) by (simp add: stage_def)
    with None assms(2) show ?thesis by (simp add: policy_step_moves)
  next
    case (Some halt)
    with that show ?thesis by (auto intro!: calm_return simp: moves_def)
  qed
  show ?thesis
    unfolding executed_round_def Let_def
    by (intro calm_then calm_steps calm_each, rule calm_bind [OF calm_steps(7)], rule calm_bind [OF halts])
      (auto intro!: calm_then calm_when calm_steps after)
qed

lemma repeated_round_moves:
  assumes "stage fp (Suc k) (lv\<lparr>lv_repeat_strikes := Suc (lv_repeat_strikes lv)\<rparr>)" and "k = 2 \<or> k = 3"
  shows "calm (moves fp k) (repeated_round env lv calls)"
  using assms unfolding repeated_round_def Let_def
  by (auto intro!: calm_then calm_each calm_steps calm_return calm_throw
      simp: moves_def stage_def in_budget_def REPEAT_STRIKE_LIMIT_def)

lemma calls_round_moves:
  assumes "stage fp k lv" and "k \<le> 3" and "fingerprint (tv_json env) calls = fp"
  shows "calm (moves fp k) (calls_round env lv content calls)"
proof -
  have det: "record_calls (tv_json env) calls (lv_repeats lv) = (2 \<le> k, \<lparr>rd_prev = Some fp, rd_count = Suc k\<rparr>)"
    using assms by (cases "k = 0") (auto simp: record_calls_def stage_def REPEAT_LIMIT_def)
  have strikes: "lv_repeat_strikes lv = k - 2" using assms(1) by (simp add: stage_def)
  let ?lv = "lv\<lparr>lv_repeats := \<lparr>rd_prev = Some fp, rd_count = Suc k\<rparr>\<rparr>"
  show ?thesis
  proof (cases "2 \<le> k")
    case True
    have "stage fp (Suc k) (?lv\<lparr>lv_repeat_strikes := Suc (lv_repeat_strikes ?lv)\<rparr>)"
      using True strikes by (simp add: stage_def)
    with True assms(2) show ?thesis
      unfolding calls_round_def det Let_def
      by (auto intro!: calm_then calm_steps repeated_round_moves)
  next
    case False
    have "stage fp (Suc k) (?lv\<lparr>lv_repeat_strikes := 0\<rparr>)"
      using False by (simp add: stage_def)
    with False show ?thesis
      unfolding calls_round_def det Let_def
      by (auto intro!: calm_then calm_steps executed_round_moves)
  qed
qed

lemma turn_round_moves:
  assumes "stuck env fp" and "stage fp k lv" and "k \<le> 3"
  shows "calm (moves fp k) (turn_round env tp i lv)"
proof -
  have event: "calm (\<lambda>_. True) (case ev of None \<Rightarrow> act_return () | Some x \<Rightarrow> emit (f x))"
    for ev :: "compaction_event option" and f
    by (auto intro: calm_return calm_steps split: option.split)
  have response: "calm (moves fp k) (case r of TextResponse content \<Rightarrow> text_round env tp i lv content
      | CallsResponse content calls \<Rightarrow> calls_round env lv content calls)"
    if "asks (tv_json env) fp r" for r
    using that calls_round_moves [OF assms(2,3)] by (auto simp: asks_def split: response.splits)
  show ?thesis
    unfolding turn_round_def
    by (intro calm_then calm_steps calm_bind [OF calm_engine_call] event calm_when
        calm_bind [OF complete_asks [OF assms(1)]] response)
qed

text \<open>Four rounds at most, each one exchange.\<close>

lemma round_bounded:
  assumes "stuck (recorded env) fp" and "stage fp k lv" and "k \<le> 3"
  shows "hoare (metered.now k) (turn_round (recorded env) tp i lv)
    (\<lambda>r s. moves fp k r \<and> metered.now (Suc k) s) (\<lambda>e s. in_budget e \<and> metered.now (Suc k) s)"
  using hoare_conj [OF turn_round_moves [OF assms, unfolded calm_def, of tp i]
      metered.turn_round_at [of k env tp i lv]] by simp

lemma stuck_iterations:
  fixes env :: "('e, 'w, 't, 'f::{zero,plus}) turn_env"
  assumes "stuck (recorded env) fp"
  shows "stage fp k lv \<Longrightarrow> k \<le> 3 \<Longrightarrow> 4 \<le> k + length iterations \<Longrightarrow>
    hoare (metered.now k) (turn_iterations (recorded env) tp iterations lv)
      (\<lambda>out s. no_text (Some out) \<and> metered.now 4 s) (\<lambda>e s. in_budget e \<and> metered.now 4 s)"
proof (induction iterations arbitrary: k lv)
  case (Cons i iterations)
  have late: "metered.now (Suc k) s \<Longrightarrow> metered.now 4 s" for s :: "('e, 'w \<times> 'f exchange list, 'f) turn_state"
    using metered.at_later_more [of "Suc k" _ s 4] Cons.prems(2) by simp
  have rest: "hoare (\<lambda>s. moves fp k r \<and> metered.now (Suc k) s)
      (case r of (output, lv') \<Rightarrow> case output of Some out \<Rightarrow> act_return out
        | None \<Rightarrow> turn_iterations (recorded env) tp iterations lv')
      (\<lambda>out s. no_text (Some out) \<and> metered.now 4 s) (\<lambda>e s. in_budget e \<and> metered.now 4 s)" for r
  proof (cases r)
    case (Pair ended lv')
    show ?thesis
    proof (cases ended)
      case None
      show ?thesis
      proof (cases "k < 3 \<and> stage fp (Suc k) lv'")
        case True
        then have "hoare (metered.now (Suc k)) (turn_iterations (recorded env) tp iterations lv')
            (\<lambda>out s. no_text (Some out) \<and> metered.now 4 s) (\<lambda>e s. in_budget e \<and> metered.now 4 s)"
          using Cons.prems by (intro Cons.IH) auto
        then show ?thesis by (auto simp: Pair None intro: hoare_weaken)
      next
        case False
        then show ?thesis by (auto simp: Pair None moves_def hoare_def)
      qed
    next
      case (Some out)
      then show ?thesis by (auto simp: Pair moves_def intro!: hoare_return late)
    qed
  qed
  show ?case
    by (simp only: turn_iterations.simps,
        rule hoare_bind [OF hoare_weaken [OF round_bounded [OF assms Cons.prems(1,2)]] rest])
      (auto intro: late)
qed simp

lemma stuck_recorded: "stuck env fp \<Longrightarrow> stuck (recorded env) fp"
  by (fastforce simp: stuck_def recorded_def split: prod.splits)

text \<open>
  C15: A model that repeats itself cannot burn the budget. If every reply asks for the same
  calls (same tools, same parsed arguments), a turn with at least four iterations ends after
  at most four completions: refused as making no progress, halted by a guard, or with the
  first error, but never by exhausting its iterations and never with a text.
\<close>

theorem stuck_model_stops:
  assumes "stuck env fp" and "4 \<le> tp_max_iterations tp"
    and "run_turn_metered (recorded env) tp user_message (e, (w, [])) = (result, meter, s)"
  shows "(\<forall>report. result \<noteq> Inl (MaxIterationsReached report)) \<and> (\<forall>reply. result \<noteq> Inr (TurnText reply))
    \<and> length (snd (ts_world s)) \<le> 4"
proof -
  let ?s = "\<lparr>ts_engine = e, ts_world = (w, []), ts_events = [], ts_stats = no_stats\<rparr>"
  have calm: "hoare (metered.now 0) m (\<lambda>_. metered.now 0) (\<lambda>_. metered.now 0) \<Longrightarrow> calm (\<lambda>_. True) m \<Longrightarrow>
      hoare (metered.now 0) m (\<lambda>_. metered.now 0) (\<lambda>e s. in_budget e \<and> metered.now 4 s)"
    for m :: "('e, 'w \<times> 'f::{zero,plus} exchange list, 'f, unit) turn_action"
    unfolding calm_def
    by (drule (1) hoare_conj, erule hoare_weaken) (auto intro: metered.at_later_more)
  have "stage fp 0 initial_vars" by (simp add: stage_def initial_vars_def new_detector_def)
  then have turn: "hoare (metered.now 0) (turn_loop (recorded env) tp user_message)
      (\<lambda>out s. no_text (Some out) \<and> metered.now 4 s) (\<lambda>e s. in_budget e \<and> metered.now 4 s)"
    unfolding turn_loop_def
    using assms(2)
    by (intro hoare_then [OF calm [OF metered.check_at calm_steps(5)]]
        hoare_then [OF calm [OF metered.push_at calm_steps(1)]]
        stuck_iterations [OF stuck_recorded [OF assms(1)]]) simp_all
  have "metered.now 0 ?s" by (simp add: metered.at_def no_stats_def)
  moreover have "turn_loop (recorded env) tp user_message ?s = (result, s)"
    using assms(3) by (auto simp: run_turn_metered_def split: prod.splits)
  ultimately have "case result of Inl e \<Rightarrow> in_budget e \<and> metered.now 4 s
      | Inr out \<Rightarrow> no_text (Some out) \<and> metered.now 4 s"
    by (intro hoare_result [OF turn])
  then show ?thesis
    by (auto simp: in_budget_def no_text_def metered.at_def split: sum.splits prod.splits)
qed

theorem stuck_model_stops_witness:
  "\<exists>result meter s. run_turn_metered (recorded sample_turn_env) sample_turn [] (ephemeral_new 9, ((), []))
      = (result, meter, s) \<and> length (snd (ts_world s)) \<le> 4"
proof -
  have stuck: "stuck sample_turn_env [(''f'', JString [])]"
    by (simp add: stuck_def sample_turn_env_def ephemeral_env_def sample_outside_def asks_def fingerprint_def)
  have budget: "4 \<le> tp_max_iterations sample_turn" by (simp add: sample_turn_def)
  obtain result meter s where
    run: "run_turn_metered (recorded sample_turn_env) sample_turn [] (ephemeral_new 9, ((), [])) = (result, meter, s)"
    by (metis prod_cases3)
  from stuck_model_stops [OF stuck budget run] run show ?thesis by simp
qed

end
