(* ===== verification/Agent_Protocol.thy ===== *)
theory Agent_Protocol
  imports Agent_Turn
begin

text \<open>
  The message protocol of a turn. A provider accepts a history only if every message with
  tool calls is followed by their results, in order, before anything else. \<open>turn_log\<close> is
  the interface the agent loop needs for that: an engine whose history (as \<open>shape\<close>s) grows
  by what is pushed, in which recording a tool result does not fail. The loop then keeps the protocol at every completion and at the end of
  the turn, unless it is cancelled between the calls and their results.
\<close>

section \<open>Shapes\<close>

datatype shape = Said | Asked "string list" | Answered string

fun shape_of :: "message \<Rightarrow> shape" where
  "shape_of (ToolCalls _ calls) = (if calls = [] then Said else Asked (map tc_id calls))"
| "shape_of (Tool call_id _) = Answered call_id"
| "shape_of _ = Said"

text \<open>The ids still to be answered, or \<open>None\<close> when the history breaks the protocol.\<close>

fun shape_step :: "shape \<Rightarrow> string list option \<Rightarrow> string list option" where
  "shape_step Said (Some []) = Some []"
| "shape_step (Asked ids) (Some []) = Some ids"
| "shape_step (Answered k) (Some (j # ks)) = (if k = j then Some ks else None)"
| "shape_step _ _ = None"

definition outstanding :: "shape list \<Rightarrow> string list option" where
  "outstanding xs = fold shape_step xs (Some [])"

lemma outstanding_snoc: "outstanding (xs @ [x]) = shape_step x (outstanding xs)"
  by (simp add: outstanding_def)

definition settled :: "shape list \<Rightarrow> bool" where
  "settled xs \<longleftrightarrow> outstanding xs = Some []"

section \<open>The interface\<close>

locale turn_log =
  fixes env :: "('e, 'w, 't, 'f::{zero,plus}) turn_env"
    and log :: "'e \<Rightarrow> shape list"
    and ok :: "'e \<Rightarrow> bool"
    and served :: "'w \<Rightarrow> bool"
  assumes push_log: "ok e \<Longrightarrow> tv_push env m (e, w) = (r, e', w') \<Longrightarrow>
      ok e' \<and> log e' = (case r of Inl _ \<Rightarrow> log e | Inr _ \<Rightarrow> log e @ [shape_of m]) \<and> (served w \<longrightarrow> served w')"
    and push_result: "ok e \<Longrightarrow> tv_push env (Tool k content) (e, w) \<noteq> (Inl x, e', w')"
    and compact_log: "ok e \<Longrightarrow> tv_compact_if_urgent env (e, w) = (c, e', w') \<Longrightarrow>
      ok e' \<and> log e' = log e \<and> (served w \<longrightarrow> served w')"
    and request_log: "ok e \<Longrightarrow> tv_observe_request env ms tools (e, w) = (e', w') \<Longrightarrow>
      ok e' \<and> log e' = log e \<and> (served w \<longrightarrow> served w')"
    and tokens_log: "ok e \<Longrightarrow> ok (tv_observe_tokens env n e) \<and> log (tv_observe_tokens env n e) = log e"
    and chat_served: "ok e \<Longrightarrow> served w \<Longrightarrow> settled (log e) \<Longrightarrow> tv_assemble env prompt e = Inr ms \<Longrightarrow>
      served (snd (tv_chat env session ms tools w))"
    and execute_served: "served w \<Longrightarrow> served (snd (tv_execute env calls w))"
begin

definition waiting :: "string list \<Rightarrow> ('e, 'w, 'f) turn_state \<Rightarrow> bool" where
  "waiting ks s \<longleftrightarrow> ok (ts_engine s) \<and> served (ts_world s) \<and> outstanding (log (ts_engine s)) = Some ks"

definition stopped :: "turn_error \<Rightarrow> ('e, 'w, 'f) turn_state \<Rightarrow> bool" where
  "stopped err s \<longleftrightarrow> ok (ts_engine s) \<and> served (ts_world s) \<and> (err = Cancelled \<or> waiting [] s)"

lemma waiting_stopped: "waiting [] s \<Longrightarrow> stopped err s"
  by (simp add: stopped_def waiting_def)

lemma waiting_cancelled: "waiting ks s \<Longrightarrow> stopped Cancelled s"
  by (simp add: stopped_def waiting_def)

named_theorems waiting_rules

lemma emit_waiting [waiting_rules]: "hoare (waiting ks) (emit a) (\<lambda>_. waiting ks) E"
  by (auto simp: emit_def hoare_def act_simps waiting_def)

lemma stats_waiting [waiting_rules]: "hoare (waiting ks) (stats f) (\<lambda>_. waiting ks) E"
  by (auto simp: stats_def hoare_def act_simps waiting_def)

lemma usage_waiting [waiting_rules]: "hoare (waiting ks) (usage f) (\<lambda>_. waiting ks) E"
  by (simp add: usage_def stats_waiting)

lemma push_waiting:
  assumes "shape_step (shape_of m) (Some ks) = Some js"
  shows "hoare (waiting ks) (push env m) (\<lambda>_. waiting js) (\<lambda>_. waiting ks)"
proof (rule hoareI)
  fix s e s'
  assume "waiting ks s" and "push env m s = (Inl e, s')"
  then show "waiting ks s'"
    using push_log [of "ts_engine s" m "ts_world s"]
    by (auto simp: push_def engine_call_def waiting_def split: prod.splits sum.splits)
next
  fix s a s'
  assume "waiting ks s" and "push env m s = (Inr a, s')"
  then show "waiting js s'"
    using assms push_log [of "ts_engine s" m "ts_world s"]
    by (auto simp: push_def engine_call_def waiting_def outstanding_snoc split: prod.splits sum.splits)
qed

lemma push_said [waiting_rules]:
  assumes "shape_of m = Said"
  shows "hoare (waiting []) (push env m) (\<lambda>_. waiting []) stopped"
  using push_waiting [of m "[]" "[]"] assms by (auto intro: hoare_weaken waiting_stopped)

lemma push_asked: "hoare (waiting []) (push env (ToolCalls c calls)) (\<lambda>_. waiting (map tc_id calls)) stopped"
  using push_waiting [of "ToolCalls c calls" "[]"]
  by (cases "calls = []") (auto intro: hoare_weaken waiting_stopped)

lemma push_answered: "hoare (waiting (k # ks)) (push env (Tool k c)) (\<lambda>_. waiting ks) E"
proof (rule hoareI)
  fix s e s'
  assume "waiting (k # ks) s" and "push env (Tool k c) s = (Inl e, s')"
  then show "E e s'"
    using push_result [of "ts_engine s" k c "ts_world s"]
    by (auto simp: push_def engine_call_def waiting_def split: prod.splits sum.splits)
next
  fix s a s'
  assume "waiting (k # ks) s" and "push env (Tool k c) s = (Inr a, s')"
  then show "waiting ks s'"
    using hoare_result [OF push_waiting [of "Tool k c" "k # ks" ks]] by fastforce
qed

lemma refuse_each:
  "hoare (waiting (map tc_id calls)) (act_each (\<lambda>call. push env (Tool (tc_id call) (shown call))) calls) (\<lambda>_. waiting []) E"
proof (induction calls)
  case (Cons call calls)
  show ?case by (simp, rule hoare_then [OF push_answered Cons.IH])
qed (simp add: hoare_return)

lemma check_cancelled_waiting: "hoare (waiting ks) (check_cancelled env) (\<lambda>_. waiting ks) stopped"
  by (auto simp: hoare_def check_cancelled_def act_simps emit_def waiting_def stopped_def)

lemma execute_waiting:
  "hoare (waiting ks) (cancellable (join_all env calls))
     (\<lambda>results s. length results = length calls \<and> waiting ks s) stopped"
proof -
  have "served w \<Longrightarrow> tv_execute env calls w = (f, w') \<Longrightarrow> served w'" for w f w'
    using execute_served [of w calls] by simp
  then show ?thesis
    by (auto simp: hoare_def cancellable_def join_all_def act_simps emit_def waiting_def stopped_def
        split: prod.splits option.splits)
qed

lemma record_waiting:
  "length results = length calls \<Longrightarrow>
   hoare (waiting (map tc_id calls)) (record_tool_results env (zip calls results) acc) (\<lambda>_. waiting []) E"
proof (induction calls arbitrary: results acc)
  case Nil
  then show ?case by (simp add: hoare_def)
next
  case (Cons call calls)
  then obtain r rs where results: "results = r # rs" "length rs = length calls"
    by (cases results) auto
  have one: "waiting (map tc_id calls) (record_result env call r content s)"
    if "waiting (map tc_id (call # calls)) s" for content s
  proof -
    let ?s = "s\<lparr>ts_events := ts_events s @ [ActToolEnd (fn_name (tc_function call))
      (case r of Inl e \<Rightarrow> Some (tool_error_str (tv_debug env) e) | Inr _ \<Rightarrow> None)]\<rparr>"
    have w: "waiting (map tc_id (call # calls)) ?s" using that by (simp add: waiting_def)
    obtain q s' where q: "push env (Tool (tc_id call) content) ?s = (q, s')" by fastforce
    have "case q of Inl e \<Rightarrow> False | Inr _ \<Rightarrow> waiting (map tc_id calls) s'"
      using hoare_result [OF push_answered [where E = "\<lambda>_ _. False"] _ q] w by simp
    then have "waiting (map tc_id calls) s'" by (simp split: sum.splits)
    then show ?thesis by (simp add: record_result_def Let_def q)
  qed
  show ?case
    unfolding results zip_Cons_Cons
    using Cons.IH [OF results(2)] one
    by (fastforce simp: hoare_def split: prod.splits)
qed

lemma complete_waiting: "hoare (waiting []) (complete env prompt tools) (\<lambda>_. waiting []) stopped"
proof -
  have asm: "hoare (waiting []) (assemble env prompt)
      (\<lambda>ms s. waiting [] s \<and> tv_assemble env prompt (ts_engine s) = Inr ms) stopped"
    by (auto simp: hoare_def assemble_def engine_call_def waiting_def stopped_def split: sum.splits)
  have chat: "hoare (\<lambda>s. waiting [] s \<and> tv_assemble env prompt (ts_engine s) = Inr ms)
      (\<lambda>s. cancellable (tv_chat env (tv_active_session env (ts_engine s)) ms tools) s)
      (\<lambda>_. waiting []) stopped" for ms
    using chat_served [where tools = tools and prompt = prompt and ms = ms]
    by (auto simp: hoare_def cancellable_def act_simps emit_def waiting_def stopped_def settled_def
        split: prod.splits option.splits; metis snd_conv)
  have req: "hoare (waiting []) (engine_call (\<lambda>ew. (Inr (), tv_observe_request env ms tools ew)))
      (\<lambda>_. waiting []) stopped" for ms
    using request_log [where ms = ms and tools = tools]
    by (auto simp: hoare_def engine_call_def waiting_def split: prod.splits)
  have tok: "hoare (waiting []) (engine_call (\<lambda>(e, w). (Inr (), tv_observe_tokens env n e, w)))
      (\<lambda>_. waiting []) stopped" for n
    using tokens_log [where n = n] by (auto simp: hoare_def engine_call_def waiting_def)
  have throw: "hoare (waiting []) (act_throw e) Q stopped" for e and Q :: "'z \<Rightarrow> _"
    by (rule hoare_throw) (rule waiting_stopped)
  have ret: "hoare (waiting []) (act_return a) (\<lambda>_. waiting []) E" for a E
    by (rule hoare_return)
  show ?thesis
    unfolding complete_def
    apply (rule hoare_bind [OF asm])
    apply (rule hoare_bind [OF chat])
    apply (split sum.split option.split)
    by (auto intro!: hoare_then [OF usage_waiting] hoare_then [OF req] hoare_then [OF tok] throw ret
        hoare_then [OF hoare_then [OF tok]] stats_waiting split: option.split
        intro: hoare_then [where R = "waiting []"])
qed

lemma return_waiting: "hoare (waiting []) (act_return a) (\<lambda>_. waiting []) stopped"
  by (rule hoare_return)

lemma throw_waiting: "hoare (waiting []) (act_throw e) Q stopped"
  by (rule hoare_throw) (rule waiting_stopped)

lemma text_round_waiting: "hoare (waiting []) (text_round env tp i lv content) (\<lambda>_. waiting []) stopped"
  unfolding text_round_def
  by (intro hoare_then [OF push_said] hoare_if_state hoare_then [OF stats_waiting] return_waiting) auto

lemma repeated_round_waiting:
  "hoare (waiting (map tc_id calls)) (repeated_round env lv calls) (\<lambda>_. waiting []) stopped"
  unfolding repeated_round_def Let_def
  by (intro hoare_then [OF refuse_each] hoare_if throw_waiting return_waiting)

lemma policy_step_waiting: "hoare (waiting []) (policy_step env lv blocked) (\<lambda>_. waiting []) stopped"
  unfolding policy_step_def Let_def
  by (auto intro!: return_waiting hoare_then [OF push_said] split: prod.split)

lemma executed_round_waiting:
  "hoare (waiting (map tc_id calls)) (executed_round env lv calls) (\<lambda>_. waiting []) stopped"
proof -
  have starts: "hoare (waiting ks) (act_each (\<lambda>call. emit (f call)) cs) (\<lambda>_. waiting ks) stopped" for f ks cs
    by (rule hoare_each) (rule emit_waiting)
  have recorded: "hoare (\<lambda>s. length results = length calls \<and> waiting (map tc_id calls) s)
      (record_tool_results env (zip calls results) acc) (\<lambda>_. waiting []) stopped" for results acc
    using record_waiting [of results calls acc] by (auto simp: hoare_def)
  have hints: "hoare (waiting []) (act_when b (push env (System shown))) (\<lambda>_. waiting []) stopped" for b shown
    by (intro hoare_when push_said) simp_all
  show ?thesis
    unfolding executed_round_def Let_def
    by (intro hoare_then [OF stats_waiting] hoare_then [OF starts] hoare_bind [OF execute_waiting]
        hoare_bind [OF recorded] hoare_then [OF hints])
      (auto intro: return_waiting policy_step_waiting split: option.split)
qed

lemma calls_round_waiting: "hoare (waiting []) (calls_round env lv content calls) (\<lambda>_. waiting []) stopped"
  unfolding calls_round_def Let_def
  by (auto intro!: hoare_then [OF push_asked] repeated_round_waiting executed_round_waiting split: prod.split)

lemma turn_round_waiting: "hoare (waiting []) (turn_round env tp i lv) (\<lambda>_. waiting []) stopped"
proof -
  have compact: "hoare (waiting []) (engine_call (tv_compact_if_urgent env)) (\<lambda>_. waiting []) stopped"
    using compact_log
    by (fastforce simp: hoare_def engine_call_def waiting_def stopped_def split: prod.splits sum.splits)
  have event: "hoare (waiting []) (case ev of None \<Rightarrow> act_return () | Some x \<Rightarrow> emit (f x)) (\<lambda>_. waiting []) stopped"
    for ev :: "compaction_event option" and f
    by (auto intro: return_waiting emit_waiting split: option.split)
  have mid: "hoare (waiting []) (act_when b (act_then (stats f) (push env (System shown)))) (\<lambda>_. waiting []) stopped"
    for b f shown
    by (intro hoare_when hoare_then [OF stats_waiting] push_said) simp_all
  show ?thesis
    unfolding turn_round_def
    by (intro hoare_then [OF check_cancelled_waiting] hoare_then [OF stats_waiting] hoare_bind [OF compact]
        hoare_then [OF event] hoare_then [OF mid] hoare_bind [OF complete_waiting])
      (auto intro: text_round_waiting calls_round_waiting split: response.split)
qed

lemma squeeze_waiting: "hoare (waiting []) (squeeze env tp directive) (\<lambda>_. waiting []) stopped"
  unfolding squeeze_def Let_def
  by (intro hoare_then [OF stats_waiting] hoare_then [OF push_said] hoare_bind [OF complete_waiting] return_waiting)
    simp_all

lemma budget_exhausted_waiting: "hoare (waiting []) (budget_exhausted env tp) (\<lambda>_. waiting []) stopped"
proof -
  have report: "hoare (waiting []) (state_report env tp) (\<lambda>_. waiting []) stopped"
    using squeeze_waiting [of tp STATE_REPORT_DIRECTIVE]
    by (fastforce simp: hoare_def state_report_def stopped_def waiting_def split: prod.splits sum.splits if_splits)
  have final: "hoare (waiting []) (final_answer env tp) (\<lambda>_. waiting []) stopped"
    unfolding final_answer_def by (rule hoare_bind [OF squeeze_waiting return_waiting])
  show ?thesis
    unfolding budget_exhausted_def
    by (rule hoare_then [OF emit_waiting]) (simp add: report final split: budget_policy.split)
qed

lemma turn_iterations_waiting: "hoare (waiting []) (turn_iterations env tp iterations lv) (\<lambda>_. waiting []) stopped"
proof (induction iterations arbitrary: lv)
  case (Cons i iterations)
  show ?case
    by (simp, rule hoare_bind [OF turn_round_waiting])
      (auto intro: return_waiting Cons.IH split: option.split prod.split)
qed (simp add: budget_exhausted_waiting)

lemma turn_keeps_protocol:
  assumes "ok e" and "served w" and "settled (log e)"
    and "run_turn_metered env tp user_message (e, w) = (r, meter, s)"
  shows "served (ts_world s) \<and> (settled (log (ts_engine s)) \<or> r = Inl Cancelled)"
proof -
  have turn: "hoare (waiting []) (turn_loop env tp user_message) (\<lambda>_. waiting []) stopped"
    unfolding turn_loop_def
    by (intro hoare_then [OF check_cancelled_waiting] hoare_then [OF push_said] turn_iterations_waiting) simp
  let ?s = "\<lparr>ts_engine = e, ts_world = w, ts_events = [], ts_stats = no_stats\<rparr>"
  have "waiting [] ?s" using assms(1-3) by (simp add: waiting_def settled_def)
  moreover have "turn_loop env tp user_message ?s = (r, s)"
    using assms(4) by (auto simp: run_turn_metered_def split: prod.splits)
  ultimately have "case r of Inl err \<Rightarrow> stopped err s | Inr _ \<Rightarrow> waiting [] s"
    by (rule hoare_result [OF turn])
  then show ?thesis
    by (auto simp: stopped_def waiting_def settled_def split: sum.splits)
qed

end

end
