(* ===== verification/Lcm_Chunks.thy ===== *)
theory Lcm_Chunks
  imports Lcm_Items
begin

text \<open>
  What the two chunk loaders choose. A leaf chunk is a non-empty contiguous segment of the
  message items before the protected tail; it never contains the pinned message, and it
  exceeds the token budget only when it is a single message; the chunks together are all the
  eligible messages but the pinned one, in order. A condensed chunk is a contiguous segment
  of the context: summaries of one depth, at least the fanout many, within the budget.
\<close>

section \<open>Leaf chunks\<close>

definition row_of :: "db \<Rightarrow> chunk_row \<Rightarrow> int \<times> message_row \<Rightarrow> bool" where
  "row_of d row x \<longleftrightarrow>
     cr_ordinal row = fst x \<and> cr_message_id row = mr_id (snd x) \<and> cr_tokens row = mr_tokens (snd x)
     \<and> cr_created row = mr_created (snd x) \<and> reconstruct_row d (snd x) = Inr (cr_message row)"

definition leaf_segment :: "db \<Rightarrow> (int \<times> message_row) list \<Rightarrow> leaf_chunk \<Rightarrow> bool" where
  "leaf_segment d whole ch \<longleftrightarrow>
     (\<exists>pre mid post. whole = pre @ mid @ post \<and> list_all2 (row_of d) ch mid)"

definition leaf_within :: "int \<Rightarrow> leaf_chunk \<Rightarrow> bool" where
  "leaf_within budget ch \<longleftrightarrow> ch \<noteq> [] \<and> (length ch = 1 \<or> sum_list (map cr_tokens ch) \<le> budget)"

definition leaf_tail :: "db \<Rightarrow> (int \<times> message_row) list \<Rightarrow> leaf_chunk \<Rightarrow> bool" where
  "leaf_tail d whole ch \<longleftrightarrow> (\<exists>pre mid. whole = pre @ mid \<and> list_all2 (row_of d) ch mid)"

text \<open>The loop invariant: what has been read, the finished chunks, the chunk being filled.\<close>

definition leaf_inv ::
  "db \<Rightarrow> int option \<Rightarrow> int \<Rightarrow> (int \<times> message_row) list \<Rightarrow> leaf_chunk list \<Rightarrow> leaf_chunk \<Rightarrow> int \<Rightarrow> bool" where
  "leaf_inv d pin budget done chunks current tokens \<longleftrightarrow>
     tokens = sum_list (map cr_tokens current)
     \<and> (current \<noteq> [] \<longrightarrow> leaf_within budget current)
     \<and> (\<forall>ch \<in> set chunks. leaf_within budget ch \<and> leaf_segment d done ch)
     \<and> leaf_tail d done current
     \<and> list_all2 (row_of d) (concat chunks @ current) (filter (\<lambda>x. Some (fst x) \<noteq> pin) done)"

lemma leaf_segment_extend: "leaf_segment d whole ch \<Longrightarrow> leaf_segment d (whole @ extra) ch"
  unfolding leaf_segment_def by (metis append.assoc)

lemma leaf_tail_segment: "leaf_tail d whole ch \<Longrightarrow> leaf_segment d whole ch"
  unfolding leaf_segment_def leaf_tail_def by (metis append.right_neutral)

lemma leaf_tail_Nil [simp]: "leaf_tail d whole []"
  unfolding leaf_tail_def by (metis append.right_neutral list_all2_Nil)

lemma leaf_tail_snoc:
  "leaf_tail d whole ch \<Longrightarrow> row_of d row x \<Longrightarrow> leaf_tail d (whole @ [x]) (ch @ [row])"
  unfolding leaf_tail_def by (metis append.assoc list_all2_Cons list_all2_Nil list_all2_appendI)

lemma leaf_inv_flush:
  assumes "leaf_inv d pin budget done chunks current tokens" and "current \<noteq> []"
  shows "leaf_inv d pin budget done (chunks @ [current]) [] 0"
  using assms leaf_tail_segment by (auto simp: leaf_inv_def)

lemma leaf_inv_skip:
  assumes "leaf_inv d pin budget done chunks [] 0" and "Some (fst x) = pin"
  shows "leaf_inv d pin budget (done @ [x]) chunks [] 0"
  using assms leaf_segment_extend by (auto simp: leaf_inv_def)

lemma leaf_inv_take:
  assumes "leaf_inv d pin budget done chunks current tokens" and "Some (fst x) \<noteq> pin"
    and "row_of d row x" and "current \<noteq> [] \<Longrightarrow> tokens + cr_tokens row \<le> budget"
  shows "leaf_inv d pin budget (done @ [x]) chunks (current @ [row]) (tokens + cr_tokens row)"
proof -
  have "list_all2 (row_of d) ((concat chunks @ current) @ [row])
      (filter (\<lambda>y. Some (fst y) \<noteq> pin) done @ [x])"
    using assms(1,3) by (intro list_all2_appendI) (simp_all add: leaf_inv_def)
  moreover have "leaf_within budget (current @ [row])"
    using assms(1,4) by (cases "current = []") (auto simp: leaf_within_def leaf_inv_def)
  moreover have "leaf_tail d (done @ [x]) (current @ [row])"
    using assms(1,3) by (intro leaf_tail_snoc) (simp_all add: leaf_inv_def)
  moreover have "\<forall>ch \<in> set chunks. leaf_within budget ch \<and> leaf_segment d (done @ [x]) ch"
    using assms(1) leaf_segment_extend by (auto simp: leaf_inv_def)
  moreover have "tokens = sum_list (map cr_tokens current)"
    using assms(1) by (simp add: leaf_inv_def)
  ultimately show ?thesis
    using assms(2) by (simp add: leaf_inv_def)
qed

lemma leaf_loop_inv:
  assumes "leaf_loop d pin budget rs chunks current tokens = Inr out"
    and "leaf_inv d pin budget done chunks current tokens"
  shows "leaf_inv d pin budget (done @ rs) out [] 0"
  using assms
proof (induction d pin budget rs chunks current tokens arbitrary: "done" rule: leaf_loop.induct)
  case (1 d pin budget chunks current tokens)
  show ?case
  proof (cases "current = []")
    case True
    with 1 show ?thesis by (auto simp: leaf_inv_def)
  next
    case False
    with 1 leaf_inv_flush [OF 1(2)] show ?thesis by simp
  qed
next
  case (2 d pin budget ordinal r rs chunks current tokens)
  let ?x = "(ordinal, r)"
  have assoc: "done @ ?x # rs = (done @ [?x]) @ rs" by simp
  show ?case
  proof (cases "Some ordinal = pin")
    case True
    show ?thesis
    proof (cases "current = []")
      case c: True
      with 2(6) have "tokens = 0" by (simp add: leaf_inv_def)
      with c True 2(6) have "leaf_inv d pin budget (done @ [?x]) chunks [] 0"
        using leaf_inv_skip by fastforce
      with c True \<open>tokens = 0\<close> 2(2) [OF True, of "done @ [?x]"] 2(5) show ?thesis by simp
    next
      case c: False
      from leaf_inv_flush [OF 2(6) c] True
      have "leaf_inv d pin budget (done @ [?x]) (chunks @ [current]) [] 0"
        by (intro leaf_inv_skip) simp_all
      with c True 2(1) [OF True c, of "done @ [?x]"] 2(5) show ?thesis by simp
    qed
  next
    case False
    with 2(5) obtain msg where msg: "reconstruct_row d r = Inr msg"
      by (auto simp: bind_res_Inr_iff)
    let ?row = "\<lparr>cr_ordinal = ordinal, cr_message_id = mr_id r, cr_tokens = mr_tokens r,
      cr_created = mr_created r, cr_message = msg\<rparr>"
    have row: "row_of d ?row ?x" using msg by (simp add: row_of_def)
    show ?thesis
    proof (cases "current \<noteq> [] \<and> tokens + mr_tokens r > budget")
      case over: True
      then have "leaf_inv d pin budget done (chunks @ [current]) [] 0"
        using leaf_inv_flush [OF 2(6)] by simp
      then have "leaf_inv d pin budget (done @ [?x]) (chunks @ [current]) ([] @ [?row]) (0 + cr_tokens ?row)"
        using False row by (intro leaf_inv_take) simp_all
      with over False msg 2(3) [OF False refl over, of msg "done @ [?x]"] 2(5) show ?thesis
        by (simp add: Let_def)
    next
      case fits: False
      then have "leaf_inv d pin budget (done @ [?x]) chunks (current @ [?row]) (tokens + cr_tokens ?row)"
        using False row by (intro leaf_inv_take [OF 2(6)]) auto
      with fits False msg 2(4) [OF False refl fits, of msg "done @ [?x]"] 2(5) show ?thesis
        by (auto simp: Let_def)
    qed
  qed
qed

text \<open>The eligible messages of a conversation: all but the fresh tail.\<close>

definition eligible :: "db \<Rightarrow> int \<Rightarrow> lcm_config \<Rightarrow> (int \<times> message_row) list" where
  "eligible d c cfg = take (length (message_items d c) - fresh_tail_count cfg) (message_items d c)"

lemma load_leaf_chunks_spec:
  assumes "load_leaf_chunks d c cfg = Inr chunks"
  shows "\<forall>ch \<in> set chunks. leaf_within (int (leaf_chunk_tokens cfg)) ch \<and> leaf_segment d (eligible d c cfg) ch"
    and "list_all2 (row_of d) (concat chunks)
      (filter (\<lambda>x. Some (fst x) \<noteq> pinned_ordinal (message_items d c)) (eligible d c cfg))"
proof -
  have "leaf_inv d (pinned_ordinal (message_items d c)) (int (leaf_chunk_tokens cfg))
      (eligible d c cfg) chunks [] 0"
  proof (cases "length (message_items d c) \<le> fresh_tail_count cfg")
    case True
    with assms show ?thesis
      by (simp add: load_leaf_chunks_def eligible_def leaf_inv_def)
  next
    case False
    have "leaf_inv d pin budget [] [] [] 0" for pin budget
      by (simp add: leaf_inv_def)
    with False assms leaf_loop_inv [where ?done = "[]"] show ?thesis
      by (fastforce simp: load_leaf_chunks_def eligible_def Let_def)
  qed
  then show "\<forall>ch \<in> set chunks. leaf_within (int (leaf_chunk_tokens cfg)) ch \<and> leaf_segment d (eligible d c cfg) ch"
    and "list_all2 (row_of d) (concat chunks)
      (filter (\<lambda>x. Some (fst x) \<noteq> pinned_ordinal (message_items d c)) (eligible d c cfg))"
    by (simp_all add: leaf_inv_def)
qed

section \<open>Condensed chunks\<close>

definition condensed_segment :: "condensed_row option list \<Rightarrow> condensed_chunk \<Rightarrow> bool" where
  "condensed_segment whole ch \<longleftrightarrow> (\<exists>pre post. whole = pre @ map Some (cc_rows ch) @ post)"

definition condensed_within :: "nat \<Rightarrow> int \<Rightarrow> condensed_chunk \<Rightarrow> bool" where
  "condensed_within min_fanout budget ch \<longleftrightarrow>
     cc_rows ch \<noteq> [] \<and> min_fanout \<le> length (cc_rows ch)
     \<and> sum_list (map cd_tokens (cc_rows ch)) \<le> budget
     \<and> (\<forall>r \<in> set (cc_rows ch). cd_depth r = cc_depth ch)"

definition somes :: "'a option list \<Rightarrow> 'a list" where
  "somes xs = List.map_filter id xs"

lemma somes_simps [simp]:
  "somes [] = []" "somes (None # xs) = somes xs" "somes (Some x # xs) = x # somes xs"
  "somes (xs @ ys) = somes xs @ somes ys" "somes (map Some zs) = zs"
proof -
  show "somes (xs @ ys) = somes xs @ somes ys" by (simp add: somes_def List.map_filter_def)
  show "somes (map Some zs) = zs" by (induction zs) (simp_all add: somes_def List.map_filter_def)
qed (simp_all add: somes_def List.map_filter_def)

definition run_tail :: "condensed_row option list \<Rightarrow> condensed_row list \<Rightarrow> bool" where
  "run_tail whole rows \<longleftrightarrow> (\<exists>pre. whole = pre @ map Some rows)"

fun run_inv :: "nat \<Rightarrow> int \<Rightarrow> condensed_row option list \<Rightarrow> run_state \<Rightarrow> bool" where
  "run_inv min_fanout budget done (rows, depth, tokens, out) \<longleftrightarrow>
     run_tail done rows \<and> (depth = None \<longleftrightarrow> rows = [])
     \<and> (\<forall>r \<in> set rows. depth = Some (cd_depth r)) \<and> tokens = sum_list (map cd_tokens rows)
     \<and> (\<forall>ch \<in> set out. condensed_within min_fanout budget ch \<and> condensed_segment done ch)
     \<and> subseq (concat (map cc_rows out) @ rows) (somes done)"

lemma condensed_segment_extend:
  "condensed_segment whole ch \<Longrightarrow> condensed_segment (whole @ extra) ch"
  unfolding condensed_segment_def by (metis append.assoc)

lemma run_tail_Nil [simp]: "run_tail whole []"
  by (simp add: run_tail_def)

lemma run_tail_snoc: "run_tail whole rows \<Longrightarrow> run_tail (whole @ [Some r]) (rows @ [r])"
  by (auto simp: run_tail_def)

lemma run_tail_segment: "run_tail whole (cc_rows ch) \<Longrightarrow> condensed_segment whole ch"
  unfolding run_tail_def condensed_segment_def by (metis append.right_neutral)

lemma run_inv_flush:
  assumes "run_inv m b done st"
  shows "run_inv m b done (flush_run m b st)"
proof -
  obtain rows depth tokens out where st: "st = (rows, depth, tokens, out)" by (cases st)
  have sub: "subseq (concat (map cc_rows out)) (somes done)"
    using assms st by (auto intro: subseq_order.trans [OF prefix_imp_subseq [OF prefixI]])
  show ?thesis
  proof (cases "depth \<noteq> None \<and> m \<le> length rows \<and> tokens \<le> b")
    case True
    let ?ch = "\<lparr>cc_rows = rows, cc_depth = the depth\<rparr>"
    have "condensed_segment done ?ch"
      using assms st by (intro run_tail_segment) simp
    moreover have "condensed_within m b ?ch"
      using True assms st by (auto simp: condensed_within_def)
    ultimately show ?thesis using True assms st by auto
  next
    case False
    with assms st sub show ?thesis by (auto split: option.splits)
  qed
qed

lemma segments_extend:
  "\<forall>ch \<in> set out. condensed_within m b ch \<and> condensed_segment whole ch
   \<Longrightarrow> \<forall>ch \<in> set out. condensed_within m b ch \<and> condensed_segment (whole @ extra) ch"
  using condensed_segment_extend by blast

lemma run_inv_add:
  assumes "run_inv m b done (rows, depth, tokens, out)"
    and "depth = None \<or> depth = Some (cd_depth row)"
  shows "run_inv m b (done @ [Some row]) (rows @ [row], Some (cd_depth row), tokens + cd_tokens row, out)"
proof -
  have "subseq ((concat (map cc_rows out) @ rows) @ [row]) (somes done @ [row])"
    using assms(1) by (intro list_emb_append_mono) auto
  moreover have "run_tail (done @ [Some row]) (rows @ [row])"
    using assms(1) by (intro run_tail_snoc) simp
  moreover have "\<forall>ch \<in> set out. condensed_within m b ch \<and> condensed_segment (done @ [Some row]) ch"
    using assms(1) by (intro segments_extend) simp
  ultimately show ?thesis using assms by auto
qed

lemma run_inv_message:
  assumes "run_inv m b done ([], None, 0, out)"
  shows "run_inv m b (done @ [None]) ([], None, 0, out)"
proof -
  have "\<forall>ch \<in> set out. condensed_within m b ch \<and> condensed_segment (done @ [None]) ch"
    using assms by (intro segments_extend) simp
  then show ?thesis using assms by simp
qed

lemma flush_run_shape: "\<exists>out. flush_run m b st = ([], None, 0, out)"
  by (cases st) simp

lemma run_inv_step:
  assumes "run_inv m b done st"
  shows "run_inv m b (done @ [x]) (run_step m b x st)"
proof -
  obtain rows depth tokens out where st: "st = (rows, depth, tokens, out)" by (cases st)
  obtain out' where fl: "flush_run m b st = ([], None, 0, out')"
    using flush_run_shape by blast
  note flushed = run_inv_flush [OF assms, unfolded fl]
  show ?thesis
  proof (cases x)
    case None
    with fl run_inv_message [OF flushed] show ?thesis by simp
  next
    case (Some row)
    show ?thesis
    proof (cases "depth = Some (cd_depth row)")
      case True
      with run_inv_add [OF assms [unfolded st], of row] Some st show ?thesis by simp
    next
      case False
      with Some st fl run_inv_add [OF flushed, of row] show ?thesis by simp
    qed
  qed
qed

lemma run_inv_fold: "run_inv m b done st \<Longrightarrow> run_inv m b (done @ raw) (fold (run_step m b) raw st)"
proof (induction raw arbitrary: "done" st)
  case (Cons x raw)
  then show ?case using run_inv_step [OF Cons.prems, of x] by fastforce
qed simp

lemma collect_runs_spec:
  shows "ch \<in> set (collect_runs m b raw) \<Longrightarrow> condensed_within m b ch \<and> condensed_segment raw ch"
    and "subseq (concat (map cc_rows (collect_runs m b raw))) (somes raw)"
proof -
  have "run_inv m b ([] @ raw) (flush_run m b (fold (run_step m b) raw ([], None, 0, [])))"
    by (intro run_inv_flush run_inv_fold) simp
  then show "ch \<in> set (collect_runs m b raw) \<Longrightarrow> condensed_within m b ch \<and> condensed_segment raw ch"
    and "subseq (concat (map cc_rows (collect_runs m b raw))) (somes raw)"
    using flush_run_shape [of m b "fold (run_step m b) raw ([], None, 0, [])"]
    by (auto simp: collect_runs_def)
qed

end
