(* ===== verification/Lcm_Writes.thy ===== *)
theory Lcm_Writes
  imports Lcm_Chunks
begin

text \<open>
  The effect of writing one summary, leaf or condensed, in one relation: \<open>written\<close> says what
  a successful write adds to the tables and which ordinal range it collapses. Raw messages
  are never touched; well-formedness is kept; what the range reached stays reachable when the
  new summary covers it.
\<close>

section \<open>One written summary\<close>

definition written_tables ::
  "summary_row \<Rightarrow> (string \<times> int) list \<Rightarrow> (string \<times> string) list \<Rightarrow> (string \<times> string) list \<Rightarrow> db \<Rightarrow> db" where
  "written_tables row ms ps sf d =
     d\<lparr>summaries := summaries d @ [row], summary_messages := summary_messages d @ ms,
       summary_parents := summary_parents d @ ps, summary_files := sf\<rparr>"

definition written ::
  "int \<Rightarrow> int \<Rightarrow> int \<Rightarrow> summary_row \<Rightarrow> (string \<times> int) list \<Rightarrow> (string \<times> string) list \<Rightarrow> db \<Rightarrow> db \<Rightarrow> bool" where
  "written c a b row ms ps d d' \<longleftrightarrow>
     (\<exists>sf. d' = replaced_db c a b (sr_id row) (written_tables row ms ps sf d))
     \<and> conversation_exists d c \<and> \<not> summary_exists d (sr_id row) \<and> sr_conv row = c
     \<and> (ms = [] \<or> sr_kind row = Leaf) \<and> (ps = [] \<or> sr_kind row = Condensed)
     \<and> (\<forall>(s, m) \<in> set ms. s = sr_id row \<and> message_exists d m)
     \<and> (\<forall>(x, s) \<in> set ps. s = sr_id row \<and> (summary_exists d x \<or> x = sr_id row))"

lemma written_tables_simps [simp]:
  "messages (written_tables row ms ps sf d) = messages d"
  "parts (written_tables row ms ps sf d) = parts d"
  "conversations (written_tables row ms ps sf d) = conversations d"
  "large_files (written_tables row ms ps sf d) = large_files d"
  "summaries (written_tables row ms ps sf d) = summaries d @ [row]"
  "summary_messages (written_tables row ms ps sf d) = summary_messages d @ ms"
  "summary_parents (written_tables row ms ps sf d) = summary_parents d @ ps"
  "context_items (written_tables row ms ps sf d) = context_items d"
  "next_message_id (written_tables row ms ps sf d) = next_message_id d"
  "next_conversation_id (written_tables row ms ps sf d) = next_conversation_id d"
  by (simp_all add: written_tables_def)

lemma written_frame:
  assumes "written c a b row ms ps d d'"
  shows "messages d' = messages d" and "parts d' = parts d" and "conversations d' = conversations d"
    and "large_files d' = large_files d" and "next_message_id d' = next_message_id d"
    and "summaries d' = summaries d @ [row]" and "summary_messages d' = summary_messages d @ ms"
    and "summary_parents d' = summary_parents d @ ps"
    and "next_conversation_id d' = next_conversation_id d"
  using assms by (auto simp: written_def)

lemma wf_written_tables_items: "wf_items d \<Longrightarrow> wf_items (written_tables row ms ps sf d)"
proof -
  assume w: "wf_items d"
  have "item_exists d i \<Longrightarrow> item_exists (written_tables row ms ps sf d) i" for i
    by (auto simp: item_exists_def message_exists_def summary_exists_def split: item.splits)
  with w show ?thesis by (auto simp: wf_items_def conversation_exists_def)
qed

lemma items_of_written:
  assumes "written c a b row ms ps d d'" and "wf_items d" and "a \<le> b"
  shows "items_of d' c = collapse a b (summary_item c a (sr_id row)) (items_of d c)"
proof -
  obtain sf where "d' = replaced_db c a b (sr_id row) (written_tables row ms ps sf d)"
    using assms(1) by (auto simp: written_def)
  moreover have "items_of (written_tables row ms ps sf d) c = items_of d c"
    by (rule items_of_cong) simp
  ultimately show ?thesis
    using items_of_replaced wf_written_tables_items assms(2,3) by metis
qed

lemma items_of_written_other:
  assumes "written c a b row ms ps d d'" and "c' \<noteq> c"
  shows "items_of d' c' = items_of d c'"
proof -
  obtain sf where d': "d' = replaced_db c a b (sr_id row) (written_tables row ms ps sf d)"
    using assms(1) by (auto simp: written_def)
  have "items_of (written_tables row ms ps sf d) c' = items_of d c'"
    by (rule items_of_cong) simp
  with d' items_of_replaced_other [OF assms(2)] show ?thesis by metis
qed

lemma wf_written:
  assumes "written c a b row ms ps d d'" and "wf_db d" and "0 \<le> a" and "a \<le> b"
  shows "wf_db d'"
proof -
  obtain sf where d': "d' = replaced_db c a b (sr_id row) (written_tables row ms ps sf d)"
    and c: "conversation_exists d c" and new: "\<not> summary_exists d (sr_id row)"
    using assms(1) by (auto simp: written_def)
  note frame = written_frame [OF assms(1)]
  have ex: "conversation_exists d' = conversation_exists d" "message_exists d' = message_exists d"
    "summary_exists d' x \<longleftrightarrow> summary_exists d x \<or> x = sr_id row" for x
    using frame by (auto simp: conversation_exists_def message_exists_def summary_exists_def fun_eq_iff)
  have "wf_conversations d'" "wf_messages d'" "wf_parts d'"
    using assms(2) frame ex
    by (simp_all add: wf_db_def wf_conversations_def wf_messages_def wf_parts_def)
  moreover have "wf_summaries d'"
  proof -
    have old: "wf_summaries d" using assms(2) by (simp add: wf_db_def)
    have ms: "\<forall>(s, m) \<in> set ms. s = sr_id row \<and> message_exists d m"
      and ps: "\<forall>(x, s) \<in> set ps. s = sr_id row \<and> (summary_exists d x \<or> x = sr_id row)"
      using assms(1) by (simp_all add: written_def)
    have "distinct (map sr_id (summaries d'))"
      using old new unfolding frame by (simp add: wf_summaries_def summary_exists_def)
    moreover have "\<forall>(s, m) \<in> set (summary_messages d'). summary_exists d' s \<and> message_exists d' m"
      using old ms unfolding frame ex(2) by (auto simp: wf_summaries_def ex(3))
    moreover have "\<forall>(s, p) \<in> set (summary_parents d'). summary_exists d' s \<and> summary_exists d' p"
      using old ps unfolding frame by (auto simp: wf_summaries_def ex(3))
    ultimately show ?thesis by (simp add: wf_summaries_def)
  qed
  moreover have "wf_items d'"
    unfolding d'
    using assms(2-4) c
    by (intro wf_items_replaced wf_written_tables_items)
      (auto simp: wf_db_def conversation_exists_def summary_exists_def)
  ultimately show ?thesis by (simp add: wf_db_def)
qed

lemma written_covers_old:
  assumes "written c a b row ms ps d d'" and "item_covers d i m"
  shows "item_covers d' i m"
  using assms(2) written_frame(7,8) [OF assms(1)] by (auto intro: item_covers_mono)

text \<open>Nothing is lost by a write whose summary covers what the collapsed range covered.\<close>

lemma written_context_covers:
  assumes w: "written c a b row ms ps d d'" and "wf_items d" and "a \<le> b"
    and keep: "\<And>i. i \<in> set (items_of d c) \<Longrightarrow> in_range a b i \<Longrightarrow> item_covers d (ci_item i) m
      \<Longrightarrow> covers d' (sr_id row) m"
    and "context_covers d c m"
  shows "context_covers d' c m"
proof -
  obtain i where i: "i \<in> set (items_of d c)" and cov: "item_covers d (ci_item i) m"
    using assms(5) by (auto simp: context_covers_def)
  note items = items_of_written [OF w assms(2,3)]
  show ?thesis
  proof (cases "in_range a b i")
    case True
    then have "item_covers d' (SummaryItem (sr_id row)) m"
      using keep [OF i True cov] by (simp add: item_covers_def)
    then show ?thesis
      unfolding context_covers_def items set_collapse by auto
  next
    case False
    then have "i \<in> set (items_of d' c)"
      using i unfolding items set_collapse in_range_def by auto
    with written_covers_old [OF w cov] show ?thesis
      by (auto simp: context_covers_def)
  qed
qed

section \<open>Writing a leaf summary\<close>

lemma fold_link_message:
  "fold_res (\<lambda>r. link_message s (cr_message_id r)) chunk d = Inr d' \<Longrightarrow>
     d' = d\<lparr>summary_messages := summary_messages d @ map (\<lambda>r. (s, cr_message_id r)) chunk\<rparr>
     \<and> (\<forall>r \<in> set chunk. message_exists d (cr_message_id r))"
proof (induction chunk arbitrary: d)
  case (Cons r chunk)
  from Cons.prems obtain d1 where 1: "link_message s (cr_message_id r) d = Inr d1"
    and 2: "fold_res (\<lambda>r. link_message s (cr_message_id r)) chunk d1 = Inr d'"
    by (auto simp: bind_res_Inr_iff)
  from 1 have "d1 = d\<lparr>summary_messages := summary_messages d @ [(s, cr_message_id r)]\<rparr>"
    and "message_exists d (cr_message_id r)"
    by (auto simp: link_message_def split: if_splits)
  with Cons.IH [OF 2] show ?case by (auto simp: message_exists_def)
qed simp

lemma fold_files_only:
  assumes "\<And>x d. \<exists>sf. f x d = d\<lparr>summary_files := sf\<rparr>"
  shows "\<exists>sf. fold f xs d = d\<lparr>summary_files := sf\<rparr>"
proof (induction xs arbitrary: d)
  case Nil
  have "d = d\<lparr>summary_files := summary_files d\<rparr>" by simp
  then show ?case by (metis fold_simps(1))
next
  case (Cons x xs)
  obtain sf where "f x d = d\<lparr>summary_files := sf\<rparr>" using assms by blast
  moreover obtain sf' where "fold f xs (d\<lparr>summary_files := sf\<rparr>) = d\<lparr>summary_files := sf\<rparr>\<lparr>summary_files := sf'\<rparr>"
    using Cons.IH by blast
  ultimately show ?case by auto
qed

lemma db_files_id: "\<exists>sf. d = d\<lparr>summary_files := sf\<rparr>"
  by (rule exI [of _ "summary_files d"]) simp

lemma add_summary_file_only: "\<exists>sf. add_summary_file s x d = d\<lparr>summary_files := sf\<rparr>"
  using db_files_id by (auto simp: add_summary_file_def)

lemma fold_add_files:
  "\<exists>sf. fold (\<lambda>r. fold (add_summary_file s) (extract_file_ids env (content_of (cr_message r)))) chunk d
     = d\<lparr>summary_files := sf\<rparr>"
  by (intro fold_files_only add_summary_file_only)

definition chunk_first :: "leaf_chunk \<Rightarrow> int" where
  "chunk_first chunk = head_or_zero (map cr_ordinal chunk)"

definition chunk_last :: "leaf_chunk \<Rightarrow> int" where
  "chunk_last chunk = last_or_zero (map cr_ordinal chunk)"

lemma chunk_first_last:
  "chunk \<noteq> [] \<Longrightarrow> chunk_first chunk = cr_ordinal (hd chunk) \<and> chunk_last chunk = cr_ordinal (last chunk)"
  by (cases chunk) (simp_all add: chunk_first_def chunk_last_def head_or_zero_def last_or_zero_def
      last_opt_def last_map)

lemma write_leaf_written:
  assumes "write_leaf_summary env now c chunk outcome d = Inr d'"
  shows "written c (chunk_first chunk) (chunk_last chunk) (leaf_summary_row env now c chunk outcome)
    (map (\<lambda>r. (sr_id (leaf_summary_row env now c chunk outcome), cr_message_id r)) chunk) [] d d'"
proof -
  let ?row = "leaf_summary_row env now c chunk outcome"
  obtain d1 d2 where 1: "insert_summary ?row d = Inr d1"
    and 2: "fold_res (\<lambda>r. link_message (sr_id ?row) (cr_message_id r)) chunk d1 = Inr d2"
    and 3: "replace_range c (chunk_first chunk) (chunk_last chunk) (sr_id ?row)
      (fold (\<lambda>r. fold (add_summary_file (sr_id ?row)) (extract_file_ids env (content_of (cr_message r)))) chunk d2)
      = Inr d'"
    using assms by (auto simp: write_leaf_summary_def Let_def bind_res_Inr_iff chunk_first_def chunk_last_def)
  from 1 have d1: "d1 = d\<lparr>summaries := summaries d @ [?row]\<rparr>"
    and c: "conversation_exists d (sr_conv ?row)" and new: "\<not> summary_exists d (sr_id ?row)"
    by (auto simp: insert_summary_def split: if_splits)
  obtain sf where sf: "fold (\<lambda>r. fold (add_summary_file (sr_id ?row))
      (extract_file_ids env (content_of (cr_message r)))) chunk d2 = d2\<lparr>summary_files := sf\<rparr>"
    using fold_add_files by blast
  have "d2\<lparr>summary_files := sf\<rparr> = written_tables ?row (map (\<lambda>r. (sr_id ?row, cr_message_id r)) chunk) [] sf d"
    using fold_link_message [OF 2] d1 by (simp add: written_tables_def)
  with replace_range_cases [OF 3] sf
  have "d' = replaced_db c (chunk_first chunk) (chunk_last chunk) (sr_id ?row)
      (written_tables ?row (map (\<lambda>r. (sr_id ?row, cr_message_id r)) chunk) [] sf d)"
    by simp
  moreover have "sr_conv ?row = c" and "sr_kind ?row = Leaf"
    by (simp_all add: leaf_summary_row_def Let_def)
  moreover have "\<forall>r \<in> set chunk. message_exists d (cr_message_id r)"
    using fold_link_message [OF 2] d1 by (simp add: message_exists_def)
  ultimately show ?thesis
    using c new by (auto simp: written_def)
qed

section \<open>Writing a condensed summary\<close>

lemma fold_link_parent:
  "fold_res (\<lambda>r. link_parent (cd_id r) s) rows d = Inr d' \<Longrightarrow>
     d' = d\<lparr>summary_parents := summary_parents d @ map (\<lambda>r. (cd_id r, s)) rows\<rparr>
     \<and> (\<forall>r \<in> set rows. summary_exists d (cd_id r))"
proof (induction rows arbitrary: d)
  case (Cons r rows)
  from Cons.prems obtain d1 where 1: "link_parent (cd_id r) s d = Inr d1"
    and 2: "fold_res (\<lambda>r. link_parent (cd_id r) s) rows d1 = Inr d'"
    by (auto simp: bind_res_Inr_iff)
  from 1 have "d1 = d\<lparr>summary_parents := summary_parents d @ [(cd_id r, s)]\<rparr>"
    and "summary_exists d (cd_id r)"
    by (auto simp: link_parent_def split: if_splits)
  with Cons.IH [OF 2] show ?case by (auto simp: summary_exists_def)
qed simp

lemma copy_files_only: "\<exists>sf. copy_summary_files s x d = d\<lparr>summary_files := sf\<rparr>"
  unfolding copy_summary_files_def
  by (rule fold_files_only) (use db_files_id in auto)

definition run_first :: "condensed_chunk \<Rightarrow> int" where
  "run_first ch = head_or_zero (map cd_ordinal (cc_rows ch))"

definition run_last :: "condensed_chunk \<Rightarrow> int" where
  "run_last ch = last_or_zero (map cd_ordinal (cc_rows ch))"

lemma run_first_last:
  "cc_rows ch \<noteq> [] \<Longrightarrow> run_first ch = cd_ordinal (hd (cc_rows ch)) \<and> run_last ch = cd_ordinal (last (cc_rows ch))"
  by (cases "cc_rows ch") (simp_all add: run_first_def run_last_def head_or_zero_def last_or_zero_def
      last_opt_def last_map)

lemma write_condensed_written:
  assumes "write_condensed_summary env now c chunk outcome d = Inr d'"
  shows "written c (run_first chunk) (run_last chunk) (condensed_summary_row env now c chunk outcome) []
    (map (\<lambda>r. (cd_id r, sr_id (condensed_summary_row env now c chunk outcome))) (cc_rows chunk)) d d'"
proof -
  let ?row = "condensed_summary_row env now c chunk outcome"
  obtain d1 d2 where 1: "insert_summary ?row d = Inr d1"
    and 2: "fold_res (\<lambda>r. link_parent (cd_id r) (sr_id ?row)) (cc_rows chunk) d1 = Inr d2"
    and 3: "replace_range c (run_first chunk) (run_last chunk) (sr_id ?row)
      (fold (\<lambda>r. copy_summary_files (sr_id ?row) (cd_id r)) (cc_rows chunk) d2) = Inr d'"
    using assms by (auto simp: write_condensed_summary_def Let_def bind_res_Inr_iff run_first_def run_last_def)
  from 1 have d1: "d1 = d\<lparr>summaries := summaries d @ [?row]\<rparr>"
    and c: "conversation_exists d (sr_conv ?row)" and new: "\<not> summary_exists d (sr_id ?row)"
    by (auto simp: insert_summary_def split: if_splits)
  obtain sf where sf: "fold (\<lambda>r. copy_summary_files (sr_id ?row) (cd_id r)) (cc_rows chunk) d2
      = d2\<lparr>summary_files := sf\<rparr>"
    using fold_files_only [of "\<lambda>r. copy_summary_files (sr_id ?row) (cd_id r)"] copy_files_only by blast
  have "d2\<lparr>summary_files := sf\<rparr> = written_tables ?row [] (map (\<lambda>r. (cd_id r, sr_id ?row)) (cc_rows chunk)) sf d"
    using fold_link_parent [OF 2] d1 by (simp add: written_tables_def)
  with replace_range_cases [OF 3] sf
  have "d' = replaced_db c (run_first chunk) (run_last chunk) (sr_id ?row)
      (written_tables ?row [] (map (\<lambda>r. (cd_id r, sr_id ?row)) (cc_rows chunk)) sf d)"
    by simp
  moreover have "sr_conv ?row = c" and "sr_kind ?row = Condensed"
    by (simp_all add: condensed_summary_row_def Let_def)
  moreover have "\<forall>r \<in> set (cc_rows chunk). summary_exists d (cd_id r) \<or> cd_id r = sr_id ?row"
    using fold_link_parent [OF 2] d1 by (auto simp: summary_exists_def)
  ultimately show ?thesis
    using c new by (auto simp: written_def)
qed

section \<open>A typed store\<close>

text \<open>
  What the tables hold beyond the schema: messages are linked to leaf summaries and parents
  are condensed ones, a summary in a context belongs to that conversation, and the token
  count of a summary is the estimate of its content.
\<close>

definition links_typed :: "db \<Rightarrow> bool" where
  "links_typed d \<longleftrightarrow>
     list_all (\<lambda>(s, m). list_ex (\<lambda>r. sr_id r = s \<and> sr_kind r = Leaf) (summaries d)) (summary_messages d)
     \<and> list_all (\<lambda>(x, s). list_ex (\<lambda>r. sr_id r = s \<and> sr_kind r = Condensed) (summaries d))
         (summary_parents d)"

definition item_owned :: "db \<Rightarrow> context_item \<Rightarrow> bool" where
  "item_owned d i \<longleftrightarrow>
     (case ci_item i of
        MessageItem _ \<Rightarrow> True
      | SummaryItem s \<Rightarrow> list_ex (\<lambda>r. sr_id r = s \<and> sr_conv r = ci_conv i) (summaries d))"

definition counted :: "summary_row \<Rightarrow> bool" where
  "counted r \<longleftrightarrow> sr_tokens r = int (estimate_tokens (sr_content r))"

definition store_typed :: "db \<Rightarrow> bool" where
  "store_typed d \<longleftrightarrow> links_typed d \<and> list_all (item_owned d) (context_items d)
     \<and> list_all counted (summaries d)"

lemma store_typed_pushed:
  "store_typed d \<Longrightarrow> store_typed (pushed_db now c msg lf d)"
  by (auto simp: store_typed_def links_typed_def item_owned_def list_all_iff split: item.splits)

lemma store_typed_written:
  assumes w: "written c a b row ms ps d d'" and "counted row" and typed: "store_typed d"
  shows "store_typed d'"
proof -
  obtain sf where d': "d' = replaced_db c a b (sr_id row) (written_tables row ms ps sf d)"
    and conv: "sr_conv row = c" and kinds: "ms = [] \<or> sr_kind row = Leaf" "ps = [] \<or> sr_kind row = Condensed"
    and ms: "\<forall>(s, m) \<in> set ms. s = sr_id row" and ps: "\<forall>(x, s) \<in> set ps. s = sr_id row"
    using w by (fastforce simp: written_def)
  have "links_typed d'"
    using typed ms ps kinds
    by (auto simp: d' store_typed_def links_typed_def list_all_iff list_ex_iff)
  moreover have "item_owned d' i" if "i \<in> set (context_items d')" for i
  proof (cases "i = summary_item c a (sr_id row)")
    case True
    then show ?thesis using conv by (simp add: d' item_owned_def)
  next
    case False
    then have "i \<in> set (context_items d)"
      using that by (simp add: d' replaced_db_def delete_range_def)
    then have "item_owned d i" using typed by (simp add: store_typed_def list_all_iff)
    then show ?thesis by (auto simp: d' item_owned_def split: item.splits)
  qed
  ultimately show ?thesis
    using typed assms(2) by (simp add: d' store_typed_def list_all_iff)
qed

end
