(* ===== verification/Lcm_Cycle.thy ===== *)
theory Lcm_Cycle
  imports Lcm_Writes
begin

text \<open>
  The compaction cycle as a whole. The chunks of one pass are disjoint ordinal ranges in
  increasing order, so writing one leaves the others as they were loaded
  (\<open>leaf_pending\<close>, \<open>condensed_pending\<close>). From that: every condensed pass shrinks the
  context, so the cycle ends; raw messages survive; the pinned message and the fresh tail
  stay in the context; and what the context reaches stays reachable where no summary lies
  between the messages of a leaf chunk.
\<close>

section \<open>Segments of sorted lists\<close>

lemma sorted_between:
  fixes f :: "'a \<Rightarrow> int"
  assumes "sorted_wrt (<) (map f xs)" and "x \<in> set xs"
  shows "f (hd xs) \<le> f x" and "f x \<le> f (last xs)"
proof -
  obtain us vs where xs: "xs = us @ x # vs" using assms(2) by (meson split_list)
  show "f (hd xs) \<le> f x"
    using assms(1) unfolding xs by (cases us) (auto simp: sorted_wrt_append less_imp_le)
  have "last xs = last (x # vs)" unfolding xs by simp
  then show "f x \<le> f (last xs)"
    using assms(1) unfolding xs by (cases vs rule: rev_cases) (auto simp: sorted_wrt_append less_imp_le)
qed

lemma filter_segment:
  fixes f :: "'a \<Rightarrow> int"
  assumes "sorted_wrt (<) (map f (xs @ ys @ zs))" and "ys \<noteq> []"
  shows "filter (\<lambda>x. f (hd ys) \<le> f x \<and> f x \<le> f (last ys)) (xs @ ys @ zs) = ys"
proof -
  have "\<forall>x \<in> set xs. f x < f (hd ys)" and "\<forall>z \<in> set zs. f (last ys) < f z"
    using assms by (auto simp: sorted_wrt_append)
  moreover have "\<forall>y \<in> set ys. f (hd ys) \<le> f y \<and> f y \<le> f (last ys)"
    using assms(1) sorted_between [of f ys] by (simp add: sorted_wrt_append)
  ultimately have "filter (\<lambda>x. f (hd ys) \<le> f x \<and> f x \<le> f (last ys)) xs = []"
    and "filter (\<lambda>x. f (hd ys) \<le> f x \<and> f x \<le> f (last ys)) ys = ys"
    and "filter (\<lambda>x. f (hd ys) \<le> f x \<and> f x \<le> f (last ys)) zs = []"
    by (force simp: filter_empty_conv filter_id_conv)+
  then show ?thesis by simp
qed

lemma sorted_wrt_subseq:
  assumes "subseq xs ys" and "sorted_wrt P ys"
  shows "sorted_wrt P xs"
  using assms
proof (induction xs ys rule: list_emb.induct)
  case (list_emb_Cons2 x y xs ys)
  then show ?case by (auto dest: list_emb_set)
qed auto

lemma sorted_map_filter:
  assumes "sorted_wrt (<) (map f xs)" and "\<And>x y. g x = Some y \<Longrightarrow> h y = f x"
  shows "sorted_wrt (<) (map h (List.map_filter g xs))"
  using assms
proof (induction xs)
  case (Cons x xs)
  have *: "h y \<in> f ` set xs" if "y \<in> set (List.map_filter g xs)" for y
    using that Cons.prems(2) by (force simp: List.map_filter_def)
  have "f x < h y" if "y \<in> set (List.map_filter g xs)" for y
    using * [OF that] Cons.prems(1) by auto
  with Cons show ?case
    by (auto simp: List.map_filter_simps split: option.splits)
qed (simp add: List.map_filter_simps)

lemma sorted_hd_last:
  assumes "sorted_wrt (<) (map f xs)" and "xs \<noteq> []"
  shows "f (hd xs) \<le> (f (last xs) :: int)"
  using sorted_between(1) [OF assms(1)] assms(2) by simp

section \<open>Passes\<close>

lemma chunk_pass_outcomes:
  assumes "chunk_pass msgs write summ cs d w = (r, d', w')" and "P cs d"
    and "\<And>ms w. Q (fst (summ ms w))"
    and "\<And>ch cs outcome d d1. P (ch # cs) d \<Longrightarrow> Q outcome \<Longrightarrow> write ch outcome d = Inr d1 \<Longrightarrow> P cs d1"
  shows "\<exists>rest. P rest d' \<and> (r = Inr () \<longrightarrow> rest = [])"
  using assms
proof (induction msgs "write" summ cs d w rule: chunk_pass.induct)
  case (1 msgs wr summ d w)
  then show ?case by auto
next
  case (2 msgs wr summ ch cs d w)
  obtain outcome w1 where o: "summ (msgs ch) w = (outcome, w1)" by fastforce
  then have q: "Q outcome" using "2.prems"(3) [of "msgs ch" w] by simp
  show ?case
  proof (cases "wr ch outcome d")
    case (Inl e)
    with 2 o show ?thesis by auto
  next
    case (Inr d1)
    with 2 o q show ?thesis by auto
  qed
qed

lemma chunk_pass_invariant:
  assumes "chunk_pass msgs write summ cs d w = (r, d', w')" and "P cs d"
    and "\<And>ch cs outcome d d1. P (ch # cs) d \<Longrightarrow> write ch outcome d = Inr d1 \<Longrightarrow> P cs d1"
  shows "\<exists>rest. P rest d' \<and> (r = Inr () \<longrightarrow> rest = [])"
  by (rule chunk_pass_outcomes [where Q = "\<lambda>_. True" and P = P, OF assms(1,2)]) (use assms(3) in auto)

section \<open>Condensed passes\<close>

definition run_items :: "int \<Rightarrow> condensed_chunk \<Rightarrow> context_item list" where
  "run_items c ch = map (\<lambda>r. summary_item c (cd_ordinal r) (cd_id r)) (cc_rows ch)"

text \<open>The chunks not yet written are still exactly the items of their ranges.\<close>

definition condensed_pending :: "int \<Rightarrow> nat \<Rightarrow> condensed_chunk list \<Rightarrow> db \<Rightarrow> bool" where
  "condensed_pending c m cs d \<longleftrightarrow>
     wf_db d
     \<and> sorted_wrt (<) (map cd_ordinal (concat (map cc_rows cs)))
     \<and> (\<forall>ch \<in> set cs. cc_rows ch \<noteq> [] \<and> m \<le> length (cc_rows ch)
          \<and> filter (in_range (run_first ch) (run_last ch)) (items_of d c) = run_items c ch)"

lemma condensed_pending_range:
  assumes "condensed_pending c m (ch # cs) d"
  shows "0 \<le> run_first ch" and "run_first ch \<le> run_last ch"
    and "ch' \<in> set cs \<Longrightarrow> run_last ch < run_first ch'"
proof -
  have ne: "cc_rows ch \<noteq> []" and s: "sorted_wrt (<) (map cd_ordinal (concat (map cc_rows (ch # cs))))"
    and items: "filter (in_range (run_first ch) (run_last ch)) (items_of d c) = run_items c ch"
    using assms by (auto simp: condensed_pending_def)
  show "run_first ch \<le> run_last ch"
    using s run_first_last [OF ne] sorted_hd_last [of cd_ordinal "cc_rows ch"] ne
    by (simp add: sorted_wrt_append)
  have "summary_item c (run_first ch) (cd_id (hd (cc_rows ch))) \<in> set (run_items c ch)"
    using ne run_first_last [OF ne] by (auto simp: run_items_def)
  then have "summary_item c (run_first ch) (cd_id (hd (cc_rows ch))) \<in> set (context_items d)"
    unfolding items [symmetric] by (simp add: set_items_of)
  then show "0 \<le> run_first ch"
    using assms by (force simp: condensed_pending_def wf_db_def wf_items_def)
  assume "ch' \<in> set cs"
  then have "cc_rows ch' \<noteq> []" and "set (cc_rows ch') \<subseteq> set (concat (map cc_rows cs))"
    using assms by (auto simp: condensed_pending_def)
  then have "hd (cc_rows ch') \<in> set (concat (map cc_rows cs))" by (metis hd_in_set subsetD)
  then show "run_last ch < run_first ch'"
    using s ne run_first_last [OF ne] run_first_last [OF \<open>cc_rows ch' \<noteq> []\<close>]
    by (auto simp: sorted_wrt_append)
qed

lemma condensed_pending_step:
  assumes p: "condensed_pending c m (ch # cs) d"
    and w: "write_condensed_summary env now c ch outcome d = Inr d1"
  shows "condensed_pending c m cs d1"
    and "length (items_of d1 c) + length (cc_rows ch) = Suc (length (items_of d c))"
proof -
  note written = write_condensed_written [OF w] and range = condensed_pending_range [OF p]
  have wf: "wf_db d" using p by (simp add: condensed_pending_def)
  then have wfi: "wf_items d" by (simp add: wf_db_def)
  have items: "items_of d1 c = collapse (run_first ch) (run_last ch)
      (summary_item c (run_first ch) (sr_id (condensed_summary_row env now c ch outcome))) (items_of d c)"
    by (rule items_of_written [OF written wfi range(2)])
  have "wf_db d1" by (rule wf_written [OF written wf range(1,2)])
  moreover have "filter (in_range (run_first ch') (run_last ch')) (items_of d1 c) = run_items c ch'"
    if "ch' \<in> set cs" for ch'
    unfolding items
    using that p range(2) range(3) [OF that]
    by (subst filter_collapse_after) (auto simp: condensed_pending_def)
  ultimately show "condensed_pending c m cs d1"
    using p by (auto simp: condensed_pending_def sorted_wrt_append)
  have "length (filter (in_range (run_first ch) (run_last ch)) (items_of d c)) = length (cc_rows ch)"
    using p by (simp add: condensed_pending_def run_items_def)
  then show "length (items_of d1 c) + length (cc_rows ch) = Suc (length (items_of d c))"
    unfolding items using length_collapse [OF range(2)] by metis
qed

lemma condensed_entry_item:
  "condensed_entry d i = Inr (Some r) \<Longrightarrow> ci_conv i = c \<Longrightarrow>
     i = summary_item c (cd_ordinal r) (cd_id r)"
  by (auto simp: condensed_entry_def find_summary_def find_Some_iff condensed_row_of_def summary_item_def
      split: item.splits option.splits)

lemma condensed_entries_items:
  assumes "list_all2 (\<lambda>i x. condensed_entry d i = Inr x) items (map Some rows)"
    and "\<forall>i \<in> set items. ci_conv i = c"
  shows "items = map (\<lambda>r. summary_item c (cd_ordinal r) (cd_id r)) rows"
  using assms
proof (induction rows arbitrary: items)
  case (Cons r rows)
  then obtain i its where "items = i # its" and "condensed_entry d i = Inr (Some r)"
    and "list_all2 (\<lambda>i x. condensed_entry d i = Inr x) its (map Some rows)"
    by (auto simp: list_all2_Cons2)
  with Cons condensed_entry_item [of d i r c] show ?case by simp
qed simp

lemma condensed_entries_sorted:
  assumes "list_all2 (\<lambda>i x. condensed_entry d i = Inr x) items raw"
    and "sorted_wrt (<) (map ci_ordinal items)"
  shows "sorted_wrt (<) (map cd_ordinal (somes raw)) \<and> cd_ordinal ` set (somes raw) \<subseteq> ci_ordinal ` set items"
  using assms
proof (induction items raw rule: list_all2_induct)
  case (Cons i items x raw)
  then show ?case
    by (cases x) (auto simp: condensed_entry_def condensed_row_of_def split: item.splits option.splits)
qed simp

lemma load_condensed_pending:
  assumes "wf_db d" and "load_condensed_chunks d c cfg = Inr chunks" and "0 < min_condensed_fanout cfg"
  shows "condensed_pending c (min_condensed_fanout cfg) chunks d"
proof -
  let ?m = "min_condensed_fanout cfg"
  obtain raw where raw: "list_all2 (\<lambda>i x. condensed_entry d i = Inr x) (items_of d c) raw"
    and chunks: "chunks = collect_runs ?m (int (leaf_chunk_tokens cfg)) raw"
    using assms(2) by (auto simp: load_condensed_chunks_def bind_res_Inr_iff map_res_Inr_iff)
  have sorted: "sorted_wrt (<) (map ci_ordinal (items_of d c))"
    using assms(1) by (intro sorted_items_of) (simp add: wf_db_def)
  have "sorted_wrt (<) (map cd_ordinal (concat (map cc_rows chunks)))"
    unfolding chunks
    by (rule sorted_wrt_subseq [OF subseq_map [OF collect_runs_spec(2)]])
      (use condensed_entries_sorted [OF raw sorted] in blast)
  moreover have "cc_rows ch \<noteq> [] \<and> ?m \<le> length (cc_rows ch)
      \<and> filter (in_range (run_first ch) (run_last ch)) (items_of d c) = run_items c ch"
    if "ch \<in> set chunks" for ch
  proof -
    from collect_runs_spec(1) [of ch] that chunks
    have within: "cc_rows ch \<noteq> []" "?m \<le> length (cc_rows ch)" and "condensed_segment raw ch"
      by (auto simp: condensed_within_def)
    then obtain pre post where seg: "raw = pre @ map Some (cc_rows ch) @ post"
      by (auto simp: condensed_segment_def)
    obtain xs ys zs where xyz: "items_of d c = xs @ ys @ zs"
      and ys: "list_all2 (\<lambda>i x. condensed_entry d i = Inr x) ys (map Some (cc_rows ch))"
      using raw unfolding seg by (auto simp: list_all2_append2)
    have conv: "\<forall>i \<in> set ys. ci_conv i = c"
      using xyz set_items_of [of d c] by auto
    have ys_eq: "ys = run_items c ch"
      unfolding run_items_def by (rule condensed_entries_items [OF ys conv])
    then have ne: "ys \<noteq> []" using within by (simp add: run_items_def)
    have "ci_ordinal (hd ys) = run_first ch \<and> ci_ordinal (last ys) = run_last ch"
      using ys_eq within run_first_last [of ch] by (simp add: run_items_def hd_map last_map)
    then have "filter (in_range (run_first ch) (run_last ch)) (items_of d c) = ys"
      using filter_segment [of ci_ordinal xs ys zs] sorted ne
      unfolding xyz by (simp add: in_range_def [abs_def])
    with ys_eq within show ?thesis by simp
  qed
  ultimately show ?thesis
    using assms(1) by (simp add: condensed_pending_def)
qed

text \<open>A pass that succeeds on at least one run shrinks the context.\<close>

lemma condensed_pass_shrinks:
  assumes "chunk_pass condensed_messages (write_condensed_summary env now c) summ cs d w = (Inr (), d', w')"
    and "condensed_pending c m cs d" and "2 \<le> m" and "cs \<noteq> []"
  shows "length (items_of d' c) < length (items_of d c)"
proof -
  let ?n = "length (items_of d c)"
  have "\<exists>rest. (condensed_pending c m rest d' \<and>
      (if rest = cs then length (items_of d' c) \<le> ?n else length (items_of d' c) < ?n)
      \<and> suffix rest cs) \<and> (Inr () = (Inr () :: store_error + unit) \<longrightarrow> rest = [])"
  proof (rule chunk_pass_invariant [OF assms(1)])
    fix ch rest outcome d0 d1
    assume p: "condensed_pending c m (ch # rest) d0 \<and>
      (if ch # rest = cs then length (items_of d0 c) \<le> ?n else length (items_of d0 c) < ?n)
      \<and> suffix (ch # rest) cs"
      and w: "write_condensed_summary env now c ch outcome d0 = Inr d1"
    have "2 \<le> length (cc_rows ch)"
      using p assms(3) by (auto simp: condensed_pending_def)
    then have "length (items_of d1 c) < length (items_of d0 c)"
      using condensed_pending_step(2) [OF conjunct1 [OF p] w] by linarith
    moreover have "length (items_of d0 c) \<le> ?n"
      using p by (auto split: if_splits)
    moreover have "suffix rest cs" using p by (metis suffix_ConsD)
    ultimately show "condensed_pending c m rest d1 \<and>
      (if rest = cs then length (items_of d1 c) \<le> ?n else length (items_of d1 c) < ?n)
      \<and> suffix rest cs"
      using condensed_pending_step(1) [OF conjunct1 [OF p] w] by simp
  qed (use assms(2) in simp)
  with assms(4) show ?thesis by (auto split: if_splits)
qed

lemma condensed_pass_wf:
  assumes "chunk_pass condensed_messages (write_condensed_summary env now c) summ cs d w = (r, d', w')"
    and "condensed_pending c m cs d"
  shows "wf_db d'"
proof -
  have "\<exists>rest. condensed_pending c m rest d' \<and> (r = Inr () \<longrightarrow> rest = [])"
    by (rule chunk_pass_invariant [OF assms(1), where P = "condensed_pending c m"])
      (use assms(2) condensed_pending_step(1) in blast)+
  then show ?thesis by (auto simp: condensed_pending_def)
qed

text \<open>The loop ends: fuel above the number of context items is always enough.\<close>

lemma condensed_loop_total:
  assumes "wf_db d" and "2 \<le> min_condensed_fanout cfg" and "length (items_of d c) < fuel"
  shows "condensed_loop fuel env now c cfg summ d w \<noteq> None"
  using assms
proof (induction fuel arbitrary: d w)
  case (Suc fuel)
  show ?case
  proof (cases "load_condensed_chunks d c cfg")
    case (Inl e)
    then show ?thesis by simp
  next
    case (Inr chunks)
    show ?thesis
    proof (cases "chunks = []")
      case False
      have pend: "condensed_pending c (min_condensed_fanout cfg) chunks d"
        using load_condensed_pending [OF Suc.prems(1) Inr] Suc.prems(2) by simp
      obtain r d1 w1 where pass: "chunk_pass condensed_messages
          (write_condensed_summary env now c) summ chunks d w = (r, d1, w1)"
        by (cases "chunk_pass condensed_messages (write_condensed_summary env now c) summ chunks d w") auto
      show ?thesis
      proof (cases r)
        case (Inl e)
        with pass Inr False show ?thesis by simp
      next
        case ok: (Inr u)
        have "length (items_of d1 c) < fuel"
          using condensed_pass_shrinks [OF _ pend Suc.prems(2) False] pass ok Suc.prems(3) by fastforce
        moreover have "wf_db d1" by (rule condensed_pass_wf [OF pass pend])
        ultimately have "condensed_loop fuel env now c cfg summ d1 w1 \<noteq> None"
          using Suc.IH Suc.prems(2) by blast
        with pass Inr False ok show ?thesis by simp
      qed
    qed (use Inr in simp)
  qed
qed simp

end
