(* ===== verification/Lcm_Leaf_Pass.thy ===== *)
theory Lcm_Leaf_Pass
  imports Lcm_Cycle
begin

text \<open>
  The leaf pass: its chunks stay as loaded while earlier ones are written, the pinned user
  message and the fresh tail are outside every chunk's ordinal range, and nothing is lost
  when no summary item lies inside a range.
\<close>

section \<open>Message items\<close>

definition message_item :: "int \<Rightarrow> int \<Rightarrow> int \<Rightarrow> context_item" where
  "message_item c ord m = \<lparr>ci_conv = c, ci_ordinal = ord, ci_item = MessageItem m\<rparr>"

lemma message_item_simps [simp]:
  "ci_conv (message_item c ord m) = c" "ci_ordinal (message_item c ord m) = ord"
  "ci_item (message_item c ord m) = MessageItem m"
  by (simp_all add: message_item_def)

lemma message_items_item:
  assumes "x \<in> set (message_items d c)"
  shows "message_item c (fst x) (mr_id (snd x)) \<in> set (items_of d c)" and "snd x \<in> set (messages d)"
proof -
  obtain i m where i: "i \<in> set (items_of d c)" "ci_item i = MessageItem m"
    and f: "find_message d m = Some (snd x)" and x: "fst x = ci_ordinal i"
    using assms by (auto simp: message_items_def List.map_filter_def split: item.splits)
  have m: "mr_id (snd x) = m" "snd x \<in> set (messages d)"
    using f by (auto simp: find_message_def find_Some_iff)
  have "ci_conv i = c" using i(1) by (simp add: set_items_of)
  then have "i = message_item c (fst x) (mr_id (snd x))"
    using i(2) x m(1) by (simp add: message_item_def)
  with i(1) show "message_item c (fst x) (mr_id (snd x)) \<in> set (items_of d c)" by simp
  show "snd x \<in> set (messages d)" by (rule m(2))
qed

lemma sorted_message_items:
  "wf_items d \<Longrightarrow> sorted_wrt (<) (map fst (message_items d c))"
  unfolding message_items_def
  by (rule sorted_map_filter [OF sorted_items_of]) (auto split: item.splits)

lemma find_message_exists: "message_exists d m \<Longrightarrow> \<exists>r. find_message d m = Some r \<and> mr_id r = m"
  unfolding find_message_def message_exists_def
  by (metis (mono_tags, lifting) find_None_iff find_Some_iff imageE not_None_eq)

lemma item_in_message_items:
  assumes "wf_items d" and "i \<in> set (items_of d c)" and "ci_item i = MessageItem m"
  obtains r where "(ci_ordinal i, r) \<in> set (message_items d c)" and "mr_id r = m"
proof -
  have "message_exists d m"
    using wf_item_exists [OF assms(1,2)] assms(3) by (simp add: item_exists_def)
  then obtain r where r: "find_message d m = Some r" "mr_id r = m"
    using find_message_exists by blast
  then have "(ci_ordinal i, r) \<in> set (message_items d c)"
    using assms(2,3) by (force simp: message_items_def List.map_filter_def)
  then show ?thesis using r(2) by (rule that)
qed

section \<open>Ranges of leaf chunks\<close>

definition leaf_pending :: "int \<Rightarrow> leaf_chunk list \<Rightarrow> db \<Rightarrow> bool" where
  "leaf_pending c cs d \<longleftrightarrow>
     wf_db d \<and> sorted_wrt (<) (map cr_ordinal (concat cs))
     \<and> (\<forall>ch \<in> set cs. ch \<noteq> []
          \<and> (\<forall>r \<in> set ch. message_item c (cr_ordinal r) (cr_message_id r) \<in> set (items_of d c)))"

lemma leaf_pending_range:
  assumes "leaf_pending c (ch # cs) d"
  shows "0 \<le> chunk_first ch" and "chunk_first ch \<le> chunk_last ch"
    and "ch' \<in> set cs \<Longrightarrow> r \<in> set ch' \<Longrightarrow> chunk_last ch < cr_ordinal r"
proof -
  have ne: "ch \<noteq> []" and s: "sorted_wrt (<) (map cr_ordinal (concat (ch # cs)))"
    using assms by (auto simp: leaf_pending_def)
  show "chunk_first ch \<le> chunk_last ch"
    using s chunk_first_last [OF ne] sorted_hd_last [of cr_ordinal ch] ne
    by (simp add: sorted_wrt_append)
  have "message_item c (chunk_first ch) (cr_message_id (hd ch)) \<in> set (items_of d c)"
    using assms ne chunk_first_last [OF ne] by (auto simp: leaf_pending_def)
  then show "0 \<le> chunk_first ch"
    using assms by (force simp: leaf_pending_def wf_db_def wf_items_def set_items_of)
  assume "ch' \<in> set cs" and "r \<in> set ch'"
  then have "r \<in> set (concat cs)" by auto
  then show "chunk_last ch < cr_ordinal r"
    using s ne chunk_first_last [OF ne] by (auto simp: sorted_wrt_append)
qed

lemma leaf_pending_step:
  assumes p: "leaf_pending c (ch # cs) d"
    and w: "write_leaf_summary env now c ch outcome d = Inr d1"
  shows "leaf_pending c cs d1"
    and "items_of d1 c = collapse (chunk_first ch) (chunk_last ch)
      (summary_item c (chunk_first ch) (sr_id (leaf_summary_row env now c ch outcome))) (items_of d c)"
proof -
  note written = write_leaf_written [OF w] and range = leaf_pending_range [OF p]
  have wf: "wf_db d" using p by (simp add: leaf_pending_def)
  then have wfi: "wf_items d" by (simp add: wf_db_def)
  show items: "items_of d1 c = collapse (chunk_first ch) (chunk_last ch)
      (summary_item c (chunk_first ch) (sr_id (leaf_summary_row env now c ch outcome))) (items_of d c)"
    by (rule items_of_written [OF written wfi range(2)])
  have "wf_db d1" by (rule wf_written [OF written wf range(1,2)])
  moreover have "message_item c (cr_ordinal r) (cr_message_id r) \<in> set (items_of d1 c)"
    if "ch' \<in> set cs" "r \<in> set ch'" for ch' r
    using that p range(3) [OF that] by (auto simp: items set_collapse leaf_pending_def)
  ultimately show "leaf_pending c cs d1"
    using p by (auto simp: leaf_pending_def sorted_wrt_append)
qed

lemma list_all2_rows:
  assumes "list_all2 (row_of d) rows xs"
  shows "map cr_ordinal rows = map fst xs" and "r \<in> set rows \<Longrightarrow> \<exists>x \<in> set xs. row_of d r x"
    and "x \<in> set xs \<Longrightarrow> \<exists>r \<in> set rows. row_of d r x"
  using assms by (induction rows xs rule: list_all2_induct) (auto simp: row_of_def)

lemma eligible_split:
  "message_items d c = eligible d c cfg
     @ drop (length (message_items d c) - fresh_tail_count cfg) (message_items d c)"
  by (simp add: eligible_def)

lemma eligible_subset: "x \<in> set (eligible d c cfg) \<Longrightarrow> x \<in> set (message_items d c)"
  by (auto simp: eligible_def dest: in_set_takeD)

lemma load_leaf_pending:
  assumes wf: "wf_db d" and load: "load_leaf_chunks d c cfg = Inr chunks"
  shows "leaf_pending c chunks d"
proof -
  note spec = load_leaf_chunks_spec [OF load]
  let ?xs = "filter (\<lambda>x. Some (fst x) \<noteq> pinned_ordinal (message_items d c)) (eligible d c cfg)"
  have "wf_items d" using wf by (simp add: wf_db_def)
  then have "sorted_wrt (<) (map fst (message_items d c))" by (rule sorted_message_items)
  then have "sorted_wrt (<) (map fst ?xs)"
    by (auto simp: eligible_def sorted_wrt_map intro!: sorted_wrt_filter sorted_wrt_take)
  then have "sorted_wrt (<) (map cr_ordinal (concat chunks))"
    using list_all2_rows(1) [OF spec(2)] by simp
  moreover have "message_item c (cr_ordinal r) (cr_message_id r) \<in> set (items_of d c)"
    if r: "r \<in> set (concat chunks)" for r
  proof -
    obtain x where x: "x \<in> set ?xs" "row_of d r x"
      using list_all2_rows(2) [OF spec(2) r] by blast
    then have "x \<in> set (message_items d c)" using eligible_subset [of x d c cfg] by simp
    from message_items_item(1) [OF this] x(2) show ?thesis by (simp add: row_of_def)
  qed
  ultimately show ?thesis
    using wf spec(1) by (auto simp: leaf_pending_def leaf_within_def)
qed

text \<open>The message items inside a chunk's range are exactly the chunk's rows.\<close>

lemma leaf_range_rows:
  assumes wf: "wf_db d" and load: "load_leaf_chunks d c cfg = Inr chunks" and ch: "ch \<in> set chunks"
    and x: "x \<in> set (message_items d c)" and range: "chunk_first ch \<le> fst x" "fst x \<le> chunk_last ch"
  shows "\<exists>r \<in> set ch. row_of d r x"
proof -
  obtain pre mid post where seg: "eligible d c cfg = pre @ mid @ post"
    and rows: "list_all2 (row_of d) ch mid"
    using load_leaf_chunks_spec(1) [OF load] ch by (auto simp: leaf_segment_def)
  have ne: "ch \<noteq> []"
    using load_leaf_chunks_spec(1) [OF load] ch by (auto simp: leaf_within_def)
  then have "mid \<noteq> []" using rows by auto
  obtain rest where all: "message_items d c = pre @ mid @ rest"
    using eligible_split [of d c cfg] seg by (metis append.assoc)
  have "sorted_wrt (<) (map fst (message_items d c))"
    using wf by (intro sorted_message_items) (simp add: wf_db_def)
  then have "filter (\<lambda>x. fst (hd mid) \<le> fst x \<and> fst x \<le> fst (last mid)) (pre @ mid @ rest) = mid"
    using \<open>mid \<noteq> []\<close> unfolding all by (rule filter_segment)
  moreover have "fst (hd mid) = chunk_first ch" "fst (last mid) = chunk_last ch"
    using list_all2_rows(1) [OF rows] ne \<open>mid \<noteq> []\<close> chunk_first_last [OF ne]
    by (metis hd_map, metis last_map)
  ultimately have "x \<in> set mid"
    using x range unfolding all by (metis (mono_tags, lifting) mem_Collect_eq set_filter)
  then show ?thesis by (rule list_all2_rows(3) [OF rows])
qed

section \<open>The pinned message and the fresh tail\<close>

definition protected :: "db \<Rightarrow> int \<Rightarrow> lcm_config \<Rightarrow> int \<times> message_row \<Rightarrow> bool" where
  "protected d c cfg x \<longleftrightarrow>
     x \<in> set (message_items d c)
     \<and> (Some (fst x) = pinned_ordinal (message_items d c)
        \<or> x \<in> set (drop (length (message_items d c) - fresh_tail_count cfg) (message_items d c)))"

lemma protected_outside:
  assumes wf: "wf_db d" and load: "load_leaf_chunks d c cfg = Inr chunks" and ch: "ch \<in> set chunks"
    and prot: "protected d c cfg x"
  shows "\<not> (chunk_first ch \<le> fst x \<and> fst x \<le> chunk_last ch)"
proof
  assume range: "chunk_first ch \<le> fst x \<and> fst x \<le> chunk_last ch"
  have x: "x \<in> set (message_items d c)" using prot by (simp add: protected_def)
  obtain r where r: "r \<in> set ch" "row_of d r x"
    using leaf_range_rows [OF wf load ch x] range by blast
  have "r \<in> set (concat chunks)" using r(1) ch by auto
  from list_all2_rows(2) [OF load_leaf_chunks_spec(2) [OF load] this]
  obtain y where "y \<in> set (filter (\<lambda>x. Some (fst x) \<noteq> pinned_ordinal (message_items d c)) (eligible d c cfg))"
    and row: "row_of d r y" by blast
  then have y: "y \<in> set (eligible d c cfg)" "Some (fst y) \<noteq> pinned_ordinal (message_items d c)" by auto
  have same: "fst x = fst y" using r(2) row by (simp add: row_of_def)
  show False
  proof (cases "Some (fst x) = pinned_ordinal (message_items d c)")
    case True
    with same y(2) show False by simp
  next
    case False
    then have "x \<in> set (drop (length (message_items d c) - fresh_tail_count cfg) (message_items d c))"
      using prot by (simp add: protected_def)
    moreover have "sorted_wrt (<) (map fst (message_items d c))"
      using wf by (intro sorted_message_items) (simp add: wf_db_def)
    ultimately have "fst y < fst x"
      using y(1) by (subst (asm) (2) eligible_split [of d c cfg]) (simp add: sorted_wrt_append)
    with same show False by simp
  qed
qed

lemma leaf_pass_keeps:
  assumes "chunk_pass chunk_messages (write_leaf_summary env now c) summ cs d w = (r, d', w')"
    and "leaf_pending c cs d" and "i \<in> set (items_of d c)"
    and "\<And>ch. ch \<in> set cs \<Longrightarrow> \<not> in_range (chunk_first ch) (chunk_last ch) i"
  shows "i \<in> set (items_of d' c)"
proof -
  let ?P = "\<lambda>cs d. leaf_pending c cs d \<and> i \<in> set (items_of d c)
    \<and> (\<forall>ch \<in> set cs. \<not> in_range (chunk_first ch) (chunk_last ch) i)"
  have "\<exists>rest. ?P rest d' \<and> (r = Inr () \<longrightarrow> rest = [])"
  proof (rule chunk_pass_invariant [OF assms(1)])
    fix ch rest outcome d0 d1
    assume p: "?P (ch # rest) d0" and w: "write_leaf_summary env now c ch outcome d0 = Inr d1"
    then have "leaf_pending c (ch # rest) d0" by simp
    note step = leaf_pending_step [OF this w]
    have "\<not> in_range (chunk_first ch) (chunk_last ch) i" using p by simp
    then show "?P rest d1"
      using p step by (auto simp: set_collapse in_range_def)
  qed (use assms(2-4) in auto)
  then show ?thesis by blast
qed

lemma leaf_pass_wf:
  assumes "chunk_pass chunk_messages (write_leaf_summary env now c) summ cs d w = (r, d', w')"
    and "leaf_pending c cs d"
  shows "wf_db d'"
proof -
  have "\<exists>rest. leaf_pending c rest d' \<and> (r = Inr () \<longrightarrow> rest = [])"
    by (rule chunk_pass_invariant [OF assms(1), where P = "leaf_pending c"])
      (use assms(2) leaf_pending_step(1) in blast)+
  then show ?thesis by (auto simp: leaf_pending_def)
qed

section \<open>Coverage through the leaf pass\<close>

text \<open>Every item inside a pending range is one of the chunk's own messages.\<close>

definition leaf_exact :: "int \<Rightarrow> leaf_chunk list \<Rightarrow> db \<Rightarrow> bool" where
  "leaf_exact c cs d \<longleftrightarrow>
     (\<forall>ch \<in> set cs. \<forall>i \<in> set (items_of d c). in_range (chunk_first ch) (chunk_last ch) i \<longrightarrow>
        (\<exists>r \<in> set ch. ci_item i = MessageItem (cr_message_id r)))"

lemma leaf_step_covers:
  assumes p: "leaf_pending c (ch # cs) d" and ex: "leaf_exact c (ch # cs) d"
    and w: "write_leaf_summary env now c ch outcome d = Inr d1"
    and cov: "context_covers d c m"
  shows "context_covers d1 c m" and "leaf_exact c cs d1"
proof -
  note written = write_leaf_written [OF w] and range = leaf_pending_range [OF p]
    and step = leaf_pending_step [OF p w]
  let ?s = "sr_id (leaf_summary_row env now c ch outcome)"
  have wfi: "wf_items d" using p by (simp add: leaf_pending_def wf_db_def)
  show "context_covers d1 c m"
  proof (rule written_context_covers [OF written wfi range(2) _ cov])
    fix i assume i: "i \<in> set (items_of d c)" "in_range (chunk_first ch) (chunk_last ch) i"
      and c: "item_covers d (ci_item i) m"
    then obtain r where r: "r \<in> set ch" "ci_item i = MessageItem (cr_message_id r)"
      using ex by (auto simp: leaf_exact_def)
    then have "(?s, m) \<in> set (summary_messages d1)"
      using c written_frame(7) [OF written] by (auto simp: item_covers_def)
    then show "covers d1 ?s m" by (rule covers.direct)
  qed
  show "leaf_exact c cs d1"
    unfolding leaf_exact_def
  proof (intro ballI impI)
    fix ch' i assume ch': "ch' \<in> set cs" and i: "i \<in> set (items_of d1 c)"
      and r: "in_range (chunk_first ch') (chunk_last ch') i"
    have ne: "ch' \<noteq> []" using p ch' by (auto simp: leaf_pending_def)
    then have "chunk_last ch < chunk_first ch'"
      using range(3) [OF ch', of "hd ch'"] chunk_first_last [OF ne] by simp
    then have "i \<in> set (items_of d c)"
      using i r range(2) unfolding step(2) by (auto simp: set_collapse in_range_def)
    then show "\<exists>r \<in> set ch'. ci_item i = MessageItem (cr_message_id r)"
      using ex ch' r by (auto simp: leaf_exact_def)
  qed
qed

lemma leaf_pass_covers:
  assumes "chunk_pass chunk_messages (write_leaf_summary env now c) summ cs d w = (r, d', w')"
    and "leaf_pending c cs d" and "leaf_exact c cs d" and "context_covers d c m"
  shows "context_covers d' c m"
proof -
  let ?P = "\<lambda>cs d. leaf_pending c cs d \<and> leaf_exact c cs d \<and> context_covers d c m"
  have "\<exists>rest. ?P rest d' \<and> (r = Inr () \<longrightarrow> rest = [])"
  proof (rule chunk_pass_invariant [OF assms(1)])
    fix ch rest outcome d0 d1
    assume p: "?P (ch # rest) d0" and w: "write_leaf_summary env now c ch outcome d0 = Inr d1"
    then show "?P rest d1"
      using leaf_pending_step(1) [of c ch rest d0] leaf_step_covers [of c ch rest d0] by blast
  qed (use assms(2-4) in simp)
  then show ?thesis by blast
qed

text \<open>The layout under which the leaf pass loses nothing: all summaries precede all messages.\<close>

definition is_summary :: "context_item \<Rightarrow> bool" where
  "is_summary i = (case ci_item i of SummaryItem _ \<Rightarrow> True | MessageItem _ \<Rightarrow> False)"

definition summaries_first :: "db \<Rightarrow> int \<Rightarrow> bool" where
  "summaries_first d c \<longleftrightarrow>
     (\<forall>i \<in> set (items_of d c). \<forall>j \<in> set (items_of d c).
        is_summary i \<longrightarrow> \<not> is_summary j \<longrightarrow> ci_ordinal i < ci_ordinal j)"

lemma summaries_first_exact:
  assumes wf: "wf_db d" and load: "load_leaf_chunks d c cfg = Inr chunks" and sf: "summaries_first d c"
  shows "leaf_exact c chunks d"
  unfolding leaf_exact_def
proof (intro ballI impI)
  fix ch i assume ch: "ch \<in> set chunks" and i: "i \<in> set (items_of d c)"
    and r: "in_range (chunk_first ch) (chunk_last ch) i"
  have wfi: "wf_items d" using wf by (simp add: wf_db_def)
  have pend: "leaf_pending c chunks d" by (rule load_leaf_pending [OF wf load])
  then have ne: "ch \<noteq> []" using ch by (auto simp: leaf_pending_def)
  have first: "message_item c (chunk_first ch) (cr_message_id (hd ch)) \<in> set (items_of d c)"
    using pend ch ne chunk_first_last [OF ne] by (auto simp: leaf_pending_def)
  have "\<not> is_summary i"
  proof
    assume "is_summary i"
    moreover have "\<not> is_summary (message_item c (chunk_first ch) (cr_message_id (hd ch)))"
      by (simp add: is_summary_def)
    ultimately have "ci_ordinal i < chunk_first ch"
      using sf i first unfolding summaries_first_def by (metis message_item_simps(2))
    with r show False by (simp add: in_range_def)
  qed
  then obtain m where m: "ci_item i = MessageItem m"
    by (auto simp: is_summary_def split: item.splits)
  obtain row where row: "(ci_ordinal i, row) \<in> set (message_items d c)" "mr_id row = m"
    using item_in_message_items [OF wfi i m] by blast
  obtain q where "q \<in> set ch" "row_of d q (ci_ordinal i, row)"
    using leaf_range_rows [OF wf load ch row(1)] r by (auto simp: in_range_def)
  then show "\<exists>r \<in> set ch. ci_item i = MessageItem (cr_message_id r)"
    using m row(2) by (intro bexI [of _ q]) (simp_all add: row_of_def)
qed

end
