(* ===== verification/Lcm_Run.thy ===== *)
theory Lcm_Run
  imports Lcm_Leaf_Pass
begin

text \<open>
  The whole compaction cycle: \<open>run_compaction_invariant\<close> reduces a fact about
  \<open>run_compaction\<close> to one fact about the leaf pass and one about a condensed pass, on every
  outcome (an error keeps what was already committed). From it: termination, raw messages,
  the protected items, other conversations, well-formedness, coverage, and the layout of
  the context as long as the pinned message is in the fresh tail.
\<close>

section \<open>From the passes to the cycle\<close>

text \<open>Every summarizer the cycle runs reports the token estimate of the text it returns.\<close>

definition outcome_counted :: "escalation_outcome \<Rightarrow> bool" where
  "outcome_counted o' \<longleftrightarrow> eo_output_tokens o' = estimate_tokens (eo_content o')"

definition counting :: "(message list \<Rightarrow> 'w \<Rightarrow> escalation_outcome \<times> 'w) \<Rightarrow> bool" where
  "counting summ \<longleftrightarrow> (\<forall>ms w. outcome_counted (fst (summ ms w)))"

lemma escalation_counted: "outcome_counted (fst (summarize_with_escalation ms call w))"
  by (simp add: outcome_counted_def escalation_tokens)

lemma summarize_chunk_counts: "counting (\<lambda>ms. summarize_chunk env ms summarize ride)"
  unfolding counting_def summarize_chunk_def Let_def
  by (simp add: escalation_counted split: option.split prod.split)
    (metis escalation_counted fst_conv)

lemma condensed_loop_invariant:
  assumes "condensed_loop fuel env now c cfg summ d w = Some (r, d', w')"
    and "wf_db d" and "0 < min_condensed_fanout cfg" and "P d"
    and step: "\<And>d0 chunks u d1 w0 w1. P d0 \<Longrightarrow>
      counting summ \<Longrightarrow> condensed_pending c (min_condensed_fanout cfg) chunks d0 \<Longrightarrow>
      chunk_pass condensed_messages (write_condensed_summary env now c) summ chunks d0 w0 = (u, d1, w1) \<Longrightarrow> P d1"
    and counting: "counting summ"
  shows "P d' \<and> (r = Inr () \<longrightarrow> load_condensed_chunks d' c cfg = Inr [])"
  using assms(1,2,4)
proof (induction fuel arbitrary: d w)
  case (Suc fuel)
  show ?case
  proof (cases "load_condensed_chunks d c cfg")
    case (Inl e)
    with Suc.prems show ?thesis by auto
  next
    case (Inr chunks)
    show ?thesis
    proof (cases "chunks = []")
      case True
      with Inr Suc.prems show ?thesis by auto
    next
      case False
      obtain u d1 w1 where pass: "chunk_pass condensed_messages (write_condensed_summary env now c) summ chunks d w = (u, d1, w1)"
        by (cases "chunk_pass condensed_messages (write_condensed_summary env now c) summ chunks d w") auto
      have pend: "condensed_pending c (min_condensed_fanout cfg) chunks d"
        using load_condensed_pending [OF Suc.prems(2) Inr] assms(3) by simp
      have P: "P d1" by (rule step [OF Suc.prems(3) counting pend pass])
      have wf: "wf_db d1" by (rule condensed_pass_wf [OF pass pend])
      show ?thesis
      proof (cases u)
        case (Inl e)
        with pass Inr False Suc.prems(1) P show ?thesis by auto
      next
        case ok: (Inr v)
        then have "condensed_loop fuel env now c cfg summ d1 w1 = Some (r, d', w')"
          using pass Inr False Suc.prems(1) by simp
        then show ?thesis using Suc.IH wf P by blast
      qed
    qed
  qed
qed simp

lemma condensed_loop_done:
  "load_condensed_chunks d c cfg = Inr [] \<Longrightarrow> 0 < fuel \<Longrightarrow>
     condensed_loop fuel env now c cfg summ d w = Some (Inr (), d, w)"
  by (cases fuel) simp_all

lemma run_compaction_invariant:
  fixes w :: 'w
  assumes run: "run_compaction fuel env now c cfg summarize ride d w = Some (r, d', w')"
    and wf: "wf_db d" and fan: "0 < min_condensed_fanout cfg" and start: "P d"
    and leaf: "\<And>chunks u d1 w1 summ. counting summ \<Longrightarrow> load_leaf_chunks d c cfg = Inr chunks \<Longrightarrow> leaf_pending c chunks d \<Longrightarrow>
      chunk_pass chunk_messages (write_leaf_summary env now c) summ chunks d w = (u, d1, w1) \<Longrightarrow> P d1"
    and cond: "\<And>d0 chunks u d1 (w0 :: 'w) w1 summ. P d0 \<Longrightarrow> counting summ \<Longrightarrow>
      condensed_pending c (min_condensed_fanout cfg) chunks d0 \<Longrightarrow>
      chunk_pass condensed_messages (write_condensed_summary env now c) summ chunks d0 w0 = (u, d1, w1) \<Longrightarrow> P d1"
  shows "P d'" and "\<exists>ev. r = Inr ev \<Longrightarrow> load_condensed_chunks d' c cfg = Inr []"
proof -
  let ?summ = "\<lambda>ms. summarize_chunk env ms summarize ride"
  note counting = summarize_chunk_counts [of env summarize ride]
  have "P d' \<and> ((\<exists>ev. r = Inr ev) \<longrightarrow> load_condensed_chunks d' c cfg = Inr [])"
  proof (cases "load_leaf_chunks d c cfg")
    case (Inl e)
    with run start show ?thesis by (auto simp: run_compaction_def)
  next
    case (Inr chunks)
    have pend: "leaf_pending c chunks d" by (rule load_leaf_pending [OF wf Inr])
    obtain u d1 w1 where pass: "chunk_pass chunk_messages (write_leaf_summary env now c) ?summ chunks d w = (u, d1, w1)"
      by (cases "chunk_pass chunk_messages (write_leaf_summary env now c) ?summ chunks d w") auto
    have P: "P d1" by (rule leaf [OF counting Inr pend pass])
    have wf1: "wf_db d1" by (rule leaf_pass_wf [OF pass pend])
    show ?thesis
    proof (cases u)
      case (Inl e)
      with run Inr pass P show ?thesis by (auto simp: run_compaction_def)
    next
      case ok: (Inr v)
      then obtain q d2 w2 where loop: "condensed_loop fuel env now c cfg ?summ d1 w1 = Some (q, d2, w2)"
        and "d' = d2" and "(\<exists>ev. r = Inr ev) \<longrightarrow> q = Inr ()"
        using run Inr pass by (auto simp: run_compaction_def split: option.splits sum.splits)
      have "P d2 \<and> (q = Inr () \<longrightarrow> load_condensed_chunks d2 c cfg = Inr [])"
        by (rule condensed_loop_invariant [where P = P, OF loop wf1 fan P _ counting]) (rule cond, assumption+)
      with \<open>d' = d2\<close> \<open>(\<exists>ev. r = Inr ev) \<longrightarrow> q = Inr ()\<close> show ?thesis by blast
    qed
  qed
  then show "P d'" and "\<exists>ev. r = Inr ev \<Longrightarrow> load_condensed_chunks d' c cfg = Inr []" by blast+
qed

section \<open>What both passes leave alone\<close>

lemma leaf_pass_typed:
  assumes "chunk_pass chunk_messages (write_leaf_summary env now c) summ cs d w = (r, d', w')"
    and "counting summ" and "store_typed d"
  shows "store_typed d'"
proof -
  have "\<exists>rest :: leaf_chunk list. store_typed d' \<and> (r = Inr () \<longrightarrow> rest = [])"
  proof (rule chunk_pass_outcomes [OF assms(1), where P = "\<lambda>_. store_typed" and Q = outcome_counted])
    fix ch outcome d0 d1
    assume t: "store_typed d0" and q: "outcome_counted outcome"
      and w: "write_leaf_summary env now c ch outcome d0 = Inr d1"
    have "counted (leaf_summary_row env now c ch outcome)"
      using q by (simp add: counted_def outcome_counted_def leaf_summary_row_def Let_def)
    then show "store_typed d1" by (rule store_typed_written [OF write_leaf_written [OF w] _ t])
  qed (use assms(2,3) in \<open>simp_all add: counting_def\<close>)
  then show ?thesis by blast
qed

lemma condensed_pass_typed:
  assumes "chunk_pass condensed_messages (write_condensed_summary env now c) summ cs d w = (r, d', w')"
    and "counting summ" and "store_typed d"
  shows "store_typed d'"
proof -
  have "\<exists>rest :: condensed_chunk list. store_typed d' \<and> (r = Inr () \<longrightarrow> rest = [])"
  proof (rule chunk_pass_outcomes [OF assms(1), where P = "\<lambda>_. store_typed" and Q = outcome_counted])
    fix ch outcome d0 d1
    assume t: "store_typed d0" and q: "outcome_counted outcome"
      and w: "write_condensed_summary env now c ch outcome d0 = Inr d1"
    have "counted (condensed_summary_row env now c ch outcome)"
      using q by (simp add: counted_def outcome_counted_def condensed_summary_row_def Let_def)
    then show "store_typed d1" by (rule store_typed_written [OF write_condensed_written [OF w] _ t])
  qed (use assms(2,3) in \<open>simp_all add: counting_def\<close>)
  then show ?thesis by blast
qed

lemma run_compaction_typed:
  assumes "run_compaction fuel env now c cfg summarize ride d w = Some (r, d', w')"
    and "wf_db d" and "0 < min_condensed_fanout cfg" and "store_typed d"
  shows "store_typed d'"
  by (rule run_compaction_invariant(1) [where P = store_typed, OF assms])
    (auto intro: leaf_pass_typed [OF _ _ assms(4)] condensed_pass_typed)

lemma leaf_pass_fold:
  assumes "chunk_pass chunk_messages (write_leaf_summary env now c) summ cs d w = (r, d', w')" and "P d"
    and "\<And>a b row ms ps d0 d1. written c a b row ms ps d0 d1 \<Longrightarrow> P d0 \<Longrightarrow> P d1"
  shows "P d'"
proof -
  have "\<exists>rest :: leaf_chunk list. P d' \<and> (r = Inr () \<longrightarrow> rest = [])"
    by (rule chunk_pass_invariant [OF assms(1), where P = "\<lambda>_. P"])
      (use assms(2,3) write_leaf_written in blast)+
  then show ?thesis by blast
qed

lemma condensed_pass_fold:
  assumes "chunk_pass condensed_messages (write_condensed_summary env now c) summ cs d w = (r, d', w')" and "P d"
    and "\<And>a b row ms ps d0 d1. written c a b row ms ps d0 d1 \<Longrightarrow> P d0 \<Longrightarrow> P d1"
  shows "P d'"
proof -
  have "\<exists>rest :: condensed_chunk list. P d' \<and> (r = Inr () \<longrightarrow> rest = [])"
    by (rule chunk_pass_invariant [OF assms(1), where P = "\<lambda>_. P"])
      (use assms(2,3) write_condensed_written in blast)+
  then show ?thesis by blast
qed

text \<open>A fact every single write keeps is a fact of the whole cycle.\<close>

lemma run_compaction_writes:
  fixes w :: 'w
  assumes "run_compaction fuel env now c cfg summarize ride d w = Some (r, d', w')"
    and "wf_db d" and "0 < min_condensed_fanout cfg" and "P d"
    and "\<And>a b row ms ps d0 d1. written c a b row ms ps d0 d1 \<Longrightarrow> P d0 \<Longrightarrow> P d1"
  shows "P d'"
proof (rule run_compaction_invariant(1) [where P = P, OF assms(1-4)])
  show "P d1" if "chunk_pass chunk_messages (write_leaf_summary env now c) summ chunks d w = (u, d1, w1)"
    for chunks u d1 w1 and summ :: "message list \<Rightarrow> 'w \<Rightarrow> escalation_outcome \<times> 'w"
    by (rule leaf_pass_fold [where P = P, OF that assms(4,5)])
  show "P d1" if "P d0"
    and "chunk_pass condensed_messages (write_condensed_summary env now c) summ chunks d0 w0 = (u, d1, w1)"
    for chunks u d0 d1 w0 w1 and summ :: "message list \<Rightarrow> 'w \<Rightarrow> escalation_outcome \<times> 'w"
    by (rule condensed_pass_fold [where P = P, OF that(2,1) assms(5)])
qed

text \<open>The tables a compaction never changes, and the rows it only adds.\<close>

definition raw_same :: "db \<Rightarrow> db \<Rightarrow> bool" where
  "raw_same d d' \<longleftrightarrow> messages d' = messages d \<and> parts d' = parts d
     \<and> conversations d' = conversations d \<and> large_files d' = large_files d
     \<and> prefix (summaries d) (summaries d') \<and> prefix (summary_messages d) (summary_messages d')
     \<and> prefix (summary_parents d) (summary_parents d')"

lemma raw_same_refl [simp]: "raw_same d d"
  by (simp add: raw_same_def)

lemma raw_same_written: "written c a b row ms ps d0 d1 \<Longrightarrow> raw_same d d0 \<Longrightarrow> raw_same d d1"
  using written_frame [of c a b row ms ps d0 d1] by (simp add: raw_same_def)

lemma run_compaction_raw_same:
  assumes "run_compaction fuel env now c cfg summarize ride d w = Some (r, d', w')"
    and "wf_db d" and "0 < min_condensed_fanout cfg"
  shows "raw_same d d'"
  by (rule run_compaction_writes [where P = "raw_same d", OF assms])
    (simp_all add: raw_same_written)

lemma run_compaction_other:
  assumes "run_compaction fuel env now c cfg summarize ride d w = Some (r, d', w')"
    and "wf_db d" and "0 < min_condensed_fanout cfg" and "c' \<noteq> c"
  shows "items_of d' c' = items_of d c'"
  by (rule run_compaction_writes [where P = "\<lambda>d0. items_of d0 c' = items_of d c'", OF assms(1-3)])
    (simp_all add: items_of_written_other [OF _ assms(4)])

lemma run_compaction_wf_db:
  assumes "run_compaction fuel env now c cfg summarize ride d w = Some (r, d', w')"
    and "wf_db d" and "0 < min_condensed_fanout cfg"
  shows "wf_db d'"
  by (rule run_compaction_invariant(1) [where P = wf_db, OF assms(1,2,3,2)])
    (auto intro: leaf_pass_wf condensed_pass_wf)

section \<open>Condensed passes: messages stay, coverage stays, the layout stays\<close>

lemma run_range_item:
  assumes "condensed_pending c m (ch # cs) d" and "i \<in> set (items_of d c)"
    and "in_range (run_first ch) (run_last ch) i"
  shows "\<exists>r \<in> set (cc_rows ch). ci_item i = SummaryItem (cd_id r)"
proof -
  have "filter (in_range (run_first ch) (run_last ch)) (items_of d c) = run_items c ch"
    using assms(1) by (simp add: condensed_pending_def)
  then have "i \<in> set (run_items c ch)" using assms(2,3) by (metis (mono_tags, lifting) mem_Collect_eq set_filter)
  then show ?thesis by (auto simp: run_items_def)
qed

lemma condensed_step_items:
  assumes "condensed_pending c m (ch # cs) d"
    and "write_condensed_summary env now c ch outcome d = Inr d1"
  shows "set (items_of d1 c) = insert
      (summary_item c (run_first ch) (sr_id (condensed_summary_row env now c ch outcome)))
      {i \<in> set (items_of d c). \<not> in_range (run_first ch) (run_last ch) i}"
proof -
  have "wf_items d" using assms(1) by (simp add: condensed_pending_def wf_db_def)
  from items_of_written [OF write_condensed_written [OF assms(2)] this condensed_pending_range(2) [OF assms(1)]]
  show ?thesis by (auto simp: set_collapse in_range_def)
qed

lemma condensed_step_messages:
  assumes "condensed_pending c m (ch # cs) d"
    and "write_condensed_summary env now c ch outcome d = Inr d1"
  shows "{i \<in> set (items_of d1 c). \<not> is_summary i} = {i \<in> set (items_of d c). \<not> is_summary i}"
  using run_range_item [OF assms(1)] unfolding condensed_step_items [OF assms]
  by (fastforce simp: is_summary_def)

lemma condensed_pass_messages:
  assumes "chunk_pass condensed_messages (write_condensed_summary env now c) summ cs d w = (r, d', w')"
    and "condensed_pending c m cs d"
  shows "{i \<in> set (items_of d' c). \<not> is_summary i} = {i \<in> set (items_of d c). \<not> is_summary i}"
proof -
  let ?P = "\<lambda>cs d0. condensed_pending c m cs d0
    \<and> {i \<in> set (items_of d0 c). \<not> is_summary i} = {i \<in> set (items_of d c). \<not> is_summary i}"
  have "\<exists>rest. ?P rest d' \<and> (r = Inr () \<longrightarrow> rest = [])"
    by (rule chunk_pass_invariant [OF assms(1)])
      (use assms(2) condensed_pending_step(1) condensed_step_messages in blast)+
  then show ?thesis by blast
qed

lemma condensed_pass_covers:
  assumes "chunk_pass condensed_messages (write_condensed_summary env now c) summ cs d w = (r, d', w')"
    and "condensed_pending c m cs d" and "context_covers d c k"
  shows "context_covers d' c k"
proof -
  let ?P = "\<lambda>cs d. condensed_pending c m cs d \<and> context_covers d c k"
  have "\<exists>rest. ?P rest d' \<and> (r = Inr () \<longrightarrow> rest = [])"
  proof (rule chunk_pass_invariant [OF assms(1)])
    fix ch rest outcome d0 d1
    assume p: "?P (ch # rest) d0" and w: "write_condensed_summary env now c ch outcome d0 = Inr d1"
    then have pend: "condensed_pending c m (ch # rest) d0" by simp
    note written = write_condensed_written [OF w]
    have wfi: "wf_items d0" using pend by (simp add: condensed_pending_def wf_db_def)
    have "context_covers d1 c k"
    proof (rule written_context_covers [OF written wfi condensed_pending_range(2) [OF pend] _ conjunct2 [OF p]])
      fix i assume i: "i \<in> set (items_of d0 c)" "in_range (run_first ch) (run_last ch) i"
        and cov: "item_covers d0 (ci_item i) k"
      obtain x where x: "x \<in> set (cc_rows ch)" "ci_item i = SummaryItem (cd_id x)"
        using run_range_item [OF pend i] by blast
      have "covers d1 (cd_id x) k"
        using written_covers_old [OF written cov] x(2) by (simp add: item_covers_def)
      moreover have "(cd_id x, sr_id (condensed_summary_row env now c ch outcome)) \<in> set (summary_parents d1)"
        using written_frame(8) [OF written] x(1) by auto
      ultimately show "covers d1 (sr_id (condensed_summary_row env now c ch outcome)) k"
        by (rule covers.child [rotated])
    qed
    with condensed_pending_step(1) [OF pend w] show "?P rest d1" by simp
  qed (use assms(2,3) in simp)
  then show ?thesis by blast
qed

lemma condensed_pass_layout:
  assumes "chunk_pass condensed_messages (write_condensed_summary env now c) summ cs d w = (r, d', w')"
    and "condensed_pending c m cs d" and "summaries_first d c"
  shows "summaries_first d' c"
proof -
  let ?P = "\<lambda>cs d. condensed_pending c m cs d \<and> summaries_first d c"
  have "\<exists>rest. ?P rest d' \<and> (r = Inr () \<longrightarrow> rest = [])"
  proof (rule chunk_pass_invariant [OF assms(1)])
    fix ch rest outcome d0 d1
    assume p: "?P (ch # rest) d0" and w: "write_condensed_summary env now c ch outcome d0 = Inr d1"
    then have pend: "condensed_pending c m (ch # rest) d0" and sf: "summaries_first d0 c" by auto
    have ne: "cc_rows ch \<noteq> []" using pend by (simp add: condensed_pending_def)
    have "summary_item c (run_first ch) (cd_id (hd (cc_rows ch))) \<in> set (run_items c ch)"
      using ne run_first_last [OF ne] by (auto simp: run_items_def)
    moreover have "set (run_items c ch) \<subseteq> set (items_of d0 c)"
      using pend by (simp add: condensed_pending_def) (metis filter_is_subset)
    ultimately have old: "summary_item c (run_first ch) (cd_id (hd (cc_rows ch))) \<in> set (items_of d0 c)"
      by blast
    have "summaries_first d1 c"
      using sf old unfolding summaries_first_def condensed_step_items [OF pend w]
      by (fastforce simp: is_summary_def)
    with condensed_pending_step(1) [OF pend w] show "?P rest d1" by simp
  qed (use assms(2,3) in simp)
  then show ?thesis by blast
qed

end
