(* ===== verification/Lcm_Layout.thy ===== *)
theory Lcm_Layout
  imports Lcm_Run
begin

text \<open>
  When compaction loses nothing. While the latest user message is within the fresh tail, a
  cycle keeps all summaries in front of all messages, and then the next cycle's leaf chunks
  contain no summary. \<open>engine_run\<close> is the step relation of one conversation: pushes,
  clears of nothing, and compactions under that guard; every stored message stays reachable
  along it.
\<close>

section \<open>The leaf pass keeps the layout\<close>

definition pin_in_tail :: "db \<Rightarrow> int \<Rightarrow> lcm_config \<Rightarrow> bool" where
  "pin_in_tail d c cfg \<longleftrightarrow>
     list_all (\<lambda>x. Some (fst x) \<noteq> pinned_ordinal (message_items d c)) (eligible d c cfg)"

text \<open>Every message item is one of the pending rows or comes after all of them.\<close>

definition rows_first :: "int \<Rightarrow> leaf_chunk list \<Rightarrow> db \<Rightarrow> bool" where
  "rows_first c cs d \<longleftrightarrow>
     (\<forall>j \<in> set (items_of d c). \<not> is_summary j \<longrightarrow>
        (ci_ordinal j \<in> cr_ordinal ` set (concat cs)
         \<or> (\<forall>r \<in> set (concat cs). cr_ordinal r < ci_ordinal j)))"

lemma load_rows_first:
  assumes wf: "wf_db d" and load: "load_leaf_chunks d c cfg = Inr chunks" and pin: "pin_in_tail d c cfg"
  shows "rows_first c chunks d"
  unfolding rows_first_def
proof (intro ballI impI)
  fix j assume j: "j \<in> set (items_of d c)" and nj: "\<not> is_summary j"
  have wfi: "wf_items d" using wf by (simp add: wf_db_def)
  let ?tail = "drop (length (message_items d c) - fresh_tail_count cfg) (message_items d c)"
  have "filter (\<lambda>x. Some (fst x) \<noteq> pinned_ordinal (message_items d c)) (eligible d c cfg) = eligible d c cfg"
    using pin by (simp add: pin_in_tail_def filter_id_conv list_all_iff)
  then have rows: "map cr_ordinal (concat chunks) = map fst (eligible d c cfg)"
    using list_all2_rows(1) [OF load_leaf_chunks_spec(2) [OF load]] by simp
  then have rows_set: "cr_ordinal ` set (concat chunks) = fst ` set (eligible d c cfg)"
    by (metis list.set_map)
  obtain m where "ci_item j = MessageItem m"
    using nj by (auto simp: is_summary_def split: item.splits)
  then obtain row where "(ci_ordinal j, row) \<in> set (message_items d c)"
    using item_in_message_items [OF wfi j] by blast
  then have "(ci_ordinal j, row) \<in> set (eligible d c cfg @ ?tail)"
    using eligible_split [of d c cfg] by simp
  then consider "(ci_ordinal j, row) \<in> set (eligible d c cfg)" | "(ci_ordinal j, row) \<in> set ?tail"
    by auto
  then show "ci_ordinal j \<in> cr_ordinal ` set (concat chunks)
      \<or> (\<forall>r \<in> set (concat chunks). cr_ordinal r < ci_ordinal j)"
  proof cases
    case 1
    then show ?thesis unfolding rows_set by force
  next
    case 2
    have "sorted_wrt (<) (map fst (eligible d c cfg @ ?tail))"
      using sorted_message_items [OF wfi] eligible_split [of d c cfg] by simp
    then have "\<forall>o' \<in> fst ` set (eligible d c cfg). o' < ci_ordinal j"
      using 2 by (fastforce simp: sorted_wrt_append)
    then show ?thesis unfolding rows_set [symmetric] by blast
  qed
qed

lemma leaf_step_items:
  assumes p: "leaf_pending c (ch # cs) d"
    and w: "write_leaf_summary env now c ch outcome d = Inr d1"
  shows "set (items_of d1 c) = insert
      (summary_item c (chunk_first ch) (sr_id (leaf_summary_row env now c ch outcome)))
      {i \<in> set (items_of d c). \<not> in_range (chunk_first ch) (chunk_last ch) i}"
  unfolding leaf_pending_step(2) [OF p w] set_collapse by (auto simp: in_range_def)

lemma leaf_step_layout:
  assumes p: "leaf_pending c (ch # cs) d" and rows: "rows_first c (ch # cs) d"
    and sf: "summaries_first d c"
    and w: "write_leaf_summary env now c ch outcome d = Inr d1"
  shows "rows_first c cs d1" and "summaries_first d1 c"
proof -
  have ne: "ch \<noteq> []" and sorted: "sorted_wrt (<) (map cr_ordinal (concat (ch # cs)))"
    using p by (auto simp: leaf_pending_def)
  have inside: "chunk_first ch \<le> cr_ordinal r \<and> cr_ordinal r \<le> chunk_last ch" if "r \<in> set ch" for r
    using sorted_between [of cr_ordinal ch, OF _ that] sorted chunk_first_last [OF ne]
    by (simp add: sorted_wrt_append)
  have rest: "chunk_last ch < ci_ordinal j
      \<and> (ci_ordinal j \<in> cr_ordinal ` set (concat cs) \<or> (\<forall>r \<in> set (concat cs). cr_ordinal r < ci_ordinal j))"
    if j: "j \<in> set (items_of d c)" "\<not> is_summary j" "\<not> in_range (chunk_first ch) (chunk_last ch) j" for j
  proof -
    have 1: "ci_ordinal j \<notin> cr_ordinal ` set ch"
      using j(3) inside by (auto simp: in_range_def)
    consider (row) r where "r \<in> set (concat cs)" "cr_ordinal r = ci_ordinal j"
      | (late) "\<forall>r \<in> set (concat (ch # cs)). cr_ordinal r < ci_ordinal j"
      using rows j(1,2) 1 unfolding rows_first_def by fastforce
    then show ?thesis
    proof cases
      case row
      then have "chunk_last ch < ci_ordinal j" using leaf_pending_range(3) [OF p, of _ r] by auto
      with row show ?thesis by (metis imageI)
    next
      case late
      then have "cr_ordinal (last ch) < ci_ordinal j" using ne by auto
      with late show ?thesis using chunk_first_last [OF ne] by simp
    qed
  qed
  show "rows_first c cs d1"
    unfolding rows_first_def leaf_step_items [OF p w]
    using rest by (auto simp: is_summary_def [of "summary_item _ _ _"])
  show "summaries_first d1 c"
    unfolding summaries_first_def leaf_step_items [OF p w]
    using rest sf leaf_pending_range(2) [OF p]
    by (fastforce simp: is_summary_def [of "summary_item _ _ _"] summaries_first_def)
qed

lemma leaf_pass_layout:
  assumes "chunk_pass chunk_messages (write_leaf_summary env now c) summ cs d w = (r, d', w')"
    and "leaf_pending c cs d" and "rows_first c cs d" and "summaries_first d c"
  shows "summaries_first d' c"
proof -
  let ?P = "\<lambda>cs d. leaf_pending c cs d \<and> rows_first c cs d \<and> summaries_first d c"
  have "\<exists>rest. ?P rest d' \<and> (r = Inr () \<longrightarrow> rest = [])"
  proof (rule chunk_pass_invariant [OF assms(1)])
    fix ch rest outcome d0 d1
    assume "?P (ch # rest) d0" and w: "write_leaf_summary env now c ch outcome d0 = Inr d1"
    then have p: "leaf_pending c (ch # rest) d0" and l: "rows_first c (ch # rest) d0" "summaries_first d0 c"
      by auto
    show "?P rest d1"
      using leaf_pending_step(1) [OF p w] leaf_step_layout [OF p l w] by simp
  qed (use assms(2-4) in simp)
  then show ?thesis by blast
qed

lemma leaf_pass_length:
  assumes "chunk_pass chunk_messages (write_leaf_summary env now c) summ cs d w = (r, d', w')"
    and "leaf_pending c cs d"
  shows "length (items_of d' c) \<le> length (items_of d c)"
proof -
  let ?P = "\<lambda>cs d0. leaf_pending c cs d0 \<and> length (items_of d0 c) \<le> length (items_of d c)"
  have "\<exists>rest. ?P rest d' \<and> (r = Inr () \<longrightarrow> rest = [])"
  proof (rule chunk_pass_invariant [OF assms(1)])
    fix ch rest outcome d0 d1
    assume p: "?P (ch # rest) d0" and w: "write_leaf_summary env now c ch outcome d0 = Inr d1"
    then have pend: "leaf_pending c (ch # rest) d0" by simp
    then have ne: "ch \<noteq> []" by (simp add: leaf_pending_def)
    have first: "message_item c (chunk_first ch) (cr_message_id (hd ch)) \<in> set (items_of d0 c)"
      using pend ne chunk_first_last [OF ne] by (auto simp: leaf_pending_def)
    have "in_range (chunk_first ch) (chunk_last ch) (message_item c (chunk_first ch) (cr_message_id (hd ch)))"
      using leaf_pending_range(2) [OF pend] by (simp add: in_range_def)
    then have "filter (in_range (chunk_first ch) (chunk_last ch)) (items_of d0 c) \<noteq> []"
      using first unfolding filter_empty_conv by blast
    then have "0 < length (filter (in_range (chunk_first ch) (chunk_last ch)) (items_of d0 c))" by simp
    then have "length (items_of d1 c) \<le> length (items_of d0 c)"
      using length_collapse [OF leaf_pending_range(2) [OF pend],
          of "summary_item c (chunk_first ch) (sr_id (leaf_summary_row env now c ch outcome))" "items_of d0 c"]
      unfolding leaf_pending_step(2) [OF pend w] by linarith
    with p leaf_pending_step(1) [OF pend w] show "?P rest d1" by simp
  qed (use assms(2) in simp)
  then show ?thesis by blast
qed

end
