(* ===== verification/Lcm_Correct.thy ===== *)
theory Lcm_Correct
  imports Lcm_Layout
begin

text \<open>
  What a compaction cycle guarantees, on every outcome, and the sequence of pushes and
  compactions under which no stored message becomes unreachable. The last section shows the
  interleaving for which the code does lose one.
\<close>

section \<open>One conversation as a step relation\<close>

text \<open>
  The engine holds one summarizer and one raw chat function; each compaction may or may not
  ride the last request. \<open>pin_in_tail\<close> is the guard of the compaction step.
\<close>

inductive engine_run ::
  "lcm_env \<Rightarrow> lcm_config \<Rightarrow> ('w, 'pe) summarize_fn \<Rightarrow> ('tools, 'w, 'pe) raw_chat_fn \<Rightarrow> int \<Rightarrow> db \<Rightarrow> bool"
  for env cfg summarize chat c where
  start: "wf_db d \<Longrightarrow> conversation_exists d c \<Longrightarrow> items_of d c = [] \<Longrightarrow>
    (\<forall>r \<in> set (messages d). mr_conv r \<noteq> c) \<Longrightarrow> store_typed d \<Longrightarrow> engine_run env cfg summarize chat c d"
| push: "engine_run env cfg summarize chat c d \<Longrightarrow> push_message_sync now c msg lf d = Inr d' \<Longrightarrow>
    engine_run env cfg summarize chat c d'"
| push_other: "engine_run env cfg summarize chat c d \<Longrightarrow> conversation_exists d c' \<Longrightarrow> c' \<noteq> c \<Longrightarrow>
    push_message_sync now c' msg lf d = Inr d' \<Longrightarrow> engine_run env cfg summarize chat c d'"
| compact: "engine_run env cfg summarize chat c d \<Longrightarrow> pin_in_tail d c cfg \<Longrightarrow>
    ride = None \<or> (\<exists>snapshot. ride = Some (snapshot, chat)) \<Longrightarrow>
    run_compaction fuel env now c cfg summarize ride d w = Some (r, d', w') \<Longrightarrow>
    engine_run env cfg summarize chat c d'"

inductive_cases engine_run_cases: "engine_run env cfg summarize chat c d"

definition engine_ok :: "int \<Rightarrow> db \<Rightarrow> bool" where
  "engine_ok c d \<longleftrightarrow> wf_db d \<and> conversation_exists d c \<and> summaries_first d c \<and> store_typed d
     \<and> (\<forall>r \<in> set (messages d). mr_conv r = c \<longrightarrow> context_covers d c (mr_id r))"

lemma summaries_first_pushed:
  assumes "wf_db d" and "summaries_first d c"
  shows "summaries_first (pushed_db now c msg lf d) c"
proof -
  have "\<not> is_summary (pushed_item c d)" by (simp add: is_summary_def)
  moreover have "ci_ordinal i < ci_ordinal (pushed_item c d)" if "i \<in> set (items_of d c)" for i
    using that pushed_item_ordinal by (simp add: set_items_of)
  ultimately show ?thesis
    using assms by (auto simp: summaries_first_def items_of_pushed)
qed

lemma context_covers_mono:
  assumes "context_covers d c m" and "set (items_of d c) \<subseteq> set (items_of d' c)"
    and "summary_messages d' = summary_messages d" and "summary_parents d' = summary_parents d"
  shows "context_covers d' c m"
proof -
  obtain i where "i \<in> set (items_of d c)" and "item_covers d (ci_item i) m"
    using assms(1) by (auto simp: context_covers_def)
  then show ?thesis
    unfolding context_covers_def
    using assms(2-4) item_covers_mono [of d "ci_item i" m d'] by auto
qed

lemma engine_ok_push:
  assumes ok: "engine_ok c d"
  shows "engine_ok c (pushed_db now c msg lf d)"
proof -
  let ?d = "pushed_db now c msg lf d"
  have wf: "wf_db d" and cx: "conversation_exists d c" using ok by (auto simp: engine_ok_def)
  have "context_covers ?d c (mr_id r)" if r: "r \<in> set (messages ?d)" "mr_conv r = c" for r
  proof (cases "r = pushed_row now c msg d")
    case True
    then show ?thesis
      by (auto simp: context_covers_def items_of_pushed [OF wf] item_covers_def)
  next
    case False
    with r ok have "context_covers d c (mr_id r)" by (auto simp: engine_ok_def)
    then show ?thesis by (rule context_covers_mono) (auto simp: items_of_pushed [OF wf])
  qed
  moreover have "conversation_exists ?d c" using cx by (simp add: conversation_exists_def)
  ultimately show ?thesis
    using ok wf_pushed_db [OF wf cx] summaries_first_pushed [OF wf] store_typed_pushed
    by (simp add: engine_ok_def)
qed

lemma engine_ok_push_other:
  assumes ok: "engine_ok c d" and cx: "conversation_exists d c'" and ne: "c' \<noteq> c"
  shows "engine_ok c (pushed_db now c' msg lf d)"
proof -
  let ?d = "pushed_db now c' msg lf d"
  have wf: "wf_db d" using ok by (auto simp: engine_ok_def)
  have items: "items_of ?d c = items_of d c" using items_of_pushed_other [of c c'] ne by simp
  have "context_covers ?d c (mr_id r)" if r: "r \<in> set (messages ?d)" "mr_conv r = c" for r
  proof -
    have "context_covers d c (mr_id r)"
      using r ok ne by (auto simp: engine_ok_def)
    then show ?thesis by (rule context_covers_mono) (auto simp: items)
  qed
  moreover have "conversation_exists ?d c"
    using ok by (simp add: engine_ok_def conversation_exists_def)
  ultimately show ?thesis
    using ok wf_pushed_db [OF wf cx] store_typed_pushed
    by (simp add: engine_ok_def summaries_first_def items)
qed

lemma run_compaction_covers:
  assumes run: "run_compaction fuel env now c cfg summarize ride d w = Some (r, d', w')"
    and wf: "wf_db d" and fan: "0 < min_condensed_fanout cfg"
    and sf: "summaries_first d c" and cov: "context_covers d c m"
  shows "context_covers d' c m"
proof (rule run_compaction_invariant(1) [where P = "\<lambda>d. context_covers d c m", OF run wf fan cov])
  show "context_covers d1 c m"
    if "load_leaf_chunks d c cfg = Inr chunks" "leaf_pending c chunks d"
      "chunk_pass chunk_messages (write_leaf_summary env now c) summ chunks d w = (u, d1, w1)"
    for chunks u d1 w1 summ
    using leaf_pass_covers [OF that(3,2) summaries_first_exact [OF wf that(1) sf] cov] .
qed (rule condensed_pass_covers)

lemma run_compaction_layout:
  assumes run: "run_compaction fuel env now c cfg summarize ride d w = Some (r, d', w')"
    and wf: "wf_db d" and fan: "0 < min_condensed_fanout cfg"
    and sf: "summaries_first d c" and pin: "pin_in_tail d c cfg"
  shows "summaries_first d' c"
proof (rule run_compaction_invariant(1) [where P = "\<lambda>d. summaries_first d c", OF run wf fan sf])
  show "summaries_first d1 c"
    if "load_leaf_chunks d c cfg = Inr chunks" "leaf_pending c chunks d"
      "chunk_pass chunk_messages (write_leaf_summary env now c) summ chunks d w = (u, d1, w1)"
    for chunks u d1 w1 summ
    using leaf_pass_layout [OF that(3,2) load_rows_first [OF wf that(1) pin] sf] .
qed (rule condensed_pass_layout)

lemma engine_ok_compact:
  assumes run: "run_compaction fuel env now c cfg summarize ride d w = Some (r, d', w')"
    and ok: "engine_ok c d" and fan: "0 < min_condensed_fanout cfg" and pin: "pin_in_tail d c cfg"
  shows "engine_ok c d'"
proof -
  have wf: "wf_db d" and sf: "summaries_first d c" and typed: "store_typed d"
    using ok by (auto simp: engine_ok_def)
  have raw: "raw_same d d'" by (rule run_compaction_raw_same [OF run wf fan])
  then have "conversation_exists d' c"
    using ok by (simp add: raw_same_def engine_ok_def conversation_exists_def)
  moreover have "context_covers d' c (mr_id q)" if "q \<in> set (messages d')" "mr_conv q = c" for q
  proof (rule run_compaction_covers [OF run wf fan sf])
    show "context_covers d c (mr_id q)"
      using that raw ok by (simp add: raw_same_def engine_ok_def)
  qed
  ultimately show ?thesis
    using run_compaction_wf_db [OF run wf fan] run_compaction_layout [OF run wf fan sf pin]
      run_compaction_typed [OF run wf fan typed]
    by (simp add: engine_ok_def)
qed

lemma engine_run_ok:
  assumes "engine_run env cfg summarize chat c d" and fan: "0 < min_condensed_fanout cfg"
  shows "engine_ok c d"
  using assms(1)
proof induction
  case (start d)
  then show ?case by (auto simp: engine_ok_def summaries_first_def)
next
  case (push d now msg lf d')
  then have "d' = pushed_db now c msg lf d"
    using push_message_sync_ok [of d c now msg lf] by (simp add: engine_ok_def)
  with engine_ok_push [OF push.IH] show ?case by simp
next
  case (push_other d c' now msg lf d')
  then have "d' = pushed_db now c' msg lf d"
    using push_message_sync_ok [of d c' now msg lf] by (simp add: engine_ok_def)
  with engine_ok_push_other [OF push_other.IH push_other.hyps(2,3)] show ?case by simp
next
  case (compact d ride fuel now w r d' w')
  show ?case by (rule engine_ok_compact [OF compact.hyps(4) compact.IH fan compact.hyps(2)])
qed

lemma run_compaction_total:
  assumes "wf_db d" and "2 \<le> min_condensed_fanout cfg" and "length (items_of d c) < fuel"
  shows "run_compaction fuel env now c cfg summarize ride d w \<noteq> None"
proof -
  let ?summ = "\<lambda>ms. summarize_chunk env ms summarize ride"
  show ?thesis
  proof (cases "load_leaf_chunks d c cfg")
    case (Inl e)
    then show ?thesis by (simp add: run_compaction_def)
  next
    case (Inr chunks)
    have pend: "leaf_pending c chunks d" by (rule load_leaf_pending [OF assms(1) Inr])
    obtain u d1 w1 where pass: "chunk_pass chunk_messages (write_leaf_summary env now c) ?summ chunks d w = (u, d1, w1)"
      by (cases "chunk_pass chunk_messages (write_leaf_summary env now c) ?summ chunks d w") auto
    have "condensed_loop fuel env now c cfg ?summ d1 w1 \<noteq> None"
      using leaf_pass_wf [OF pass pend] leaf_pass_length [OF pass pend] assms(2,3)
      by (intro condensed_loop_total) auto
    then show ?thesis
      using pass Inr by (auto simp: run_compaction_def split: sum.splits option.splits)
  qed
qed

section \<open>A sample conversation\<close>

definition sample_env :: lcm_env where
  "sample_env = \<lparr>sha256 = (\<lambda>s. s), file_id_matches = (\<lambda>_. []), debug_str = (\<lambda>s. s)\<rparr>"

text \<open>A summarizer that always fails, so every chunk takes the deterministic fallback.\<close>

definition sample_summarize :: "(unit, unit) summarize_fn" where
  "sample_summarize prompt ms w = (Inl (), w)"

definition sample_chat :: "(unit, unit, unit) raw_chat_fn" where
  "sample_chat session ms tools w = (Inl (), w)"

definition sample_cfg :: lcm_config where
  "sample_cfg = default_lcm_config\<lparr>fresh_tail_count := 1\<rparr>"

definition sample_row :: "int \<Rightarrow> string \<Rightarrow> message_row" where
  "sample_row k role = \<lparr>mr_id = k, mr_conv = 1, mr_seq = k - 1, mr_role = role, mr_content = [],
     mr_tokens = 0, mr_created = []\<rparr>"

text \<open>A user message and two answers, all empty, in the session \<open>general\<close>.\<close>

definition sample_db :: db where
  "sample_db = empty_db\<lparr>conversations := [\<lparr>cv_id = 1, cv_name = ''general''\<rparr>],
     messages := [sample_row 1 ''user'', sample_row 2 ''assistant'', sample_row 3 ''assistant''],
     parts := [text_part 1 0 [], text_part 2 0 [], text_part 3 0 []],
     context_items := [message_item 1 0 1, message_item 1 1 2, message_item 1 2 3],
     next_conversation_id := 2, next_message_id := 4\<rparr>"

type_synonym sample_result = "((store_error + compaction_event) \<times> db \<times> unit) option"

definition sample_run :: "db \<Rightarrow> sample_result" where
  "sample_run d = run_compaction 9 sample_env [] 1 sample_cfg sample_summarize
     (None :: (unit, unit, unit) ride_context option) d ()"

definition sample_summary :: "message list \<Rightarrow> unit \<Rightarrow> escalation_outcome \<times> unit" where
  "sample_summary ms = summarize_chunk sample_env ms sample_summarize
     (None :: (unit, unit, unit) ride_context option)"

definition sample_chunk_row :: "int \<Rightarrow> int \<Rightarrow> message \<Rightarrow> chunk_row" where
  "sample_chunk_row ord m msg = \<lparr>cr_ordinal = ord, cr_message_id = m, cr_tokens = 0,
     cr_created = [], cr_message = msg\<rparr>"

text \<open>The fallback summaries of the two chunks of this section, and their rows.\<close>

definition sample_text :: "string list \<Rightarrow> string" where
  "sample_text roles = concat (map (\<lambda>r. ''['' @ r @ ''] '' @ newline) roles)"

definition sample_summary_row :: "string \<Rightarrow> string list \<Rightarrow> int \<Rightarrow> summary_row" where
  "sample_summary_row s roles tokens =
     \<lparr>sr_id = s, sr_conv = 1, sr_kind = Leaf, sr_depth = 0, sr_content = sample_text roles,
      sr_tokens = tokens, sr_earliest = [], sr_latest = [], sr_desc_count = int (length roles),
      sr_desc_tokens = 0, sr_source_tokens = 0, sr_model = ''level3-truncate'', sr_created = []\<rparr>"

definition sample_id1 :: string where "sample_id1 = ''sum_5b61737369737461''"
definition sample_id2 :: string where "sample_id2 = ''sum_5b757365725d200a''"

definition sample_mid :: db where
  "sample_mid = sample_db\<lparr>
     summaries := [sample_summary_row sample_id1 [''assistant''] 3],
     summary_messages := [(sample_id1, 2)],
     context_items := [message_item 1 0 1, message_item 1 2 3, summary_item 1 1 sample_id1]\<rparr>"

text \<open>The next user message, and the database after the second compaction.\<close>

definition sample_second :: db where
  "sample_second = sample_mid\<lparr>
     messages := messages sample_mid @ [sample_row 4 ''user''],
     parts := parts sample_mid @ [text_part 4 0 []],
     context_items := context_items sample_mid @ [message_item 1 3 4],
     next_message_id := 5\<rparr>"

definition sample_lost :: db where
  "sample_lost = sample_second\<lparr>
     summaries := summaries sample_mid @ [sample_summary_row sample_id2 [''user'', ''assistant''] 5],
     summary_messages := [(sample_id1, 2), (sample_id2, 1), (sample_id2, 3)],
     context_items := [message_item 1 3 4, summary_item 1 0 sample_id2]\<rparr>"

lemma sample_pushes:
  "bind_res (push_message_sync [] 1 (User []) None (snd (ensure_conversation ''general'' empty_db)))
     (\<lambda>d. bind_res (push_message_sync [] 1 (Assistant []) None d)
        (push_message_sync [] 1 (Assistant []) None)) = Inr sample_db"
  by code_simp

lemma wf_sample_db: "wf_db sample_db"
  by code_simp

lemma sample_items:
  "message_items sample_db 1 = [(0, sample_row 1 ''user''), (1, sample_row 2 ''assistant''), (2, sample_row 3 ''assistant'')]"
  "message_items sample_second 1 = [(0, sample_row 1 ''user''), (2, sample_row 3 ''assistant''), (3, sample_row 4 ''user'')]"
  by code_simp+

lemma sample_parts:
  "parts sample_db = [text_part 1 0 [], text_part 2 0 [], text_part 3 0 []]"
  "parts sample_second = [text_part 1 0 [], text_part 2 0 [], text_part 3 0 [], text_part 4 0 []]"
  by (simp_all add: sample_db_def sample_mid_def sample_second_def)

lemma sample_rebuilt:
  "reconstruct_row sample_db (sample_row 2 ''assistant'') = Inr (Assistant [])"
  "reconstruct_row sample_second (sample_row 1 ''user'') = Inr (User [])"
  "reconstruct_row sample_second (sample_row 3 ''assistant'') = Inr (Assistant [])"
  by (simp_all add: reconstruct_row_def reconstruct_message_def parts_of_def sample_row_def text_part_def
      sample_parts)

lemma sample_limits: "fresh_tail_count sample_cfg = 1" "leaf_chunk_tokens sample_cfg > 0"
  "2 \<le> min_condensed_fanout sample_cfg" "0 < min_condensed_fanout sample_cfg"
  by (simp_all add: sample_cfg_def default_lcm_config_def)

lemma sample_row_simps [simp]:
  "mr_id (sample_row k role) = k" "mr_role (sample_row k role) = role" "mr_tokens (sample_row k role) = 0"
  "mr_created (sample_row k role) = []"
  by (simp_all add: sample_row_def)

lemma sample_chunks:
  "load_leaf_chunks sample_db 1 sample_cfg = Inr [[sample_chunk_row 1 2 (Assistant [])]]"
  by (simp add: load_leaf_chunks_def sample_items sample_limits sample_rebuilt pinned_ordinal_def
      max_opt_def numeral_2_eq_2 sample_chunk_row_def)

lemma sample_outcome:
  "sample_summary [Assistant []] () =
     (\<lparr>eo_content = sample_text [''assistant''], eo_level = Deterministic, eo_input_tokens = 0,
       eo_output_tokens = 3\<rparr>, ())"
  by code_simp

lemma sample_write:
  "write_leaf_summary sample_env [] 1 [sample_chunk_row 1 2 (Assistant [])]
     \<lparr>eo_content = sample_text [''assistant''], eo_level = Deterministic, eo_input_tokens = 0,
       eo_output_tokens = 3\<rparr> sample_db = Inr sample_mid"
  by code_simp

lemma sample_entries:
  "map_res (condensed_entry sample_mid) (items_of sample_mid 1) =
     Inr [None, Some (condensed_row_of 1 (sample_summary_row sample_id1 [''assistant''] 3)), None]"
  by code_simp

lemma sample_no_runs: "load_condensed_chunks sample_mid 1 sample_cfg = Inr []"
  using sample_limits(3) by (simp add: load_condensed_chunks_def sample_entries collect_runs_def)

lemma sample_run_first: "sample_run sample_db = Some (Inr \<lparr>ev_before = 0, ev_after = 3\<rparr>, sample_mid, ())"
proof -
  have "token_estimate_sync sample_db 1 = 0" and "token_estimate_sync sample_mid 1 = 3" by code_simp+
  moreover have "chunk_messages [sample_chunk_row 1 2 (Assistant [])] = [Assistant []]"
    by (simp add: chunk_messages_def sample_chunk_row_def)
  ultimately show ?thesis
    using sample_outcome sample_write
    by (simp add: sample_run_def run_compaction_def sample_chunks sample_summary_def [symmetric] Let_def
        condensed_loop_done sample_no_runs)
qed

lemma sample_second_pushed: "push_message_sync [] 1 (User []) None sample_mid = Inr sample_second"
  by code_simp

lemma wf_sample_second: "wf_db sample_second"
  by code_simp

abbreviation sample_rows :: leaf_chunk where
  "sample_rows \<equiv> [sample_chunk_row 0 1 (User []), sample_chunk_row 2 3 (Assistant [])]"

abbreviation sample_outcome2 :: escalation_outcome where
  "sample_outcome2 \<equiv> \<lparr>eo_content = sample_text [''user'', ''assistant''], eo_level = Deterministic,
     eo_input_tokens = 0, eo_output_tokens = 5\<rparr>"

lemma sample_chunks2: "load_leaf_chunks sample_second 1 sample_cfg = Inr [sample_rows]"
  using sample_limits(2)
  by (simp add: load_leaf_chunks_def sample_items sample_limits(1) sample_rebuilt pinned_ordinal_def
      max_opt_def numeral_2_eq_2 sample_chunk_row_def)

lemma sample_outcome_second: "sample_summary [User [], Assistant []] () = (sample_outcome2, ())"
  by code_simp

lemma sample_write2:
  "write_leaf_summary sample_env [] 1 sample_rows sample_outcome2 sample_second = Inr sample_lost"
  by code_simp

lemma sample_entries2:
  "map_res (condensed_entry sample_lost) (items_of sample_lost 1) =
     Inr [Some (condensed_row_of 0 (sample_summary_row sample_id2 [''user'', ''assistant''] 5)), None]"
  by code_simp

lemma sample_no_runs2: "load_condensed_chunks sample_lost 1 sample_cfg = Inr []"
  using sample_limits(3) by (simp add: load_condensed_chunks_def sample_entries2 collect_runs_def)

lemma sample_run_second: "sample_run sample_second = Some (Inr \<lparr>ev_before = 3, ev_after = 5\<rparr>, sample_lost, ())"
proof -
  have "token_estimate_sync sample_second 1 = 3" and "token_estimate_sync sample_lost 1 = 5" by code_simp+
  moreover have "chunk_messages sample_rows = [User [], Assistant []]"
    by (simp add: chunk_messages_def sample_chunk_row_def)
  ultimately show ?thesis
    using sample_outcome_second sample_write2
    by (simp add: sample_run_def run_compaction_def sample_chunks2 sample_summary_def [symmetric] Let_def
        condensed_loop_done sample_no_runs2)
qed

section \<open>What a compaction cycle guarantees\<close>

text \<open>
  C1: A compaction cycle always ends. With a fan-out of at least two (which
  \<open>validate_lcm\<close> enforces) and fuel above the number of context items, \<open>run_compaction\<close>
  returns a result: each condensed pass that collapses a run leaves fewer items.
\<close>

theorem compaction_terminates:
  assumes "wf_db d" and "2 \<le> min_condensed_fanout cfg" and "length (items_of d c) < fuel"
  shows "\<exists>res. run_compaction fuel env now c cfg summarize ride d w = Some res"
proof -
  have "run_compaction fuel env now c cfg summarize ride d w \<noteq> None"
    by (rule run_compaction_total [OF assms])
  then show ?thesis by blast
qed

theorem compaction_terminates_witness:
  "\<exists>res. run_compaction 4 sample_env [] 1 sample_cfg sample_summarize
     (None :: (unit, unit, unit) ride_context option) sample_db () = Some res"
proof (rule compaction_terminates [OF wf_sample_db])
  show "2 \<le> min_condensed_fanout sample_cfg" by (rule sample_limits)
  show "length (items_of sample_db 1) < 4" by code_simp
qed

text \<open>
  C23: Whatever the outcome, errors included, a cycle keeps every raw message, part,
  conversation and large file, only adds summaries and links, keeps the database
  well-formed, and leaves the contexts of other conversations as they were.
\<close>

theorem compaction_keeps_raw:
  assumes "run_compaction fuel env now c cfg summarize ride d w = Some (r, d', w')"
    and "wf_db d" and "0 < min_condensed_fanout cfg"
  shows "wf_db d' \<and> messages d' = messages d \<and> parts d' = parts d
    \<and> conversations d' = conversations d \<and> large_files d' = large_files d
    \<and> prefix (summaries d) (summaries d') \<and> prefix (summary_messages d) (summary_messages d')
    \<and> prefix (summary_parents d) (summary_parents d')
    \<and> (\<forall>c'. c' \<noteq> c \<longrightarrow> items_of d' c' = items_of d c')"
  using run_compaction_wf_db [OF assms] run_compaction_raw_same [OF assms] run_compaction_other [OF assms]
  by (simp add: raw_same_def)

theorem compaction_keeps_raw_witness:
  "messages sample_lost = messages sample_second \<and> wf_db sample_lost"
proof -
  from compaction_keeps_raw [OF sample_run_second [unfolded sample_run_def] wf_sample_second sample_limits(4)]
  show ?thesis by simp
qed

text \<open>
  C2: The latest user message and the last \<open>fresh_tail_count\<close> messages are never compacted:
  on every outcome their items are still in the context, at the same ordinals.
\<close>

theorem compaction_protects:
  assumes run: "run_compaction fuel env now c cfg summarize ride d w = Some (r, d', w')"
    and wf: "wf_db d" and fan: "0 < min_condensed_fanout cfg"
    and prot: "protected d c cfg (ord, row)"
  shows "message_item c ord (mr_id row) \<in> set (items_of d' c)"
proof (rule run_compaction_invariant(1) [where P = "\<lambda>d. message_item c ord (mr_id row) \<in> set (items_of d c)",
      OF run wf fan])
  show item: "message_item c ord (mr_id row) \<in> set (items_of d c)"
    using message_items_item(1) [of "(ord, row)" d c] prot by (simp add: protected_def)
  show "message_item c ord (mr_id row) \<in> set (items_of d1 c)"
    if "load_leaf_chunks d c cfg = Inr chunks" "leaf_pending c chunks d"
      "chunk_pass chunk_messages (write_leaf_summary env now c) summ chunks d w = (u, d1, w1)"
    for chunks u d1 w1 summ
    using protected_outside [OF wf that(1) _ prot]
    by (intro leaf_pass_keeps [OF that(3,2) item]) (auto simp: in_range_def)
  show "message_item c ord (mr_id row) \<in> set (items_of d1 c)"
    if "message_item c ord (mr_id row) \<in> set (items_of d0 c)"
      "condensed_pending c (min_condensed_fanout cfg) chunks d0"
      "chunk_pass condensed_messages (write_condensed_summary env now c) summ chunks d0 w0 = (u, d1, w1)"
    for d0 chunks u d1 w0 w1 summ
  proof -
    have "\<not> is_summary (message_item c ord (mr_id row))" by (simp add: is_summary_def)
    with condensed_pass_messages [OF that(3,2)] that(1) show ?thesis by blast
  qed
qed

theorem compaction_protects_witness:
  "message_item 1 0 1 \<in> set (items_of sample_mid 1)"
proof -
  have "protected sample_db 1 sample_cfg (0, sample_row 1 ''user'')"
    by (simp add: protected_def sample_items pinned_ordinal_def max_opt_def)
  from compaction_protects [OF sample_run_first [unfolded sample_run_def] wf_sample_db sample_limits(4) this]
  show ?thesis by (simp add: sample_row_def)
qed

text \<open>
  A cycle that succeeds leaves nothing to condense: no run of summaries of one depth
  is long enough and small enough any more, and the event reports the token counts of the
  context before and after.
\<close>

theorem compaction_fixpoint:
  assumes "run_compaction fuel env now c cfg summarize ride d w = Some (Inr ev, d', w')"
    and "wf_db d" and "0 < min_condensed_fanout cfg"
  shows "load_condensed_chunks d' c cfg = Inr []
    \<and> ev = \<lparr>ev_before = token_estimate_sync d c, ev_after = token_estimate_sync d' c\<rparr>"
proof
  show "load_condensed_chunks d' c cfg = Inr []"
    by (rule run_compaction_invariant(2) [where P = "\<lambda>_. True", OF assms]) auto
  show "ev = \<lparr>ev_before = token_estimate_sync d c, ev_after = token_estimate_sync d' c\<rparr>"
    using assms(1) by (auto simp: run_compaction_def Let_def split: sum.splits prod.splits option.splits)
qed

theorem compaction_fixpoint_witness:
  "load_condensed_chunks sample_mid 1 sample_cfg = Inr [] \<and> token_estimate_sync sample_mid 1 = 3"
proof -
  show ?thesis
    using compaction_fixpoint [OF sample_run_first [unfolded sample_run_def] wf_sample_db sample_limits(4)] by simp
qed

section \<open>What stays reachable\<close>

text \<open>
  If the summaries of a context precede its messages, a cycle loses nothing: every raw
  message the context reached, through an item or through summaries, it still reaches.
\<close>

theorem compaction_covers:
  assumes "run_compaction fuel env now c cfg summarize ride d w = Some (r, d', w')"
    and "wf_db d" and "0 < min_condensed_fanout cfg" and "summaries_first d c"
  shows "{m. context_covers d c m} \<subseteq> {m. context_covers d' c m}"
  using run_compaction_covers [OF assms] by blast

theorem compaction_covers_witness: "2 \<in> {m. context_covers sample_mid 1 m}"
proof -
  have sf: "summaries_first sample_db 1" by code_simp
  have "message_item 1 1 2 \<in> set (items_of sample_db 1)" by code_simp
  then have "context_covers sample_db 1 2"
    by (force simp: context_covers_def item_covers_def)
  with compaction_covers [OF sample_run_first [unfolded sample_run_def] wf_sample_db sample_limits(4) sf]
  show ?thesis by blast
qed

text \<open>
  C3: No message of a conversation ever becomes unreachable, whatever the sequence of
  pushes (to it or to other conversations) and compactions, ridden or not, failed or not,
  as long as each compaction starts with the latest user message in the fresh tail.
\<close>

theorem engine_run_reaches:
  assumes "engine_run env cfg summarize chat c d" and "0 < min_condensed_fanout cfg"
    and "row \<in> set (messages d)" and "mr_conv row = c"
  shows "wf_db d \<and> context_covers d c (mr_id row)"
  using engine_run_ok [OF assms(1,2)] assms(3,4) by (simp add: engine_ok_def)

theorem engine_run_reaches_witness:
  "context_covers (pushed_db [] 1 (User []) None
     (snd (ensure_conversation ''general'' empty_db))) 1 1"
proof -
  let ?d = "snd (ensure_conversation ''general'' empty_db)"
  let ?p = "pushed_db [] 1 (User []) None ?d"
  have wf: "wf_db ?d" by code_simp
  have ex: "conversation_exists ?d 1" by code_simp
  have "items_of ?d 1 = []" by code_simp
  moreover have "\<forall>r \<in> set (messages ?d). mr_conv r \<noteq> 1" by code_simp
  moreover have "store_typed ?d" by code_simp
  ultimately have "engine_run sample_env sample_cfg sample_summarize sample_chat 1 ?d"
    using wf ex by (intro engine_run.start)
  then have run: "engine_run sample_env sample_cfg sample_summarize sample_chat 1 ?p"
    by (rule engine_run.push) (rule push_message_sync_ok [OF wf ex])
  have row: "pushed_row [] 1 (User []) ?d \<in> set (messages ?p)" "mr_conv (pushed_row [] 1 (User []) ?d) = 1"
    by simp_all
  have "next_message_id ?d = 1" by code_simp
  with engine_run_reaches [OF run sample_limits(4) row] show ?thesis by (simp only: pushed_row_simps)
qed

text \<open>
  C28: Without that guard the code does lose a message. A compaction splits the context
  around the pinned user message; the next user message moves the pin, the next leaf chunk
  spans the earlier summary, and its \<open>DELETE\<close> removes that summary from the context with no
  link from the new one. Message 2 is stored, was reachable, and is reachable no more,
  although both compactions succeed.
\<close>

theorem compaction_loses_interleaved_summary:
  "sample_run sample_db = Some (Inr \<lparr>ev_before = 0, ev_after = 3\<rparr>, sample_mid, ())
   \<and> push_message_sync [] 1 (User []) None sample_mid = Inr sample_second
   \<and> sample_run sample_second = Some (Inr \<lparr>ev_before = 3, ev_after = 5\<rparr>, sample_lost, ())
   \<and> sample_row 2 ''assistant'' \<in> set (messages sample_lost)
   \<and> context_covers sample_second 1 2 \<and> \<not> context_covers sample_lost 1 2"
proof (intro conjI)
  have "summary_item 1 1 sample_id1 \<in> set (items_of sample_second 1)" by code_simp
  moreover have "covers sample_second sample_id1 2"
    by (rule covers.direct) code_simp
  ultimately show "context_covers sample_second 1 2"
    by (force simp: context_covers_def item_covers_def)
  have items: "items_of sample_lost 1 = [summary_item 1 0 sample_id2, message_item 1 3 4]" by code_simp
  have "summary_parents sample_lost = []" and "(sample_id2, 2) \<notin> set (summary_messages sample_lost)"
    by code_simp+
  then have "\<not> covers sample_lost sample_id2 2" by (subst covers_simp) simp
  then show "\<not> context_covers sample_lost 1 2"
    by (simp add: context_covers_def items item_covers_def)
  show "sample_row 2 ''assistant'' \<in> set (messages sample_lost)" by code_simp
qed (rule sample_run_first sample_second_pushed sample_run_second)+

end
