(* ===== verification/Lcm_Assemble.thy ===== *)
theory Lcm_Assemble
  imports Lcm_Items
begin

text \<open>
  Assembling the provider's message list from the context
  (\<^verbatim>\<open>src/src/context/lcm/engine.rs\<close>, \<open>assemble_sync\<close> and \<open>written_files_segment\<close>):
  the system prompt, with recall guidance and the written files once a summary is in the
  context, then every item in ordinal order. The lemmas: pushing a message appends exactly
  that message; a context that was never compacted gives back the pushed messages.
\<close>

section \<open>Files written since the latest user message\<close>

definition WRITTEN_FILES_CAP :: nat where
  "WRITTEN_FILES_CAP = 30"

definition WRITTEN_FILES_HEADER :: string where
  "WRITTEN_FILES_HEADER = ''## Files Written For This Request''"

text \<open>\<open>SELECT MAX(seq) .. role = 'user'\<close>: \<open>None\<close> for no row.\<close>

definition latest_user_seq :: "db \<Rightarrow> int \<Rightarrow> int option" where
  "latest_user_seq d c =
     max_opt (map mr_seq (filter (\<lambda>r. mr_conv r = c \<and> mr_role r = ''user'') (messages d)))"

definition compacted_after :: "db \<Rightarrow> int \<Rightarrow> int \<Rightarrow> bool" where
  "compacted_after d c pinned \<longleftrightarrow>
     list_ex (\<lambda>r. mr_conv r = c \<and> mr_seq r > pinned
       \<and> \<not> list_ex (\<lambda>i. ci_conv i = c \<and> ci_item i = MessageItem (mr_id r)) (context_items d))
     (messages d)"

definition written_inputs :: "db \<Rightarrow> int \<Rightarrow> int \<Rightarrow> string option list" where
  "written_inputs d c pinned =
     (let rows = List.map_filter
            (\<lambda>p. case find_message d (pt_message p) of
                   None \<Rightarrow> None
                 | Some r \<Rightarrow>
                     if mr_conv r = c \<and> mr_seq r > pinned \<and> pt_type p = ToolCallPart
                        \<and> (pt_tool_name p = Some ''file_write'' \<or> pt_tool_name p = Some ''file_edit'')
                     then Some (mr_seq r, pt_ordinal p, pt_tool_input p) else None) (parts d)
      in map (\<lambda>(_, _, input). input)
           (rev (sort_key (\<lambda>(s, _, _). s) (sort_key (\<lambda>(_, ord, _). ord) rows))))"

text \<open>The loop over the inputs; \<open>path_of\<close> reads the \<open>path\<close> field of a JSON text.\<close>

fun written_paths :: "(string \<Rightarrow> string option) \<Rightarrow> string list \<Rightarrow> string list \<Rightarrow> string list" where
  "written_paths path_of [] paths = paths"
| "written_paths path_of (input # inputs) paths =
     (case path_of input of
        None \<Rightarrow> written_paths path_of inputs paths
      | Some path \<Rightarrow>
          if path \<in> set paths then written_paths path_of inputs paths
          else if length (paths @ [path]) = WRITTEN_FILES_CAP then paths @ [path]
          else written_paths path_of inputs (paths @ [path]))"

definition written_files_segment ::
  "(string \<Rightarrow> string option) \<Rightarrow> db \<Rightarrow> int \<Rightarrow> store_error + string option" where
  "written_files_segment path_of d c =
     (case latest_user_seq d c of
        None \<Rightarrow> Inr None
      | Some pinned \<Rightarrow>
          if \<not> compacted_after d c pinned then Inr None
          else bind_res (map_res column_text (written_inputs d c pinned)) (\<lambda>inputs.
            (let paths = written_paths path_of inputs []
             in Inr (if paths = [] then None
                  else Some (WRITTEN_FILES_HEADER @ newline @ join_with newline paths)))))"

section \<open>Assembly\<close>

definition RECALL_GUIDANCE :: string where
  "RECALL_GUIDANCE = join_with newline
    [''## Compacted History'', [],
     ''Summaries above are compressed context: maps to details, not the '' @
     ''details themselves. Use retrieval tools before asserting specifics '' @
     ''from summaries.'', [],
     ''Tool escalation:'',
     ''1. lcm_grep: search by keyword or regex'',
     ''2. lcm_describe: inspect a specific summary's metadata and lineage'',
     ''3. lcm_expand: drill into a summary to retrieve children or source '' @
     ''messages (sub-agent only)'', [],
     ''Do not guess exact values (commands, paths, SHAs, config) from '' @
     ''condensed summaries. Use lcm_grep to search, or delegate expansion '' @
     ''to a sub-agent.'']"

datatype assemble_row = MessageRow message_row | SummaryRow summary_row

text \<open>One row of the join: a missing partner has NULL columns, which the reads reject.\<close>

definition assemble_row :: "db \<Rightarrow> context_item \<Rightarrow> store_error + assemble_row" where
  "assemble_row d i =
     (case ci_item i of
        MessageItem m \<Rightarrow>
          (case find_message d m of None \<Rightarrow> Inl InvalidColumnType | Some r \<Rightarrow> Inr (MessageRow r))
      | SummaryItem s \<Rightarrow>
          (case find_summary d s of None \<Rightarrow> Inl InvalidColumnType | Some r \<Rightarrow> Inr (SummaryRow r)))"

definition kind_str :: "summary_kind \<Rightarrow> string" where
  "kind_str k = (case k of Leaf \<Rightarrow> ''leaf'' | Condensed \<Rightarrow> ''condensed'')"

definition summary_message :: "summary_row \<Rightarrow> message" where
  "summary_message s = System
     (''<summary id=\"'' @ sr_id s @ ''\" kind=\"'' @ kind_str (sr_kind s)
      @ ''\" depth=\"'' @ int_str (sr_depth s)
      @ ''\" earliest_at=\"'' @ sr_earliest s @ ''\" latest_at=\"'' @ sr_latest s @ ''\">'' @ newline
      @ sr_content s @ newline @ ''</summary>'')"

fun row_message :: "db \<Rightarrow> assemble_row \<Rightarrow> store_error + message" where
  "row_message d (MessageRow r) = reconstruct_row d r"
| "row_message d (SummaryRow s) = Inr (summary_message s)"

definition is_summary_row :: "assemble_row \<Rightarrow> bool" where
  "is_summary_row x = (case x of SummaryRow _ \<Rightarrow> True | MessageRow _ \<Rightarrow> False)"

definition system_content ::
  "(string \<Rightarrow> string option) \<Rightarrow> db \<Rightarrow> int \<Rightarrow> string \<Rightarrow> assemble_row list \<Rightarrow> store_error + string" where
  "system_content path_of d c system_prompt entries =
     (if list_ex is_summary_row entries then
        bind_res (written_files_segment path_of d c) (\<lambda>segment.
          Inr (system_prompt @ newline @ newline @ RECALL_GUIDANCE @
               (case segment of None \<Rightarrow> [] | Some s \<Rightarrow> newline @ newline @ s)))
      else Inr system_prompt)"

definition assemble_sync ::
  "(string \<Rightarrow> string option) \<Rightarrow> db \<Rightarrow> int \<Rightarrow> string \<Rightarrow> store_error + message list" where
  "assemble_sync path_of d c system_prompt =
     bind_res (map_res (assemble_row d) (items_of d c)) (\<lambda>entries.
     bind_res (system_content path_of d c system_prompt entries) (\<lambda>content.
     bind_res (map_res (row_message d) entries) (\<lambda>ms.
     Inr (System content # ms))))"

section \<open>The written paths\<close>

lemma written_paths_prefix: "prefix paths (written_paths path_of inputs paths)"
  by (induction path_of inputs paths rule: written_paths.induct)
    (auto split: option.splits intro: append_prefixD)

lemma written_paths_invariant:
  assumes "distinct paths" and "length paths < WRITTEN_FILES_CAP"
  shows "distinct (written_paths path_of inputs paths)
    \<and> length (written_paths path_of inputs paths) \<le> WRITTEN_FILES_CAP
    \<and> set (written_paths path_of inputs paths) \<subseteq> set paths \<union> set (List.map_filter path_of inputs)"
  using assms
proof (induction path_of inputs paths rule: written_paths.induct)
  case (2 path_of input inputs paths)
  show ?case
  proof (cases "path_of input")
    case None
    with 2 show ?thesis by (simp add: List.map_filter_simps)
  next
    case (Some path)
    with 2 show ?thesis by (auto simp: List.map_filter_simps)
  qed
qed simp

section \<open>Assembly after a push\<close>

lemma find_append: "find P (xs @ ys) = (case find P xs of None \<Rightarrow> find P ys | Some x \<Rightarrow> Some x)"
  by (induction xs) auto

lemma find_message_pushed_old:
  "m \<noteq> next_message_id d \<Longrightarrow> find_message (pushed_db now c msg lf d) m = find_message d m"
  by (auto simp: find_message_def find_append split: option.splits)

lemma find_message_pushed_new:
  assumes "wf_db d"
  shows "find_message (pushed_db now c msg lf d) (next_message_id d) = Some (pushed_row now c msg d)"
proof -
  have "find (\<lambda>r. mr_id r = next_message_id d) (messages d) = None"
    using wf_fresh_message(1) [OF assms] by (force simp: find_None_iff)
  then show ?thesis by (simp add: find_message_def find_append)
qed

lemma find_summary_pushed: "find_summary (pushed_db now c msg lf d) s = find_summary d s"
  by (simp add: find_summary_def)

lemma item_message_old:
  assumes "wf_db d" and "i \<in> set (items_of d c)" and "ci_item i = MessageItem m"
  shows "m \<noteq> next_message_id d"
proof -
  have "message_exists d m"
    using wf_item_exists [of d i c] assms by (simp add: wf_db_def item_exists_def)
  then show ?thesis using wf_fresh_message(1) [OF assms(1)] by (auto simp: message_exists_def image_iff)
qed

lemma assemble_row_pushed_old:
  assumes "wf_db d" and "i \<in> set (items_of d c)"
  shows "assemble_row (pushed_db now c' msg lf d) i = assemble_row d i"
  using item_message_old [OF assms]
  by (auto simp: assemble_row_def find_message_pushed_old find_summary_pushed split: item.splits)

lemma row_message_pushed_old:
  assumes "wf_db d" and "assemble_row d i = Inr x"
  shows "row_message (pushed_db now c msg lf d) x = row_message d x"
  using assms
  by (auto simp: assemble_row_def find_message_def find_Some_iff reconstruct_pushed_old
      split: item.splits option.splits)

lemma map_res_cong: "(\<And>x. x \<in> set xs \<Longrightarrow> f x = g x) \<Longrightarrow> map_res f xs = map_res g xs"
  by (induction xs) simp_all

lemma assembled_rows_pushed:
  assumes wf: "wf_db d" and st: "storable msg"
    and rows: "map_res (assemble_row d) (items_of d c) = Inr entries"
    and ms: "map_res (row_message d) entries = Inr ms"
  shows "map_res (assemble_row (pushed_db now c msg lf d)) (items_of (pushed_db now c msg lf d) c)
      = Inr (entries @ [MessageRow (pushed_row now c msg d)])"
    and "map_res (row_message (pushed_db now c msg lf d)) (entries @ [MessageRow (pushed_row now c msg d)])
      = Inr (ms @ [msg])"
proof -
  let ?d = "pushed_db now c msg lf d"
  have "map_res (assemble_row ?d) (items_of d c) = map_res (assemble_row d) (items_of d c)"
    by (rule map_res_cong) (rule assemble_row_pushed_old [OF wf])
  moreover have "assemble_row ?d (pushed_item c d) = Inr (MessageRow (pushed_row now c msg d))"
    by (simp add: assemble_row_def find_message_pushed_new [OF wf])
  ultimately show "map_res (assemble_row ?d) (items_of ?d c)
      = Inr (entries @ [MessageRow (pushed_row now c msg d)])"
    by (simp add: items_of_pushed [OF wf] map_res_append rows)
  have "row_message ?d x = row_message d x" if "x \<in> set entries" for x
  proof -
    have "list_all2 (\<lambda>i x. assemble_row d i = Inr x) (items_of d c) entries"
      using rows by (simp add: map_res_Inr_iff)
    from list_all2_set2 [OF this that] obtain i where "assemble_row d i = Inr x" by blast
    then show ?thesis by (rule row_message_pushed_old [OF wf])
  qed
  then have "map_res (row_message ?d) entries = Inr ms"
    using ms map_res_cong [of entries "row_message ?d" "row_message d"] by simp
  then show "map_res (row_message ?d) (entries @ [MessageRow (pushed_row now c msg d)]) = Inr (ms @ [msg])"
    by (simp add: map_res_append reconstruct_pushed_new [OF wf st])
qed

text \<open>Without summaries the system prompt is left alone, so a push appends exactly one message.\<close>

lemma assemble_pushed:
  assumes wf: "wf_db d" and st: "storable msg"
    and old: "assemble_sync path_of d c prompt = Inr (System content # ms)"
    and none: "list_all (\<lambda>i. case ci_item i of MessageItem _ \<Rightarrow> True | SummaryItem _ \<Rightarrow> False) (items_of d c)"
  shows "assemble_sync path_of (pushed_db now c msg lf d) c prompt = Inr (System prompt # ms @ [msg])"
    and "content = prompt"
proof -
  obtain entries where rows: "map_res (assemble_row d) (items_of d c) = Inr entries"
    and sys: "system_content path_of d c prompt entries = Inr content"
    and ms: "map_res (row_message d) entries = Inr ms"
    using old by (auto simp: assemble_sync_def bind_res_Inr_iff)
  have "list_all2 (\<lambda>i x. assemble_row d i = Inr x) (items_of d c) entries"
    using rows by (simp add: map_res_Inr_iff)
  then have no: "\<not> list_ex is_summary_row entries"
    using none
    by (induction rule: list_all2_induct)
      (auto simp: assemble_row_def is_summary_row_def split: item.splits option.splits)
  then show "content = prompt" using sys by (simp add: system_content_def)
  have "system_content path_of (pushed_db now c msg lf d) c prompt
      (entries @ [MessageRow (pushed_row now c msg d)]) = Inr prompt"
    using no by (simp add: system_content_def is_summary_row_def)
  then show "assemble_sync path_of (pushed_db now c msg lf d) c prompt = Inr (System prompt # ms @ [msg])"
    using assembled_rows_pushed [OF wf st rows ms] by (simp add: assemble_sync_def)
qed

end
