(* ===== verification/Lcm_Repair.thy ===== *)
theory Lcm_Repair
  imports Lcm_Transcript
begin

text \<open>
  Repairing tool calls that were cut off (\<open>repair_dangling_tool_calls\<close> in
  \<^verbatim>\<open>src/src/context/lcm/engine.rs\<close>): the latest message with tool calls stays the latest
  while results are appended, so once every dangling call has a result none is dangling.
\<close>

lemma pushed_tool_parts:
  assumes "wf_db d"
  shows "parts_of (pushed_db now c (Tool k content) lf d) (next_message_id d)
    = [tool_output_part (next_message_id d) k content]"
  using parts_of_pushed_new [OF assms] by simp

lemma has_tool_calls_pushed_old:
  assumes "wf_db d" and "r \<in> set (messages_of d c)"
  shows "has_tool_calls (pushed_db now c' msg lf d) r = has_tool_calls d r"
proof -
  have "mr_id r \<noteq> next_message_id d"
    using assms wf_fresh_message(1) [OF assms(1)] by (auto simp: set_messages_of image_iff)
  then show ?thesis by (simp add: has_tool_calls_def parts_of_pushed_old)
qed

lemma has_tool_calls_pushed_new:
  "wf_db d \<Longrightarrow> \<not> has_tool_calls (pushed_db now c (Tool k content) lf d) (pushed_row now c (Tool k content) d)"
  by (simp add: has_tool_calls_def pushed_tool_parts tool_output_part_def)

lemma latest_tool_calls_pushed:
  assumes "wf_db d"
  shows "latest_tool_calls (pushed_db now c (Tool k content) lf d) c = latest_tool_calls d c"
proof -
  let ?d = "pushed_db now c (Tool k content) lf d"
  have "filter (has_tool_calls ?d) (messages_of d c) = filter (has_tool_calls d) (messages_of d c)"
    by (rule filter_cong) (simp_all add: has_tool_calls_pushed_old [OF assms])
  then show ?thesis
    using has_tool_calls_pushed_new [OF assms]
    by (simp add: latest_tool_calls_def messages_of_pushed)
qed

lemma latest_tool_calls_message:
  assumes "latest_tool_calls d c = Some r"
  shows "r \<in> set (messages_of d c)" and "has_tool_calls d r"
proof -
  have "r \<in> set (filter (has_tool_calls d) (messages_of d c))"
    using assms last_in_set by (fastforce simp: latest_tool_calls_def last_opt_def split: if_splits)
  then show "r \<in> set (messages_of d c)" and "has_tool_calls d r" by auto
qed

lemma answered_pushed_mono:
  assumes wf: "wf_db d" and "answered d c sq k"
  shows "answered (pushed_db now c msg lf d) c sq k"
proof -
  obtain r where r: "r \<in> set (messages_of d c)" "mr_seq r > sq"
    "list_ex (\<lambda>p. pt_type p = ToolOutputPart \<and> k \<noteq> None \<and> pt_call_id p = k) (parts_of d (mr_id r))"
    using assms(2) by (auto simp: answered_def list_ex_iff)
  have "mr_id r \<noteq> next_message_id d"
    using r(1) wf_fresh_message(1) [OF wf] by (auto simp: set_messages_of image_iff)
  then have "parts_of (pushed_db now c msg lf d) (mr_id r) = parts_of d (mr_id r)"
    by (rule parts_of_pushed_old)
  then show ?thesis
    using r by (auto simp: answered_def messages_of_pushed list_ex_iff)
qed

lemma answered_pushed_new:
  assumes wf: "wf_db d" and latest: "r \<in> set (messages_of d c)"
  shows "answered (pushed_db now c (Tool k content) lf d) c (mr_seq r) (Some k)"
proof -
  have "mr_seq r < mr_seq (pushed_row now c (Tool k content) d)"
    using latest by (intro pushed_row_seq) (simp_all add: set_messages_of)
  then show ?thesis
    by (simp add: answered_def messages_of_pushed pushed_tool_parts [OF wf] tool_output_part_def)
qed

text \<open>The state after the results of \<open>ks\<close> were appended.\<close>

fun repaired_db :: "string \<Rightarrow> int \<Rightarrow> string list \<Rightarrow> db \<Rightarrow> db" where
  "repaired_db now c [] d = d"
| "repaired_db now c (k # ks) d =
     repaired_db now c ks (pushed_db now c (Tool k INTERRUPTED_TOOL_CALL) None d)"

lemma repair_fold:
  assumes "wf_db d" and "conversation_exists d c"
  shows "fold_res (\<lambda>k. push_message_sync now c (Tool k INTERRUPTED_TOOL_CALL) None) ks d
      = Inr (repaired_db now c ks d)"
    and "wf_db (repaired_db now c ks d)" and "conversation_exists (repaired_db now c ks d) c"
proof -
  have "fold_res (\<lambda>k. push_message_sync now c (Tool k INTERRUPTED_TOOL_CALL) None) ks d
      = Inr (repaired_db now c ks d)
    \<and> wf_db (repaired_db now c ks d) \<and> conversation_exists (repaired_db now c ks d) c"
    using assms
  proof (induction ks arbitrary: d)
    case (Cons k ks)
    have "conversation_exists (pushed_db now c (Tool k INTERRUPTED_TOOL_CALL) None d) c"
      using Cons.prems(2) by (simp add: conversation_exists_def)
    with Cons.IH wf_pushed_db [OF Cons.prems] push_message_sync_ok [OF Cons.prems] show ?case by simp
  qed simp
  then show "fold_res (\<lambda>k. push_message_sync now c (Tool k INTERRUPTED_TOOL_CALL) None) ks d
      = Inr (repaired_db now c ks d)"
    and "wf_db (repaired_db now c ks d)" and "conversation_exists (repaired_db now c ks d) c" by auto
qed

lemma repaired_latest:
  assumes "wf_db d" and "conversation_exists d c"
  shows "latest_tool_calls (repaired_db now c ks d) c = latest_tool_calls d c"
  using assms
proof (induction ks arbitrary: d)
  case (Cons k ks)
  have "conversation_exists (pushed_db now c (Tool k INTERRUPTED_TOOL_CALL) None d) c"
    using Cons.prems(2) by (simp add: conversation_exists_def)
  with Cons.IH wf_pushed_db [OF Cons.prems] latest_tool_calls_pushed [OF Cons.prems(1)] show ?case by simp
qed simp

lemma repaired_answered:
  assumes "wf_db d" and "conversation_exists d c" and "r \<in> set (messages_of d c)"
    and "answered d c (mr_seq r) k \<or> k \<in> Some ` set ks"
  shows "answered (repaired_db now c ks d) c (mr_seq r) k"
  using assms
proof (induction ks arbitrary: d)
  case (Cons j ks)
  let ?d = "pushed_db now c (Tool j INTERRUPTED_TOOL_CALL) None d"
  have 1: "conversation_exists ?d c" using Cons.prems(2) by (simp add: conversation_exists_def)
  have 2: "wf_db ?d" by (rule wf_pushed_db [OF Cons.prems(1,2)])
  have 3: "r \<in> set (messages_of ?d c)" using Cons.prems(3) by (simp add: messages_of_pushed)
  have "answered ?d c (mr_seq r) k \<or> k \<in> Some ` set ks"
    using Cons.prems(4) answered_pushed_mono [OF Cons.prems(1)]
      answered_pushed_new [OF Cons.prems(1,3)] by auto
  with Cons.IH 1 2 3 show ?case by simp
qed simp

lemma repaired_messages:
  assumes "wf_db d" and "conversation_exists d c"
  shows "\<exists>new. messages_of (repaired_db now c ks d) c = messages_of d c @ new
    \<and> map mr_role new = replicate (length ks) ''tool''"
  using assms
proof (induction ks arbitrary: d)
  case (Cons k ks)
  let ?d = "pushed_db now c (Tool k INTERRUPTED_TOOL_CALL) None d"
  have wf: "wf_db ?d" "conversation_exists ?d c"
    using wf_pushed_db [OF Cons.prems] Cons.prems(2) by (auto simp: conversation_exists_def)
  obtain new where "messages_of (repaired_db now c ks ?d) c = messages_of ?d c @ new"
    and "map mr_role new = replicate (length ks) ''tool''" using Cons.IH [OF wf] by blast
  then show ?case by (simp add: messages_of_pushed)
qed simp

lemma repaired_parts:
  assumes "wf_db d" and "conversation_exists d c" and "r \<in> set (messages_of d c)"
  shows "parts_of (repaired_db now c ks d) (mr_id r) = parts_of d (mr_id r)"
  using assms
proof (induction ks arbitrary: d)
  case (Cons k ks)
  let ?d = "pushed_db now c (Tool k INTERRUPTED_TOOL_CALL) None d"
  have wf: "wf_db ?d" "conversation_exists ?d c" "r \<in> set (messages_of ?d c)"
    using wf_pushed_db [OF Cons.prems(1,2)] Cons.prems(2,3)
    by (auto simp: conversation_exists_def messages_of_pushed)
  have "mr_id r \<noteq> next_message_id d"
    using Cons.prems(3) wf_fresh_message(1) [OF Cons.prems(1)] by (auto simp: set_messages_of image_iff)
  with Cons.IH [OF wf] show ?case by (simp add: parts_of_pushed_old)
qed simp

lemma column_texts: "map_res column_text xs = Inr ks \<Longrightarrow> xs = map Some ks"
  by (induction xs arbitrary: ks) (auto simp: bind_res_Inr_iff column_text_def split: option.splits)

text \<open>Nothing dangles once every dangling call of \<open>d\<close> has been answered.\<close>

lemma repaired_none_dangling:
  assumes wf: "wf_db d" and ex: "conversation_exists d c"
    and ids: "map_res column_text (dangling_calls d c) = Inr ks"
  shows "dangling_calls (repaired_db now c ks d) c = []"
proof -
  let ?d = "repaired_db now c ks d"
  note ks = column_texts [OF ids]
  show ?thesis
  proof (cases "latest_tool_calls d c")
    case None
    then show ?thesis using repaired_latest [OF wf ex] by (simp add: dangling_calls_def)
  next
    case (Some r)
    note r = latest_tool_calls_message [OF Some]
    have same: "parts_of ?d (mr_id r) = parts_of d (mr_id r)"
      by (rule repaired_parts [OF wf ex r(1)])
    show ?thesis
    proof (cases "list_ex (\<lambda>q. mr_seq q > mr_seq r \<and> mr_role q \<noteq> ''tool'') (messages_of d c)")
      case True
      then have "list_ex (\<lambda>q. mr_seq q > mr_seq r \<and> mr_role q \<noteq> ''tool'') (messages_of ?d c)"
        using repaired_messages [OF wf ex, of now ks] by auto
      then show ?thesis
        using Some repaired_latest [OF wf ex] by (simp add: dangling_calls_def)
    next
      case False
      have "answered ?d c (mr_seq r) (pt_call_id p)"
        if "p \<in> set (parts_of d (mr_id r))" "pt_type p = ToolCallPart" for p
      proof (rule repaired_answered [OF wf ex r(1)])
        have "pt_call_id p \<in> set (map Some ks)" if "\<not> answered d c (mr_seq r) (pt_call_id p)"
          unfolding ks [symmetric]
          using False Some that \<open>p \<in> _\<close> \<open>pt_type p = _\<close> by (simp add: dangling_calls_def)
        then show "answered d c (mr_seq r) (pt_call_id p) \<or> pt_call_id p \<in> Some ` set ks" by auto
      qed
      then show ?thesis
        using Some repaired_latest [OF wf ex] same
        by (simp add: dangling_calls_def filter_empty_conv)
    qed
  qed
qed

lemma repair_ok:
  assumes "wf_db d" and "conversation_exists d c"
    and "map_res column_text (dangling_calls d c) = Inr ks"
  shows "repair_dangling_tool_calls now c d = Inr (repaired_db now c ks d)"
  using repair_fold(1) [OF assms(1,2)] assms(3) by (simp add: repair_dangling_tool_calls_def)

text \<open>The engine always stores a call id, so the repair itself cannot fail.\<close>

lemma dangling_ids:
  assumes "\<forall>p \<in> set (parts d). pt_type p = ToolCallPart \<longrightarrow> pt_call_id p \<noteq> None"
  shows "\<exists>ks. map_res column_text (dangling_calls d c) = Inr ks"
proof -
  have "\<forall>k \<in> set (dangling_calls d c). k \<noteq> None"
    using assms by (auto simp: dangling_calls_def parts_of_def split: option.splits)
  then have "map_res column_text (dangling_calls d c) = Inr (map the (dangling_calls d c))"
    by (intro map_res_pure) (auto simp: column_text_def)
  then show ?thesis by blast
qed

end
