(* ===== verification/Lcm_Engine.thy ===== *)
theory Lcm_Engine
  imports Lcm_Correct Lcm_Assemble Lcm_Repair Context_Engine
begin

text \<open>
  The LCM context engine (\<^verbatim>\<open>src/src/context/lcm/engine.rs\<close>, \<open>LcmEngine\<close>): its state, the
  trait operations, and the guards of compaction. Writing an oversized payload to disk and
  summarizing it (\<open>externalize\<close>) is an argument that acts on the outside world; so are the
  model calls. The engine invariant says that the active name, the conversation id and the
  id shared with the recall tools agree with the database.
\<close>

section \<open>State\<close>

record 'tools lcm_engine =
  le_db :: db
  le_active :: string
  le_conv :: int
  le_active_id :: int
  le_cursor :: "string option"
  le_ctx :: context_config
  le_observed :: "nat option"
  le_last_sent :: "'tools sent_request option"

datatype engine_error = Storage store_error | Io string

text \<open>Two minutes, in milliseconds of the clock.\<close>

definition SNAPSHOT_MAX_AGE :: nat where
  "SNAPSHOT_MAX_AGE = 120000"

definition lcm_new ::
  "string \<Rightarrow> context_config \<Rightarrow> string option \<Rightarrow> db \<Rightarrow> store_error + 'tools lcm_engine" where
  "lcm_new now ctx cursor d =
     (let active_name = (case read_active_session cursor of None \<Rightarrow> ''general'' | Some s \<Rightarrow> s);
          (conversation_id, d1) = ensure_conversation active_name d
      in bind_res (repair_dangling_tool_calls now conversation_id d1) (\<lambda>d2.
         Inr \<lparr>le_db = d2, le_active = active_name, le_conv = conversation_id,
              le_active_id = conversation_id, le_cursor = cursor, le_ctx = ctx,
              le_observed = None, le_last_sent = None\<rparr>))"

definition ride_context ::
  "nat \<Rightarrow> ('tools, 'w, 'pe) raw_chat_fn \<Rightarrow> 'tools lcm_engine \<Rightarrow> ('tools, 'w, 'pe) ride_context option" where
  "ride_context now_ms raw_chat e =
     (case le_last_sent e of
        None \<Rightarrow> None
      | Some snapshot \<Rightarrow>
          if sq_session snapshot \<noteq> le_active e then None
          else if now_ms - sq_at snapshot > SNAPSHOT_MAX_AGE then None
          else Some (snapshot, raw_chat))"

definition soft_threshold :: "'tools lcm_engine \<Rightarrow> nat" where
  "soft_threshold e = cfg_max_tokens (le_ctx e) * soft_budget_percent (cfg_lcm (le_ctx e)) div 100"

definition hard_threshold :: "'tools lcm_engine \<Rightarrow> nat" where
  "hard_threshold e = cfg_max_tokens (le_ctx e) * hard_budget_percent (cfg_lcm (le_ctx e)) div 100"

definition lcm_stats :: "'tools lcm_engine \<Rightarrow> context_stats" where
  "lcm_stats e =
     \<lparr>cs_token_estimate = max (token_estimate_sync (le_db e) (le_conv e))
        (case le_observed e of None \<Rightarrow> 0 | Some n \<Rightarrow> n),
      cs_budget = soft_threshold e, cs_message_count = length (items_of (le_db e) (le_conv e))\<rparr>"

section \<open>Pushing\<close>

datatype summary_strategy = Explore | Mechanical

text \<open>The \<open>path\<close> argument of the \<open>file_read\<close> call a tool result answers.\<close>

definition lookup_file_read_path :: "(string \<Rightarrow> string option) \<Rightarrow> db \<Rightarrow> int \<Rightarrow> string \<Rightarrow> string option" where
  "lookup_file_read_path path_of d c call_id =
     (case last_opt (sort_key pt_message (filter
            (\<lambda>p. pt_call_id p = Some call_id \<and> pt_type p = ToolCallPart
               \<and> pt_tool_name p = Some ''file_read''
               \<and> (case find_message d (pt_message p) of None \<Rightarrow> False | Some r \<Rightarrow> mr_conv r = c))
            (parts d))) of
        None \<Rightarrow> None
      | Some p \<Rightarrow> (case pt_tool_input p of None \<Rightarrow> None | Some input \<Rightarrow> path_of input))"

type_synonym 'w externalize_fn =
  "string \<Rightarrow> string option \<Rightarrow> summary_strategy \<Rightarrow> 'w
   \<Rightarrow> (engine_error + string \<times> (int \<Rightarrow> large_file)) \<times> 'w"

fun intercept_large ::
  "'w externalize_fn \<Rightarrow> (string \<Rightarrow> string option) \<Rightarrow> 'tools lcm_engine \<Rightarrow> message \<Rightarrow> 'w
   \<Rightarrow> (engine_error + message \<times> (int \<Rightarrow> large_file) option) \<times> 'w" where
  "intercept_large ext path_of e (User content) w =
     (if estimate_tokens content > large_file_threshold (cfg_lcm (le_ctx e)) then
        (case ext content None Explore w of
           (Inl err, w1) \<Rightarrow> (Inl err, w1)
         | (Inr (reference, row), w1) \<Rightarrow> (Inr (User reference, Some row), w1))
      else (Inr (User content, None), w))"
| "intercept_large ext path_of e (Tool call_id content) w =
     (if estimate_tokens content > cfg_tool_output_tokens (le_ctx e) then
        (case ext content (lookup_file_read_path path_of (le_db e) (le_conv e) call_id) Mechanical w of
           (Inl err, w1) \<Rightarrow> (Inl err, w1)
         | (Inr (reference, row), w1) \<Rightarrow> (Inr (Tool call_id reference, Some row), w1))
      else (Inr (Tool call_id content, None), w))"
| "intercept_large ext path_of e msg w = (Inr (msg, None), w)"

definition lcm_push_message ::
  "'w externalize_fn \<Rightarrow> (string \<Rightarrow> string option) \<Rightarrow> string \<Rightarrow> message
   \<Rightarrow> 'tools lcm_engine \<times> 'w \<Rightarrow> (engine_error + unit) \<times> 'tools lcm_engine \<times> 'w" where
  "lcm_push_message ext path_of now msg ew =
     (case ew of (e, w) \<Rightarrow>
       (case intercept_large ext path_of e msg w of
          (Inl err, w1) \<Rightarrow> (Inl err, e, w1)
        | (Inr (m, large_file), w1) \<Rightarrow>
            (case push_message_sync now (le_conv e) m large_file (le_db e) of
               Inl err \<Rightarrow> (Inl (Storage err), e, w1)
             | Inr d \<Rightarrow> (Inr (), e\<lparr>le_db := d\<rparr>, w1))))"

definition lcm_assemble :: "(string \<Rightarrow> string option) \<Rightarrow> string \<Rightarrow> 'tools lcm_engine \<Rightarrow> store_error + message list" where
  "lcm_assemble path_of system_prompt e = assemble_sync path_of (le_db e) (le_conv e) system_prompt"

definition lcm_observe_tokens :: "nat \<Rightarrow> 'tools lcm_engine \<Rightarrow> 'tools lcm_engine" where
  "lcm_observe_tokens n e = e\<lparr>le_observed := Some n\<rparr>"

definition lcm_observe_request :: "message list \<Rightarrow> 'tools \<Rightarrow> nat \<Rightarrow> 'tools lcm_engine \<Rightarrow> 'tools lcm_engine" where
  "lcm_observe_request ms tools now_ms e =
     e\<lparr>le_last_sent := Some \<lparr>sq_session = le_active e, sq_messages = ms, sq_tools = tools, sq_at = now_ms\<rparr>\<rparr>"

section \<open>Compaction\<close>

text \<open>What a compaction needs from outside, and the fuel of its loop (see \<open>lcm_compact_total\<close>).\<close>

record ('tools, 'w, 'pe) compact_env =
  ce_env :: lcm_env
  ce_now :: string
  ce_now_ms :: nat
  ce_summarize :: "('w, 'pe) summarize_fn"
  ce_raw_chat :: "('tools, 'w, 'pe) raw_chat_fn"

definition compaction_fuel :: "db \<Rightarrow> int \<Rightarrow> nat" where
  "compaction_fuel d c = Suc (length (items_of d c))"

text \<open>\<open>force_compact\<close>; an error keeps what was committed and the observation.\<close>

definition lcm_force_compact ::
  "('tools, 'w, 'pe) compact_env \<Rightarrow> 'tools lcm_engine \<Rightarrow> 'w
   \<Rightarrow> ((store_error + compaction_event) \<times> 'tools lcm_engine \<times> 'w) option" where
  "lcm_force_compact ce e w =
     (case run_compaction (compaction_fuel (le_db e) (le_conv e)) (ce_env ce) (ce_now ce) (le_conv e)
             (cfg_lcm (le_ctx e)) (ce_summarize ce) (ride_context (ce_now_ms ce) (ce_raw_chat ce) e)
             (le_db e) w of
        None \<Rightarrow> None
      | Some (Inl err, d, w1) \<Rightarrow> Some (Inl err, e\<lparr>le_db := d\<rparr>, w1)
      | Some (Inr event, d, w1) \<Rightarrow> Some (Inr event, e\<lparr>le_db := d, le_observed := None\<rparr>, w1))"

definition compact_above ::
  "nat \<Rightarrow> ('tools, 'w, 'pe) compact_env \<Rightarrow> 'tools lcm_engine \<Rightarrow> 'w
   \<Rightarrow> ((store_error + compaction_event option) \<times> 'tools lcm_engine \<times> 'w) option" where
  "compact_above threshold ce e w =
     (if cs_token_estimate (lcm_stats e) < threshold then Some (Inr None, e, w)
      else map_option (\<lambda>(r, e', w'). ((case r of Inl err \<Rightarrow> Inl err | Inr ev \<Rightarrow> Inr (Some ev)), e', w'))
             (lcm_force_compact ce e w))"

definition lcm_compact_if_urgent where
  "lcm_compact_if_urgent ce e w = compact_above (hard_threshold e) ce e w"

definition lcm_compact_between_turns where
  "lcm_compact_between_turns ce e w = compact_above (soft_threshold e) ce e w"

section \<open>Sessions\<close>

definition lcm_clear :: "'tools lcm_engine \<Rightarrow> 'tools lcm_engine" where
  "lcm_clear e = e\<lparr>le_db := clear_context (le_conv e) (le_db e), le_observed := None\<rparr>"

text \<open>\<open>stored\<close> says whether the cursor file could be written.\<close>

definition lcm_switch_session ::
  "string \<Rightarrow> bool \<Rightarrow> string \<Rightarrow> 'tools lcm_engine \<Rightarrow> store_error + 'tools lcm_engine" where
  "lcm_switch_session now stored name e =
     (let sanitized = sanitize_name name in
      if sanitized = le_active e then Inr e
      else (case ensure_conversation sanitized (le_db e) of (i, d1) \<Rightarrow>
        bind_res (repair_dangling_tool_calls now i d1) (\<lambda>d2.
          Inr (e\<lparr>le_db := d2, le_observed := None, le_active := sanitized, le_conv := i,
                 le_active_id := i,
                 le_cursor := persist_active_session stored sanitized (le_cursor e)\<rparr>))))"

text \<open>The recall tools an engine contributes; opening a connection may fail.\<close>

datatype tool_scope = RootScope | SubAgentScope

definition lcm_tools :: "(string \<Rightarrow> bool) \<Rightarrow> tool_scope \<Rightarrow> string list" where
  "lcm_tools opens scope =
     filter opens ([''lcm_grep'', ''lcm_describe''] @ (if scope = SubAgentScope then [''lcm_expand''] else []))"

definition lcm_transcript_since :: "string \<Rightarrow> nat \<Rightarrow> nat \<Rightarrow> 'tools lcm_engine \<Rightarrow> store_error + message list" where
  "lcm_transcript_since session after max_tokens e =
     transcript_since_sync (le_db e) (sanitize_name session) after max_tokens"

section \<open>The engine interface\<close>

text \<open>The history of a conversation: every item in order, rebuilt.\<close>

definition history :: "db \<Rightarrow> int \<Rightarrow> store_error + message list" where
  "history d c = bind_res (map_res (assemble_row d) (items_of d c)) (map_res (row_message d))"

definition history_ok :: "db \<Rightarrow> int \<Rightarrow> bool" where
  "history_ok d c \<longleftrightarrow> (case history d c of Inr _ \<Rightarrow> True | Inl _ \<Rightarrow> False)"

definition lcm_view :: "'tools lcm_engine \<times> 'w \<Rightarrow> message list" where
  "lcm_view ew = (case history (le_db (fst ew)) (le_conv (fst ew)) of Inr ms \<Rightarrow> ms | Inl _ \<Rightarrow> [])"

text \<open>The active name, the conversation and the shared id agree with the database.\<close>

definition engine_wf :: "'tools lcm_engine \<Rightarrow> bool" where
  "engine_wf e \<longleftrightarrow> wf_db (le_db e) \<and> find_conversation (le_db e) (le_active e) = Some (le_conv e)
     \<and> le_active_id e = le_conv e"

definition lcm_inv :: "'tools lcm_engine \<times> 'w \<Rightarrow> bool" where
  "lcm_inv ew \<longleftrightarrow> engine_wf (fst ew) \<and> history_ok (le_db (fst ew)) (le_conv (fst ew))"

text \<open>Messages below the thresholds, which are stored as they are.\<close>

fun below_threshold :: "context_config \<Rightarrow> message \<Rightarrow> bool" where
  "below_threshold ctx (User content) \<longleftrightarrow> estimate_tokens content \<le> large_file_threshold (cfg_lcm ctx)"
| "below_threshold ctx (Tool _ content) \<longleftrightarrow> estimate_tokens content \<le> cfg_tool_output_tokens ctx"
| "below_threshold ctx _ \<longleftrightarrow> True"

definition lcm_admissible :: "'tools lcm_engine \<times> 'w \<Rightarrow> message \<Rightarrow> bool" where
  "lcm_admissible ew m \<longleftrightarrow> storable m \<and> below_threshold (le_ctx (fst ew)) m"

definition lcm_push ::
  "'w externalize_fn \<Rightarrow> (string \<Rightarrow> string option) \<Rightarrow> string \<Rightarrow> message
   \<Rightarrow> 'tools lcm_engine \<times> 'w \<Rightarrow> engine_error + 'tools lcm_engine \<times> 'w" where
  "lcm_push ext path_of now m ew =
     (case lcm_push_message ext path_of now m ew of (Inl err, _) \<Rightarrow> Inl err | (Inr _, s) \<Rightarrow> Inr s)"

lemma find_conversation_exists:
  "find_conversation d name = Some c \<Longrightarrow> conversation_exists d c"
  by (auto simp: find_conversation_def conversation_exists_def find_Some_iff)

lemma intercept_below:
  "below_threshold (le_ctx e) m \<Longrightarrow> intercept_large ext path_of e m w = (Inr (m, None), w)"
  by (cases m) auto

lemma history_pushed:
  assumes "wf_db d" and "storable m" and "history d c = Inr ms"
  shows "history (pushed_db now c m lf d) c = Inr (ms @ [m])"
  using assembled_rows_pushed [OF assms(1,2)] assms(3) by (auto simp: history_def bind_res_Inr_iff)

lemma length_history: "history d c = Inr ms \<Longrightarrow> length ms = length (items_of d c)"
  by (auto simp: history_def bind_res_Inr_iff map_res_Inr_iff dest!: list_all2_lengthD)

lemma clear_context_items: "items_of (clear_context c d) c = []"
  by (simp add: items_of_def clear_context_def)

lemma wf_clear_context: "wf_db d \<Longrightarrow> wf_db (clear_context c d)"
  by (auto simp: wf_db_def wf_defs clear_context_def conversation_exists_def message_exists_def
      summary_exists_def item_exists_def distinct_map_filter split: item.splits)

lemma find_conversation_clear [simp]: "find_conversation (clear_context c d) name = find_conversation d name"
  by (simp add: find_conversation_def clear_context_def)

lemma lcm_push_below:
  assumes "engine_wf e" and "below_threshold (le_ctx e) m"
  shows "lcm_push ext path_of now m (e, w)
    = Inr (e\<lparr>le_db := pushed_db now (le_conv e) m None (le_db e)\<rparr>, w)"
  using assms find_conversation_exists [of "le_db e"]
  by (auto simp: lcm_push_def lcm_push_message_def intercept_below engine_wf_def push_message_sync_ok)

lemma engine_wf_pushed:
  assumes "engine_wf e"
  shows "engine_wf (e\<lparr>le_db := pushed_db now (le_conv e) m lf (le_db e)\<rparr>)"
proof -
  have "conversation_exists (le_db e) (le_conv e)"
    using assms find_conversation_exists by (auto simp: engine_wf_def)
  then show ?thesis
    using assms wf_pushed_db [of "le_db e" "le_conv e"]
    by (simp add: engine_wf_def find_conversation_def)
qed

interpretation lcm: context_engine
  "lcm_inv :: 'tools lcm_engine \<times> 'w \<Rightarrow> bool" lcm_admissible "\<lambda>_ m. m"
  "lcm_push ext path_of now" "\<lambda>(e, w). (lcm_clear e, w)" lcm_view
  "\<lambda>(e, w). cs_message_count (lcm_stats e)" for ext :: "'w externalize_fn" and path_of now
proof unfold_locales
  fix s :: "'tools lcm_engine \<times> 'w" and m
  obtain e w where s: "s = (e, w)" by (cases s)
  assume inv: "lcm_inv s" and ok: "lcm_admissible s m"
  then have e: "engine_wf e" and st: "storable m" and below: "below_threshold (le_ctx e) m"
    by (auto simp: s lcm_inv_def lcm_admissible_def)
  obtain ms where ms: "history (le_db e) (le_conv e) = Inr ms"
    using inv by (auto simp: s lcm_inv_def history_ok_def split: sum.splits)
  have wf: "wf_db (le_db e)" using e by (simp add: engine_wf_def)
  show "\<exists>s'. lcm_push ext path_of now m s = Inr s' \<and> lcm_inv s' \<and> lcm_view s' = lcm_view s @ [m]
      \<and> lcm_admissible s' = lcm_admissible s \<and> (\<lambda>m. m) = (\<lambda>m. m)"
    unfolding s lcm_push_below [OF e below]
    using engine_wf_pushed [OF e, of now m None] history_pushed [OF wf st ms, of now None] ms
    by (auto simp: lcm_inv_def history_ok_def lcm_view_def lcm_admissible_def fun_eq_iff)
next
  fix s :: "'tools lcm_engine \<times> 'w"
  obtain e w where s: "s = (e, w)" by (cases s)
  assume inv: "lcm_inv s"
  then have "engine_wf (lcm_clear e)"
    by (simp add: s lcm_inv_def engine_wf_def lcm_clear_def wf_clear_context)
  then show "lcm_inv (case s of (e, w) \<Rightarrow> (lcm_clear e, w))
      \<and> lcm_view (case s of (e, w) \<Rightarrow> (lcm_clear e, w)) = []
      \<and> lcm_admissible (case s of (e, w) \<Rightarrow> (lcm_clear e, w)) = lcm_admissible s \<and> (\<lambda>m. m) = (\<lambda>m. m)"
    by (auto simp: s lcm_inv_def history_ok_def lcm_view_def lcm_admissible_def fun_eq_iff
        lcm_clear_def history_def clear_context_items)
next
  fix s :: "'tools lcm_engine \<times> 'w"
  obtain e w where s: "s = (e, w)" by (cases s)
  assume "lcm_inv s"
  then show "(case s of (e, w) \<Rightarrow> cs_message_count (lcm_stats e)) = length (lcm_view s)"
    using length_history
    by (auto simp: s lcm_inv_def history_ok_def lcm_view_def lcm_stats_def split: sum.splits)
qed

section \<open>Other conversations are left alone\<close>

lemma assemble_row_items_cong:
  assumes "wf_db d" and "c' \<noteq> c"
  shows "history (pushed_db now c' msg lf d) c = history d c"
proof -
  let ?d = "pushed_db now c' msg lf d"
  have rows: "map_res (assemble_row ?d) (items_of ?d c) = map_res (assemble_row d) (items_of d c)"
    unfolding items_of_pushed_other [OF assms(2) [symmetric]]
    by (rule map_res_cong) (rule assemble_row_pushed_old [OF assms(1), where c = c])
  show ?thesis
  proof (cases "map_res (assemble_row d) (items_of d c)")
    case (Inl err)
    with rows show ?thesis by (simp add: history_def)
  next
    case (Inr entries)
    have "map_res (row_message ?d) entries = map_res (row_message d) entries"
    proof (rule map_res_cong)
      fix x assume "x \<in> set entries"
      moreover have "list_all2 (\<lambda>i x. assemble_row d i = Inr x) (items_of d c) entries"
        using Inr by (simp add: map_res_Inr_iff)
      ultimately obtain i where "assemble_row d i = Inr x"
        using list_all2_set2 [of "\<lambda>i x. assemble_row d i = Inr x"] by blast
      then show "row_message ?d x = row_message d x" by (rule row_message_pushed_old [OF assms(1)])
    qed
    with rows Inr show ?thesis by (simp add: history_def)
  qed
qed

lemma messages_of_pushed_other:
  "c' \<noteq> c \<Longrightarrow> messages_of (pushed_db now c' msg lf d) c = messages_of d c"
  by (simp add: messages_of_def)

lemma dangling_pushed_other:
  assumes wf: "wf_db d" and ne: "c' \<noteq> c"
  shows "dangling_calls (pushed_db now c' msg lf d) c = dangling_calls d c"
proof -
  let ?d = "pushed_db now c' msg lf d"
  have parts: "parts_of ?d (mr_id r) = parts_of d (mr_id r)" if "r \<in> set (messages_of d c)" for r
    using that wf_fresh_message(1) [OF wf] by (intro parts_of_pushed_old) (auto simp: set_messages_of image_iff)
  have "filter (has_tool_calls ?d) (messages_of d c) = filter (has_tool_calls d) (messages_of d c)"
    by (rule filter_cong) (simp_all add: has_tool_calls_def parts)
  then have latest: "latest_tool_calls ?d c = latest_tool_calls d c"
    by (simp add: latest_tool_calls_def messages_of_pushed_other [OF ne])
  have ans: "answered ?d c sq k = answered d c sq k" for sq k
    by (auto simp: answered_def messages_of_pushed_other [OF ne] list_ex_iff parts)
  show ?thesis
  proof (cases "latest_tool_calls d c")
    case None
    with latest show ?thesis by (simp add: dangling_calls_def)
  next
    case (Some r)
    with latest parts [OF latest_tool_calls_message(1) [OF Some]] show ?thesis
      by (simp add: dangling_calls_def messages_of_pushed_other [OF ne] ans)
  qed
qed

lemma repaired_conversations [simp]: "conversations (repaired_db now c ks d) = conversations d"
  by (induction now c ks d rule: repaired_db.induct) simp_all

lemma repaired_other:
  assumes "wf_db d" and "conversation_exists d c'" and "c' \<noteq> c"
  shows "history (repaired_db now c' ks d) c = history d c
    \<and> dangling_calls (repaired_db now c' ks d) c = dangling_calls d c"
  using assms
proof (induction ks arbitrary: d)
  case (Cons k ks)
  let ?d = "pushed_db now c' (Tool k INTERRUPTED_TOOL_CALL) None d"
  have "wf_db ?d" by (rule wf_pushed_db [OF Cons.prems(1,2)])
  moreover have "conversation_exists ?d c'" using Cons.prems(2) by (simp add: conversation_exists_def)
  ultimately show ?case
    using Cons.IH Cons.prems(3) assemble_row_items_cong [OF Cons.prems(1,3)]
      dangling_pushed_other [OF Cons.prems(1,3)] by simp
qed simp

lemma repaired_history:
  assumes "wf_db d" and "conversation_exists d c" and "history d c = Inr ms"
  shows "history (repaired_db now c ks d) c = Inr (ms @ map (\<lambda>k. Tool k INTERRUPTED_TOOL_CALL) ks)"
  using assms
proof (induction ks arbitrary: d ms)
  case (Cons k ks)
  let ?d = "pushed_db now c (Tool k INTERRUPTED_TOOL_CALL) None d"
  have 1: "wf_db ?d" by (rule wf_pushed_db [OF Cons.prems(1,2)])
  have 2: "conversation_exists ?d c" using Cons.prems(2) by (simp add: conversation_exists_def)
  have "history ?d c = Inr (ms @ [Tool k INTERRUPTED_TOOL_CALL])"
    by (rule history_pushed [OF Cons.prems(1) _ Cons.prems(3)]) simp
  from Cons.IH [OF 1 2 this] show ?case by simp
qed simp

section \<open>Ensuring a conversation\<close>

definition fresh_conversation :: "string \<Rightarrow> db \<Rightarrow> db" where
  "fresh_conversation name d = d\<lparr>conversations := conversations d @ [\<lparr>cv_id = next_conversation_id d, cv_name = name\<rparr>],
     next_conversation_id := next_conversation_id d + 1\<rparr>"

lemma fresh_conversation_simps [simp]:
  "messages (fresh_conversation name d) = messages d" "parts (fresh_conversation name d) = parts d"
  "summaries (fresh_conversation name d) = summaries d"
  "context_items (fresh_conversation name d) = context_items d"
  "summary_messages (fresh_conversation name d) = summary_messages d"
  "summary_parents (fresh_conversation name d) = summary_parents d"
  "next_message_id (fresh_conversation name d) = next_message_id d"
  "conversations (fresh_conversation name d) = conversations d @ [\<lparr>cv_id = next_conversation_id d, cv_name = name\<rparr>]"
  by (simp_all add: fresh_conversation_def)

lemma ensure_conversation_cases:
  "ensure_conversation name d = (i, d1) \<Longrightarrow>
     find_conversation d name = Some i \<and> d1 = d
     \<or> find_conversation d name = None \<and> i = next_conversation_id d \<and> d1 = fresh_conversation name d"
  by (auto simp: ensure_conversation_def fresh_conversation_def split: option.splits)

lemma wf_fresh_conversation:
  assumes "wf_db d" and "find_conversation d name = None"
  shows "wf_db (fresh_conversation name d)"
proof -
  let ?d = "fresh_conversation name d"
  have new: "name \<notin> cv_name ` set (conversations d)"
    using assms(2) by (auto simp: find_conversation_def find_None_iff)
  have exists: "message_exists ?d = message_exists d" "summary_exists ?d = summary_exists d"
    "item_exists ?d = item_exists d"
    by (auto simp: message_exists_def summary_exists_def item_exists_def fun_eq_iff split: item.splits)
  have conv: "conversation_exists d c \<Longrightarrow> conversation_exists ?d c" for c
    by (simp add: conversation_exists_def)
  have "wf_conversations ?d"
    using assms(1) new by (force simp: wf_db_def wf_conversations_def fresh_conversation_def)
  moreover have "wf_messages ?d" using assms(1) conv by (simp add: wf_db_def wf_messages_def)
  moreover have "wf_parts ?d" using assms(1) by (simp add: wf_db_def wf_parts_def exists)
  moreover have "wf_summaries ?d" using assms(1) by (simp add: wf_db_def wf_summaries_def exists)
  moreover have "wf_items ?d" using assms(1) conv by (simp add: wf_db_def wf_items_def exists)
  ultimately show ?thesis by (simp add: wf_db_def)
qed

lemma find_fresh_conversation:
  "find_conversation d n = Some c \<Longrightarrow> find_conversation (fresh_conversation name d) n = Some c"
  by (auto simp: find_conversation_def find_append split: option.splits)

lemma ensure_conversation_wf:
  assumes "wf_db d" and "ensure_conversation name d = (i, d1)"
  shows "wf_db d1" and "find_conversation d1 name = Some i" and "conversation_exists d1 i"
    and "find_conversation d n = Some c \<Longrightarrow> find_conversation d1 n = Some c"
    and "history d1 c = history d c" and "dangling_calls d1 c = dangling_calls d c"
proof -
  have cs: "find_conversation d name = Some i \<and> d1 = d
     \<or> find_conversation d name = None \<and> i = next_conversation_id d \<and> d1 = fresh_conversation name d"
    by (rule ensure_conversation_cases [OF assms(2)])
  then show "wf_db d1" using assms(1) wf_fresh_conversation by auto
  show found: "find_conversation d1 name = Some i"
    using cs by (auto simp: find_conversation_def find_append)
  then show "conversation_exists d1 i" by (rule find_conversation_exists)
  show "find_conversation d n = Some c \<Longrightarrow> find_conversation d1 n = Some c"
    using cs find_fresh_conversation by auto
  let ?f = "fresh_conversation name d"
  have "row_message ?f x = row_message d x" for x
    by (cases x) (simp_all add: reconstruct_row_def reconstruct_message_def parts_of_def)
  then have "assemble_row ?f = assemble_row d" "row_message ?f = row_message d" "items_of ?f c = items_of d c"
    by (auto simp: assemble_row_def fun_eq_iff find_message_def find_summary_def items_of_def
        split: item.splits)
  then show "history d1 c = history d c" using cs by (auto simp: history_def)
  have "messages_of ?f = messages_of d" and "parts_of ?f = parts_of d"
    by (simp_all add: messages_of_def parts_of_def fun_eq_iff)
  moreover from this have "has_tool_calls ?f = has_tool_calls d" and "answered ?f = answered d"
    by (simp_all add: has_tool_calls_def answered_def fun_eq_iff)
  ultimately have "dangling_calls ?f c = dangling_calls d c"
    unfolding dangling_calls_def latest_tool_calls_def by (simp only:)
  then show "dangling_calls d1 c = dangling_calls d c" using cs by auto
qed

end
