(* ===== verification/Lcm_Engine_Correct.thy ===== *)
theory Lcm_Engine_Correct
  imports Lcm_Engine
begin

text \<open>
  What the LCM engine guarantees: its invariant over every operation, the history it gives
  back, sessions that do not disturb each other, compaction that always ends and clears the
  observation that started it, repaired tool calls, and gap-free transcript spans.
\<close>

section \<open>The invariant\<close>

lemma engine_wf_repaired:
  assumes "wf_db d" and "conversation_exists d i" and "repair_dangling_tool_calls now i d = Inr d2"
  shows "wf_db d2" and "\<And>n. find_conversation d2 n = find_conversation d n"
    and "\<exists>ks. map_res column_text (dangling_calls d i) = Inr ks \<and> d2 = repaired_db now i ks d"
proof -
  obtain ks where ks: "map_res column_text (dangling_calls d i) = Inr ks"
    using assms(3) by (auto simp: repair_dangling_tool_calls_def bind_res_Inr_iff)
  then have "d2 = repaired_db now i ks d"
    using repair_ok [OF assms(1,2) ks, of now] assms(3) by simp
  with ks repair_fold(2) [OF assms(1,2)] show "wf_db d2" and "\<And>n. find_conversation d2 n = find_conversation d n"
    and "\<exists>ks. map_res column_text (dangling_calls d i) = Inr ks \<and> d2 = repaired_db now i ks d"
    by (auto simp: find_conversation_def)
qed

lemma engine_wf_new:
  assumes "wf_db d" and "lcm_new now ctx cursor d = Inr e"
  shows "engine_wf e"
proof -
  let ?name = "case read_active_session cursor of None \<Rightarrow> ''general'' | Some s \<Rightarrow> s"
  obtain i d1 where ens: "ensure_conversation ?name d = (i, d1)" by fastforce
  then obtain d2 where rep: "repair_dangling_tool_calls now i d1 = Inr d2"
    and e: "le_db e = d2" "le_active e = ?name" "le_conv e = i" "le_active_id e = i"
    using assms(2) by (auto simp: lcm_new_def Let_def bind_res_Inr_iff)
  note d1 = ensure_conversation_wf [OF assms(1) ens]
  show ?thesis
    using engine_wf_repaired(1,2) [OF d1(1,3) rep] d1(2) e by (simp add: engine_wf_def)
qed

lemma engine_wf_switch:
  assumes "engine_wf e" and "lcm_switch_session now stored name e = Inr e'"
  shows "engine_wf e'" and "le_active e' = sanitize_name name"
proof -
  have *: "engine_wf e' \<and> le_active e' = sanitize_name name"
  proof (cases "sanitize_name name = le_active e")
    case True
    with assms show ?thesis by (auto simp: lcm_switch_session_def)
  next
    case False
    obtain i d1 where ens: "ensure_conversation (sanitize_name name) (le_db e) = (i, d1)" by fastforce
    then obtain d2 where rep: "repair_dangling_tool_calls now i d1 = Inr d2"
      and e: "le_db e' = d2" "le_active e' = sanitize_name name" "le_conv e' = i" "le_active_id e' = i"
      using assms(2) False by (auto simp: lcm_switch_session_def Let_def bind_res_Inr_iff)
    have "wf_db (le_db e)" using assms(1) by (simp add: engine_wf_def)
    note d1 = ensure_conversation_wf [OF this ens]
    show ?thesis
      using engine_wf_repaired(1,2) [OF d1(1,3) rep] d1(2) e by (simp add: engine_wf_def)
  qed
  then show "engine_wf e'" and "le_active e' = sanitize_name name" by simp_all
qed

lemma engine_wf_push:
  assumes "engine_wf e" and "lcm_push_message ext path_of now msg (e, w) = (r, e', w')"
  shows "engine_wf e'"
proof -
  have wf: "wf_db (le_db e)" and ex: "conversation_exists (le_db e) (le_conv e)"
    using assms(1) find_conversation_exists by (auto simp: engine_wf_def)
  obtain res w1 where i: "intercept_large ext path_of e msg w = (res, w1)" by fastforce
  show ?thesis
  proof (cases res)
    case (Inl err)
    with assms i show ?thesis by (simp add: lcm_push_message_def)
  next
    case (Inr mf)
    then obtain m lf where mf: "res = Inr (m, lf)" by (cases mf) auto
    then have "e' = e\<lparr>le_db := pushed_db now (le_conv e) m lf (le_db e)\<rparr>"
      using assms(2) i push_message_sync_ok [OF wf ex] by (simp add: lcm_push_message_def)
    with engine_wf_pushed [OF assms(1)] show ?thesis by simp
  qed
qed

lemma engine_wf_compact:
  assumes "engine_wf e" and "0 < min_condensed_fanout (cfg_lcm (le_ctx e))"
    and "lcm_force_compact ce e w = Some (r, e', w')"
  shows "engine_wf e'"
proof -
  obtain q d w1 where run: "run_compaction (compaction_fuel (le_db e) (le_conv e)) (ce_env ce) (ce_now ce)
      (le_conv e) (cfg_lcm (le_ctx e)) (ce_summarize ce) (ride_context (ce_now_ms ce) (ce_raw_chat ce) e)
      (le_db e) w = Some (q, d, w1)"
    and e': "le_db e' = d" "le_active e' = le_active e" "le_conv e' = le_conv e" "le_active_id e' = le_active_id e"
    using assms(3) by (auto simp: lcm_force_compact_def split: option.splits sum.splits)
  have wf: "wf_db (le_db e)" using assms(1) by (simp add: engine_wf_def)
  show ?thesis
    using run_compaction_wf_db [OF run wf assms(2)] run_compaction_raw_same [OF run wf assms(2)] e' assms(1)
    by (simp add: engine_wf_def raw_same_def find_conversation_def)
qed

lemma engine_wf_clear: "engine_wf e \<Longrightarrow> engine_wf (lcm_clear e)"
  by (simp add: engine_wf_def lcm_clear_def wf_clear_context)

text \<open>Every operation of the trait that changes the engine, as one step.\<close>

inductive engine_step ::
  "'w externalize_fn \<Rightarrow> (string \<Rightarrow> string option) \<Rightarrow> ('tools, 'w, 'pe) raw_chat_fn
   \<Rightarrow> 'tools lcm_engine \<Rightarrow> 'tools lcm_engine \<Rightarrow> bool"
  for ext path_of chat where
  push: "lcm_push_message ext path_of now msg (e, w) = (r, e', w') \<Longrightarrow> engine_step ext path_of chat e e'"
| compact: "lcm_force_compact ce e w = Some (r, e', w') \<Longrightarrow> ce_raw_chat ce = chat \<Longrightarrow>
    engine_step ext path_of chat e e'"
| clear: "engine_step ext path_of chat e (lcm_clear e)"
| switch: "lcm_switch_session now stored name e = Inr e' \<Longrightarrow> engine_step ext path_of chat e e'"
| observe: "engine_step ext path_of chat e (lcm_observe_tokens n e)"
| request: "engine_step ext path_of chat e (lcm_observe_request ms tools t e)"

inductive_cases engine_step_cases: "engine_step ext path_of chat e e'"

lemma engine_step_ctx: "engine_step ext path_of chat e e' \<Longrightarrow> le_ctx e' = le_ctx e"
proof (induction rule: engine_step.induct)
  case (push now msg e w r e' w')
  then show ?case
    by (auto simp: lcm_push_message_def split: sum.splits prod.splits)
next
  case (compact ce e w r e' w')
  then show ?case
    by (auto simp: lcm_force_compact_def split: option.splits sum.splits)
next
  case (switch now stored name e e')
  then show ?case
    by (auto simp: lcm_switch_session_def Let_def bind_res_Inr_iff split: if_splits prod.splits)
qed (simp_all add: lcm_clear_def lcm_observe_tokens_def lcm_observe_request_def)

lemma engine_step_wf:
  assumes "engine_step ext path_of chat e e'" and "engine_wf e" and "0 < min_condensed_fanout (cfg_lcm (le_ctx e))"
  shows "engine_wf e'"
  using assms
proof (induction rule: engine_step.induct)
  case (push now msg e w r e' w')
  from engine_wf_push [OF push(2,1)] show ?case .
next
  case (compact ce e w r e' w')
  from engine_wf_compact [OF compact(3,4,1)] show ?case .
next
  case (switch now stored name e e')
  from engine_wf_switch(1) [OF switch(2,1)] show ?case .
next
  case (clear e)
  then show ?case by (simp add: engine_wf_clear)
qed (simp_all add: engine_wf_def lcm_observe_tokens_def lcm_observe_request_def)

definition sample_engine :: "unit lcm_engine" where
  "sample_engine = \<lparr>le_db = sample_db, le_active = ''general'', le_conv = 1, le_active_id = 1,
     le_cursor = None, le_ctx = default_context_config, le_observed = Some 7, le_last_sent = None\<rparr>"

lemma sample_engine_wf: "engine_wf sample_engine"
proof -
  have "find_conversation sample_db ''general'' = Some 1" by code_simp
  then show ?thesis using wf_sample_db by (simp add: engine_wf_def sample_engine_def)
qed

lemma sample_engine_fan: "0 < min_condensed_fanout (cfg_lcm (le_ctx sample_engine))"
  by (simp add: sample_engine_def default_context_config_def default_lcm_config_def)

text \<open>
  C6: The engine never loses track of its session. From an engine opened on any well-formed
  database, whatever sequence of pushes (stored as they are or externalized, failed or not),
  compactions, clears, session switches and observations follows, the database stays
  well-formed, the active name belongs to the active conversation, and the recall tools
  look at that same conversation.
\<close>

theorem engine_stays_consistent:
  assumes "wf_db d" and "lcm_new now ctx cursor d = Inr e0"
    and "0 < min_condensed_fanout (cfg_lcm ctx)"
    and "(engine_step ext path_of chat)\<^sup>*\<^sup>* e0 e"
  shows "wf_db (le_db e) \<and> find_conversation (le_db e) (le_active e) = Some (le_conv e)
    \<and> le_active_id e = le_conv e"
proof -
  have "engine_wf e \<and> 0 < min_condensed_fanout (cfg_lcm (le_ctx e))"
    using assms(4)
  proof (induction rule: rtranclp_induct)
    case base
    have "le_ctx e0 = ctx"
      using assms(2) by (auto simp: lcm_new_def Let_def bind_res_Inr_iff split: prod.splits)
    then show ?case using engine_wf_new [OF assms(1,2)] assms(3) by simp
  next
    case (step e1 e2)
    then show ?case using engine_step_ctx [OF step(2)] engine_step_wf [OF step(2)] by simp
  qed
  then show ?thesis by (simp add: engine_wf_def)
qed

theorem engine_stays_consistent_witness:
  "le_active_id (lcm_clear (sample_engine\<lparr>le_observed := None\<rparr>)) = 1"
proof -
  let ?e = "sample_engine\<lparr>le_observed := None\<rparr>"
  have e: "lcm_new [] default_context_config None sample_db = Inr ?e"
  proof -
    have "ensure_conversation ''general'' sample_db = (1, sample_db)" by code_simp
    moreover have "repair_dangling_tool_calls [] 1 sample_db = Inr sample_db"
    proof -
      have "dangling_calls sample_db 1 = []" by code_simp
      then show ?thesis by (simp add: repair_dangling_tool_calls_def)
    qed
    ultimately show ?thesis by (simp add: lcm_new_def read_active_session_def sample_engine_def)
  qed
  have "(engine_step (\<lambda>_ _ _ w. (Inl (Io []), w)) (\<lambda>_. None) sample_chat)\<^sup>*\<^sup>* ?e (lcm_clear ?e)"
    by (rule r_into_rtranclp) (rule engine_step.clear)
  moreover have "0 < min_condensed_fanout (cfg_lcm default_context_config)"
    by (simp add: default_context_config_def default_lcm_config_def)
  ultimately have "le_active_id (lcm_clear ?e) = le_conv (lcm_clear ?e)"
    using engine_stays_consistent [OF wf_sample_db e] by blast
  then show ?thesis by (simp add: lcm_clear_def sample_engine_def)
qed

section \<open>History\<close>

lemma lcm_assemble_history:
  assumes "history (le_db e) (le_conv e) = Inr ms"
    and "\<forall>i \<in> set (items_of (le_db e) (le_conv e)). \<not> is_summary i"
  shows "lcm_assemble path_of prompt e = Inr (System prompt # ms)"
proof -
  let ?d = "le_db e" and ?c = "le_conv e"
  obtain entries where rows: "map_res (assemble_row ?d) (items_of ?d ?c) = Inr entries"
    and ms: "map_res (row_message ?d) entries = Inr ms"
    using assms(1) by (auto simp: history_def bind_res_Inr_iff)
  have "\<not> is_summary_row x" if "x \<in> set entries" for x
  proof -
    have all: "list_all2 (\<lambda>i x. assemble_row ?d i = Inr x) (items_of ?d ?c) entries"
      using rows by (simp add: map_res_Inr_iff)
    from list_all2_set2 [OF this that] obtain i where "i \<in> set (items_of ?d ?c)" "assemble_row ?d i = Inr x"
      by blast
    then show ?thesis
      using assms(2)
      by (auto simp: assemble_row_def is_summary_row_def is_summary_def split: item.splits option.splits)
  qed
  then have "system_content path_of ?d ?c prompt entries = Inr prompt"
    by (auto simp: system_content_def list_ex_iff)
  with rows ms show ?thesis by (simp add: lcm_assemble_def assemble_sync_def)
qed

text \<open>Pushing leaves message items only, so the prompt is left alone.\<close>

lemma lcm_pushes_items:
  assumes "fold_res (lcm_push ext path_of now) ms s = Inr s'" and "engine_wf (fst s)"
    and "\<And>m. m \<in> set ms \<Longrightarrow> below_threshold (le_ctx (fst s)) m"
    and "\<forall>i \<in> set (items_of (le_db (fst s)) (le_conv (fst s))). \<not> is_summary i"
  shows "\<forall>i \<in> set (items_of (le_db (fst s')) (le_conv (fst s'))). \<not> is_summary i"
  using assms
proof (induction ms arbitrary: s)
  case (Cons m ms)
  obtain e w where s: "s = (e, w)" by (cases s)
  let ?e = "e\<lparr>le_db := pushed_db now (le_conv e) m None (le_db e)\<rparr>"
  have e: "engine_wf e" and below: "below_threshold (le_ctx e) m"
    using Cons.prems s by auto
  have "fold_res (lcm_push ext path_of now) ms (?e, w) = Inr s'"
    using Cons.prems(1) by (simp add: s lcm_push_below [OF e below])
  moreover have "wf_db (le_db e)" using e by (simp add: engine_wf_def)
  moreover have "\<not> is_summary (pushed_item (le_conv e) (le_db e))" by (simp add: is_summary_def)
  ultimately show ?case
    using Cons.prems(3,4) engine_wf_pushed [OF e]
    by (intro Cons.IH [of "(?e, w)"]) (auto simp: s items_of_pushed)
qed simp

text \<open>
  C7: The LCM engine gives back what it was given. After a clear, pushing any sequence of
  messages below the thresholds succeeds, and \<open>assemble\<close> returns the system prompt
  followed by exactly those messages, tool calls and results included, in order.
\<close>

theorem lcm_assembles_what_was_pushed:
  assumes "engine_wf e" and "\<forall>m \<in> set ms. storable m \<and> below_threshold (le_ctx e) m"
  shows "\<exists>e'. fold_res (lcm_push ext path_of now) ms (lcm_clear e, w) = Inr (e', w)
    \<and> lcm_assemble path_of prompt e' = Inr (System prompt # ms)"
proof -
  have wf: "engine_wf (lcm_clear e)" by (rule engine_wf_clear [OF assms(1)])
  have items: "items_of (le_db (lcm_clear e)) (le_conv (lcm_clear e)) = []"
    by (simp add: lcm_clear_def clear_context_items)
  have ctx: "le_ctx (lcm_clear e) = le_ctx e" by (simp add: lcm_clear_def)
  have inv: "lcm_inv (lcm_clear e, w)"
    using wf items by (simp add: lcm_inv_def history_ok_def history_def)
  obtain s where s: "fold_res (lcm_push ext path_of now) ms (lcm_clear e, w) = Inr s" "lcm_inv s"
    "lcm_view s = lcm_view (lcm_clear e, w) @ map (\<lambda>m. m) ms"
    using lcm.pushes_ok [OF inv, of ms ext path_of now] assms(2) by (auto simp: lcm_admissible_def ctx)
  have world: "fold_res (lcm_push ext path_of now) ms (f, w) = Inr s \<Longrightarrow> engine_wf f
      \<Longrightarrow> \<forall>m \<in> set ms. below_threshold (le_ctx f) m \<Longrightarrow> snd s = w" for f
  proof (induction ms arbitrary: f)
    case (Cons m ms)
    then show ?case
      using lcm_push_below [of f m ext path_of now w] engine_wf_pushed [of f now m None] by auto
  qed auto
  have none: "\<forall>i \<in> set (items_of (le_db (fst s)) (le_conv (fst s))). \<not> is_summary i"
    by (rule lcm_pushes_items [OF s(1)]) (use wf assms(2) items ctx in auto)
  have "lcm_view s = ms" using s(3) items by (simp add: lcm_view_def history_def)
  then have "history (le_db (fst s)) (le_conv (fst s)) = Inr ms"
    using s(2) by (auto simp: lcm_view_def lcm_inv_def history_ok_def split: sum.splits)
  from lcm_assemble_history [OF this none] s(1) world [OF s(1) wf] assms(2) ctx show ?thesis
    by (intro exI [of _ "fst s"]) (cases s, auto)
qed

theorem lcm_assembles_what_was_pushed_witness:
  "\<exists>e'. fold_res (lcm_push (\<lambda>_ _ _ w. (Inl (Io []), w)) (\<lambda>_. None) []) [User ''hi'', Assistant ''yo'']
      (lcm_clear sample_engine, ()) = Inr (e', ())
    \<and> lcm_assemble (\<lambda>_. None) ''p'' e' = Inr [System ''p'', User ''hi'', Assistant ''yo'']"
proof (rule lcm_assembles_what_was_pushed [OF sample_engine_wf])
  have "estimate_tokens ''hi'' = 0" by code_simp
  then show "\<forall>m \<in> set [User ''hi'', Assistant ''yo'']. storable m \<and> below_threshold (le_ctx sample_engine) m"
    by simp
qed

section \<open>Sessions\<close>

lemma switch_history:
  assumes "engine_wf e" and "sanitize_name name \<noteq> le_active e"
    and "lcm_switch_session now stored name e = Inr e'"
    and "find_conversation (le_db e) n = Some c" and "n \<noteq> sanitize_name name"
  shows "history (le_db e') c = history (le_db e) c"
    and "dangling_calls (le_db e') c = dangling_calls (le_db e) c"
    and "find_conversation (le_db e') n = Some c"
proof -
  obtain i d1 where ens: "ensure_conversation (sanitize_name name) (le_db e) = (i, d1)" by fastforce
  then obtain d2 where rep: "repair_dangling_tool_calls now i d1 = Inr d2" and e': "le_db e' = d2"
    using assms(2,3) by (auto simp: lcm_switch_session_def Let_def bind_res_Inr_iff)
  have "wf_db (le_db e)" using assms(1) by (simp add: engine_wf_def)
  note d1 = ensure_conversation_wf [OF this ens]
  obtain ks where d2: "d2 = repaired_db now i ks d1"
    using engine_wf_repaired(3) [OF d1(1,3) rep] by blast
  have n1: "find_conversation d1 n = Some c" by (rule d1(4) [OF assms(4)])
  have "i \<noteq> c"
  proof
    assume "i = c"
    moreover have "distinct (map cv_id (conversations d1))"
      using d1(1) by (simp add: wf_db_def wf_conversations_def)
    ultimately show False
      using n1 d1(2) assms(5)
      by (auto simp: find_conversation_def find_Some_iff distinct_conv_nth)
  qed
  from repaired_other [OF d1(1,3) this] e' d2 d1(5,6)
  show "history (le_db e') c = history (le_db e) c"
    and "dangling_calls (le_db e') c = dangling_calls (le_db e) c" by simp_all
  show "find_conversation (le_db e') n = Some c"
    using n1 e' d2 by (simp add: find_conversation_def)
qed


definition sample_other :: "unit lcm_engine" where
  "sample_other = sample_engine\<lparr>le_db := fresh_conversation ''x'' sample_db, le_observed := None,
     le_active := ''x'', le_conv := 2, le_active_id := 2, le_cursor := Some ''x''\<rparr>"

lemma sample_names: "sanitize_name ''x'' = ''x''" "sanitize_name ''general'' = ''general''"
  by code_simp+

lemma sample_switch: "lcm_switch_session [] True ''x'' sample_engine = Inr sample_other"
proof -
  have 1: "ensure_conversation ''x'' sample_db = (2, fresh_conversation ''x'' sample_db)" by code_simp
  have "dangling_calls (fresh_conversation ''x'' sample_db) 2 = []" by code_simp
  then have 2: "repair_dangling_tool_calls [] 2 (fresh_conversation ''x'' sample_db)
      = Inr (fresh_conversation ''x'' sample_db)"
    by (simp add: repair_dangling_tool_calls_def)
  show ?thesis
    by (simp add: lcm_switch_session_def sample_names 1 2 sample_engine_def sample_other_def
        persist_active_session_def Let_def)
qed

lemma sample_switch_back: "lcm_switch_session [] True ''general'' sample_other
    = Inr (sample_other\<lparr>le_active := ''general'', le_conv := 1, le_active_id := 1, le_cursor := Some ''general''\<rparr>)"
proof -
  let ?d = "fresh_conversation ''x'' sample_db"
  have 1: "ensure_conversation ''general'' ?d = (1, ?d)" by code_simp
  have "dangling_calls ?d 1 = []" by code_simp
  then have 2: "repair_dangling_tool_calls [] 1 ?d = Inr ?d"
    by (simp add: repair_dangling_tool_calls_def)
  show ?thesis
    by (simp add: lcm_switch_session_def sample_names 1 2 sample_other_def sample_engine_def
        persist_active_session_def Let_def)
qed


section \<open>Compaction of the engine\<close>

text \<open>
  Compaction by the engine always returns, and it runs exactly when the best token
  count (stored or observed) has reached the threshold: below it nothing changes; from it
  on a cycle runs and, when it succeeds, the observation that triggered it is dropped, so
  that the next decision is made on the compacted size.
\<close>

theorem compaction_trigger:
  assumes "engine_wf e" and "2 \<le> min_condensed_fanout (cfg_lcm (le_ctx e))"
  shows "\<exists>r e' w'. compact_above threshold ce e w = Some (r, e', w')
    \<and> (r = Inr None \<longleftrightarrow> cs_token_estimate (lcm_stats e) < threshold)
    \<and> (r = Inr None \<longrightarrow> e' = e \<and> w' = w)
    \<and> (\<forall>ev. r = Inr (Some ev) \<longrightarrow> cs_token_estimate (lcm_stats e') = ev_after ev
          \<and> load_condensed_chunks (le_db e') (le_conv e') (cfg_lcm (le_ctx e')) = Inr [])"
proof (cases "cs_token_estimate (lcm_stats e) < threshold")
  case True
  then show ?thesis by (simp add: compact_above_def)
next
  case False
  have wf: "wf_db (le_db e)" using assms(1) by (simp add: engine_wf_def)
  let ?fuel = "compaction_fuel (le_db e) (le_conv e)" and ?ride = "ride_context (ce_now_ms ce) (ce_raw_chat ce) e"
  have "run_compaction ?fuel (ce_env ce) (ce_now ce) (le_conv e) (cfg_lcm (le_ctx e))
      (ce_summarize ce) ?ride (le_db e) w \<noteq> None"
    by (rule run_compaction_total [OF wf assms(2)]) (simp add: compaction_fuel_def)
  then obtain q d w1 where run: "run_compaction ?fuel (ce_env ce) (ce_now ce) (le_conv e) (cfg_lcm (le_ctx e))
      (ce_summarize ce) ?ride (le_db e) w = Some (q, d, w1)"
    by auto
  show ?thesis
  proof (cases q)
    case (Inl err)
    with run False show ?thesis by (simp add: compact_above_def lcm_force_compact_def)
  next
    case (Inr ev)
    note ok = run [unfolded Inr]
    have "load_condensed_chunks d (le_conv e) (cfg_lcm (le_ctx e)) = Inr []"
      using assms(2) by (intro run_compaction_invariant(2) [where P = "\<lambda>_. True", OF ok wf]) auto
    moreover have "ev_after ev = token_estimate_sync d (le_conv e)"
      using ok by (auto simp: run_compaction_def Let_def split: sum.splits prod.splits option.splits)
    ultimately show ?thesis
      using run Inr False by (simp add: compact_above_def lcm_force_compact_def lcm_stats_def)
  qed
qed

theorem compaction_trigger_witness:
  "\<exists>r e' w'. compact_above 8 \<lparr>ce_env = sample_env, ce_now = [], ce_now_ms = 0,
      ce_summarize = sample_summarize, ce_raw_chat = sample_chat\<rparr> sample_engine () = Some (r, e', w')
    \<and> (r = Inr None \<longleftrightarrow> cs_token_estimate (lcm_stats sample_engine) < 8)"
  using compaction_trigger [OF sample_engine_wf, of 8 "\<lparr>ce_env = sample_env, ce_now = [], ce_now_ms = 0,
      ce_summarize = sample_summarize, ce_raw_chat = sample_chat\<rparr>" "()"]
  by (auto simp: sample_engine_def default_context_config_def default_lcm_config_def)

section \<open>Repair and transcripts\<close>


definition sample_call :: message where
  "sample_call = ToolCalls [] [\<lparr>tc_id = ''k'', tc_function = \<lparr>fn_name = ''f'', fn_arguments = []\<rparr>\<rparr>]"

definition sample_dangling :: db where
  "sample_dangling = pushed_db [] 1 sample_call None sample_db"


text \<open>
  C8: A distillation pass over a session reads a gap-free, non-empty, budgeted span. With
  dense positions and something pending, \<open>transcript_since\<close> returns the next \<open>n\<close> messages
  in order, \<open>n\<close> at least one; it goes over the token budget only for a single message, and
  stops early only where the next message would not fit. Since \<open>n\<close> is what the caller adds
  to its watermark, passes neither skip nor repeat a message.
\<close>

theorem transcript_spans_are_exact:
  assumes "find_conversation d stem = Some c" and "dense_seqs d c"
    and "after < length (messages_of d c)"
    and "transcript_since_sync d stem after max_tokens = Inr ms"
  shows "1 \<le> length ms \<and> after + length ms \<le> length (messages_of d c)
    \<and> map_res (reconstruct_row d) (take (length ms) (drop after (messages_of d c))) = Inr ms
    \<and> (length ms = 1 \<or> sum_list (map (nat \<circ> mr_tokens) (take (length ms) (drop after (messages_of d c)))) \<le> max_tokens)
    \<and> (after + length ms < length (messages_of d c) \<longrightarrow>
        max_tokens < sum_list (map (nat \<circ> mr_tokens) (take (Suc (length ms)) (drop after (messages_of d c)))))"
proof -
  let ?rows = "drop after (messages_of d c)"
  obtain n where n: "1 \<le> n" "after + n \<le> length (messages_of d c)"
    and res: "transcript_since_sync d stem after max_tokens = map_res (reconstruct_row d) (take n ?rows)"
    and ok: "span_ok max_tokens (map (\<lambda>r. (mr_seq r, mr_tokens r)) ?rows) False 0 n"
    by (rule transcript_since_rows [OF assms(1-3)])
  have "length ms = length (take n ?rows)"
    using res assms(4) map_res_length by metis
  then have len: "length ms = n" using n by simp
  have sums: "sum_list (map (nat \<circ> snd) (take k (map (\<lambda>r. (mr_seq r, mr_tokens r)) ?rows)))
      = sum_list (map (nat \<circ> mr_tokens) (take k ?rows))" for k
    by (simp add: take_map o_def)
  have "n = 1 \<or> sum_list (map (nat \<circ> mr_tokens) (take n ?rows)) \<le> max_tokens"
    using ok n(1) unfolding span_ok_def sums by auto
  moreover have "n < length ?rows \<longrightarrow> max_tokens < sum_list (map (nat \<circ> mr_tokens) (take (Suc n) ?rows))"
    using ok unfolding span_ok_def sums by simp
  ultimately show ?thesis
    using n res assms(4) by (simp add: len)
qed

theorem transcript_spans_are_exact_witness:
  "map_res (reconstruct_row sample_db) (take 2 (drop 1 (messages_of sample_db 1)))
    = Inr [Assistant [], Assistant []]"
proof -
  have 1: "find_conversation sample_db ''general'' = Some 1" by code_simp
  have rows: "messages_of sample_db 1 = [sample_row 1 ''user'', sample_row 2 ''assistant'', sample_row 3 ''assistant'']"
    by code_simp
  have 2: "dense_seqs sample_db 1"
    by (simp add: dense_seqs_def rows sample_row_def i64_max_def)
  have 3: "1 < length (messages_of sample_db 1)" by (simp add: rows)
  have span: "span_cutoff 5 (map (\<lambda>r. (mr_seq r, mr_tokens r)) [sample_row 2 ''assistant'', sample_row 3 ''assistant'']) False 0
      = (None, True)"
    by (simp add: sample_row_def)
  have seqs: "mr_seq (sample_row k role) = k - 1" for k role by (simp add: sample_row_def)
  have r3: "reconstruct_row sample_db (sample_row 3 ''assistant'') = Inr (Assistant [])"
    by (simp add: reconstruct_row_def reconstruct_message_def parts_of_def sample_row_def text_part_def sample_parts)
  have 4: "transcript_since_sync sample_db ''general'' 1 5 = Inr [Assistant [], Assistant []]"
    using span
    by (simp add: transcript_since_sync_def 1 rows clamp_i64_def i64_max_def seqs sample_rebuilt r3)
  from transcript_spans_are_exact [OF 1 2 3 4] show ?thesis by (simp add: numeral_2_eq_2)
qed

end
