(* ===== verification/Agent_Lcm.thy ===== *)
theory Agent_Lcm
  imports Agent_Protocol Agent_Env Lcm_Engine_Correct
begin

text \<open>
  The agent loop on the LCM engine, which is how a root turn runs. Its database, clock and
  model calls come from \<open>lcm_outside\<close>; a compaction has enough fuel on a well-formed engine
  (\<open>compaction_trigger\<close>), so its \<open>None\<close> is not reached. Here the loop's habit of ignoring a
  failing push of a tool result matters.
\<close>

record ('w, 't, 'f) lcm_outside =
  lo_chat :: "string \<Rightarrow> message list \<Rightarrow> 't list \<Rightarrow> 'w \<Rightarrow> ('f chat_error + 'f chat_outcome) option \<times> 'w"
  lo_execute :: "tool_call list \<Rightarrow> 'w \<Rightarrow> (nat \<Rightarrow> tool_error + string) option \<times> 'w"
  lo_cancelled :: "'w \<Rightarrow> bool"
  lo_now :: "'w \<Rightarrow> string"
  lo_now_ms :: "'w \<Rightarrow> nat"
  lo_compact :: "'w \<Rightarrow> ('t list, 'w, provider_error) compact_env"
  lo_externalize :: "'w externalize_fn"
  lo_path_of :: "string \<Rightarrow> string option"
  lo_store_str :: "store_error \<Rightarrow> string"
  lo_tools :: "'t list"
  lo_json :: json_codec
  lo_regex :: regex_engine
  lo_debug :: "string \<Rightarrow> string"

definition store_failure :: "('w, 't, 'f) lcm_outside \<Rightarrow> store_error \<Rightarrow> engine_failure" where
  "store_failure lo e = (case e of
     CorruptMessage _ _ \<Rightarrow> EngineStorage (lo_store_str lo e)
   | UnknownRole _ \<Rightarrow> EngineStorage (lo_store_str lo e)
   | _ \<Rightarrow> EngineSqlite (lo_store_str lo e))"

definition lcm_failure :: "('w, 't, 'f) lcm_outside \<Rightarrow> engine_error \<Rightarrow> engine_failure" where
  "lcm_failure lo e = (case e of Storage s \<Rightarrow> store_failure lo s | Io s \<Rightarrow> EngineIo ''write'' [] s)"

definition lcm_env_of :: "('w, 't, 'f) lcm_outside \<Rightarrow> ('t list lcm_engine, 'w, 't, 'f) turn_env" where
  "lcm_env_of lo =
     \<lparr>tv_push = (\<lambda>m (e, w). case lcm_push_message (lo_externalize lo) (lo_path_of lo) (lo_now lo w) m (e, w) of
         (Inl err, e', w') \<Rightarrow> (Inl (lcm_failure lo err), e', w') | (Inr u, e', w') \<Rightarrow> (Inr u, e', w')),
      tv_compact_if_urgent = (\<lambda>(e, w). case lcm_compact_if_urgent (lo_compact lo w) e w of
         None \<Rightarrow> (Inr None, e, w)
       | Some (Inl err, e', w') \<Rightarrow> (Inl (store_failure lo err), e', w')
       | Some (Inr ev, e', w') \<Rightarrow> (Inr ev, e', w')),
      tv_assemble = (\<lambda>prompt e. case lcm_assemble (lo_path_of lo) prompt e of
         Inl err \<Rightarrow> Inl (store_failure lo err) | Inr ms \<Rightarrow> Inr ms),
      tv_observe_request = (\<lambda>ms tools (e, w). (lcm_observe_request ms tools (lo_now_ms lo w) e, w)),
      tv_observe_tokens = lcm_observe_tokens,
      tv_active_session = le_active,
      tv_chat = lo_chat lo, tv_execute = lo_execute lo, tv_cancelled = lo_cancelled lo,
      tv_tools = lo_tools lo, tv_json = lo_json lo, tv_regex = lo_regex lo, tv_debug = lo_debug lo\<rparr>"

section \<open>The stored history of a conversation\<close>

text \<open>What a stored message is for the protocol, read from its row and parts.\<close>

definition call_ids_of :: "part list \<Rightarrow> string list" where
  "call_ids_of ps = List.map_filter (\<lambda>p. if pt_type p = ToolCallPart then pt_call_id p else None) ps"

definition row_shape :: "db \<Rightarrow> message_row \<Rightarrow> shape" where
  "row_shape d r = (let ps = parts_of d (mr_id r) in
     if mr_role r = ''tool'' then
       (case ps of [p] \<Rightarrow> (case pt_call_id p of Some k \<Rightarrow> Answered k | None \<Rightarrow> Said) | _ \<Rightarrow> Said)
     else if call_ids_of ps = [] then Said else Asked (call_ids_of ps))"

definition stored_log :: "'tools lcm_engine \<Rightarrow> shape list" where
  "stored_log e = map (row_shape (le_db e)) (messages_of (le_db e) (le_conv e))"

definition root_ok :: "'tools lcm_engine \<Rightarrow> bool" where
  "root_ok e \<longleftrightarrow> engine_wf e \<and> 2 \<le> min_condensed_fanout (cfg_lcm (le_ctx e))"

lemma call_ids_of_calls:
  "call_ids_of (map (tool_call_part m) (enumerate n calls)) = map tc_id calls"
  by (induction calls arbitrary: n) (simp_all add: call_ids_of_def tool_call_part_def map_filter_simps)

lemma call_ids_of_parts:
  "call_ids_of (message_parts m msg) = (case msg of ToolCalls _ calls \<Rightarrow> map tc_id calls | _ \<Rightarrow> [])"
proof (cases msg)
  case (ToolCalls content calls)
  then show ?thesis
    using call_ids_of_calls [of m 0 calls]
    by (simp add: call_ids_of_def map_filter_simps text_part_def)
qed (simp_all add: call_ids_of_def map_filter_simps text_part_def tool_output_part_def)

lemma row_shape_pushed:
  assumes "wf_db d"
  shows "row_shape (pushed_db now c m lf d) (pushed_row now c m d) = shape_of m"
proof (cases m)
  case (Tool k content)
  then show ?thesis
    using parts_of_pushed_new [OF assms, of now c m lf] by (simp add: row_shape_def tool_output_part_def)
qed (simp_all add: row_shape_def Let_def parts_of_pushed_new [OF assms] call_ids_of_parts del: message_parts.simps)

lemma row_shape_pushed_old:
  assumes "wf_db d" and "r \<in> set (messages_of d c)"
  shows "row_shape (pushed_db now c' m lf d) r = row_shape d r"
proof -
  have "mr_id r \<noteq> next_message_id d"
    using assms wf_fresh_message(1) [OF assms(1)] by (auto simp: set_messages_of image_iff)
  then show ?thesis by (simp add: row_shape_def parts_of_pushed_old)
qed

lemma stored_log_pushed:
  assumes "engine_wf e"
  shows "stored_log (e\<lparr>le_db := pushed_db now (le_conv e) m lf (le_db e)\<rparr>) = stored_log e @ [shape_of m]"
proof -
  have wf: "wf_db (le_db e)" using assms by (simp add: engine_wf_def)
  then show ?thesis
    by (auto simp: stored_log_def messages_of_pushed row_shape_pushed row_shape_pushed_old [OF wf])
qed

lemma stored_log_raw:
  assumes "raw_same (le_db e) (le_db e')" and "le_conv e' = le_conv e"
  shows "stored_log e' = stored_log e"
  using assms by (simp add: stored_log_def raw_same_def messages_of_def row_shape_def parts_of_def)

lemma lcm_push_stored_log:
  assumes "engine_wf e" and "lcm_push_message ext path_of now m (e, w) = (r, e', w')"
  shows "stored_log e' = (case r of Inl _ \<Rightarrow> stored_log e | Inr _ \<Rightarrow> stored_log e @ [shape_of m])"
    and "le_ctx e' = le_ctx e"
proof -
  have wf: "wf_db (le_db e)" and ex: "conversation_exists (le_db e) (le_conv e)"
    using assms(1) find_conversation_exists by (auto simp: engine_wf_def)
  obtain res w1 where i: "intercept_large ext path_of e m w = (res, w1)" by fastforce
  have kept: "shape_of m' = shape_of m" if "res = Inr (m', lf)" for m' lf
    using i that by (cases m) (auto split: if_splits prod.splits sum.splits)
  show "stored_log e' = (case r of Inl _ \<Rightarrow> stored_log e | Inr _ \<Rightarrow> stored_log e @ [shape_of m])"
    and "le_ctx e' = le_ctx e"
    using assms(2) i kept push_message_sync_ok [OF wf ex] stored_log_pushed [OF assms(1)]
    by (auto simp: lcm_push_message_def split: sum.splits prod.splits)
qed

lemma lcm_compact_stored_log:
  assumes "root_ok e" and "lcm_force_compact ce e w = Some (r, e', w')"
  shows "stored_log e' = stored_log e" and "root_ok e'"
proof -
  obtain q d w1 where run: "run_compaction (compaction_fuel (le_db e) (le_conv e)) (ce_env ce) (ce_now ce)
      (le_conv e) (cfg_lcm (le_ctx e)) (ce_summarize ce) (ride_context (ce_now_ms ce) (ce_raw_chat ce) e)
      (le_db e) w = Some (q, d, w1)"
    and e': "le_db e' = d" "le_conv e' = le_conv e" "le_ctx e' = le_ctx e"
    using assms(2) by (auto simp: lcm_force_compact_def split: option.splits sum.splits)
  have wf: "engine_wf e" "0 < min_condensed_fanout (cfg_lcm (le_ctx e))"
    using assms(1) by (auto simp: root_ok_def)
  then have "raw_same (le_db e) d"
    by (intro run_compaction_raw_same [OF run]) (auto simp: engine_wf_def)
  then show "stored_log e' = stored_log e" by (simp add: stored_log_raw e')
  show "root_ok e'" using engine_wf_compact [OF wf assms(2)] assms(1) by (simp add: root_ok_def e')
qed

section \<open>Root turns\<close>

text \<open>An outside on which writing a large payload to disk always succeeds.\<close>

definition reliable ::
  "(string \<Rightarrow> string option \<Rightarrow> summary_strategy \<Rightarrow> 'w \<Rightarrow> (string \<times> (int \<Rightarrow> large_file)) \<times> 'w)
   \<Rightarrow> ('w, 't, 'f) lcm_outside \<Rightarrow> ('w, 't, 'f) lcm_outside" where
  "reliable save lo = lo\<lparr>lo_externalize := (\<lambda>content path strategy w.
     case save content path strategy w of (r, w') \<Rightarrow> (Inr r, w'))\<rparr>"

lemma reliable_push_tool:
  assumes "engine_wf e"
  shows "lcm_push_message (lo_externalize (reliable save lo)) path_of now (Tool k content) (e, w) \<noteq> (Inl x, e', w')"
proof -
  have wf: "wf_db (le_db e)" and ex: "conversation_exists (le_db e) (le_conv e)"
    using assms find_conversation_exists by (auto simp: engine_wf_def)
  show ?thesis
    using push_message_sync_ok [OF wf ex]
    by (auto simp: lcm_push_message_def reliable_def split: prod.splits)
qed

lemma root_push_log:
  assumes ok: "root_ok e" and push: "tv_push (lcm_env_of (reliable save lo)) m (e, w) = (r, e', w')"
  shows "root_ok e' \<and> stored_log e' = (case r of Inl _ \<Rightarrow> stored_log e | Inr _ \<Rightarrow> stored_log e @ [shape_of m])"
proof -
  obtain q where push': "lcm_push_message (lo_externalize (reliable save lo)) (lo_path_of lo) (lo_now lo w) m (e, w)
      = (q, e', w')" and q: "q = Inr () \<longleftrightarrow> r = Inr ()"
    using push by (auto simp: lcm_env_of_def reliable_def split: prod.splits sum.splits)
  have wf: "engine_wf e" using ok by (simp add: root_ok_def)
  show ?thesis
    using lcm_push_stored_log [OF wf push'] engine_wf_push [OF wf push'] ok q
    by (auto simp: root_ok_def split: sum.splits)
qed

lemma root_push_result:
  assumes "root_ok e"
  shows "tv_push (lcm_env_of (reliable save lo)) (Tool k content) (e, w) \<noteq> (Inl x, e', w')"
  using assms reliable_push_tool [of e save lo "lo_path_of lo" "lo_now lo w" k content w]
  by (auto simp: lcm_env_of_def root_ok_def reliable_def split: prod.splits sum.splits)

lemma root_compact_log:
  assumes ok: "root_ok e" and "tv_compact_if_urgent (lcm_env_of lo) (e, w) = (c, e', w')"
  shows "root_ok e' \<and> stored_log e' = stored_log e"
proof -
  consider "e' = e" | q w1 where "lcm_force_compact (lo_compact lo w) e w = Some (q, e', w1)"
  proof (cases "lcm_force_compact (lo_compact lo w) e w")
    case (Some q)
    with assms(2) that show ?thesis
      by (cases q; cases "fst q")
        (auto simp: lcm_env_of_def lcm_compact_if_urgent_def compact_above_def split: if_splits)
  qed (use assms(2) that in \<open>auto simp: lcm_env_of_def lcm_compact_if_urgent_def compact_above_def
        split: if_splits\<close>)
  then show ?thesis
    by cases (use ok lcm_compact_stored_log [OF ok] in auto)
qed

interpretation root: turn_log "lcm_env_of (reliable save lo)" stored_log root_ok "\<lambda>_. True"
  by unfold_locales
    (auto simp: root_push_log root_push_result dest: root_compact_log,
     auto simp: lcm_env_of_def lcm_observe_request_def lcm_observe_tokens_def root_ok_def engine_wf_def
       stored_log_def)

text \<open>
  C16: A root turn on the LCM engine keeps the stored history well-formed for the provider.
  If writing large payloads to disk works, then whatever the provider and the tools do,
  however often the engine compacts in between and however the turn ends, every stored
  message with tool calls is followed by the result of each of its calls, in order; only a
  cancelled turn may leave calls open, which opening the session repairs.
\<close>

theorem root_turn_keeps_history:
  assumes "engine_wf e" and "2 \<le> min_condensed_fanout (cfg_lcm (le_ctx e))" and "settled (stored_log e)"
    and "run_turn_metered (lcm_env_of (reliable save lo)) tp user_message (e, w) = (result, meter, s)"
  shows "settled (stored_log (ts_engine s)) \<or> result = Inl Cancelled"
  using root.turn_keeps_protocol [OF _ _ _ assms(4)] assms(1-3) by (simp add: root_ok_def)


text \<open>A root turn on the sample conversation, with the model and the tools of \<open>sample_outside\<close>.\<close>

definition sample_lcm_outside :: "(unit, unit, nat) lcm_outside" where
  "sample_lcm_outside =
     \<lparr>lo_chat = os_chat sample_outside, lo_execute = os_execute sample_outside, lo_cancelled = (\<lambda>_. False),
      lo_now = (\<lambda>_. []), lo_now_ms = (\<lambda>_. 0),
      lo_compact = (\<lambda>_. \<lparr>ce_env = sample_env, ce_now = [], ce_now_ms = 0,
        ce_summarize = (\<lambda>_ _ w. (Inl RateLimited, w)), ce_raw_chat = (\<lambda>_ _ _ w. (Inl RateLimited, w))\<rparr>),
      lo_externalize = (\<lambda>_ _ _ w. (Inl (Io ''disk full''), w)),
      lo_path_of = (\<lambda>_. None), lo_store_str = (\<lambda>_. []), lo_tools = [],
      lo_json = os_json sample_outside, lo_regex = os_regex sample_outside, lo_debug = (\<lambda>s. s)\<rparr>"

definition sample_root_engine :: "db \<Rightarrow> context_config \<Rightarrow> unit list lcm_engine" where
  "sample_root_engine d ctx = \<lparr>le_db = d, le_active = ''general'', le_conv = 1, le_active_id = 1,
     le_cursor = None, le_ctx = ctx, le_observed = None, le_last_sent = None\<rparr>"

definition sample_save ::
  "string \<Rightarrow> string option \<Rightarrow> summary_strategy \<Rightarrow> unit \<Rightarrow> (string \<times> (int \<Rightarrow> large_file)) \<times> unit" where
  "sample_save content path strategy w = ((''saved'', \<lambda>m. undefined), w)"

lemma sample_root_wf: "engine_wf (sample_root_engine sample_db ctx)"
proof -
  have "find_conversation sample_db ''general'' = Some 1" by code_simp
  then show ?thesis using wf_sample_db by (simp add: engine_wf_def sample_root_engine_def)
qed

theorem root_turn_keeps_history_witness:
  "case run_turn_metered (lcm_env_of (reliable sample_save sample_lcm_outside)) sample_turn ''q''
      (sample_root_engine sample_db default_context_config, ()) of
     (result, meter, s) \<Rightarrow> settled (stored_log (ts_engine s)) \<or> result = Inl Cancelled"
proof -
  let ?e = "sample_root_engine sample_db default_context_config"
  obtain result meter s where
    run: "run_turn_metered (lcm_env_of (reliable sample_save sample_lcm_outside)) sample_turn ''q'' (?e, ())
      = (result, meter, s)"
    by (metis prod_cases3)
  have "map (row_shape sample_db) (messages_of sample_db 1) = [Said, Said, Said]" by code_simp
  then have settled: "settled (stored_log ?e)"
    by (simp add: stored_log_def sample_root_engine_def settled_def outstanding_def)
  have fan: "2 \<le> min_condensed_fanout (cfg_lcm (le_ctx ?e))"
    by (simp add: sample_root_engine_def default_context_config_def default_lcm_config_def)
  show ?thesis using root_turn_keeps_history [OF sample_root_wf fan settled run] by (simp add: run)
qed

section \<open>A tool result that could not be stored\<close>


definition tight_config :: context_config where
  "tight_config = default_context_config\<lparr>cfg_tool_output_tokens := 1\<rparr>"

definition fresh_records :: recorded where
  "fresh_records = \<lparr>rc_halt = None, rc_hints = [], rc_strikes = Map.empty, rc_tracker = new_tracker\<rparr>"

lemma sample_dangling_sent:
  "assemble_sync (\<lambda>_. None) sample_dangling 1 ''p''
    = Inr [System ''p'', User [], Assistant [], Assistant [], sample_call]"
proof -
  have st: "storable sample_call" by code_simp
  have old: "assemble_sync (\<lambda>_. None) sample_db 1 ''p'' = Inr (System ''p'' # [User [], Assistant [], Assistant []])"
    by code_simp
  have none: "list_all (\<lambda>i. case ci_item i of MessageItem _ \<Rightarrow> True | SummaryItem _ \<Rightarrow> False) (items_of sample_db 1)"
    by code_simp
  show ?thesis
    using assemble_pushed(1) [OF wf_sample_db st old none] by (simp add: sample_dangling_def)
qed


end
