(* ===== verification/Agent_Exchange.thy ===== *)
theory Agent_Exchange
  imports Agent_Lcm
begin

text \<open>
  A concrete conversation in which a compaction separates a tool call from its result: the
  fresh tail is a number of messages, and its boundary may lie between the two.
\<close>

definition sample_exchange :: db where
  "sample_exchange = empty_db\<lparr>conversations := [\<lparr>cv_id = 1, cv_name = ''general''\<rparr>],
     messages := [sample_row 1 ''user'', sample_row 2 ''assistant'', sample_row 3 ''tool''],
     parts := [text_part 1 0 []] @ message_parts 2 sample_call @ [tool_output_part 3 ''k'' []],
     context_items := [message_item 1 0 1, message_item 1 1 2, message_item 1 2 3],
     next_conversation_id := 2, next_message_id := 4\<rparr>"

lemma sample_exchange_pushes:
  "bind_res (push_message_sync [] 1 (User []) None (snd (ensure_conversation ''general'' empty_db)))
     (\<lambda>d. bind_res (push_message_sync [] 1 sample_call None d)
        (push_message_sync [] 1 (Tool ''k'' []) None)) = Inr sample_exchange"
  by code_simp

definition exchange_text :: string where
  "exchange_text = ''[assistant] '' @ newline @ ''  [tool_call] f()'' @ newline"

definition exchange_outcome :: escalation_outcome where
  "exchange_outcome = \<lparr>eo_content = exchange_text, eo_level = Deterministic, eo_input_tokens = 0,
     eo_output_tokens = 7\<rparr>"

definition exchange_row :: summary_row where
  "exchange_row = \<lparr>sr_id = sample_id1, sr_conv = 1, sr_kind = Leaf, sr_depth = 0, sr_content = exchange_text,
     sr_tokens = 7, sr_earliest = [], sr_latest = [], sr_desc_count = 1,
     sr_desc_tokens = 0, sr_source_tokens = 0, sr_model = ''level3-truncate'', sr_created = []\<rparr>"

definition split_exchange :: db where
  "split_exchange = sample_exchange\<lparr>
     summaries := [exchange_row], summary_messages := [(sample_id1, 2)],
     context_items := [message_item 1 0 1, message_item 1 2 3, summary_item 1 1 sample_id1]\<rparr>"

lemma exchange_items:
  "message_items sample_exchange 1 =
     [(0, sample_row 1 ''user''), (1, sample_row 2 ''assistant''), (2, sample_row 3 ''tool'')]"
  by code_simp

lemma exchange_rebuilt: "reconstruct_row sample_exchange (sample_row 2 ''assistant'') = Inr sample_call"
  by code_simp

lemma exchange_chunks:
  "load_leaf_chunks sample_exchange 1 sample_cfg = Inr [[sample_chunk_row 1 2 sample_call]]"
  by (simp add: load_leaf_chunks_def exchange_items sample_limits exchange_rebuilt pinned_ordinal_def
      max_opt_def numeral_2_eq_2 sample_chunk_row_def)

lemma exchange_summary: "sample_summary [sample_call] () = (exchange_outcome, ())"
  by code_simp

lemma exchange_written:
  "write_leaf_summary sample_env [] 1 [sample_chunk_row 1 2 sample_call] exchange_outcome sample_exchange
    = Inr split_exchange"
  by code_simp

lemma exchange_entries:
  "map_res (condensed_entry split_exchange) (items_of split_exchange 1) =
     Inr [None, Some (condensed_row_of 1 exchange_row), None]"
  by code_simp

lemma exchange_no_runs: "load_condensed_chunks split_exchange 1 sample_cfg = Inr []"
  using sample_limits(3) by (simp add: load_condensed_chunks_def exchange_entries collect_runs_def)

lemma exchange_run: "sample_run sample_exchange = Some (Inr \<lparr>ev_before = 0, ev_after = 7\<rparr>, split_exchange, ())"
proof -
  have "token_estimate_sync sample_exchange 1 = 0" and "token_estimate_sync split_exchange 1 = 7" by code_simp+
  moreover have "chunk_messages [sample_chunk_row 1 2 sample_call] = [sample_call]"
    by (simp add: chunk_messages_def sample_chunk_row_def)
  ultimately show ?thesis
    using exchange_summary exchange_written
    by (simp add: sample_run_def run_compaction_def exchange_chunks sample_summary_def [symmetric] Let_def
        condensed_loop_done exchange_no_runs)
qed

text \<open>
  A compaction can leave a tool result whose call is gone. The history user, tool call,
  result is well-formed; with the fresh tail beginning at the result, the call is
  summarized and the assembled context is user, summary, result: no message of it asks for
  the call, which a provider rejects (the other order, a call without its result, is what
  the code takes care of everywhere).
\<close>

theorem compaction_splits_an_exchange:
  "case sample_run sample_exchange of
     Some (Inr ev, d, _) \<Rightarrow>
       (case history sample_exchange 1 of Inr ms \<Rightarrow> settled (map shape_of ms) | Inl _ \<Rightarrow> False)
       \<and> (case history d 1 of Inr ms \<Rightarrow> map shape_of ms = [Said, Said, Answered ''k''] | Inl _ \<Rightarrow> False)
       \<and> outstanding [Said, Said, Answered ''k''] = None
   | _ \<Rightarrow> False"
proof -
  have "history sample_exchange 1 = Inr [User [], sample_call, Tool ''k'' []]" by code_simp
  moreover have "case history split_exchange 1 of Inr ms \<Rightarrow> map shape_of ms = [Said, Said, Answered ''k'']
      | Inl _ \<Rightarrow> False" by code_simp
  ultimately show ?thesis
    by (simp add: exchange_run settled_def outstanding_def sample_call_def)
qed

end
