(* ===== verification/Agent_Correct.thy ===== *)
theory Agent_Correct
  imports Agent_Protocol Agent_Metering Agent_Env
begin

text \<open>
  Turns on the program's own engines. A sub-agent (\<^verbatim>\<open>src/src/agent/task.rs\<close>) runs the loop on
  an ephemeral engine; with a provider that writes down the requests it is sent, the
  protocol of \<open>Agent_Protocol\<close> becomes a statement about what goes over the wire.
\<close>

section \<open>Turns of a sub-agent\<close>

definition valid_request :: "message list \<Rightarrow> bool" where
  "valid_request ms \<longleftrightarrow> (case ms of System _ # rest \<Rightarrow> settled (map shape_of rest) | _ \<Rightarrow> False)"

lemma shape_of_stored: "shape_of (stored_message limit m) = shape_of m"
  by (cases m) auto

interpretation sub_agent: turn_log "recorded (ephemeral_env os)" "\<lambda>e. map shape_of (es_messages e)"
  "\<lambda>_. True" "\<lambda>(_, exchanges). list_all (\<lambda>x. valid_request (ex_request x)) exchanges"
  by unfold_locales
    (auto simp: recorded_def ephemeral_env_def ephemeral_push_def shape_of_stored ephemeral_assemble_def
      valid_request_def split: prod.splits)

text \<open>
  C12: A sub-agent never sends the provider a history it would reject. In every request of a
  turn each message with tool calls is followed by the result of each of its calls, in
  order, before anything else; and so is the history the turn leaves behind, unless it was
  cancelled.
\<close>

theorem sub_agent_requests_are_valid:
  "case run_turn_metered (recorded (ephemeral_env os)) tp user_message (ephemeral_new limit, (w, [])) of
     (result, meter, s) \<Rightarrow>
       list_all (\<lambda>x. valid_request (ex_request x)) (snd (ts_world s))
       \<and> (settled (map shape_of (es_messages (ts_engine s))) \<or> result = Inl Cancelled)"
proof -
  obtain result meter s where
    run: "run_turn_metered (recorded (ephemeral_env os)) tp user_message (ephemeral_new limit, (w, []))
      = (result, meter, s)"
    by (metis prod_cases3)
  have "settled (map shape_of (es_messages (ephemeral_new limit)))"
    by (simp add: ephemeral_new_def settled_def outstanding_def)
  from sub_agent.turn_keeps_protocol [OF _ _ this run] show ?thesis
    by (auto simp: run split: prod.splits)
qed

end
