(* ===== verification/Flat_Correct.thy ===== *)
theory Flat_Correct
  imports Flat_Engine
begin

text \<open>
  What the flat and the ephemeral engine guarantee: both interpret the engine interface, the
  flat one restores a session it switched away from, reads exact transcript spans, and
  compacts to a single summary. The last theorem is about the session list, where the
  active session of a repository is listed twice.
\<close>

section \<open>The engine interface\<close>

abbreviation flat_view :: "flat_session \<Rightarrow> message list" where
  "flat_view f \<equiv> se_messages (fs_session f)"

interpretation flat: context_engine "\<lambda>_. True" "\<lambda>_ _. True"
  "\<lambda>f. stored_message (cfg_tool_output_tokens (fs_ctx f))"
  "\<lambda>m f. Inr (flat_push now m f) :: session_error + flat_session" "flat_clear now" flat_view
  "\<lambda>f. cs_message_count (flat_stats f)" for now
  by unfold_locales
    (auto simp: flat_push_def add_message_def flat_clear_def clear_session_def flat_stats_def)

interpretation ephemeral: context_engine "\<lambda>_. True" "\<lambda>_ _. True"
  "\<lambda>s. stored_message (es_tool_output_tokens s)"
  "\<lambda>m s. Inr (ephemeral_push m s) :: session_error + ephemeral_session" ephemeral_clear es_messages
  "\<lambda>s. cs_message_count (ephemeral_stats s)"
  by unfold_locales (auto simp: ephemeral_push_def ephemeral_clear_def ephemeral_stats_def)

text \<open>A stored tool result is the original or its head and tail around a marker.\<close>

definition cut_down :: "nat \<Rightarrow> string \<Rightarrow> string \<Rightarrow> bool" where
  "cut_down limit content kept \<longleftrightarrow> kept = content \<and> estimate_tokens content \<le> limit
     \<or> (\<exists>mid. content = text_prefix content (2 * limit) @ mid @ text_suffix content (2 * limit)
        \<and> kept = text_prefix content (2 * limit) @ truncation_marker (estimate_tokens mid)
            @ text_suffix content (2 * limit))"

lemma stored_message_cut: "\<exists>kept. stored_message limit (Tool k content) = Tool k kept \<and> cut_down limit content kept"
proof (cases "estimate_tokens content \<le> limit")
  case True
  then show ?thesis by (simp add: cut_down_def truncate_tool_output_id)
next
  case False
  then have "limit < estimate_tokens content" by simp
  then show ?thesis
    by (rule truncate_tool_output_split) (auto simp: cut_down_def)
qed

lemma stored_message_other: "(\<And>k content. m \<noteq> Tool k content) \<Longrightarrow> stored_message limit m = m"
  by (cases m) auto

definition stored_as :: "nat \<Rightarrow> message \<Rightarrow> message \<Rightarrow> bool" where
  "stored_as limit m m' \<longleftrightarrow> (case m of
     Tool k content \<Rightarrow> \<exists>kept. m' = Tool k kept \<and> cut_down limit content kept
   | _ \<Rightarrow> m' = m)"

lemma stored_as_stored: "stored_as limit m (stored_message limit m)"
  using stored_message_cut by (cases m) (auto simp: stored_as_def)


section \<open>Sessions\<close>

lemma map_of_replace:
  "map_of (map (\<lambda>(k, v). if k = stem then (k, x) else (k, v)) files) k
     = (if k = stem \<and> stem \<in> fst ` set files then Some x else map_of files k)"
proof (induction files)
  case (Cons kv files)
  obtain a v where "kv = (a, v)" by fastforce
  with Cons.IH show ?case by (cases "a = stem"; cases "k = a") simp_all
qed simp

lemma map_of_put_file: "map_of (put_file stem s files) k = (if k = stem then Some (Some s) else map_of files k)"
proof (cases "stem \<in> fst ` set files")
  case True
  then show ?thesis by (auto simp: put_file_def map_of_replace)
next
  case False
  then have "map_of files stem = None" by (simp add: map_of_eq_None_iff)
  with False show ?thesis by (auto simp: put_file_def map_add_def split: option.splits)
qed

lemma load_put_file: "load_session now (put_file stem s files) stem = Inr s"
  by (simp add: load_session_def map_of_put_file)

text \<open>
  Switching the flat engine to another session and back restores the conversation,
  unsaved pushes included; no other session's file changes; and no token observation
  survives the switch.
\<close>

theorem flat_switch_and_back:
  assumes "sanitize_name (fs_active f) = fs_active f" and "sanitize_name name \<noteq> fs_active f"
    and "flat_switch_session now stored name f = (Inr (), f1)"
    and "flat_switch_session now' stored (fs_active f) f1 = (Inr (), f2)"
  shows "flat_view f2 = flat_view f \<and> fs_active f2 = fs_active f \<and> fs_observed f2 = None
    \<and> (\<forall>stem. stem \<noteq> fs_active f \<longrightarrow> stem \<noteq> sanitize_name name
        \<longrightarrow> map_of (fs_files f2) stem = map_of (fs_files f) stem)"
proof -
  let ?n = "sanitize_name name" and ?a = "fs_active f"
  let ?s = "(fs_session f)\<lparr>se_updated := now\<rparr>"
  have ne: "?a \<noteq> ?n" using assms(2) by simp
  obtain t where t: "fs_session f1 = t" "fs_active f1 = ?n" "fs_files f1 = put_file ?a ?s (fs_files f)"
    using assms(1-3)
    by (auto simp: flat_switch_session_def flat_save_def Let_def session_stem_def split: sum.splits)
  have load: "load_session now' (put_file ?n (t\<lparr>se_updated := now'\<rparr>) (fs_files f1)) ?a = Inr ?s"
    using ne by (simp add: load_session_def map_of_put_file t)
  have "fs_session f2 = ?s" "fs_active f2 = ?a" "fs_observed f2 = None"
    "fs_files f2 = put_file ?n (t\<lparr>se_updated := now'\<rparr>) (fs_files f1)"
    using assms(1,4) ne load t sanitize_idem [of name]
    by (auto simp: flat_switch_session_def flat_save_def Let_def session_stem_def split: sum.splits)
  then show ?thesis by (simp add: t(3) map_of_put_file)
qed

definition sample_flat :: flat_session where
  "sample_flat = \<lparr>fs_session = \<lparr>se_messages = [User ''hi''], se_created = 0, se_updated = 0\<rparr>,
     fs_active = ''general'', fs_files = [], fs_cursor = None, fs_ctx = default_context_config,
     fs_observed = Some 9\<rparr>"

theorem flat_switch_and_back_witness:
  "flat_view (snd (flat_switch_session 2 True ''general'' (snd (flat_switch_session 1 True ''x'' sample_flat))))
    = [User ''hi'']"
proof -
  let ?f1 = "snd (flat_switch_session 1 True ''x'' sample_flat)"
  let ?f2 = "snd (flat_switch_session 2 True ''general'' ?f1)"
  have names: "sanitize_name ''x'' = ''x''" "sanitize_name ''general'' = ''general''" by code_simp+
  have active: "fs_active sample_flat = ''general''" by (simp add: sample_flat_def)
  have one: "flat_switch_session 1 True ''x'' sample_flat = (Inr (), ?f1)"
    by (simp add: flat_switch_session_def flat_save_def names session_stem_def sample_flat_def
        load_session_def put_file_def new_session_def Let_def)
  have two: "flat_switch_session 2 True (fs_active sample_flat) ?f1 = (Inr (), ?f2)"
    by (simp add: active flat_switch_session_def flat_save_def names session_stem_def sample_flat_def
        load_session_def put_file_def new_session_def Let_def)
  have clean: "sanitize_name (fs_active sample_flat) = fs_active sample_flat"
    and ne: "sanitize_name ''x'' \<noteq> fs_active sample_flat" by (simp_all add: active names)
  from flat_switch_and_back [OF clean ne one two] show ?thesis by (simp add: sample_flat_def)
qed

section \<open>Transcripts and compaction\<close>

lemma take_span_spec:
  "\<exists>n \<le> length ms. take_span max_tokens ms out used = out @ take n ms
    \<and> (out = [] \<and> ms \<noteq> [] \<longrightarrow> 1 \<le> n)
    \<and> (used + sum_list (map token_estimate (take n ms)) \<le> max_tokens \<or> n \<le> (if out = [] then 1 else 0))
    \<and> (n < length ms \<longrightarrow> max_tokens < used + sum_list (map token_estimate (take (Suc n) ms)))"
proof (induction max_tokens ms out used rule: take_span.induct)
  case (1 max_tokens out used)
  then show ?case by simp
next
  case (2 max_tokens m ms out used)
  have est: "estimate_tokens_from_chars (char_count m) = token_estimate m"
    by (simp add: token_estimate_def)
  show ?case
  proof (cases "out \<noteq> [] \<and> used + token_estimate m > max_tokens")
    case True
    then show ?thesis by (intro exI [of _ 0]) (auto simp: est)
  next
    case False
    then obtain n where n: "n \<le> length ms"
      "take_span max_tokens ms (out @ [m]) (used + token_estimate m) = (out @ [m]) @ take n ms"
      "used + token_estimate m + sum_list (map token_estimate (take n ms)) \<le> max_tokens \<or> n \<le> 0"
      "n < length ms \<longrightarrow> max_tokens < used + token_estimate m + sum_list (map token_estimate (take (Suc n) ms))"
      using 2 [OF refl] by (auto simp: est)
    then show ?thesis
      using False by (intro exI [of _ "Suc n"]) (auto simp: est)
  qed
qed

text \<open>
  A transcript span of the flat engine is exact too: the next \<open>n\<close> messages of the
  session from position \<open>after\<close>, at least one when any is pending, over the token budget
  only for a single message, and as long as the budget allows.
\<close>

theorem flat_transcript_exact:
  "\<exists>n. flat_transcript_since f session after max_tokens = take n (drop after (session_messages f session))
    \<and> (after < length (session_messages f session) \<longrightarrow> 1 \<le> n)
    \<and> (n \<le> 1 \<or> sum_list (map token_estimate (take n (drop after (session_messages f session)))) \<le> max_tokens)
    \<and> (after + n < length (session_messages f session) \<longrightarrow>
        max_tokens < sum_list (map token_estimate (take (Suc n) (drop after (session_messages f session)))))"
proof -
  let ?ms = "drop after (session_messages f session)"
  obtain n where "take_span max_tokens ?ms [] 0 = take n ?ms" and "?ms \<noteq> [] \<longrightarrow> 1 \<le> n"
    and "sum_list (map token_estimate (take n ?ms)) \<le> max_tokens \<or> n \<le> 1"
    and "n < length ?ms \<longrightarrow> max_tokens < sum_list (map token_estimate (take (Suc n) ?ms))"
    using take_span_spec [of ?ms max_tokens "[]" 0] by auto
  then show ?thesis
    by (intro exI [of _ n]) (auto simp: flat_transcript_since_def)
qed

theorem flat_transcript_exact_witness:
  "\<exists>n. flat_transcript_since sample_flat ''general'' 0 5 = take n (session_messages sample_flat ''general'') \<and> 1 \<le> n"
proof -
  have "session_messages sample_flat ''general'' = [User ''hi'']"
    by (simp add: session_messages_def sample_flat_def)
  with flat_transcript_exact [of sample_flat "''general''" 0 5] show ?thesis by auto
qed

text \<open>
  Compaction of the flat engine replaces the history by one system message with the
  summary and drops the observation, or, when the summarizer fails or there are fewer than
  two messages, changes nothing.
\<close>

theorem flat_compaction_outcomes:
  "case flat_compact_if_urgent now summarize f w of (r, f', w') \<Rightarrow>
     (case r of
        Inr None \<Rightarrow> f' = f \<and> w' = w \<and> (current_tokens f \<le> flat_budget f \<or> length (flat_view f) < 2)
      | Inl e \<Rightarrow> f' = f \<and> flat_budget f < current_tokens f
      | Inr (Some ev) \<Rightarrow> flat_budget f < current_tokens f
          \<and> (\<exists>s. summarize FLAT_SUMMARIZE_PROMPT (flat_view f) w = (Inr s, w') \<and> flat_view f' = [System s])
          \<and> fs_observed f' = None \<and> ev_before ev = current_tokens f \<and> ev_after ev = current_tokens f')"
  by (auto simp: flat_compact_if_urgent_def do_compact_def Let_def compact_session_def current_tokens_def
      split: prod.splits sum.splits)

section \<open>The session list\<close>

definition repo_flat :: flat_session where
  "repo_flat = sample_flat\<lparr>fs_active := ''o--r'', fs_files :=
     [(''o--r'', Some \<lparr>se_messages = [], se_created = 0, se_updated = 0\<rparr>)]\<rparr>"

text \<open>
  The flat engine lists the active session of a repository twice. Its active name is the
  sanitized one (\<open>o--r\<close>), \<open>list_sessions\<close> compares it with the desanitized file name
  (\<open>o/r\<close>), so the file counts as another session, with its stale content, and the active one
  is appended; \<open>latest_positions\<close> then reports the one session under two names. The
  same comparison in \<open>report\<close> was made on sanitized names and counts it once.
\<close>

theorem flat_lists_repository_session_twice:
  "sanitize_name ''o/r'' = fs_active repo_flat
   \<and> map si_name (flat_list_sessions repo_flat) = [''o--r'', ''o/r'']
   \<and> map si_count (flat_list_sessions repo_flat) = [1, 0]
   \<and> length (report_sessions repo_flat) = 1"
proof -
  have names: "sanitize_name ''o/r'' = ''o--r''" "desanitize_name ''o--r'' = ''o/r''" by code_simp+
  show ?thesis
    by (simp add: names repo_flat_def sample_flat_def flat_list_sessions_def file_info_def active_info_def
        report_sessions_def List.map_filter_simps messages_chars_def flat_token_estimate_def)
qed

end
