(* ===== verification/Rust_Path.thy ===== *)
theory Rust_Path
  imports Rust_Text
begin

text \<open>
  Unix paths as \<open>std::path\<close> sees them: a path is a byte string, its components skip empty
  and \<open>.\<close> segments, and prefixes are compared by components. Nothing is resolved against a
  file system here; \<open>walk\<close> is the lexical depth a list of components reaches.
\<close>

section \<open>Components\<close>

datatype path_component = RootDir | CurDir | ParentDir | Normal string

abbreviation slash :: char where
  "slash \<equiv> CHR 0x2F"

definition segments :: "string \<Rightarrow> string list" where
  "segments p = split_on slash p"

definition skipped :: "string \<Rightarrow> bool" where
  "skipped seg \<longleftrightarrow> seg = [] \<or> seg = ''.''"

definition body_component :: "string \<Rightarrow> path_component" where
  "body_component seg = (if seg = ''..'' then ParentDir else Normal seg)"

definition path_body :: "string list \<Rightarrow> path_component list" where
  "path_body segs = map body_component (filter (\<lambda>s. \<not> skipped s) segs)"

definition is_absolute :: "string \<Rightarrow> bool" where
  "is_absolute p \<longleftrightarrow> (case p of c # _ \<Rightarrow> c = slash | [] \<Rightarrow> False)"

definition components :: "string \<Rightarrow> path_component list" where
  "components p =
     (if is_absolute p then RootDir # path_body (segments p)
      else if hd (segments p) = ''.'' then CurDir # path_body (segments p)
      else path_body (segments p))"

definition path_starts_with :: "string \<Rightarrow> string \<Rightarrow> bool" where
  "path_starts_with p base \<longleftrightarrow> prefix (components base) (components p)"

text \<open>\<open>strip_prefix\<close> for a base that is not empty: the rest of the string, trimmed at both ends.\<close>

fun drop_body :: "nat \<Rightarrow> string list \<Rightarrow> string list" where
  "drop_body 0 segs = segs"
| "drop_body (Suc n) [] = []"
| "drop_body (Suc n) (s # ss) = (if skipped s then drop_body (Suc n) ss else drop_body n ss)"

definition trim_segments :: "string list \<Rightarrow> string list" where
  "trim_segments segs = rev (dropWhile skipped (rev (dropWhile skipped segs)))"

definition path_strip_prefix :: "string \<Rightarrow> string \<Rightarrow> string option" where
  "path_strip_prefix p base =
     (if path_starts_with p base
      then Some (join_with [slash] (trim_segments (drop_body (length (path_body (segments base))) (segments p))))
      else None)"

definition path_join :: "string \<Rightarrow> string \<Rightarrow> string" where
  "path_join a b =
     (if is_absolute b then b
      else if a = [] \<or> last a = slash then a @ b
      else a @ slash # b)"

text \<open>\<open>parent\<close>: the path without its last component, trimmed; the root has none.\<close>

definition path_parent :: "string \<Rightarrow> string option" where
  "path_parent p =
     (let segs = rev (dropWhile skipped (rev (segments p)))
      in if segs = [] then None
         else (let up = rev (dropWhile skipped (rev (butlast segs)))
               in Some (if up = [] then (if is_absolute p then [slash] else []) else join_with [slash] up)))"

section \<open>Facts\<close>

lemma split_on_append: "split_on c (a @ c # b) = split_on c a @ split_on c b"
proof (induction a)
  case (Cons x a)
  then show ?case by (cases "split_on c a") auto
qed simp

lemma split_on_join:
  "xs \<noteq> [] \<Longrightarrow> \<forall>x \<in> set xs. c \<notin> set x \<Longrightarrow> split_on c (join_with [c] xs) = xs"
  by (induction "[c]" xs rule: join_with.induct) (auto simp: split_on_no_sep split_on_append_sep)

lemma segments_not_Nil [simp]: "segments p \<noteq> []"
  by (simp add: segments_def)

lemma slash_not_in_segment: "s \<in> set (segments p) \<Longrightarrow> slash \<notin> set s"
  by (simp add: segments_def split_on_parts)

lemma path_body_append: "path_body (a @ b) = path_body a @ path_body b"
  by (simp add: path_body_def)

lemma is_absolute_hd: "is_absolute p \<longleftrightarrow> p \<noteq> [] \<and> hd (segments p) = [] \<and> (segments p \<noteq> [[]])"
  by (cases p) (auto simp: is_absolute_def segments_def split: list.splits)

lemma path_body_drop: "path_body (drop_body n segs) = drop n (path_body segs)"
  by (induction n segs rule: drop_body.induct) (auto simp: path_body_def)

lemma path_body_dropWhile: "path_body (dropWhile skipped segs) = path_body segs"
  by (induction segs) (auto simp: path_body_def)

lemma path_body_rev: "path_body (rev segs) = rev (path_body segs)"
  by (simp add: path_body_def rev_map rev_filter)

lemma path_body_trim: "path_body (trim_segments segs) = path_body segs"
  by (simp add: trim_segments_def path_body_rev path_body_dropWhile)

lemma set_drop_body: "set (drop_body n segs) \<subseteq> set segs"
  by (induction n segs rule: drop_body.induct) auto

lemma set_trim_segments: "set (trim_segments segs) \<subseteq> set segs"
  by (auto simp: trim_segments_def dest!: set_dropWhileD)

lemma trim_segments_hd: "trim_segments segs \<noteq> [] \<Longrightarrow> \<not> skipped (hd (trim_segments segs))"
proof -
  let ?d = "dropWhile skipped segs"
  assume ne: "trim_segments segs \<noteq> []"
  have "?d = [] \<Longrightarrow> trim_segments segs = []"
    by (simp add: trim_segments_def del: dropWhile_eq_Nil_conv)
  with ne have d: "?d \<noteq> []" by blast
  then have "\<not> skipped (hd ?d)" by (metis hd_dropWhile dropWhile_eq_Nil_conv)
  have "prefix (trim_segments segs) ?d"
    using suffix_dropWhile [of skipped "rev ?d"] by (simp add: trim_segments_def suffix_to_prefix)
  then have "hd (trim_segments segs) = hd ?d"
    using ne by (auto simp: prefix_def)
  with \<open>\<not> skipped (hd ?d)\<close> show ?thesis by simp
qed

lemma components_segments:
  assumes "xs \<noteq> []" and "\<forall>x \<in> set xs. slash \<notin> set x" and "\<not> skipped (hd xs)"
  shows "components (join_with [slash] xs) = path_body xs" and "\<not> is_absolute (join_with [slash] xs)"
proof -
  have segs: "segments (join_with [slash] xs) = xs"
    using split_on_join [OF assms(1,2)] by (simp add: segments_def)
  then show "\<not> is_absolute (join_with [slash] xs)"
    using assms(3) by (simp add: is_absolute_hd skipped_def)
  then show "components (join_with [slash] xs) = path_body xs"
    using segs assms(3) by (simp add: components_def skipped_def)
qed

text \<open>What is left after an absolute prefix: the remaining components, as a relative path.\<close>

lemma components_strip:
  assumes "path_strip_prefix p base = Some r" and "is_absolute base"
  shows "components p = components base @ components r" and "\<not> is_absolute r"
    and "RootDir \<notin> set (components r)" and "CurDir \<notin> set (components r)"
proof -
  let ?k = "length (path_body (segments base))"
  let ?t = "trim_segments (drop_body ?k (segments p))"
  have start: "prefix (components base) (components p)" and r: "r = join_with [slash] ?t"
    using assms(1) by (auto simp: path_strip_prefix_def path_starts_with_def split: if_splits)
  have base: "components base = RootDir # path_body (segments base)"
    using assms(2) by (simp add: components_def)
  have "components p \<noteq> [] \<and> hd (components p) = RootDir"
    using start base by (auto simp: prefix_def)
  then have abs: "is_absolute p"
    by (auto simp: components_def path_body_def body_component_def hd_map split: if_splits)
  then have p: "components p = RootDir # path_body (segments p)" by (simp add: components_def)
  have body: "path_body ?t = drop ?k (path_body (segments p))"
    by (simp add: path_body_trim path_body_drop)
  have noslash: "\<forall>x \<in> set ?t. slash \<notin> set x"
    using set_trim_segments set_drop_body slash_not_in_segment by fast
  have r_comps: "components r = path_body ?t \<and> \<not> is_absolute r"
  proof (cases "?t = []")
    case True
    then show ?thesis
      by (simp add: r components_def is_absolute_def segments_def path_body_def skipped_def)
  next
    case False
    then show ?thesis
      using components_segments [OF False noslash trim_segments_hd [OF False]] r by simp
  qed
  then show "\<not> is_absolute r" by simp
  have "path_body (segments p) = path_body (segments base) @ drop ?k (path_body (segments p))"
    using start base p by (auto simp: prefix_def)
  then show "components p = components base @ components r"
    using base p r_comps body by simp
  show "RootDir \<notin> set (components r)" and "CurDir \<notin> set (components r)"
    using r_comps by (auto simp: path_body_def body_component_def split: if_splits)
qed

lemma components_join:
  assumes "a \<noteq> []" and "\<not> is_absolute b"
  shows "components (path_join a b) = components a @ path_body (segments b)"
proof -
  have body: "path_body (segments (path_join a b)) = path_body (segments a) @ path_body (segments b)"
  proof (cases "last a = slash")
    case True
    then obtain a' where a: "a = a' @ [slash]" using assms(1) by (metis append_butlast_last_id)
    have "path_body [[]] = []" by (simp add: path_body_def skipped_def)
    moreover have "segments a = segments a' @ [[]]"
      using split_on_append [of slash a' "[]"] by (simp add: a segments_def)
    moreover have "segments (path_join a b) = segments a' @ segments b"
      using assms a split_on_append [of slash a' b] by (simp add: path_join_def segments_def)
    ultimately show ?thesis by (simp add: path_body_append)
  next
    case False
    then show ?thesis
      using assms split_on_append [of slash a b] by (simp add: path_join_def segments_def path_body_append)
  qed
  have abs: "is_absolute (path_join a b) = is_absolute a"
    using assms by (cases a) (auto simp: path_join_def is_absolute_def)
  have "hd (segments (path_join a b)) = ''.'' \<longleftrightarrow> hd (segments a) = ''.''" if "\<not> is_absolute a"
  proof (cases "last a = slash")
    case True
    then obtain a' where a: "a = a' @ [slash]" using assms(1) by (metis append_butlast_last_id)
    have "segments a = segments a' @ [[]]"
      using split_on_append [of slash a' "[]"] by (simp add: a segments_def)
    moreover have "segments (path_join a b) = segments a' @ segments b"
      using assms a split_on_append [of slash a' b] by (simp add: path_join_def segments_def)
    ultimately show ?thesis by simp
  next
    case False
    then show ?thesis
      using assms split_on_append [of slash a b] by (simp add: path_join_def segments_def)
  qed
  then show ?thesis using body abs by (auto simp: components_def)
qed

section \<open>Depth\<close>

fun walk :: "nat \<Rightarrow> path_component list \<Rightarrow> nat option" where
  "walk d [] = Some d"
| "walk d (Normal _ # cs) = walk (Suc d) cs"
| "walk d (ParentDir # cs) = (case d of 0 \<Rightarrow> None | Suc d' \<Rightarrow> walk d' cs)"
| "walk d (_ # cs) = walk d cs"

lemma walk_append: "walk d (a @ b) = Option.bind (walk d a) (\<lambda>d'. walk d' b)"
  by (induction d a rule: walk.induct) (auto split: nat.splits)

lemma walk_names: "ParentDir \<notin> set cs \<Longrightarrow> \<exists>d' \<ge> d. walk d cs = Some d'"
proof (induction d cs rule: walk.induct)
  case (2 d name cs)
  then obtain d' where "Suc d \<le> d'" and "walk (Suc d) cs = Some d'" by auto
  then show ?case by (intro exI [of _ d']) simp
qed auto

lemma join_with_append:
  "xs \<noteq> [] \<Longrightarrow> ys \<noteq> [] \<Longrightarrow> join_with sep (xs @ ys) = join_with sep xs @ sep @ join_with sep ys"
  by (induction sep xs rule: join_with.induct) (auto simp: neq_Nil_conv)

text \<open>Without \<open>../\<close> in it, a path goes up at most in its last segment.\<close>

lemma parent_only_last:
  assumes "\<not> str_contains p ''../''"
  shows "''..'' \<notin> set (butlast (segments p))"
proof
  assume "''..'' \<in> set (butlast (segments p))"
  then obtain pre post where split: "butlast (segments p) = pre @ ''..'' # post"
    by (auto simp: in_set_conv_decomp)
  let ?rest = "post @ [last (segments p)]"
  have segs: "segments p = pre @ ''..'' # ?rest"
    using split append_butlast_last_id [of "segments p"] by (metis append.assoc append_Cons segments_not_Nil)
  have p: "p = join_with [slash] (segments p)" by (simp add: segments_def join_split)
  have "join_with [slash] (''..'' # ?rest) = ''../'' @ join_with [slash] ?rest"
    by (cases "post") simp_all
  then have "\<exists>front. p = front @ ''../'' @ join_with [slash] ?rest"
  proof (cases "pre = []")
    case False
    have "join_with [slash] (pre @ ''..'' # ?rest)
        = (join_with [slash] pre @ [slash]) @ join_with [slash] (''..'' # ?rest)"
      using join_with_append [OF False, of "''..'' # ?rest" "[slash]"] by simp
    with \<open>join_with [slash] (''..'' # ?rest) = _\<close> p segs show ?thesis by (metis append.assoc)
  qed (use p segs in simp)
  then have "suffix (''../'' @ join_with [slash] ?rest) p" by (auto simp: suffix_def)
  then have "sublist ''../'' p" by (auto simp: suffix_def sublist_def)
  with assms show False by (simp add: str_contains_def)
qed

lemma body_parent_last:
  assumes "\<not> str_contains p ''../''"
  shows "ParentDir \<notin> set (butlast (path_body (segments p)))"
    and "last (segments p) \<noteq> ''..'' \<Longrightarrow> ParentDir \<notin> set (path_body (segments p))"
proof -
  have init: "ParentDir \<notin> set (path_body (butlast (segments p)))"
    using parent_only_last [OF assms] by (auto simp: path_body_def body_component_def)
  have body: "path_body (segments p) = path_body (butlast (segments p)) @ path_body [last (segments p)]"
    by (simp flip: path_body_append)
  show "ParentDir \<notin> set (butlast (path_body (segments p)))"
    using init body by (auto simp: path_body_def butlast_append dest: in_set_butlastD)
  show "last (segments p) \<noteq> ''..'' \<Longrightarrow> ParentDir \<notin> set (path_body (segments p))"
    using init body by (auto simp: path_body_def body_component_def)
qed

end
