(* ===== verification/Path_Guard.thy ===== *)
theory Path_Guard
  imports Rust_Path Errors
begin

text \<open>
  The path guard of the file tools (\<^verbatim>\<open>src/src/tools/path.rs\<close>) and the names of the
  daemon's own files (\<^verbatim>\<open>src/src/workspace.rs\<close>). \<open>canonicalize\<close>, which asks the file system,
  is an argument: the resolved path, or the text of the I/O error.
\<close>

section \<open>Layout\<close>

definition CONFIG_FILE :: string where "CONFIG_FILE = ''config.toml''"
definition CONTEXT_DIR :: string where "CONTEXT_DIR = ''context''"
definition LCM_DIR :: string where "LCM_DIR = ''lcm''"
definition LCM_PAYLOADS_DIR :: string where "LCM_PAYLOADS_DIR = ''payloads''"
definition STATE_DIR :: string where "STATE_DIR = ''state''"
definition REVIEW_CHECKLIST :: string where "REVIEW_CHECKLIST = ''review-checklist.md''"

section \<open>The guard\<close>

record path_guard =
  pg_root :: string

definition guard_new :: "(string \<Rightarrow> string + string) \<Rightarrow> string \<Rightarrow> path_guard" where
  "guard_new canonicalize workspace =
     \<lparr>pg_root = (case canonicalize workspace of Inr p \<Rightarrow> p | Inl _ \<Rightarrow> workspace)\<rparr>"

definition workspace_relative :: "path_guard \<Rightarrow> string \<Rightarrow> tool_error + string" where
  "workspace_relative g path =
     (case path_strip_prefix path (pg_root g) of
        Some stripped \<Rightarrow> Inr stripped
      | None \<Rightarrow>
          if is_absolute path
          then Inl (Blocked path
            ''absolute path outside the workspace; paths are relative to the workspace root'')
          else Inr path)"

text \<open>\<open>..\<close> on its own or followed by a slash or a backslash.\<close>

definition traversal :: "string \<Rightarrow> bool" where
  "traversal path \<longleftrightarrow> str_contains path ''../'' \<or> str_contains path [CHR 0x2E, CHR 0x2E, CHR 0x5C] \<or> path = ''..''"

definition validate_and_join :: "path_guard \<Rightarrow> string \<Rightarrow> tool_error + string" where
  "validate_and_join g path =
     (if CHR 0x00 \<in> set path then Inl (Blocked path ''null byte in path'')
      else if traversal path then Inl (Blocked path ''path traversal detected'')
      else bind_res (workspace_relative g path) (\<lambda>r. Inr (path_join (pg_root g) r)))"

definition ensure_under_root :: "path_guard \<Rightarrow> string \<Rightarrow> string \<Rightarrow> tool_error + string" where
  "ensure_under_root g resolved original =
     (if path_starts_with resolved (pg_root g) then Inr resolved
      else Inl (Blocked original ''path escapes workspace''))"

definition resolve :: "(string \<Rightarrow> string + string) \<Rightarrow> path_guard \<Rightarrow> string \<Rightarrow> tool_error + string" where
  "resolve canonicalize g path =
     bind_res (validate_and_join g path) (\<lambda>candidate.
       case canonicalize candidate of
         Inl source \<Rightarrow> Inl (IoFailed ''resolve'' path source)
       | Inr resolved \<Rightarrow> ensure_under_root g resolved path)"

definition resolve_new :: "path_guard \<Rightarrow> string \<Rightarrow> tool_error + string" where
  "resolve_new g path =
     bind_res (validate_and_join g path) (\<lambda>candidate. ensure_under_root g candidate path)"

definition normal_names :: "path_component list \<Rightarrow> string list" where
  "normal_names cs = List.map_filter (\<lambda>c. case c of Normal s \<Rightarrow> Some s | _ \<Rightarrow> None) cs"

definition deny_daemon_owned :: "string \<Rightarrow> tool_error + unit" where
  "deny_daemon_owned path =
     (case normal_names (components path) of
        [] \<Rightarrow> Inr ()
      | first # rest \<Rightarrow>
          if first # rest = [STATE_DIR, REVIEW_CHECKLIST] then Inr ()
          else if first \<in> set [CONFIG_FILE, CONTEXT_DIR, STATE_DIR]
          then Inl (Blocked (''write '' @ path)
            (first @ '' is daemon-owned; file tools may read it but not modify it''))
          else Inr ())"

definition resolve_writable :: "(string \<Rightarrow> string + string) \<Rightarrow> path_guard \<Rightarrow> string \<Rightarrow> tool_error + string" where
  "resolve_writable canonicalize g path =
     bind_res (workspace_relative g path) (\<lambda>r.
     bind_res (deny_daemon_owned r) (\<lambda>_. resolve canonicalize g path))"

definition resolve_writable_new :: "path_guard \<Rightarrow> string \<Rightarrow> tool_error + string" where
  "resolve_writable_new g path =
     bind_res (workspace_relative g path) (\<lambda>r.
     bind_res (deny_daemon_owned r) (\<lambda>_. resolve_new g path))"

section \<open>What the guard lets through\<close>

lemma normal_names_map: "normal_names (map Normal xs) = xs"
  by (induction xs) (simp_all add: normal_names_def map_filter_simps)

lemma normal_names_body:
  assumes "ParentDir \<notin> set (path_body segs)"
  shows "path_body segs = map Normal (normal_names (path_body segs))"
  using assms
  by (induction segs) (auto simp: path_body_def normal_names_def body_component_def map_filter_simps split: if_splits)

lemma normal_names_relative:
  "\<not> is_absolute p \<Longrightarrow> normal_names (components p) = normal_names (path_body (segments p))"
  by (simp add: components_def normal_names_def map_filter_simps)

text \<open>The relative form and the join of an accepted path: the root followed by its names.\<close>

lemma validated_components:
  assumes "validate_and_join g path = Inr p" and "workspace_relative g path = Inr r" and "is_absolute (pg_root g)"
  shows "components p = components (pg_root g) @ path_body (segments r)" and "\<not> is_absolute r"
    and "last (segments path) \<noteq> ''..'' \<Longrightarrow> ParentDir \<notin> set (path_body (segments r))"
    and "ParentDir \<notin> set (butlast (path_body (segments r)))"
proof -
  have p: "p = path_join (pg_root g) r" and safe: "\<not> traversal path"
    using assms(1,2) by (auto simp: validate_and_join_def split: if_splits)
  have dots: "\<not> str_contains path ''../''" using safe by (simp add: traversal_def)
  have r: "path_strip_prefix path (pg_root g) = Some r \<or> (r = path \<and> \<not> is_absolute path)"
    using assms(2) by (auto simp: workspace_relative_def split: option.splits if_splits)
  then show rel: "\<not> is_absolute r" using components_strip(2) [OF _ assms(3)] by blast
  have ne: "pg_root g \<noteq> []" using assms(3) by (auto simp: is_absolute_def)
  show "components p = components (pg_root g) @ path_body (segments r)"
    unfolding p by (rule components_join [OF ne rel])
  have tail: "\<exists>front. path_body (segments path) = front @ path_body (segments r)"
    using r
  proof
    assume strip: "path_strip_prefix path (pg_root g) = Some r"
    have "CurDir \<notin> set (components r)" by (rule components_strip(4) [OF strip assms(3)])
    then have "components r = path_body (segments r)"
      using rel by (auto simp: components_def split: if_splits)
    moreover have root: "components (pg_root g) = RootDir # path_body (segments (pg_root g))"
      using assms(3) by (simp add: components_def)
    moreover have "components path = components (pg_root g) @ components r"
      by (rule components_strip(1) [OF strip assms(3)])
    moreover from this have "components path = RootDir # path_body (segments path)"
      using root by (auto simp: components_def path_body_def body_component_def Cons_eq_map_conv
          split: if_splits)
    ultimately show ?thesis by auto
  qed auto
  from tail body_parent_last(2) [OF dots]
  show "last (segments path) \<noteq> ''..'' \<Longrightarrow> ParentDir \<notin> set (path_body (segments r))" by auto
  from tail body_parent_last(1) [OF dots] show "ParentDir \<notin> set (butlast (path_body (segments r)))"
    by (auto simp: butlast_append split: if_splits)
qed



end
