(* ===== verification/Exec_Rules.thy ===== *)
theory Exec_Rules
  imports Path_Guard
begin

text \<open>
  The rule tables of the \<open>exec\<close> tool (\<^verbatim>\<open>src/src/tools/exec.rs\<close>): regular expressions over
  the raw command with the guidance shown when one matches, and the structural rules by
  program and subcommand. A pattern is written with a percent sign for each backslash,
  which \<open>rx\<close> puts back.
\<close>

section \<open>Guidance\<close>

definition BLOCKED :: string where
  "BLOCKED =
     ''command blocked by policy''"

definition RECURSIVE_RM :: string where
  "RECURSIVE_RM =
     ''recursive deletion is blocked; remove files one at a time with rm (rm -f is fine)''"

definition DISK_WRITE :: string where
  "DISK_WRITE =
     ''disk and device writes are blocked; the daemon does not manage storage''"

definition HOST_POWER :: string where
  "HOST_POWER =
     ''the daemon does not manage the host; report a host problem via notify instead of '' @
     ''acting on it''"

definition UNPRIVILEGED :: string where
  "UNPRIVILEGED =
     ''the daemon runs as a fixed unprivileged user with no sudo; anything needing root is '' @
     ''out of scope, report it instead''"

definition CHMOD :: string where
  "CHMOD =
     ''mode changes are blocked; run a script through its interpreter (bash script.sh, '' @
     ''python3 script.py) instead of chmod +x''"

definition OWNERSHIP :: string where
  "OWNERSHIP =
     ''ownership changes are blocked; the daemon already owns every workspace file''"

definition USER_MGMT :: string where
  "USER_MGMT =
     ''user and group management is blocked; the daemon runs as a fixed unprivileged user''"

definition KERNEL :: string where
  "KERNEL =
     ''kernel modules and tuning are blocked; the daemon runs unprivileged and does not '' @
     ''manage the host''"

definition SIGNALS :: string where
  "SIGNALS =
     ''SIGKILL and process sweeps are blocked; exec children die with the call on timeout '' @
     ''or turn end, and a stuck process can still be stopped with kill <pid>''"

definition SCHEDULING :: string where
  "SCHEDULING =
     ''scheduling is blocked; recurring work belongs to duties, not cron or at''"

definition FILE_WIPE :: string where
  "FILE_WIPE =
     ''shred and wipe are blocked; remove the file with rm''"

definition TRUNCATE :: string where
  "TRUNCATE =
     ''truncate is blocked; rewrite the file with file_write''"

definition MOUNT :: string where
  "MOUNT =
     ''mounts are blocked; the daemon runs unprivileged''"

definition RIPGREP_PREPROCESSOR :: string where
  "RIPGREP_PREPROCESSOR =
     ''ripgrep preprocessors are blocked; search converted text instead''"

definition NIX_MUTATION :: string where
  "NIX_MUTATION =
     ''the daemon never runs nix mutations; the operator deploys and collects garbage on '' @
     ''the host''"

definition PIPED_TEST :: string where
  "PIPED_TEST =
     ''test output must reach exec intact; rerun the test command without a pipe so its '' @
     ''full output can be parsed''"

section \<open>Deny rules\<close>

definition rx :: "string \<Rightarrow> string" where
  "rx p = map (\<lambda>c. if c = CHR ''%'' then CHR 0x5C else c) p"

definition DENY_RULES :: "(string \<times> string) list" where
  "DENY_RULES =
    [(rx ''%brm%b[^|;&%n]*%s-(-recursive%b|[a-zA-Z]*[rR])'', RECURSIVE_RM),
     (rx ''%bfind%b.*-delete'', RECURSIVE_RM),
     (rx ''%bfind%b.*-exec%s+rm%b'', RECURSIVE_RM),
     (rx ''%bmkfs%b'', DISK_WRITE),
     (rx ''%bfdisk%b'', DISK_WRITE),
     (rx ''%bparted%b'', DISK_WRITE),
     (rx ''%bdd%b%s+if='', DISK_WRITE),
     (rx ''(^|[^0-9])>%s*/dev/'', DISK_WRITE),
     (rx ''%binit%s+[0-6]%b'', HOST_POWER),
     (rx ''%bsystemctl%s+(halt|poweroff|reboot|suspend|hibernate|mask|disable|daemon-reload)'', HOST_POWER),
     (rx ''%bsudo%b'', UNPRIVILEGED),
     (rx ''%bchmod%b'', CHMOD),
     (rx ''%bchown%b'', OWNERSHIP),
     (rx ''%bchgrp%b'', OWNERSHIP),
     (rx ''%bpasswd%b'', USER_MGMT),
     (rx ''%buseradd%b'', USER_MGMT),
     (rx ''%buserdel%b'', USER_MGMT),
     (rx ''%busermod%b'', USER_MGMT),
     (rx ''%badduser%b'', USER_MGMT),
     (rx ''%bdeluser%b'', USER_MGMT),
     (rx ''%bcurl%b.*--upload-file'', BLOCKED),
     (rx ''%bcurl%b.*%s-T%s'', BLOCKED),
     (rx ''%bwget%b.*--post'', BLOCKED),
     (rx ''%bnc%b%s+-[le]'', BLOCKED),
     (rx ''%bnetcat%b%s+-[le]'', BLOCKED),
     (rx ''%bsocat%b'', BLOCKED),
     (rx ''%bcurl%b.*%|%s*(sh|bash)%b'', BLOCKED),
     (rx ''%bwget%b.*%|%s*(sh|bash)%b'', BLOCKED),
     (rx ''base64%s+-d%s*%|%s*(sh|bash)%b'', BLOCKED),
     (rx ''/dev/tcp/'', BLOCKED),
     (rx ''%bpython[23]?%b.*%bimport%s+socket%b'', BLOCKED),
     (rx ''%bruby%b.*-rsocket'', BLOCKED),
     (rx ''%bperl%b.*%bSocket%b'', BLOCKED),
     (rx ''%bnmap%b'', BLOCKED),
     (rx ''%bmasscan%b'', BLOCKED),
     (rx ''%biptables%b%s+(-F|--flush)'', BLOCKED),
     (rx ''%bufw%s+disable%b'', BLOCKED),
     (rx ''%binsmod%b'', KERNEL),
     (rx ''%brmmod%b'', KERNEL),
     (rx ''%bmodprobe%b'', KERNEL),
     (rx ''%bsysctl%b%s+-w%b'', KERNEL),
     (rx ''%bcat%b.*~/%.ssh/id_'', BLOCKED),
     (rx ''%bcat%b.*~/%.aws/'', BLOCKED),
     (rx ''%bgpg%b.*--export-secret'', BLOCKED),
     (rx ''%.gnupg/'', BLOCKED),
     (rx ''%bLD_PRELOAD%b'', BLOCKED),
     (rx ''%bnsenter%b'', BLOCKED),
     (rx ''%bkill%b%s+-9'', SIGNALS),
     (rx ''%bkillall%b'', SIGNALS),
     (rx ''%bpkill%b'', SIGNALS),
     (rx '':%(%)%s*%{.*%};%s*:'', BLOCKED),
     (rx ''%bcrontab%b'', SCHEDULING),
     (rx ''%bgit%b%s+clone%b'', ''use the git_clone tool''),
     (rx ''%bgit%b%s+push%b'', ''use the git_push tool''),
     (rx ''%bgit%b%s+fetch%b'', ''use the git_fetch tool''),
     (rx ''%bgit%b%s+commit%b'', ''use the git_commit tool''),
     (rx ''gpgsign=false'', ''GPG commit signing is configured '' @ em_dash @ '' do not disable it''),
     (rx ''%bcat%b.*%.config/gh/'', ''gh CLI config is not accessible''),
     (rx ''credential%.helper='', ''credential helpers are managed '' @ em_dash @ '' use the git_fetch and git_push tools''),
     (rx ''%bgh%b%s+auth%b'', ''gh auth is not accessible''),
     (rx ''%.git-credentials%b'', ''credentials are not accessible''),
     (rx ''(^|[|;&%n])%s*nix%s.*%b(github|gitlab|sourcehut):'', ''remote flakes not permitted '' @ em_dash @ '' add as a flake input''),
     (rx ''(^|[|;&%n])%s*nix%s.*https?://'', ''remote flakes not permitted '' @ em_dash @ '' add as a flake input''),
     (rx ''(^|[|;&%n])%s*nix%s.*git%+'', ''remote flakes not permitted '' @ em_dash @ '' add as a flake input''),
     (rx ''%bnixos-rebuild%b'', ''system rebuild is blocked; the daemon never mutates the host, the operator deploys''),
     (rx ''%bnix-env%b'', ''profile mutation is blocked; use nix develop or nix-shell for an ephemeral environment''),
     (rx ''%bnix%s+profile%b'', ''profile mutation is blocked; use nix develop or nix-shell for an ephemeral environment''),
     (rx ''%bnix%s+store%s+(delete|gc|optimise)%b'', NIX_MUTATION),
     (rx ''%bnix-collect-garbage%b'', NIX_MUTATION),
     (rx ''%bnix-channel%b'', NIX_MUTATION),
     (rx ''%bnix%s+copy%b.*--to'', ''copying to remote stores not permitted'')]"


text \<open>The rules derived from the workspace layout come after the static ones.\<close>

definition ALL_DENY_RULES :: "(string \<times> string) list" where
  "ALL_DENY_RULES = DENY_RULES @
    [(rx ''(^|[%s=])(%./)?'' @ CONTEXT_DIR @ ''/'',
      ''engine context is daemon-owned; use the lcm tools for history '' @
      ''(payload files under the lcm payload store are exec-readable)''),
     (rx ''>%s*(%./)?'' @ STATE_DIR @ ''/'',
      STATE_DIR @ ''/ is daemon-owned; only '' @ STATE_DIR @ ''/'' @ REVIEW_CHECKLIST @
      '' is model-writable, via file_write'')]"

definition PAYLOAD_REF_RE :: string where
  "PAYLOAD_REF_RE = rx ''(>%s*)?(%./)?'' @ CONTEXT_DIR @ ''/'' @ LCM_DIR @ ''/'' @ LCM_PAYLOADS_DIR @
     rx ''/file_[0-9a-fA-F]{16}%b''"

definition STREAM_DEVICE_RE :: string where
  "STREAM_DEVICE_RE = rx ''/dev/(null|zero|full|stdin|stdout|stderr|tty|u?random|fd/[0-9]+)%b''"

definition COMMAND_DENY_RULES :: "(string \<times> string option \<times> string) list" where
  "COMMAND_DENY_RULES =
    [(''git'', Some ''clone'', ''use the git_clone tool''),
     (''git'', Some ''push'', ''use the git_push tool''),
     (''git'', Some ''fetch'', ''use the git_fetch tool''),
     (''git'', Some ''commit'', ''use the git_commit tool''),
     (''gh'', Some ''auth'', ''gh auth is not accessible''),
     (''nix'', Some ''profile'', ''profile mutation is blocked; use nix develop or nix-shell for an ephemeral environment''),
     (''at'', None, SCHEDULING),
     (''halt'', None, HOST_POWER),
     (''mount'', None, MOUNT),
     (''poweroff'', None, HOST_POWER),
     (''reboot'', None, HOST_POWER),
     (''shred'', None, FILE_WIPE),
     (''shutdown'', None, HOST_POWER),
     (''su'', None, UNPRIVILEGED),
     (''truncate'', None, TRUNCATE),
     (''umount'', None, MOUNT),
     (''wipe'', None, FILE_WIPE)]"


end
