(* ===== verification/Exec_Policy.thy ===== *)
theory Exec_Policy
  imports Exec_Rules Safety
begin

text \<open>
  The policy of the \<open>exec\<close> tool (\<^verbatim>\<open>src/src/tools/exec.rs\<close>): which shell commands are refused,
  and with what guidance. Two layers: the regular expressions of \<open>Exec_Rules\<close> over the raw
  text, and the structural rules over the commands the text splits into. The
  regular-expression engine, the \<open>shlex\<close> tokenizer and floating-point arithmetic are
  arguments (\<open>exec_engine\<close>). All characters the scanners look for are ASCII, so scanning the
  bytes is scanning the characters.
\<close>

record 'f exec_engine =
  xe_regex :: regex_engine
  xe_replace_caps :: "string \<Rightarrow> (string \<Rightarrow> string option \<Rightarrow> string) \<Rightarrow> string \<Rightarrow> string"
  xe_shlex :: "string \<Rightarrow> string list option"
  xe_parse_f64 :: "string \<Rightarrow> 'f option"
  xe_nonneg :: "'f \<Rightarrow> bool"
  xe_scale :: "'f \<Rightarrow> nat \<Rightarrow> 'f"
  xe_sum :: "'f list \<Rightarrow> 'f"
  xe_exceeds :: "'f \<Rightarrow> nat \<Rightarrow> bool"
  xe_show :: "'f \<Rightarrow> string"

section \<open>Sanitizing\<close>

text \<open>A match with a redirect in front (group 1) is kept as it is.\<close>

definition sanitize_payload_refs :: "'f exec_engine \<Rightarrow> string \<Rightarrow> string" where
  "sanitize_payload_refs x cmd = xe_replace_caps x PAYLOAD_REF_RE
     (\<lambda>matched redirect. case redirect of Some _ \<Rightarrow> matched | None \<Rightarrow> ''payload_ref'') cmd"

definition sanitize :: "'f exec_engine \<Rightarrow> string \<Rightarrow> string" where
  "sanitize x cmd = rx_replace_all (xe_regex x) STREAM_DEVICE_RE ''stream_device'' (sanitize_payload_refs x cmd)"

section \<open>Tokens\<close>

definition is_env_assignment :: "string \<Rightarrow> bool" where
  "is_env_assignment token = (case split_once (CHR ''='') token of
     None \<Rightarrow> False
   | Some ([], _) \<Rightarrow> False
   | Some (c # cs, _) \<Rightarrow>
       ((is_ascii_alphanumeric c \<and> \<not> is_ascii_digit c) \<or> c = CHR ''_'')
       \<and> list_all (\<lambda>d. is_ascii_alphanumeric d \<or> d = CHR ''_'') (c # cs))"

definition basename :: "string \<Rightarrow> string" where
  "basename raw = last (split_on slash raw)"

definition first_positional :: "string list \<Rightarrow> string option" where
  "first_positional args = find (\<lambda>t. \<not> prefix ''-'' t \<and> CHR ''='' \<notin> set t) args"

section \<open>Quoting\<close>

datatype quote_state = Double | Unquoted | Single

definition dquote :: char where "dquote = CHR 0x22"
definition squote :: char where "squote = CHR 0x27"
definition backslash :: char where "backslash = CHR 0x5C"

text \<open>The first four arms of each scanner's \<open>match\<close>: the new state, and whether an escape starts.\<close>

definition quote_step :: "quote_state \<Rightarrow> char \<Rightarrow> (quote_state \<times> bool) option" where
  "quote_step st c =
     (if (st = Double \<and> c = dquote) \<or> (st = Single \<and> c = squote) then Some (Unquoted, False)
      else if st \<noteq> Single \<and> c = backslash then Some (st, True)
      else if st = Unquoted \<and> c = dquote then Some (Double, False)
      else if st = Unquoted \<and> c = squote then Some (Single, False)
      else None)"

definition SEPARATORS :: string where
  "SEPARATORS = [CHR ''|'', CHR '';'', CHR ''&'', CHR 0x0A]"

fun split_scan :: "quote_state \<Rightarrow> bool \<Rightarrow> string \<Rightarrow> string \<Rightarrow> string list" where
  "split_scan st escaped current [] = [current]"
| "split_scan st escaped current (c # cs) =
     (if escaped then split_scan st False (current @ [c]) cs
      else case quote_step st c of
          Some (st', esc) \<Rightarrow> split_scan st' esc (current @ [c]) cs
        | None \<Rightarrow>
            if st = Unquoted \<and> c \<in> set SEPARATORS then current # split_scan st False [] cs
            else split_scan st False (current @ [c]) cs)"

definition split_unquoted_separators :: "string \<Rightarrow> string list" where
  "split_unquoted_separators cmd = split_scan Unquoted False [] cmd"

fun redirection_scan :: "quote_state \<Rightarrow> bool \<Rightarrow> string \<Rightarrow> bool" where
  "redirection_scan st escaped [] = False"
| "redirection_scan st escaped (c # cs) =
     (if escaped then redirection_scan st False cs
      else case quote_step st c of
          Some (st', esc) \<Rightarrow> redirection_scan st' esc cs
        | None \<Rightarrow> (st = Unquoted \<and> (c = CHR ''<'' \<or> c = CHR ''>'')) \<or> redirection_scan st False cs)"

definition has_unquoted_redirection :: "string \<Rightarrow> bool" where
  "has_unquoted_redirection cmd = redirection_scan Unquoted False cmd"

section \<open>Searches and tests\<close>

definition inert_search :: "'f exec_engine \<Rightarrow> string \<Rightarrow> bool" where
  "inert_search x cmd \<longleftrightarrow>
     split_unquoted_separators cmd = [cmd] \<and> \<not> has_unquoted_redirection cmd
     \<and> CHR ''$'' \<notin> set cmd \<and> CHR 0x60 \<notin> set cmd
     \<and> (case xe_shlex x cmd of
          None \<Rightarrow> False
        | Some tokens \<Rightarrow>
            (case find (\<lambda>t. \<not> is_env_assignment t) tokens of
               None \<Rightarrow> False
             | Some raw \<Rightarrow> basename raw \<in> {''grep'', ''rg''}))"

definition ripgrep_preprocessor :: "'f exec_engine \<Rightarrow> string \<Rightarrow> bool" where
  "ripgrep_preprocessor x cmd \<longleftrightarrow> list_ex (\<lambda>segment.
     case xe_shlex x segment of
       None \<Rightarrow> False
     | Some tokens \<Rightarrow>
         (case dropWhile is_env_assignment tokens of
            [] \<Rightarrow> False
          | raw # args \<Rightarrow> basename raw = ''rg''
              \<and> list_ex (\<lambda>t. t = ''--pre'' \<or> prefix ''--pre='' t) args)) (split_unquoted_separators cmd)"

definition is_test_command :: "'f exec_engine \<Rightarrow> string \<Rightarrow> bool" where
  "is_test_command x segment = (case xe_shlex x segment of
     None \<Rightarrow> False
   | Some tokens \<Rightarrow>
       (case dropWhile is_env_assignment tokens of
          [] \<Rightarrow> False
        | raw # args \<Rightarrow>
            (case first_positional args of
               None \<Rightarrow> False
             | Some subcommand \<Rightarrow>
                 (basename raw = ''cargo'' \<and> subcommand = ''test'')
                 \<or> (basename raw = ''just'' \<and> prefix ''test'' subcommand))))"

text \<open>\<open>current\<close> is the text since the last separator; \<open>||\<close> separates but does not pipe.\<close>

fun piped_scan :: "'f exec_engine \<Rightarrow> quote_state \<Rightarrow> bool \<Rightarrow> string \<Rightarrow> string \<Rightarrow> bool" where
  "piped_scan x st escaped current [] = False"
| "piped_scan x st escaped current (c # cs) =
     (if escaped then piped_scan x st False (current @ [c]) cs
      else case quote_step st c of
          Some (st', esc) \<Rightarrow> piped_scan x st' esc (current @ [c]) cs
        | None \<Rightarrow>
            if st = Unquoted \<and> c = CHR ''|'' then
              (if cs \<noteq> [] \<and> hd cs = CHR ''|'' then piped_scan x st False [] (tl cs)
               else is_test_command x current \<or> piped_scan x st False [] cs)
            else if st = Unquoted \<and> c \<in> set SEPARATORS then piped_scan x st False [] cs
            else piped_scan x st False (current @ [c]) cs)"

definition piped_test_command :: "'f exec_engine \<Rightarrow> string \<Rightarrow> bool" where
  "piped_test_command x cmd = piped_scan x Unquoted False [] cmd"

section \<open>Sleeps\<close>

definition SLEEP_HEADROOM :: nat where
  "SLEEP_HEADROOM = 30"

definition sleep_arg_secs :: "'f exec_engine \<Rightarrow> string \<Rightarrow> 'f option" where
  "sleep_arg_secs x arg =
     (let (number, scale) = (case first_some (\<lambda>(unit, scale). map_option (\<lambda>n. (n, scale)) (strip_suffix arg unit))
            [(''d'', 86400), (''h'', 3600), (''m'', 60), (''s'', 1)] of
              Some found \<Rightarrow> found | None \<Rightarrow> (arg, 1))
      in case xe_parse_f64 x number of
           None \<Rightarrow> None
         | Some secs \<Rightarrow> if xe_nonneg x secs then Some (xe_scale x secs scale) else None)"

text \<open>Summing options: \<open>None\<close> as soon as one is \<open>None\<close>.\<close>

definition sleep_secs :: "'f exec_engine \<Rightarrow> string list \<Rightarrow> 'f option" where
  "sleep_secs x args =
     (let secs = map (sleep_arg_secs x) (filter (\<lambda>a. \<not> prefix ''-'' a) args)
      in if None \<in> set secs then None else Some (xe_sum x (List.map_filter id secs)))"

definition sleep_over_budget :: "'f exec_engine \<Rightarrow> 'f \<Rightarrow> nat \<Rightarrow> string" where
  "sleep_over_budget x secs budget =
     ''sleep '' @ xe_show x secs @ ''s cannot finish inside the '' @ nat_str budget @
     ''s exec budget; poll in intervals of at most '' @ nat_str (budget - SLEEP_HEADROOM) @
     ''s and re-check between calls, or use github_ci_status to wait on CI''"

section \<open>The structural layer\<close>

definition rule_for :: "string \<Rightarrow> string option \<Rightarrow> string option" where
  "rule_for binary subcommand =
     map_option (\<lambda>(_, _, guidance). guidance)
       (find (\<lambda>(b, s, _). binary = b \<and> (s = None \<or> subcommand = s)) COMMAND_DENY_RULES)"

text \<open>One segment of the loop of \<open>command_blocked\<close>.\<close>

definition segment_blocked :: "'f exec_engine \<Rightarrow> nat \<Rightarrow> string \<Rightarrow> string option" where
  "segment_blocked x budget segment = (case xe_shlex x segment of
     None \<Rightarrow> Some ''unparseable shell syntax''
   | Some tokens \<Rightarrow>
       (case dropWhile is_env_assignment tokens of
          [] \<Rightarrow> None
        | raw # args \<Rightarrow>
            (case (if basename raw = ''sleep'' then sleep_secs x args else None) of
               Some secs \<Rightarrow>
                 if xe_exceeds x secs (budget - SLEEP_HEADROOM) then Some (sleep_over_budget x secs budget)
                 else rule_for (basename raw) (first_positional args)
             | None \<Rightarrow> rule_for (basename raw) (first_positional args))))"

definition command_blocked :: "'f exec_engine \<Rightarrow> string \<Rightarrow> nat \<Rightarrow> string option" where
  "command_blocked x cmd budget =
     (if piped_test_command x cmd then Some PIPED_TEST
      else first_some (segment_blocked x budget) (split_unquoted_separators cmd))"

definition blocked_reason :: "'f exec_engine \<Rightarrow> string \<Rightarrow> nat \<Rightarrow> string option" where
  "blocked_reason x cmd budget =
     (if ripgrep_preprocessor x cmd then Some RIPGREP_PREPROCESSOR
      else
        (let hit = (if inert_search x cmd then None
              else (case rx_set (xe_regex x) (map fst ALL_DENY_RULES) (sanitize x cmd) of
                      [] \<Rightarrow> None | i # _ \<Rightarrow> Some (snd (ALL_DENY_RULES ! i))))
         in case hit of Some guidance \<Rightarrow> Some guidance | None \<Rightarrow> command_blocked x cmd budget))"

section \<open>Segments\<close>

text \<open>What scanning a text without unquoted separators leaves behind.\<close>

fun scan_to :: "quote_state \<Rightarrow> bool \<Rightarrow> string \<Rightarrow> (quote_state \<times> bool) option" where
  "scan_to st escaped [] = Some (st, escaped)"
| "scan_to st escaped (c # cs) =
     (if escaped then scan_to st False cs
      else case quote_step st c of
          Some (st', esc) \<Rightarrow> scan_to st' esc cs
        | None \<Rightarrow> if st = Unquoted \<and> c \<in> set SEPARATORS then None else scan_to st False cs)"

lemma scan_to_append:
  "scan_to st escaped (a @ b) = Option.bind (scan_to st escaped a) (\<lambda>(st', esc). scan_to st' esc b)"
  by (induction st escaped a rule: scan_to.induct) (auto split: option.splits)

lemma scan_to_split: "scan_to st escaped cs \<noteq> None \<Longrightarrow> split_scan st escaped current cs = [current @ cs]"
  by (induction st escaped cs arbitrary: current rule: scan_to.induct) (auto split: option.splits if_splits)

lemma split_scan_simple:
  "scan_to Unquoted False current = Some (st, escaped) \<Longrightarrow>
   list_all (\<lambda>seg. scan_to Unquoted False seg \<noteq> None) (split_scan st escaped current cs)"
proof (induction st escaped current cs rule: split_scan.induct)
  case (2 st escaped current c cs)
  show ?case
  proof (cases escaped)
    case True
    with "2.IH"(1) "2.prems" show ?thesis by (simp add: scan_to_append)
  next
    case False
    show ?thesis
    proof (cases "quote_step st c")
      case None
      show ?thesis
      proof (cases "st = Unquoted \<and> c \<in> set SEPARATORS")
        case sep: True
        then have "scan_to Unquoted False [] = Some (st, False)" by simp
        from "2.IH"(2) [OF False None sep this] sep False None "2.prems" show ?thesis by simp blast
      next
        case nosep: False
        then have "scan_to Unquoted False (current @ [c]) = Some (st, False)"
          using False None "2.prems" by (simp add: scan_to_append)
        from "2.IH"(3) [OF False None nosep this] nosep False None show ?thesis by auto
      qed
    next
      case (Some q)
      with False "2.IH"(4) "2.prems" show ?thesis by (cases q) (simp add: scan_to_append)
    qed
  qed
qed simp

fun glue :: "string list \<Rightarrow> string \<Rightarrow> string" where
  "glue [] seps = []"
| "glue [x] seps = x"
| "glue (x # y # ys) (s # seps) = x @ s # glue (y # ys) seps"
| "glue (x # ys) [] = x"

lemma split_scan_glue:
  "\<exists>seps. Suc (length seps) = length (split_scan st escaped current cs) \<and> set seps \<subseteq> set SEPARATORS
    \<and> glue (split_scan st escaped current cs) seps = current @ cs"
proof (induction st escaped current cs rule: split_scan.induct)
  case (1 st escaped current)
  then show ?case by (intro exI [of _ "[]"]) simp
next
  case (2 st escaped current c cs)
  consider "escaped" | q where "\<not> escaped" "quote_step st c = Some q"
    | "\<not> escaped" "quote_step st c = None" "st = Unquoted \<and> c \<in> set SEPARATORS"
    | "\<not> escaped" "quote_step st c = None" "\<not> (st = Unquoted \<and> c \<in> set SEPARATORS)"
    by (cases "quote_step st c") blast+
  then show ?case
  proof cases
    case 3
    from "2.IH"(2) [OF 3] obtain seps where
      seps: "Suc (length seps) = length (split_scan st False [] cs)" "set seps \<subseteq> set SEPARATORS"
        "glue (split_scan st False [] cs) seps = cs"
      by auto
    then obtain y ys where "split_scan st False [] cs = y # ys" by (cases "split_scan st False [] cs") auto
    with 3 seps show ?thesis by (intro exI [of _ "c # seps"]) auto
  qed (use "2.IH" in auto)
qed

text \<open>
  Splitting a command loses nothing and does not depend on context. The segments, put
  back together with the separators between them, are the command; and no segment can be
  split further: whatever separator it still contains is quoted or escaped when the
  segment is read on its own, which is how the tokenizer reads it.
\<close>

theorem segments_are_simple_commands:
  "list_all (\<lambda>seg. split_unquoted_separators seg = [seg]) (split_unquoted_separators cmd)
   \<and> (\<exists>seps. Suc (length seps) = length (split_unquoted_separators cmd) \<and> set seps \<subseteq> set ''|;&\<newline>''
        \<and> glue (split_unquoted_separators cmd) seps = cmd)"
proof
  have "list_all (\<lambda>seg. scan_to Unquoted False seg \<noteq> None) (split_scan Unquoted False [] cmd)"
    by (rule split_scan_simple) simp
  then show "list_all (\<lambda>seg. split_unquoted_separators seg = [seg]) (split_unquoted_separators cmd)"
    using scan_to_split [of Unquoted False _ "[]"] by (auto simp: split_unquoted_separators_def list_all_iff)
  show "\<exists>seps. Suc (length seps) = length (split_unquoted_separators cmd) \<and> set seps \<subseteq> set ''|;&\<newline>''
        \<and> glue (split_unquoted_separators cmd) seps = cmd"
    using split_scan_glue [of Unquoted False "[]" cmd] by (simp add: split_unquoted_separators_def SEPARATORS_def)
qed

end
