(* ===== verification/Exec_Tool.thy ===== *)
theory Exec_Tool
  imports Exec_Policy
begin

text \<open>
  The rest of the \<open>exec\<close> tool (\<^verbatim>\<open>src/src/tools/exec.rs\<close>, \<^verbatim>\<open>src/src/tools/bwrap.rs\<close>): the working
  directory, the sandboxed command line, and one execution. Spawning, waiting and the
  devshell environment come from \<open>exec_host\<close>, with the world \<open>'w\<close>.
\<close>

section \<open>Working directory\<close>

definition resolve_working_dir :: "string \<Rightarrow> string option \<Rightarrow> tool_error + string" where
  "resolve_working_dir workspace_root dir = (case dir of
     None \<Rightarrow> Inr workspace_root
   | Some d \<Rightarrow>
       if traversal d then Inl (Blocked d ''working_dir: path traversal detected'')
       else
         (case path_strip_prefix d workspace_root of
            None \<Rightarrow>
              if is_absolute d then Inl (Blocked d
                (''working_dir: absolute path outside the workspace; '' @
                 ''paths are relative to the workspace root''))
              else if path_starts_with (path_join workspace_root d) workspace_root
              then Inr (path_join workspace_root d)
              else Inl (Blocked d ''working_dir: escapes workspace'')
          | Some stripped \<Rightarrow>
              if path_starts_with (path_join workspace_root stripped) workspace_root
              then Inr (path_join workspace_root stripped)
              else Inl (Blocked d ''working_dir: escapes workspace'')))"



text \<open>
  And it does leave it. Neither spelling below contains a parent step that the check
  looks for, both are accepted, and both name the parent of the workspace: the check
  compares components lexically, and \<open>..\<close> is only looked for alone or before a slash.
\<close>

theorem working_dir_escapes:
  "resolve_working_dir ''/ws'' (Some ''./..'') = Inr ''/ws/./..''
   \<and> resolve_working_dir ''/ws'' (Some ''/ws/..'') = Inr ''/ws/..''
   \<and> components ''/ws/./..'' = components ''/ws'' @ [ParentDir] \<and> walk 0 [ParentDir] = None"
  by code_simp

section \<open>The command line\<close>

datatype sandbox_mode = Bwrap | Landlock | SandboxOff

definition CONFINE_SELF :: string where
  "CONFINE_SELF = ''/proc/self/exe''"

text \<open>\<open>wrap_argv\<close>: the workspace is bound, the daemon's directories are masked over it.\<close>

definition wrap_argv :: "string \<Rightarrow> string \<Rightarrow> string list" where
  "wrap_argv ws cwd =
     [''--ro-bind'', ''/nix/store'', ''/nix/store'', ''--ro-bind-try'', ''/etc'', ''/etc'',
      ''--ro-bind-try'', ''/lib64'', ''/lib64'', ''--dev'', ''/dev'', ''--proc'', ''/proc'',
      ''--tmpfs'', ''/tmp'', ''--bind'', ws, ws] @
     concat (map (\<lambda>dir. [''--tmpfs'', ws @ ''/'' @ dir]) [STATE_DIR, CONTEXT_DIR]) @
     (let payloads = ws @ ''/'' @ CONTEXT_DIR @ ''/'' @ LCM_DIR @ ''/'' @ LCM_PAYLOADS_DIR
      in [''--ro-bind-try'', payloads, payloads]) @
     [''--ro-bind'', ''/dev/null'', ws @ ''/'' @ CONFIG_FILE,
      ''--unshare-pid'', ''--unshare-ipc'', ''--die-with-parent'', ''--new-session'', ''--chdir'', cwd]"

definition sandbox_prefix :: "sandbox_mode \<Rightarrow> string \<Rightarrow> string" where
  "sandbox_prefix mode ws = (case mode of
     Bwrap \<Rightarrow> ''bwrap '' @ [CHR 0xE2, CHR 0x80, CHR 0xA6] @ '' bash -c''
   | Landlock \<Rightarrow> CONFINE_SELF @ '' confine exec '' @ ws @ '' -- bash -c''
   | SandboxOff \<Rightarrow> ''bash -c'')"

text \<open>Program, arguments, and the directory the daemon starts it in, if it does.\<close>

definition build_command :: "sandbox_mode \<Rightarrow> string \<Rightarrow> string \<Rightarrow> string \<Rightarrow> string \<times> string list \<times> string option" where
  "build_command mode ws command cwd = (case mode of
     Bwrap \<Rightarrow> (''bwrap'', wrap_argv ws cwd @ [''bash'', ''-c'', command], None)
   | Landlock \<Rightarrow> (CONFINE_SELF, [''confine'', ''exec'', ws, ''--'', ''bash'', ''-c'', command], Some cwd)
   | SandboxOff \<Rightarrow> (''bash'', [''-c'', command], Some cwd))"

section \<open>The devshell\<close>

datatype direnv_error = EnvrcBlocked | DirenvFailed string

type_synonym environment = "(string \<times> string) list"

datatype spawn_error = ExecutableFileBusy string | SpawnFailed string

fun spawn_text :: "spawn_error \<Rightarrow> string" where
  "spawn_text (ExecutableFileBusy s) = s"
| "spawn_text (SpawnFailed s) = s"

text \<open>The outcome of waiting: an I/O error, the evidence of a timeout, or the finished process.\<close>

record finished =
  fin_stdout :: string
  fin_stderr :: string
  fin_code :: "int option"

datatype waited = WaitFailed string | TimedOut timeout_evidence | Finished finished

record ('w, 'child, 'f) exec_host =
  xh_engine :: "'f exec_engine"
  xh_is_dir :: "string \<Rightarrow> 'w \<Rightarrow> bool"
  xh_has_envrc :: "string \<Rightarrow> 'w \<Rightarrow> bool"
  xh_origin_trusted :: "string \<Rightarrow> string list \<Rightarrow> 'w \<Rightarrow> bool"
  xh_direnv_get :: "string \<Rightarrow> 'w \<Rightarrow> (direnv_error + environment option) \<times> 'w"
  xh_direnv_allow :: "string \<Rightarrow> 'w \<Rightarrow> 'w"
  xh_safe_env :: "'w \<Rightarrow> environment"
  xh_spawn :: "string \<times> string list \<times> string option \<Rightarrow> environment \<Rightarrow> 'w \<Rightarrow> (spawn_error + 'child) \<times> 'w"
  xh_wait :: "'child \<Rightarrow> nat \<Rightarrow> 'w \<Rightarrow> waited \<times> 'w"

record exec_tool =
  xt_root :: string
  xt_timeout :: nat
  xt_trusted :: "string list"
  xt_sandbox :: sandbox_mode

text \<open>\<open>Path::ancestors\<close>: the number of segments bounds the number of parents.\<close>

fun ancestors :: "nat \<Rightarrow> string \<Rightarrow> string list" where
  "ancestors 0 p = [p]"
| "ancestors (Suc n) p = p # (case path_parent p of None \<Rightarrow> [] | Some q \<Rightarrow> ancestors n q)"

definition nearest_envrc_dir :: "(string \<Rightarrow> bool) \<Rightarrow> string \<Rightarrow> string \<Rightarrow> string option" where
  "nearest_envrc_dir has_envrc cwd workspace_root =
     find has_envrc (takeWhile (\<lambda>dir. path_starts_with dir workspace_root) (ancestors (length (segments cwd)) cwd))"

definition resolve_direnv ::
  "('w, 'child, 'f) exec_host \<Rightarrow> exec_tool \<Rightarrow> string \<Rightarrow> 'w \<Rightarrow> environment option \<times> 'w" where
  "resolve_direnv h x cwd w = (case nearest_envrc_dir (\<lambda>d. xh_has_envrc h d w) cwd (xt_root x) of
     None \<Rightarrow> (None, w)
   | Some dir \<Rightarrow>
       (case xh_direnv_get h dir w of
          (Inr env, w1) \<Rightarrow> (env, w1)
        | (Inl EnvrcBlocked, w1) \<Rightarrow>
            if xh_origin_trusted h dir (xt_trusted x) w1 then
              (case xh_direnv_get h dir (xh_direnv_allow h dir w1) of
                 (Inr env, w2) \<Rightarrow> (env, w2) | (Inl _, w2) \<Rightarrow> (None, w2))
            else (None, w1)
        | (Inl (DirenvFailed _), w1) \<Rightarrow> (None, w1)))"

section \<open>One execution\<close>

definition TOOL_OUTPUT_CEILING_BYTES :: nat where
  "TOOL_OUTPUT_CEILING_BYTES = 5 * 1024 * 1024"

text \<open>The spawn loop: up to \<open>retries\<close> further attempts while the binary is busy.\<close>

fun spawn_loop ::
  "('w, 'child, 'f) exec_host \<Rightarrow> nat \<Rightarrow> string \<times> string list \<times> string option \<Rightarrow> environment \<Rightarrow> 'w
   \<Rightarrow> (spawn_error + 'child) \<times> 'w" where
  "spawn_loop h 0 cmd env w = xh_spawn h cmd env w"
| "spawn_loop h (Suc retries) cmd env w = (case xh_spawn h cmd env w of
     (Inl (ExecutableFileBusy _), w1) \<Rightarrow> spawn_loop h retries cmd env w1
   | outcome \<Rightarrow> outcome)"

definition render_output :: "string \<Rightarrow> finished \<Rightarrow> string" where
  "render_output command out =
     ''$ '' @ command @ newline @
     (if fin_stdout out \<noteq> [] then truncate_output (fin_stdout out) TOOL_OUTPUT_CEILING_BYTES else []) @
     (if fin_stderr out \<noteq> [] then
        (if fin_stdout out \<noteq> [] then newline else []) @ ''STDERR:'' @ newline @
        truncate_output (fin_stderr out) TOOL_OUTPUT_CEILING_BYTES
      else []) @
     newline @ ''Exit code: '' @ int_str (case fin_code out of Some code \<Rightarrow> code | None \<Rightarrow> - 1)"

text \<open>\<open>args\<close>: what deserializing the arguments gave, or the text of its error.\<close>

definition exec_execute ::
  "('w, 'child, 'f) exec_host \<Rightarrow> exec_tool \<Rightarrow> string + (string \<times> string option) \<Rightarrow> 'w
   \<Rightarrow> (tool_error + string) \<times> 'w" where
  "exec_execute h x args w = (case args of
     Inl e \<Rightarrow> (Inl (InvalidArguments e), w)
   | Inr (command, working_dir) \<Rightarrow>
       (case blocked_reason (xh_engine h) command (xt_timeout x) of
          Some guidance \<Rightarrow> (Inl (Blocked command guidance), w)
        | None \<Rightarrow>
            (case resolve_working_dir (xt_root x) working_dir of
               Inl e \<Rightarrow> (Inl e, w)
             | Inr cwd \<Rightarrow>
                 if \<not> xh_is_dir h cwd w then
                   (Inl (Precondition (''working directory does not exist: '' @
                      (case path_strip_prefix cwd (xt_root x) of Some r \<Rightarrow> r | None \<Rightarrow> cwd))), w)
                 else
                   (case resolve_direnv h x cwd w of (direnv_env, w1) \<Rightarrow>
                      let env = xh_safe_env h w1 @ (case direnv_env of None \<Rightarrow> [] | Some e \<Rightarrow> e);
                          spawned = sandbox_prefix (xt_sandbox x) (xt_root x) @ '' '' @ command
                      in (case spawn_loop h 3 (build_command (xt_sandbox x) (xt_root x) command cwd) env w1 of
                            (Inl e, w2) \<Rightarrow> (Inl (Spawn spawned cwd (spawn_text e)), w2)
                          | (Inr child, w2) \<Rightarrow>
                              (case xh_wait h child (xt_timeout x) w2 of
                                 (WaitFailed e, w3) \<Rightarrow> (Inl (Spawn spawned cwd e), w3)
                               | (TimedOut evidence, w3) \<Rightarrow> (Inl (Timeout command (xt_timeout x) evidence), w3)
                               | (Finished out, w3) \<Rightarrow> (Inr (render_output command out), w3)))))))"

lemma exec_blocked_not_run:
  "blocked_reason (xh_engine h) command (xt_timeout x) = Some guidance \<Longrightarrow>
   exec_execute h x (Inr (command, working_dir)) w = (Inl (Blocked command guidance), w)"
  by (simp add: exec_execute_def)

section \<open>Evading the rules\<close>

lemma basename_dir: "dir = [] \<or> last dir = slash \<Longrightarrow> slash \<notin> set binary \<Longrightarrow> basename (dir @ binary) = binary"
proof -
  assume dir: "dir = [] \<or> last dir = slash" and b: "slash \<notin> set binary"
  show ?thesis
  proof (cases "dir = []")
    case False
    then obtain d where "dir = d @ [slash]" using dir by (metis append_butlast_last_id)
    then show ?thesis using b split_on_append [of slash d binary] by (simp add: basename_def split_on_no_sep)
  qed (simp add: basename_def split_on_no_sep b)
qed

lemma first_positional_flags:
  assumes "list_all (\<lambda>t. prefix ''-'' t \<or> CHR ''='' \<in> set t) flags"
    and "\<not> prefix ''-'' t" and "CHR ''='' \<notin> set t"
  shows "first_positional (flags @ t # rest) = Some t"
  using assms by (induction flags) (auto simp: first_positional_def)

lemma rule_for_denied: "(binary, Some sub, guidance) \<in> set COMMAND_DENY_RULES \<Longrightarrow> rule_for binary (Some sub) \<noteq> None"
proof
  assume rule: "(binary, Some sub, guidance) \<in> set COMMAND_DENY_RULES" and "rule_for binary (Some sub) = None"
  then have "find (\<lambda>(b, s, _). binary = b \<and> (s = None \<or> Some sub = s)) COMMAND_DENY_RULES = None"
    by (simp add: rule_for_def)
  with rule show False by (auto simp: find_None_iff)
qed

lemma no_rule_for_sleep: "(''sleep'', sub, guidance) \<notin> set COMMAND_DENY_RULES"
  by (simp add: COMMAND_DENY_RULES_def)


text \<open>A tokenizer that splits at spaces, and no regular expression that matches.\<close>

definition words_engine :: "nat exec_engine" where
  "words_engine =
     \<lparr>xe_regex = \<lparr>rx_set = (\<lambda>_ _. []), rx_replace_all = (\<lambda>_ _ s. s)\<rparr>, xe_replace_caps = (\<lambda>_ _ s. s),
      xe_shlex = (\<lambda>s. Some (filter (\<lambda>t. t \<noteq> []) (split_on (CHR '' '') s))), xe_parse_f64 = (\<lambda>_. None),
      xe_nonneg = (\<lambda>_. True), xe_scale = (*), xe_sum = sum_list, xe_exceeds = (\<lambda>a b. a > b), xe_show = nat_str\<rparr>"


text \<open>
  A flag with a separate value does hide it. The first word after the program that is
  neither a flag nor an assignment is taken for the subcommand, so with
  \<open>git -C sub push\<close> it is \<open>sub\<close> and the structural layer lets the push through.
\<close>

theorem separate_flag_value_hides_the_subcommand:
  "command_blocked words_engine ''git push x'' 600 \<noteq> None
   \<and> command_blocked words_engine ''git -c k=v push x'' 600 \<noteq> None
   \<and> command_blocked words_engine ''git -C sub push x'' 600 = None"
  by code_simp

end
