(* ===== verification/Rust_Lines.thy ===== *)
theory Rust_Lines
  imports Rust_Text
begin

text \<open>
  Lines, words and occurrences in byte strings, as \<open>str::lines\<close>, \<open>split_whitespace\<close>,
  \<open>match_indices\<close> and \<open>replace_range\<close> give them; and well-formed UTF-8, on which cutting at
  an occurrence never hits the inside of a character.
\<close>

section \<open>Lines\<close>

abbreviation lf :: char where "lf \<equiv> CHR 0x0A"
abbreviation cr :: char where "cr \<equiv> CHR 0x0D"

text \<open>\<open>split_inclusive('\n')\<close>, and each line without its terminator.\<close>

fun raw_lines :: "string \<Rightarrow> string list" where
  "raw_lines [] = []"
| "raw_lines (c # cs) =
     (if c = lf then [c] # raw_lines cs
      else case raw_lines cs of [] \<Rightarrow> [[c]] | l # ls \<Rightarrow> (c # l) # ls)"

definition strip_line :: "string \<Rightarrow> string" where
  "strip_line l = (case strip_suffix l [lf] of
     None \<Rightarrow> l
   | Some m \<Rightarrow> (case strip_suffix m [cr] of None \<Rightarrow> m | Some n \<Rightarrow> n))"

definition str_lines :: "string \<Rightarrow> string list" where
  "str_lines s = map strip_line (raw_lines s)"

lemma concat_raw_lines: "concat (raw_lines s) = s"
  by (induction s) (auto split: list.splits)

lemma length_str_lines [simp]: "length (str_lines s) = length (raw_lines s)"
  by (simp add: str_lines_def)

lemma raw_lines_shape:
  "\<forall>i < length (raw_lines s). \<exists>m. lf \<notin> set m
     \<and> (raw_lines s ! i = m @ [lf] \<or> (raw_lines s ! i = m \<and> m \<noteq> [] \<and> Suc i = length (raw_lines s)))"
proof (induction s)
  case (Cons c cs)
  show ?case
  proof (cases "c = lf")
    case True
    show ?thesis
    proof (intro allI impI)
      fix i assume i: "i < length (raw_lines (c # cs))"
      show "\<exists>m. lf \<notin> set m \<and> (raw_lines (c # cs) ! i = m @ [lf]
          \<or> (raw_lines (c # cs) ! i = m \<and> m \<noteq> [] \<and> Suc i = length (raw_lines (c # cs))))"
      proof (cases i)
        case 0
        with True show ?thesis by (intro exI [of _ "[]"]) simp
      next
        case (Suc j)
        with Cons.IH True i show ?thesis by auto
      qed
    qed
  next
    case False
    show ?thesis
    proof (cases "raw_lines cs")
      case Nil
      with False show ?thesis by (auto intro!: exI [of _ "[c]"])
    next
      case (Cons l ls)
      show ?thesis
      proof (intro allI impI)
        fix i assume i: "i < length (raw_lines (c # cs))"
        then have i': "i < length (raw_lines cs)" using False Cons by simp
        obtain m where m: "lf \<notin> set m" "raw_lines cs ! i = m @ [lf]
            \<or> (raw_lines cs ! i = m \<and> m \<noteq> [] \<and> Suc i = length (raw_lines cs))"
          using Cons.IH i' by blast
        show "\<exists>m. lf \<notin> set m \<and> (raw_lines (c # cs) ! i = m @ [lf]
          \<or> (raw_lines (c # cs) ! i = m \<and> m \<noteq> [] \<and> Suc i = length (raw_lines (c # cs))))"
        proof (cases i)
          case 0
          with m Cons False show ?thesis by (intro exI [of _ "c # m"]) auto
        next
          case (Suc j)
          with m Cons False show ?thesis by (intro exI [of _ m]) auto
        qed
      qed
    qed
  qed
qed simp

text \<open>Without carriage returns a line is one byte shorter than its raw form, the last line maybe not.\<close>

lemma strip_line_length:
  assumes "cr \<notin> set s" and "i < length (raw_lines s)"
  shows "length (raw_lines s ! i) = length (strip_line (raw_lines s ! i))
      + (if Suc i < length (raw_lines s) then 1 else if last s = lf then 1 else 0)"
proof -
  obtain m where m: "lf \<notin> set m" "raw_lines s ! i = m @ [lf]
      \<or> (raw_lines s ! i = m \<and> m \<noteq> [] \<and> Suc i = length (raw_lines s))"
    using raw_lines_shape assms(2) by blast
  have "set (raw_lines s ! i) \<subseteq> set s"
    using assms(2) concat_raw_lines [of s] by (metis UN_upper nth_mem set_concat)
  then have nocr: "cr \<notin> set m" using assms(1) m(2) by auto
  have lastline: "last s = last (raw_lines s ! i)" if "Suc i = length (raw_lines s)"
  proof -
    have "raw_lines s = butlast (raw_lines s) @ [raw_lines s ! i]"
      using that assms(2) by (metis append_butlast_last_id last_conv_nth length_0_conv diff_Suc_1 less_nat_zero_code)
    moreover have "raw_lines s ! i \<noteq> []" using m(2) by auto
    ultimately show ?thesis
      using concat_raw_lines [of s] by (metis concat_append concat.simps append_Nil2 last_appendR)
  qed
  have "strip_suffix (m @ [lf]) [lf] = Some m" by (simp add: strip_suffix_Some_iff)
  moreover have "strip_suffix m [cr] = None"
    using nocr by (metis not_Some_eq strip_suffix_Some_iff in_set_conv_decomp)
  moreover have "strip_suffix m [lf] = None"
    using m(1) by (metis not_Some_eq strip_suffix_Some_iff in_set_conv_decomp)
  moreover have "m \<noteq> [] \<Longrightarrow> last m \<noteq> lf" using m(1) last_in_set by fastforce
  ultimately show ?thesis
    using m lastline assms(2) by (auto simp: strip_line_def)
qed

section \<open>Words\<close>

function split_ws :: "string \<Rightarrow> string \<Rightarrow> string list" where
  "split_ws cur s = (case s of
     [] \<Rightarrow> (if cur = [] then [] else [cur])
   | c # cs \<Rightarrow> (case find (\<lambda>w. prefix w s) white_space of
        Some w \<Rightarrow> (if cur = [] then [] else [cur]) @ split_ws [] (drop (length w) s)
      | None \<Rightarrow> split_ws (cur @ [c]) cs))"
  by pat_completeness auto
termination
proof (relation "measure (\<lambda>(cur, s). length s)")
  fix cur s c cs w
  assume "s = c # cs" and "find (\<lambda>w. prefix w s) white_space = Some w"
  then have "w \<noteq> []" using white_space_not_Nil by (auto simp: find_Some_iff)
  with \<open>s = c # cs\<close> show "(([], drop (length w) s), (cur, s)) \<in> measure (\<lambda>(cur, s). length s)"
    by (cases w) auto
qed auto

declare split_ws.simps [simp del]

definition split_whitespace :: "string \<Rightarrow> string list" where
  "split_whitespace s = split_ws [] s"

section \<open>Occurrences\<close>

text \<open>\<open>match_indices\<close> of a non-empty pattern: leftmost, not overlapping.\<close>

function match_from :: "nat \<Rightarrow> string \<Rightarrow> string \<Rightarrow> nat list" where
  "match_from pos pat s = (case s of
     [] \<Rightarrow> []
   | c # cs \<Rightarrow> if pat \<noteq> [] \<and> prefix pat s then pos # match_from (pos + length pat) pat (drop (length pat) s)
       else match_from (Suc pos) pat cs)"
  by pat_completeness auto
termination
proof (relation "measure (\<lambda>(pos, pat, s). length s)")
  fix pos :: nat and pat s c cs
  assume "s = c # cs" and "pat \<noteq> [] \<and> prefix pat s"
  then show "((pos + length pat, pat, drop (length pat) s), (pos, pat, s)) \<in> measure (\<lambda>(pos, pat, s). length s)"
    by (cases pat) auto
qed auto

declare match_from.simps [simp del]

definition match_indices :: "string \<Rightarrow> string \<Rightarrow> nat list" where
  "match_indices s pat = match_from 0 pat s"

text \<open>\<open>replace_range\<close>: it panics (\<open>None\<close>) when an end is not on a character boundary.\<close>

definition replace_range :: "string \<Rightarrow> nat \<Rightarrow> nat \<Rightarrow> string \<Rightarrow> string option" where
  "replace_range s start len replacement =
     (if is_char_boundary s start \<and> is_char_boundary s (start + len)
      then Some (take start s @ replacement @ drop (start + len) s) else None)"

section \<open>Well-formed UTF-8\<close>

definition char_width :: "char \<Rightarrow> nat" where
  "char_width c = (let n = of_char c :: nat in
     if n < 0x80 then 1 else if n < 0xC0 then 0 else if n < 0xE0 then 2 else if n < 0xF0 then 3 else 4)"

function utf8 :: "string \<Rightarrow> bool" where
  "utf8 [] = True"
| "utf8 (c # cs) \<longleftrightarrow> 0 < char_width c \<and> char_width c - 1 \<le> length cs
     \<and> list_all is_cont (take (char_width c - 1) cs) \<and> utf8 (drop (char_width c - 1) cs)"
  by pat_completeness auto
termination by (relation "measure length") auto

lemma char_width_0: "char_width c = 0 \<longleftrightarrow> is_cont c"
  by (auto simp: char_width_def is_cont_def Let_def)

lemma utf8_append: "utf8 a \<Longrightarrow> utf8 (a @ b) = utf8 b"
  by (induction a rule: utf8.induct) auto

lemma utf8_head: "utf8 s \<Longrightarrow> s \<noteq> [] \<Longrightarrow> \<not> is_cont (hd s)"
  by (cases s) (auto simp: char_width_0 [symmetric])

text \<open>Cutting well-formed text before a byte that starts a character gives well-formed parts.\<close>

lemma utf8_split: "utf8 (a @ b) \<Longrightarrow> b = [] \<or> \<not> is_cont (hd b) \<Longrightarrow> utf8 a"
proof (induction a rule: utf8.induct)
  case (2 c cs)
  let ?n = "char_width c - 1"
  have fits: "?n \<le> length cs"
  proof (rule ccontr)
    assume "\<not> ?n \<le> length cs"
    then have "b \<noteq> []" and "take ?n (cs @ b) = cs @ take (?n - length cs) b" and "0 < ?n - length cs"
      using "2.prems"(1) by auto
    then have "hd b \<in> set (take ?n (cs @ b))" by (cases b) (auto simp: take_Cons')
    moreover have "list_all is_cont (take ?n (cs @ b))" using "2.prems"(1) by simp
    ultimately show False using "2.prems"(2) \<open>b \<noteq> []\<close> by (auto simp: list_all_iff)
  qed
  then have "utf8 (drop ?n cs @ b)" and "0 < char_width c" and "list_all is_cont (take ?n cs)"
    using "2.prems"(1) by auto
  with "2.IH" "2.prems"(2) fits show ?case by simp
qed simp

lemma utf8_boundary:
  assumes "utf8 a" and "utf8 b"
  shows "is_char_boundary (a @ b) (length a)"
  using utf8_head [OF assms(2)] by (cases b) (auto simp: is_char_boundary_def nth_append)

text \<open>Around an occurrence of well-formed text everything is well-formed.\<close>

lemma utf8_around:
  assumes "utf8 (pre @ pat @ post)" and "utf8 pat" and "pat \<noteq> []"
  shows "utf8 pre" and "utf8 post"
proof -
  show pre: "utf8 pre"
    using utf8_split [of pre "pat @ post"] assms utf8_head [OF assms(2,3)] by (cases pat) auto
  then have "utf8 (pat @ post)" using assms(1) utf8_append by blast
  then show "utf8 post" using assms(2) utf8_append by blast
qed

lemma match_from_Nil: "pat \<noteq> [] \<Longrightarrow> match_from pos pat s = [] \<longleftrightarrow> \<not> sublist pat s"
proof (induction pos pat s rule: match_from.induct)
  case (1 pos pat s)
  show ?case
  proof (cases s)
    case Nil
    with "1.prems" show ?thesis by (simp add: match_from.simps)
  next
    case (Cons c cs)
    show ?thesis
    proof (cases "prefix pat s")
      case True
      then show ?thesis using "1.prems" Cons by (subst match_from.simps) (auto intro: prefix_imp_sublist)
    next
      case False
      with "1.IH"(2) [OF Cons _ "1.prems"] Cons show ?thesis
        by (subst match_from.simps) (simp add: sublist_Cons_right)
    qed
  qed
qed

end
