(* ===== verification/File_Edit.thy ===== *)
theory File_Edit
  imports Rust_Lines Path_Guard
begin

text \<open>
  The \<open>file_edit\<close> tool (\<^verbatim>\<open>src/src/tools/file_edit.rs\<close>): the match ladder (exact, then three
  normalizers over windows of lines), the splice, the texts of its errors and its echo, and
  the memory of futile edits. The file system and the hash of a payload are arguments. A
  result \<open>None\<close> is a panic, which only \<open>replace_range\<close> can raise.
\<close>

section \<open>Futile edits\<close>

definition FUTILE_LIMIT :: nat where "FUTILE_LIMIT = 3"
definition RECENT_WINDOW :: nat where "RECENT_WINDOW = 8"
definition MAX_PATHS :: nat where "MAX_PATHS = 32"

text \<open>The rings by path, and the paths in the order they were first recorded.\<close>

record edit_history =
  eh_by_path :: "(string \<times> nat list) list"
  eh_order :: "string list"

definition new_history :: edit_history where
  "new_history = \<lparr>eh_by_path = [], eh_order = []\<rparr>"

definition remove_path :: "string \<Rightarrow> (string \<times> nat list) list \<Rightarrow> (string \<times> nat list) list" where
  "remove_path p m = filter (\<lambda>(q, _). q \<noteq> p) m"

text \<open>Make room for a path that is not tracked yet.\<close>

definition track_path :: "string \<Rightarrow> edit_history \<Rightarrow> edit_history" where
  "track_path path h =
     (if map_of (eh_by_path h) path \<noteq> None then h
      else
        (let h1 = (if MAX_PATHS \<le> length (eh_by_path h) then
              (case eh_order h of
                 [] \<Rightarrow> h
               | oldest # rest \<Rightarrow> \<lparr>eh_by_path = remove_path oldest (eh_by_path h), eh_order = rest\<rparr>)
              else h)
         in \<lparr>eh_by_path = eh_by_path h1 @ [(path, [])], eh_order = eh_order h1 @ [path]\<rparr>))"

definition push_ring :: "nat \<Rightarrow> nat list \<Rightarrow> nat list" where
  "push_ring fp ring = (if RECENT_WINDOW \<le> length ring then tl ring else ring) @ [fp]"

definition record_futile :: "string \<Rightarrow> nat \<Rightarrow> edit_history \<Rightarrow> nat \<times> edit_history" where
  "record_futile path fp h =
     (let h1 = track_path path h;
          ring = push_ring fp (case map_of (eh_by_path h1) path of Some r \<Rightarrow> r | None \<Rightarrow> [])
      in (length (filter (\<lambda>f. f = fp) ring),
          h1\<lparr>eh_by_path := map (\<lambda>(q, r). if q = path then (q, ring) else (q, r)) (eh_by_path h1)\<rparr>))"

definition clear_path :: "string \<Rightarrow> edit_history \<Rightarrow> edit_history" where
  "clear_path path h =
     (if map_of (eh_by_path h) path = None then h
      else \<lparr>eh_by_path = remove_path path (eh_by_path h), eh_order = filter (\<lambda>p. p \<noteq> path) (eh_order h)\<rparr>)"

definition futile_attempt ::
  "string \<Rightarrow> nat \<Rightarrow> edit_futility \<Rightarrow> edit_history \<Rightarrow> (tool_error + unit) \<times> edit_history" where
  "futile_attempt path fp result h = (case record_futile path fp h of (attempts, h') \<Rightarrow>
     ((if FUTILE_LIMIT \<le> attempts then Inl (EditLoop path attempts result) else Inr ()), h'))"

section \<open>Normalizers\<close>

definition strip_trailing :: "string \<Rightarrow> string" where
  "strip_trailing s = trim_end s"

definition normalize_line :: "string \<Rightarrow> string" where
  "normalize_line s = join_with '' '' (split_whitespace s)"

text \<open>The UTF-8 encodings of the folded characters.\<close>

definition confusables :: "(string \<times> char) list" where
  "confusables =
     [([CHR 0xE2, CHR 0x80, CHR 0x98], CHR 0x27), ([CHR 0xE2, CHR 0x80, CHR 0x99], CHR 0x27),
      ([CHR 0xE2, CHR 0x80, CHR 0x9C], CHR 0x22), ([CHR 0xE2, CHR 0x80, CHR 0x9D], CHR 0x22),
      ([CHR 0xE2, CHR 0x80, CHR 0x93], CHR ''-''), ([CHR 0xE2, CHR 0x80, CHR 0x94], CHR ''-''),
      ([CHR 0xC2, CHR 0xA0], CHR '' '')]"

function fold_unicode :: "string \<Rightarrow> string" where
  "fold_unicode s = (case s of
     [] \<Rightarrow> []
   | c # cs \<Rightarrow> (case find (\<lambda>(w, _). prefix w s) confusables of
        Some (w, a) \<Rightarrow> a # fold_unicode (drop (length w) s)
      | None \<Rightarrow> c # fold_unicode cs))"
  by pat_completeness auto
termination
proof (relation "measure length")
  fix s c cs x w a
  assume "s = c # cs" and "find (\<lambda>(w, _). prefix w s) confusables = Some x" and "(w, a) = x"
  then have "(w, a) \<in> set confusables" by (auto simp: find_Some_iff) (metis nth_mem)
  then have "w \<noteq> []" by (auto simp: confusables_def)
  with \<open>s = c # cs\<close> show "(drop (length w) s, s) \<in> measure length" by (cases w) auto
qed auto

declare fold_unicode.simps [simp del]

definition fold_line :: "string \<Rightarrow> string" where
  "fold_line s = normalize_line (fold_unicode s)"

section \<open>The match ladder\<close>

record span =
  sp_start :: nat
  sp_len :: nat

datatype rung = Exact | Fuzzy string

fun rung_name :: "rung \<Rightarrow> string" where
  "rung_name Exact = ''exact''"
| "rung_name (Fuzzy name) = name"

definition FUZZY_RUNGS :: "(string \<times> (string \<Rightarrow> string)) list" where
  "FUZZY_RUNGS =
     [(''trailing-whitespace-insensitive'', strip_trailing), (''whitespace-flexible'', normalize_line),
      (''unicode-folded'', fold_line)]"

text \<open>The bytes of the window of \<open>n\<close> lines from \<open>start\<close>, counting one byte per line end.\<close>

definition window_span :: "string list \<Rightarrow> nat \<Rightarrow> nat \<Rightarrow> span" where
  "window_span ls n start =
     \<lparr>sp_start = sum_list (map (\<lambda>l. length l + 1) (take start ls)),
      sp_len = sum_list (map (\<lambda>i. length (ls ! (start + i)) + (if start + i + 1 < length ls then 1 else 0)) [0..<n])\<rparr>"

definition window_spans :: "string \<Rightarrow> string \<Rightarrow> (string \<Rightarrow> string) \<Rightarrow> span list" where
  "window_spans content old normal =
     (let needle = map normal (str_lines old); ls = str_lines content; n = length needle
      in if needle = [] then []
         else map (window_span ls n)
           (filter (\<lambda>start. list_all (\<lambda>(c, x). normal c = x) (zip (take n (drop start ls)) needle))
             [0..<length ls - (n - 1)]))"

definition exact_spans :: "string \<Rightarrow> string \<Rightarrow> span list" where
  "exact_spans content old = map (\<lambda>start. \<lparr>sp_start = start, sp_len = length old\<rparr>) (match_indices content old)"

definition find_matches :: "string \<Rightarrow> string \<Rightarrow> (rung \<times> span list) option" where
  "find_matches content old =
     (if exact_spans content old \<noteq> [] then Some (Exact, exact_spans content old)
      else first_some (\<lambda>(name, normal).
              let spans = window_spans content old normal
              in if spans = [] then None else Some (Fuzzy name, spans)) FUZZY_RUNGS)"

definition splice :: "string \<Rightarrow> nat \<Rightarrow> nat \<Rightarrow> string \<Rightarrow> string option" where
  "splice content pos len replacement = replace_range content pos len replacement"

definition splice_all :: "string \<Rightarrow> span list \<Rightarrow> string \<Rightarrow> string option" where
  "splice_all content spans replacement =
     fold (\<lambda>span result. Option.bind result (\<lambda>r. replace_range r (sp_start span) (sp_len span) replacement))
       (rev spans) (Some content)"

section \<open>Texts\<close>

definition CONTEXT_LINES :: nat where "CONTEXT_LINES = 3"
definition SNAPSHOT_MAX_BYTES :: nat where "SNAPSHOT_MAX_BYTES = 2048"

definition line_of :: "string \<Rightarrow> nat \<Rightarrow> nat" where
  "line_of content pos = length (filter (\<lambda>c. c = lf) (take pos content)) + 1"

text \<open>\<open>to - from + 1\<close> is computed on machine words; from one past the end it wraps to zero.\<close>

definition numbered_lines :: "string \<Rightarrow> nat \<Rightarrow> nat \<Rightarrow> string" where
  "numbered_lines content from to =
     (let ls = str_lines content; to' = min to (length ls)
      in concat (map (\<lambda>(i, line). nat_str (i + 1) @ [CHR 0x09] @ line @ newline)
           (take (to' + 1 - from) (drop (from - 1) (enumerate 0 ls)))))"

definition echo_region :: "string \<Rightarrow> nat \<Rightarrow> nat \<Rightarrow> string" where
  "echo_region content start len =
     (let first = line_of content start;
          final = (if len = 0 then first else line_of content (start + len - 1))
      in numbered_lines content (max (first - CONTEXT_LINES) 1) (final + CONTEXT_LINES))"

definition excerpt_around :: "string \<Rightarrow> nat \<Rightarrow> string" where
  "excerpt_around content center =
     (let total_lines = length (str_lines content);
          from = max (center - CONTEXT_LINES) 1; to = min (center + CONTEXT_LINES) total_lines
      in (if 1 < from \<or> to < total_lines
          then ''[showing lines '' @ nat_str from @ ''-'' @ nat_str to @ '' of '' @ nat_str total_lines @ '']'' @ newline
          else []) @ numbered_lines content from to)"

text \<open>\<open>max_by_key\<close> on the overlap, the earliest line winning ties.\<close>

definition overlap :: "string \<Rightarrow> string \<Rightarrow> nat" where
  "overlap old line = length (remdups (filter (\<lambda>t. t \<noteq> [] \<and> t \<in> set (split_on (CHR '' '') (normalize_line line)))
     (split_on (CHR '' '') (normalize_line old))))"

fun best_line :: "(nat \<times> nat) list \<Rightarrow> (nat \<times> nat) option" where
  "best_line [] = None"
| "best_line ((i, n) # rest) = (case best_line rest of
     None \<Rightarrow> Some (i, n)
   | Some (j, m) \<Rightarrow> if n < m then Some (j, m) else Some (i, n))"

definition nearest_line :: "string \<Rightarrow> string \<Rightarrow> nat option" where
  "nearest_line content old =
     map_option (\<lambda>(i, n). if 0 < n then i + 1 else 1)
       (best_line (enumerate 0 (map (overlap old) (str_lines content))))"

definition stale_read_message :: "string \<Rightarrow> string \<Rightarrow> string \<Rightarrow> string" where
  "stale_read_message content old path =
     ''no match found for old_string in '' @ path @
     ''; the file may have changed since you read it. Nearest candidate:'' @ newline @
     truncate_output (case nearest_line content old of
         Some line \<Rightarrow> excerpt_around content line
       | None \<Rightarrow> ''('' @ nat_str (length content) @ '' bytes, no lines)'') SNAPSHOT_MAX_BYTES"

definition ambiguous_message :: "rung \<Rightarrow> span list \<Rightarrow> string \<Rightarrow> string \<Rightarrow> string" where
  "ambiguous_message rung spans content path =
     nat_str (length spans) @ '' matches for old_string in '' @ path @ '' at lines '' @
     join_with '', '' (map (\<lambda>s. nat_str (line_of content (sp_start s))) spans) @
     '' ('' @ rung_name rung @ '' match); '' @
     (case rung of
        Exact \<Rightarrow> ''add surrounding context to make it unique, or set replace_all''
      | Fuzzy _ \<Rightarrow> ''add surrounding context to make it unique'')"

section \<open>The tool\<close>

record edit_args =
  ea_path :: string
  ea_old_string :: string
  ea_new_string :: string
  ea_replace_all :: bool

record 'w file_host =
  fh_canonicalize :: "'w \<Rightarrow> string \<Rightarrow> string + string"
  fh_read :: "'w \<Rightarrow> string \<Rightarrow> string + string"
  fh_write :: "string \<Rightarrow> string \<Rightarrow> 'w \<Rightarrow> (string + unit) \<times> 'w"
  fh_create_dirs :: "string \<Rightarrow> 'w \<Rightarrow> (string + unit) \<times> 'w"
  fh_len :: "'w \<Rightarrow> string \<Rightarrow> string + nat"
  fh_hash :: "string \<times> string \<times> bool \<Rightarrow> nat"

type_synonym 'w edit_result = "(tool_error + string) option \<times> edit_history \<times> 'w"

definition futile_end :: "tool_error + string \<Rightarrow> (tool_error + unit) \<times> edit_history \<Rightarrow> 'w \<Rightarrow> 'w edit_result" where
  "futile_end r attempt w = (case attempt of
     (Inl e, h) \<Rightarrow> (Some (Inl e), h, w) | (Inr _, h) \<Rightarrow> (Some r, h, w))"

text \<open>What follows once the new content is known: a futile edit, or the write and the echo.\<close>

definition finish_edit ::
  "'w file_host \<Rightarrow> edit_args \<Rightarrow> string \<Rightarrow> string \<Rightarrow> string \<times> nat \<times> nat \<Rightarrow> edit_history \<Rightarrow> 'w \<Rightarrow> 'w edit_result" where
  "finish_edit fh a resolved content edit h w = (case edit of (result, edited_at, replaced) \<Rightarrow>
     (let path = ea_path a;
          fp = fh_hash fh (ea_old_string a, ea_new_string a, ea_replace_all a);
          echo = echo_region result edited_at (length (ea_new_string a))
      in if result = content then
           futile_end (Inr (''Edited '' @ path @ '' (no change):'' @ newline @ echo))
             (futile_attempt path fp NoChange h) w
         else
           (let h' = clear_path path h in
            (case fh_write fh resolved result w of
               (Inl e, w') \<Rightarrow> (Some (Inl (IoFailed ''write'' path e)), h', w')
             | (Inr _, w') \<Rightarrow>
                 (Some (Inr (''Edited '' @ path @
                   (if 1 < replaced then '' ('' @ nat_str replaced @ '' replacements):'' else '':'') @
                   newline @ echo)), h', w')))))"

definition edit_content ::
  "'w file_host \<Rightarrow> edit_args \<Rightarrow> string \<Rightarrow> string \<Rightarrow> edit_history \<Rightarrow> 'w \<Rightarrow> 'w edit_result" where
  "edit_content fh a resolved content h w =
     (let path = ea_path a;
          fp = fh_hash fh (ea_old_string a, ea_new_string a, ea_replace_all a)
      in case find_matches content (ea_old_string a) of
           None \<Rightarrow> futile_end (Inl (Precondition (stale_read_message content (ea_old_string a) path)))
                    (futile_attempt path fp FailedIdentically h) w
         | Some (rung, [only]) \<Rightarrow>
             (case splice content (sp_start only) (sp_len only) (ea_new_string a) of
                None \<Rightarrow> (None, h, w)
              | Some result \<Rightarrow> finish_edit fh a resolved content (result, sp_start only, 1) h w)
         | Some (rung, many) \<Rightarrow>
             if rung = Exact \<and> ea_replace_all a then
               (case splice_all content many (ea_new_string a) of
                  None \<Rightarrow> (None, h, w)
                | Some result \<Rightarrow> finish_edit fh a resolved content (result, sp_start (hd many), length many) h w)
             else futile_end (Inl (Precondition (ambiguous_message rung many content path)))
                    (futile_attempt path fp FailedIdentically h) w)"

definition file_edit ::
  "'w file_host \<Rightarrow> path_guard \<Rightarrow> string + edit_args \<Rightarrow> edit_history \<Rightarrow> 'w \<Rightarrow> 'w edit_result" where
  "file_edit fh g args h w = (case args of
     Inl e \<Rightarrow> (Some (Inl (InvalidArguments e)), h, w)
   | Inr a \<Rightarrow>
       if ea_old_string a = [] then
         (Some (Inl (InvalidArguments ''old_string must be non-empty'')), h, w)
       else if ea_old_string a = ea_new_string a then
         (Some (Inl (InvalidArguments
           ''old_string and new_string are identical; the edit would be a no-op'')), h, w)
       else
         (case resolve_writable (fh_canonicalize fh w) g (ea_path a) of
            Inl e \<Rightarrow> (Some (Inl e), h, w)
          | Inr resolved \<Rightarrow>
              (case fh_read fh w resolved of
                 Inl e \<Rightarrow> (Some (Inl (IoFailed ''read'' (ea_path a) e)), h, w)
               | Inr content \<Rightarrow> edit_content fh a resolved content h w)))"

section \<open>Writing\<close>

definition file_write ::
  "'w file_host \<Rightarrow> path_guard \<Rightarrow> string + (string \<times> string) \<Rightarrow> 'w
   \<Rightarrow> (tool_error + string) \<times> 'w" where
  "file_write fh g args w = (case args of
     Inl e \<Rightarrow> (Inl (InvalidArguments e), w)
   | Inr (path, content) \<Rightarrow>
       (case resolve_writable_new g path of
          Inl e \<Rightarrow> (Inl e, w)
        | Inr resolved \<Rightarrow>
            (case (case path_parent resolved of
                     None \<Rightarrow> (Inr (), w)
                   | Some dir \<Rightarrow> (case fh_create_dirs fh dir w of
                        (Inl e, w') \<Rightarrow> (Inl (IoFailed ''create'' dir e), w') | (Inr _, w') \<Rightarrow> (Inr (), w'))) of
               (Inl e, w') \<Rightarrow> (Inl e, w')
             | (Inr _, w') \<Rightarrow>
                 (case fh_write fh resolved content w' of
                    (Inl e, w'') \<Rightarrow> (Inl (IoFailed ''write'' path e), w'')
                  | (Inr _, w'') \<Rightarrow>
                      (Inr (''Wrote '' @ nat_str (length content) @ '' bytes to '' @ path), w'')))))"

end
