(* ===== verification/File_Edit_Correct.thy ===== *)
theory File_Edit_Correct
  imports File_Edit
begin

text \<open>
  What \<open>file_edit\<close> does to a file: an exact edit is \<open>str::replace\<close> and never panics on
  well-formed text; a fuzzy edit addresses whole lines, provided the file has no carriage
  returns; and the memory of futile edits stays bounded and stops a loop.
\<close>

section \<open>Exact edits\<close>

lemma utf8_replace:
  assumes "pat \<noteq> []" and "utf8 pat" and "utf8 new" and "utf8 (pre @ s)"
  shows "utf8 (pre @ str_replace pat new s)"
  using assms
proof (induction pat new s arbitrary: pre rule: str_replace.induct)
  case (1 pat new s)
  show ?case
  proof (cases s)
    case (Cons c cs)
    show ?thesis
    proof (cases "prefix pat s")
      case True
      then obtain rest where s: "s = pat @ rest" by (auto simp: prefix_def)
      have parts: "utf8 pre" "utf8 rest" using utf8_around [of pre pat rest] "1.prems" s by auto
      have "utf8 ([] @ str_replace pat new (drop (length pat) s))"
        by (rule "1.IH"(1) [OF Cons]) (use "1.prems" parts s in auto)
      then show ?thesis
        using s parts "1.prems" by (simp add: str_replace_match utf8_append)
    next
      case False
      have "utf8 ((pre @ [c]) @ str_replace pat new cs)"
      proof (rule "1.IH"(2) [OF Cons])
        show "\<not> (pat \<noteq> [] \<and> take (length pat) s = pat)" using False by (metis take_is_prefix)
      qed (use "1.prems" Cons in auto)
      then show ?thesis using False Cons by (simp add: str_replace_skip)
    qed
  qed (use "1.prems" in auto)
qed

lemma splice_all_Cons:
  "splice_all content (sp # spans) new =
     Option.bind (splice_all content spans new) (\<lambda>r. replace_range r (sp_start sp) (sp_len sp) new)"
  by (simp add: splice_all_def)

lemma splice_all_matches:
  assumes "pat \<noteq> []" and "utf8 pat" and "utf8 new" and "utf8 (pre @ s)"
  shows "splice_all (pre @ s) (map (\<lambda>i. \<lparr>sp_start = i, sp_len = length pat\<rparr>) (match_from (length pre) pat s)) new
    = Some (pre @ str_replace pat new s)"
  using assms
proof (induction pat new s arbitrary: pre rule: str_replace.induct)
  case (1 pat new s)
  show ?case
  proof (cases s)
    case Nil
    then show ?thesis by (simp add: match_from.simps splice_all_def)
  next
    case (Cons c cs)
    show ?thesis
    proof (cases "prefix pat s")
      case True
      then obtain rest where s: "s = pat @ rest" by (auto simp: prefix_def)
      have parts: "utf8 pre" "utf8 rest" using utf8_around [of pre pat rest] "1.prems" s by auto
      let ?R = "str_replace pat new rest"
      have "splice_all ((pre @ pat) @ drop (length pat) s) (map (\<lambda>i. \<lparr>sp_start = i, sp_len = length pat\<rparr>)
          (match_from (length (pre @ pat)) pat (drop (length pat) s))) new
          = Some ((pre @ pat) @ str_replace pat new (drop (length pat) s))"
        by (rule "1.IH"(1) [OF Cons]) (use "1.prems" s in auto)
      then have rest: "splice_all (pre @ s) (map (\<lambda>i. \<lparr>sp_start = i, sp_len = length pat\<rparr>)
          (match_from (length pre + length pat) pat rest)) new = Some (pre @ pat @ ?R)"
        using s by simp
      have "utf8 ?R" using utf8_replace [of pat new "[]" rest] "1.prems" parts by simp
      then have "is_char_boundary (pre @ pat @ ?R) (length pre)"
          and "is_char_boundary ((pre @ pat) @ ?R) (length (pre @ pat))"
        using parts "1.prems"(2) utf8_boundary [of pre "pat @ ?R"] utf8_boundary [of "pre @ pat" ?R]
        by (auto simp: utf8_append)
      then have "replace_range (pre @ pat @ ?R) (length pre) (length pat) new = Some (pre @ new @ ?R)"
        by (simp add: replace_range_def)
      moreover have "match_from (length pre) pat s = length pre # match_from (length pre + length pat) pat rest"
        using True s "1.prems"(1) by (subst match_from.simps) (cases pat, auto)
      ultimately show ?thesis
        using rest s "1.prems"(1) by (simp add: splice_all_Cons str_replace_match)
    next
      case False
      then have no: "\<not> (pat \<noteq> [] \<and> take (length pat) s = pat)" by (metis take_is_prefix)
      have "splice_all ((pre @ [c]) @ cs) (map (\<lambda>i. \<lparr>sp_start = i, sp_len = length pat\<rparr>)
          (match_from (length (pre @ [c])) pat cs)) new = Some ((pre @ [c]) @ str_replace pat new cs)"
        by (rule "1.IH"(2) [OF Cons no]) (use "1.prems" Cons in auto)
      moreover have "match_from (length pre) pat s = match_from (Suc (length pre)) pat cs"
        using False Cons by (subst match_from.simps) auto
      ultimately show ?thesis using False Cons by (simp add: str_replace_skip)
    qed
  qed
qed


definition sample_host :: "unit file_host" where
  "sample_host = \<lparr>fh_canonicalize = (\<lambda>_ p. Inr p), fh_read = (\<lambda>_ _. Inl []), fh_write = (\<lambda>_ _ w. (Inr (), w)),
     fh_create_dirs = (\<lambda>_ w. (Inr (), w)), fh_len = (\<lambda>_ _. Inr 0), fh_hash = (\<lambda>_. 0)\<rparr>"

definition sample_edit :: edit_args where
  "sample_edit = \<lparr>ea_path = ''f'', ea_old_string = ''a'', ea_new_string = ''bb'', ea_replace_all = True\<rparr>"


section \<open>Fuzzy edits\<close>

lemma line_lengths:
  assumes "cr \<notin> set content" and "i < length (raw_lines content)"
  shows "length (raw_lines content ! i) = length (str_lines content ! i)
      + (if Suc i < length (raw_lines content) then 1 else if last content = lf then 1 else 0)"
  using strip_line_length [OF assms] assms(2) by (simp add: str_lines_def)

lemma window_start:
  assumes "cr \<notin> set content" and "start < length (raw_lines content)"
  shows "sum_list (map (\<lambda>l. length l + 1) (take start (str_lines content)))
    = length (concat (take start (raw_lines content)))"
proof -
  have "map (\<lambda>l. length l + 1) (take start (str_lines content)) = map length (take start (raw_lines content))"
    using line_lengths [OF assms(1)] assms(2) by (intro nth_equalityI) simp_all
  then show ?thesis by (simp add: length_concat)
qed

lemma sum_list_last:
  assumes "0 < n"
  shows "sum_list (map (\<lambda>i. f i + (if i = n - 1 then k else 0)) [0..<n]) = sum_list (map f [0..<n]) + (k :: nat)"
proof -
  obtain m where n: "n = Suc m" using assms by (cases n) auto
  have "sum_list (map (\<lambda>i. f i + (if i = m then k else 0)) [0..<m]) = sum_list (map f [0..<m])"
    by (rule arg_cong [where f = sum_list]) simp
  then show ?thesis by (simp add: n)
qed

lemma window_length:
  assumes "cr \<notin> set content" and "start + n \<le> length (raw_lines content)" and "0 < n"
  shows "length (concat (take n (drop start (raw_lines content))))
    = sp_len (window_span (str_lines content) n start)
      + (if start + n = length (raw_lines content) \<and> last content = lf then 1 else 0)"
proof -
  let ?raw = "raw_lines content" and ?ls = "str_lines content"
  let ?k = "if start + n = length ?raw \<and> last content = lf then 1 else 0 :: nat"
  let ?f = "\<lambda>i. length (?ls ! (start + i)) + (if start + i + 1 < length ?ls then 1 else 0)"
  have "map length (take n (drop start ?raw)) = map (\<lambda>i. ?f i + (if i = n - 1 then ?k else 0)) [0..<n]"
  proof (rule nth_equalityI)
    fix i assume "i < length (map length (take n (drop start ?raw)))"
    then have i: "i < n" "start + i < length ?raw" using assms(2) by auto
    then have "start + i + 1 < length ?raw \<or> (start + i + 1 = length ?raw \<and> i = n - 1 \<and> start + n = length ?raw)"
      using assms(2) by linarith
    then show "map length (take n (drop start ?raw)) ! i
        = map (\<lambda>i. ?f i + (if i = n - 1 then ?k else 0)) [0..<n] ! i"
      using i assms(2) line_lengths [OF assms(1) i(2)] by auto
  qed (use assms(2) in simp)
  then show ?thesis
    using sum_list_last [OF assms(3), of ?f ?k] by (simp add: length_concat window_span_def)
qed

text \<open>
  Without carriage returns a fuzzy match addresses whole lines. Every range found by a
  rung starts where some line starts, the lines it covers agree with \<open>old_string\<close> line by line
  under the rung's normalizer, and its bytes are exactly those lines with their line ends,
  but for the newline at the end of the file, which is left alone.
\<close>

theorem fuzzy_spans_are_lines:
  assumes "sp \<in> set (window_spans content old normal)" and "cr \<notin> set content"
  shows "\<exists>start. start + length (str_lines old) \<le> length (raw_lines content)
    \<and> sp_start sp = length (concat (take start (raw_lines content)))
    \<and> map normal (take (length (str_lines old)) (drop start (str_lines content))) = map normal (str_lines old)
    \<and> concat (take (length (str_lines old)) (drop start (raw_lines content)))
        \<in> {bytes @ tail |bytes tail. bytes = take (sp_len sp) (drop (sp_start sp) content) \<and> tail \<in> {[], [lf]}}"
proof -
  let ?raw = "raw_lines content" and ?ls = "str_lines content" and ?n = "length (str_lines old)"
  obtain start where start: "start < length ?ls - (?n - 1)" and sp: "sp = window_span ?ls ?n start"
    and eq: "list_all (\<lambda>(c, x). normal c = x) (zip (take ?n (drop start ?ls)) (map normal (str_lines old)))"
    and ne: "str_lines old \<noteq> []"
    using assms(1) by (auto simp: window_spans_def Let_def split: if_splits)
  have n: "0 < ?n" using ne by (cases "str_lines old") auto
  have fits: "start + ?n \<le> length ?raw" using start n by simp
  then have less: "start < length ?raw" using n by linarith
  have start_ok: "sp_start sp = length (concat (take start ?raw))"
    using window_start [OF assms(2) less] by (simp add: sp window_span_def)
  have "length (take ?n (drop start ?ls)) = ?n" using fits by simp
  then have lines: "map normal (take ?n (drop start ?ls)) = map normal (str_lines old)"
    using eq by (intro nth_equalityI) (auto simp: list_all_length)
  let ?W = "concat (take ?n (drop start ?raw))" and ?R = "concat (drop ?n (drop start ?raw))"
  have "content = concat (take start ?raw) @ ?W @ ?R"
    using concat_raw_lines [of content] by (metis append_take_drop_id concat_append)
  then have rest: "drop (sp_start sp) content = ?W @ ?R"
    unfolding start_ok by (metis append_eq_conv_conj)
  have len: "length ?W = sp_len sp + (if start + ?n = length ?raw \<and> last content = lf then 1 else 0)"
    unfolding sp by (rule window_length [OF assms(2) fits n])
  have "\<exists>tail. tail \<in> {[], [lf]} \<and> ?W = take (sp_len sp) (drop (sp_start sp) content) @ tail"
  proof (cases "start + ?n = length ?raw \<and> last content = lf")
    case True
    then have "?R = []" by simp
    moreover have "length ?W = Suc (sp_len sp)" unfolding len using True by simp
    then have W: "?W \<noteq> []" and sl: "sp_len sp = length ?W - 1"
      by (metis length_greater_0_conv zero_less_Suc) (metis diff_Suc_1 \<open>length ?W = Suc (sp_len sp)\<close>)
    ultimately have "last ?W = lf"
      using True \<open>content = concat (take start ?raw) @ ?W @ ?R\<close> by (metis append_Nil2 last_appendR)
    then have "?W = take (sp_len sp) ?W @ [lf]"
      using W sl by (metis append_butlast_last_id butlast_conv_take)
    then have "?W = take (sp_len sp) (drop (sp_start sp) content) @ [lf]"
      using rest sl by simp
    then show ?thesis by blast
  next
    case False
    then have "?W = take (sp_len sp) (drop (sp_start sp) content) @ []" using len rest by simp
    then show ?thesis by blast
  qed
  then show ?thesis using fits start_ok lines by blast
qed

theorem fuzzy_spans_are_lines_witness:
  "concat (take 1 (drop 1 (raw_lines ''a\<newline>b \<newline>c'')))
     \<in> {bytes @ tail |bytes tail. bytes = take 3 (drop 2 ''a\<newline>b \<newline>c'') \<and> tail \<in> {[], [lf]}}"
proof -
  have spans: "\<lparr>sp_start = 2, sp_len = 3\<rparr> \<in> set (window_spans ''a\<newline>b \<newline>c'' ''b'' strip_trailing)"
    by code_simp
  have old: "str_lines ''b'' = [''b'']" by code_simp
  have raw: "raw_lines ''a\<newline>b \<newline>c'' = [''a\<newline>'', ''b \<newline>'', ''c'']" by code_simp
  from fuzzy_spans_are_lines [OF spans, unfolded old raw] show ?thesis
    by (auto simp: raw take_Cons' split: if_splits)
qed

text \<open>
  A fuzzy edit swallows the line end. The replaced range of a window that is not at the
  end of the file includes the newline after its last line, and the replacement is put
  there as it is: replacing the line \<open>x  = 1\<close> by \<open>x = 2\<close> joins it with the next line.
\<close>

theorem fuzzy_edit_joins_lines:
  "find_matches ''x  = 1\<newline>y\<newline>'' ''x = 1'' = Some (Fuzzy ''whitespace-flexible'', [\<lparr>sp_start = 0, sp_len = 7\<rparr>])
   \<and> splice ''x  = 1\<newline>y\<newline>'' 0 7 ''x = 2'' = Some ''x = 2y\<newline>''"
  by code_simp

text \<open>
  On a file with carriage returns a fuzzy edit hits the wrong bytes. The range is computed
  with one byte per line end while \<open>lines\<close> drops two, so here the edit of the last two lines
  starts one byte early, destroys the previous line end and leaves the last line in place.
\<close>

theorem fuzzy_edit_misses_on_crlf:
  "case (''a'' @ [cr, lf] @ ''b'' @ [cr, lf] @ ''c'', ''b'' @ [lf] @ ''c'') of (content, old) \<Rightarrow>
     find_matches content old = Some (Fuzzy ''trailing-whitespace-insensitive'', [\<lparr>sp_start = 2, sp_len = 3\<rparr>])
     \<and> splice content 2 3 ''X'' = Some (''a'' @ [cr] @ ''X'' @ [lf] @ ''c'')"
  by code_simp

section \<open>The memory of futile edits\<close>

datatype edit_event = FutileEdit string nat | LandedEdit string

fun history_step :: "edit_event \<Rightarrow> edit_history \<Rightarrow> edit_history" where
  "history_step (FutileEdit path fp) h = snd (record_futile path fp h)"
| "history_step (LandedEdit path) h = clear_path path h"

text \<open>The order lists the tracked paths, each once; paths and rings are bounded.\<close>

definition keys_ok :: "string list \<Rightarrow> string list \<Rightarrow> bool" where
  "keys_ok order ks \<longleftrightarrow> distinct order \<and> distinct ks \<and> set order = set ks \<and> length ks \<le> MAX_PATHS"

definition edits_ok :: "edit_history \<Rightarrow> bool" where
  "edits_ok h \<longleftrightarrow> keys_ok (eh_order h) (map fst (eh_by_path h))
     \<and> (\<forall>x \<in> set (eh_by_path h). length (snd x) \<le> RECENT_WINDOW)"

lemma keys_remove_path: "map fst (remove_path p m) = filter (\<lambda>q. q \<noteq> p) (map fst m)"
  by (induction m) (auto simp: remove_path_def)

lemma remove_path_subset: "set (remove_path p m) \<subseteq> set m"
  by (auto simp: remove_path_def)

lemma keys_ok_evict:
  assumes "keys_ok (oldest # rest) ks" and "path \<notin> set ks"
  shows "keys_ok (rest @ [path]) (filter (\<lambda>q. q \<noteq> oldest) ks @ [path])"
proof -
  have "oldest \<in> set ks" using assms(1) by (auto simp: keys_ok_def)
  then have "length (filter (\<lambda>q. q \<noteq> oldest) ks) < length ks" by (rule length_filter_less) simp
  then show ?thesis using assms by (auto simp: keys_ok_def)
qed

lemma keys_ok_clear:
  "keys_ok order ks \<Longrightarrow> keys_ok (filter (\<lambda>q. q \<noteq> p) order) (filter (\<lambda>q. q \<noteq> p) ks)"
  by (auto simp: keys_ok_def intro: le_trans [OF length_filter_le])

lemma edits_ok_track:
  assumes "edits_ok h"
  shows "edits_ok (track_path path h)"
proof -
  let ?m = "eh_by_path h" and ?ks = "map fst (eh_by_path h)"
  have keys: "keys_ok (eh_order h) ?ks" and rings: "\<forall>x \<in> set ?m. length (snd x) \<le> RECENT_WINDOW"
    using assms by (simp_all add: edits_ok_def)
  show ?thesis
  proof (cases "path \<in> set ?ks")
    case True
    then have "map_of ?m path \<noteq> None" by (simp add: map_of_eq_None_iff)
    with assms show ?thesis by (simp add: track_path_def)
  next
    case False
    then have new: "map_of ?m path = None" by (simp add: map_of_eq_None_iff)
    show ?thesis
    proof (cases "MAX_PATHS \<le> length ?m")
      case True
      with keys obtain oldest rest where order: "eh_order h = oldest # rest"
        by (cases "eh_order h") (auto simp: keys_ok_def MAX_PATHS_def)
      have "keys_ok (rest @ [path]) (map fst (remove_path oldest ?m) @ [path])"
        unfolding keys_remove_path by (rule keys_ok_evict [OF keys [unfolded order] False])
      then show ?thesis
        using rings new True order remove_path_subset [of oldest ?m]
        by (auto simp: edits_ok_def track_path_def Let_def)
    next
      case lt: False
      then have "keys_ok (eh_order h @ [path]) (?ks @ [path])"
        using keys False by (simp add: keys_ok_def)
      then show ?thesis
        using rings new lt by (auto simp: edits_ok_def track_path_def)
    qed
  qed
qed

lemma map_fst_replace: "map fst (map (\<lambda>(q, r). if q = k then (q, v) else (q, r)) m) = map fst m"
  by (induction m) auto

lemma edits_ok_record:
  assumes "edits_ok h"
  shows "edits_ok (snd (record_futile path fp h))"
proof -
  let ?h = "track_path path h"
  let ?old = "case map_of (eh_by_path ?h) path of Some r \<Rightarrow> r | None \<Rightarrow> []"
  have ok: "edits_ok ?h" by (rule edits_ok_track [OF assms])
  then have "length ?old \<le> RECENT_WINDOW"
    by (auto simp: edits_ok_def dest!: map_of_SomeD split: option.splits)
  then have "length (push_ring fp ?old) \<le> RECENT_WINDOW"
    by (auto simp: push_ring_def RECENT_WINDOW_def)
  then show ?thesis
    using ok by (auto simp: edits_ok_def record_futile_def Let_def map_fst_replace simp del: map_map)
qed

lemma edits_ok_clear:
  assumes "edits_ok h"
  shows "edits_ok (clear_path path h)"
proof -
  let ?m = "eh_by_path h"
  have "keys_ok (filter (\<lambda>p. p \<noteq> path) (eh_order h)) (map fst (remove_path path ?m))"
    using assms unfolding edits_ok_def keys_remove_path by (auto intro: keys_ok_clear)
  then show ?thesis
    using assms remove_path_subset [of path ?m] by (auto simp: edits_ok_def clear_path_def)
qed

text \<open>
  The memory of futile edits is bounded and consistent. After any sequence of futile and
  successful edits at most 32 paths are tracked, each with at most eight payloads; every
  path is tracked once, and the eviction order lists exactly the tracked paths.
\<close>

theorem edit_history_is_bounded:
  "case fold history_step events new_history of h \<Rightarrow>
     length (eh_by_path h) \<le> 32 \<and> list_all (\<lambda>(_, ring). length ring \<le> 8) (eh_by_path h)
     \<and> distinct (map fst (eh_by_path h)) \<and> distinct (eh_order h)
     \<and> set (eh_order h) = set (map fst (eh_by_path h))"
proof -
  have "edits_ok (fold history_step events h)" if "edits_ok h" for h
    using that
  proof (induction events arbitrary: h)
    case (Cons ev events)
    have "edits_ok (history_step ev h)"
      using Cons.prems by (cases ev) (auto intro: edits_ok_record edits_ok_clear)
    then show ?case using Cons.IH by simp
  qed simp
  moreover have "edits_ok new_history" by (simp add: edits_ok_def keys_ok_def new_history_def)
  ultimately show ?thesis
    by (force simp: edits_ok_def keys_ok_def MAX_PATHS_def RECENT_WINDOW_def list_all_iff)
qed

end
