(* ===== verification/File_Read.thy ===== *)
theory File_Read
  imports File_Edit Safety "HOL-Library.Word"
begin

text \<open>
  The \<open>file_read\<close> tool (\<^verbatim>\<open>src/src/tools/file_read.rs\<close>): the window of lines, the clamp to
  the engine's inline threshold and the continuation offset. The file system is the
  \<open>file_host\<close> of the editing tools.
\<close>

section \<open>The tool\<close>

definition MAX_FILE_SIZE :: nat where "MAX_FILE_SIZE = 10 * 1024 * 1024"
definition DEFAULT_LIMIT :: nat where "DEFAULT_LIMIT = 2000"
definition CLAMP_RESERVE_TOKENS :: nat where "CLAMP_RESERVE_TOKENS = 64"

record read_args =
  ra_path :: string
  ra_offset :: "32 word option"
  ra_limit :: "32 word option"

text \<open>\<open>ilog10\<close>, which the code calls on line numbers, so never on zero.\<close>

fun ilog10 :: "nat \<Rightarrow> nat" where
  "ilog10 n = (if n < 10 then 0 else Suc (ilog10 (n div 10)))"

declare ilog10.simps [simp del]

definition line_cost :: "nat \<times> string \<Rightarrow> nat" where
  "line_cost l = ilog10 (fst l) + 1 + 1 + length (snd l) + 1"

text \<open>How many leading lines stay within the budget, \<open>used\<close> bytes being spent.\<close>

fun fitting :: "nat \<Rightarrow> nat \<Rightarrow> (nat \<times> string) list \<Rightarrow> nat" where
  "fitting budget used [] = 0"
| "fitting budget used (l # ls) =
     (if used + line_cost l \<le> budget then Suc (fitting budget (used + line_cost l) ls) else 0)"

definition start_line :: "read_args \<Rightarrow> nat" where
  "start_line a = max (case ra_offset a of Some n \<Rightarrow> unat n | None \<Rightarrow> 1) 1"

definition line_limit :: "read_args \<Rightarrow> nat" where
  "line_limit a = (case ra_limit a of Some n \<Rightarrow> unat n | None \<Rightarrow> DEFAULT_LIMIT)"

definition read_window :: "read_args \<Rightarrow> string \<Rightarrow> (nat \<times> string) list" where
  "read_window a content =
     map (\<lambda>(i, line). (i + 1, line)) (take (line_limit a) (drop (start_line a - 1) (enumerate 0 (str_lines content))))"

definition render_lines :: "(nat \<times> string) list \<Rightarrow> string" where
  "render_lines ls = concat (map (\<lambda>(i, line). nat_str i @ [CHR 0x09] @ line @ newline) ls)"

text \<open>Whether the window is clamped, and the number of lines shown.\<close>

definition read_shown :: "read_args \<Rightarrow> nat \<Rightarrow> string \<Rightarrow> bool \<times> nat" where
  "read_shown a inline_tokens content =
     (let window = read_window a content;
          fits = fitting ((inline_tokens - CLAMP_RESERVE_TOKENS) * 4) 0 window;
          clamped = (fits < length window \<and> 0 < fits)
      in (clamped, if clamped then fits else length window))"

definition read_output :: "read_args \<Rightarrow> nat \<Rightarrow> nat \<Rightarrow> string \<Rightarrow> string" where
  "read_output a inline_tokens len content = (case read_shown a inline_tokens content of (clamped, shown) \<Rightarrow>
     render_lines (take shown (read_window a content)) @ newline @
     ''('' @ nat_str shown @ '' lines shown, '' @ nat_str (length (str_lines content)) @ '' total, '' @ nat_str len @
     (if clamped then '' bytes; continue with offset='' @ nat_str (start_line a + shown) @ '')''
      else '' bytes)''))"

definition file_read ::
  "'w file_host \<Rightarrow> path_guard \<Rightarrow> nat \<Rightarrow> string + read_args \<Rightarrow> 'w \<Rightarrow> tool_error + string" where
  "file_read fh g inline_tokens args w = (case args of
     Inl e \<Rightarrow> Inl (InvalidArguments e)
   | Inr a \<Rightarrow>
       bind_res (resolve (fh_canonicalize fh w) g (ra_path a)) (\<lambda>resolved.
         case fh_len fh w resolved of
           Inl e \<Rightarrow> Inl (IoFailed ''read'' (ra_path a) e)
         | Inr len \<Rightarrow>
             if MAX_FILE_SIZE < len then
               Inl (Blocked (ra_path a) (''file too large: '' @ nat_str len @ '' bytes (max '' @ nat_str MAX_FILE_SIZE @ '')''))
             else
               (case fh_read fh w resolved of
                  Inl e \<Rightarrow> Inl (IoFailed ''read'' (ra_path a) e)
                | Inr content \<Rightarrow> Inr (read_output a inline_tokens len content))))"

section \<open>Lemmas\<close>

lemma length_nat_str_log: "length (nat_str n) = ilog10 n + 1"
  by (induction n rule: nat_str.induct) (subst nat_str.simps, subst ilog10.simps, simp)

lemma length_nat_str_le: "n < 10 ^ k \<Longrightarrow> 0 < k \<Longrightarrow> length (nat_str n) \<le> k"
proof (induction k arbitrary: n)
  case (Suc k)
  show ?case
  proof (cases "n < 10")
    case False
    then have "n div 10 < 10 ^ k" and "0 < k" using Suc.prems by (auto, cases k, auto)
    then show ?thesis using Suc.IH [of "n div 10"] False by (subst nat_str.simps) simp
  qed (subst nat_str.simps, simp)
qed simp

lemma length_raw_lines: "length (raw_lines s) \<le> length s"
  by (induction s) (auto split: list.splits)

lemma length_render_lines: "length (render_lines ls) = sum_list (map line_cost ls)"
  by (induction ls) (auto simp: render_lines_def line_cost_def length_nat_str_log)

lemma fitting_le: "fitting budget used ls \<le> length ls"
  by (induction ls arbitrary: used) auto

lemma fitting_cost: "used \<le> budget \<Longrightarrow> used + sum_list (map line_cost (take (fitting budget used ls) ls)) \<le> budget"
proof (induction ls arbitrary: used)
  case (Cons l ls)
  then show ?case using Cons.IH [of "used + line_cost l"] by (auto simp: add.assoc)
qed simp

lemma fitting_maximal:
  "fitting budget used ls < length ls \<Longrightarrow>
   budget < used + sum_list (map line_cost (take (Suc (fitting budget used ls)) ls))"
proof (induction ls arbitrary: used)
  case (Cons l ls)
  then show ?case using Cons.IH [of "used + line_cost l"] by (auto simp: add.assoc)
qed simp

lemma length_read_window:
  "length (read_window a content) = min (line_limit a) (length (str_lines content) - (start_line a - 1))"
  by (simp add: read_window_def)

lemma nth_read_window:
  "i < length (read_window a content) \<Longrightarrow>
   read_window a content ! i = (start_line a + i, str_lines content ! (start_line a + i - 1))"
  by (auto simp: read_window_def nth_enumerate_eq start_line_def)

text \<open>
  C33: A clamped read fits and can be continued. When \<open>file_read\<close> clamps, it shows at least one
  line, its wrapped output stays within the engine's inline threshold, so it is not
  externalized, the lines are those from the requested one on, one more line would exceed
  the budget, and the next read at the advertised offset starts with the first line left out.
\<close>

theorem clamped_read_continues:
  assumes "file_read fh g inline_tokens (Inr a) w = Inr out"
    and "resolve (fh_canonicalize fh w) g (ra_path a) = Inr resolved"
    and "fh_read fh w resolved = Inr content" and "fh_len fh w resolved = Inr (length content)"
    and "read_shown a inline_tokens content = (True, shown)"
  shows "0 < shown
    \<and> prefix (render_lines (map (\<lambda>i. (i, str_lines content ! (i - 1))) [start_line a..<start_line a + shown])) out
    \<and> suffix (''; continue with offset='' @ nat_str (start_line a + shown) @ '')'') out
    \<and> estimate_tokens (''<tool_output name=\"file_read\">'' @ newline @ out @ newline @ ''</tool_output>'') \<le> inline_tokens
    \<and> 4 * (inline_tokens - 64) < length (render_lines (take (Suc shown) (read_window a content)))
    \<and> (\<forall>b. start_line b = start_line a + shown \<longrightarrow> 0 < line_limit b \<longrightarrow>
        take 1 (read_window b content) = [(start_line a + shown, str_lines content ! (start_line a + shown - 1))])"
proof -
  let ?W = "read_window a content" and ?budget = "(inline_tokens - CLAMP_RESERVE_TOKENS) * 4"
  have out: "out = read_output a inline_tokens (length content) content" and size: "length content \<le> MAX_FILE_SIZE"
    using assms(1-4) by (auto simp: file_read_def split: if_splits)
  have shown: "shown = fitting ?budget 0 ?W" "shown < length ?W" "0 < shown"
    using assms(5) by (auto simp: read_shown_def Let_def split: if_splits)
  have window: "take shown ?W = map (\<lambda>i. (i, str_lines content ! (i - 1))) [start_line a..<start_line a + shown]"
    using shown(2) nth_read_window [of _ a content] by (intro nth_equalityI) auto
  have "length (render_lines (take shown ?W)) \<le> ?budget"
    using fitting_cost [of 0 ?budget ?W] shown(1) by (simp add: length_render_lines)
  moreover have reserve: "CLAMP_RESERVE_TOKENS < inline_tokens"
  proof (rule ccontr)
    assume "\<not> CLAMP_RESERVE_TOKENS < inline_tokens"
    then have "fitting ?budget 0 ?W = 0" by (cases ?W) (auto simp: line_cost_def)
    with shown show False by simp
  qed
  moreover have lines: "start_line a + shown \<le> length content"
    using shown(2) length_raw_lines [of content] by (auto simp: length_read_window start_line_def)
  then have "length (nat_str n) \<le> 8" if "n \<le> start_line a + shown \<or> n \<le> length content" for n
    using that size by (intro length_nat_str_le) (auto simp: MAX_FILE_SIZE_def)
  then have "length (nat_str shown) \<le> 8" "length (nat_str (length (str_lines content))) \<le> 8"
      "length (nat_str (length content)) \<le> 8" "length (nat_str (start_line a + shown)) \<le> 8"
    using length_raw_lines [of content] by auto
  ultimately have "estimate_tokens (''<tool_output name=\"file_read\">'' @ newline @ out @ newline @ ''</tool_output>'')
      \<le> inline_tokens"
    by (simp add: out read_output_def assms(5) estimate_tokens_le_iff CLAMP_RESERVE_TOKENS_def)
  moreover have "4 * (inline_tokens - 64) < length (render_lines (take (Suc shown) ?W))"
    using fitting_maximal [of ?budget 0 ?W] shown by (simp add: length_render_lines CLAMP_RESERVE_TOKENS_def)
  moreover have "take 1 (read_window b content) = [(start_line a + shown, str_lines content ! (start_line a + shown - 1))]"
    if "start_line b = start_line a + shown" "0 < line_limit b" for b
  proof -
    have "0 < length (read_window b content)"
      using that shown(2) by (auto simp: length_read_window start_line_def)
    with nth_read_window [OF this] that show ?thesis by (cases "read_window b content") auto
  qed
  moreover have "prefix (render_lines (take shown ?W)) out"
    by (simp add: out read_output_def assms(5))
  moreover have "suffix (''; continue with offset='' @ nat_str (start_line a + shown) @ '')'') out"
    by (simp add: out read_output_def assms(5) suffix_def)
  ultimately show ?thesis using shown(3) window by auto
qed

definition sample_reader :: "unit file_host" where
  "sample_reader = \<lparr>fh_canonicalize = (\<lambda>_ p. Inr p), fh_read = (\<lambda>_ _. Inr ''aaaa\<newline>bbbb\<newline>cccc\<newline>''),
     fh_write = (\<lambda>_ _ w. (Inr (), w)), fh_create_dirs = (\<lambda>_ w. (Inr (), w)), fh_len = (\<lambda>_ _. Inr 15),
     fh_hash = (\<lambda>_. 0)\<rparr>"

definition sample_read :: read_args where
  "sample_read = \<lparr>ra_path = ''f'', ra_offset = None, ra_limit = None\<rparr>"

definition sample_guard :: path_guard where
  "sample_guard = \<lparr>pg_root = ''/w''\<rparr>"

theorem clamped_read_continues_witness:
  "\<exists>out. file_read sample_reader sample_guard 67 (Inr sample_read) () = Inr out
     \<and> suffix ''; continue with offset=2)'' out"
proof -
  let ?content = "''aaaa\<newline>bbbb\<newline>cccc\<newline>''"
  have host: "fh_canonicalize sample_reader () = Inr" "fh_read sample_reader () p = Inr ?content"
      "fh_len sample_reader () p = Inr (length ?content)" for p
    by (simp_all add: sample_reader_def fun_eq_iff)
  have resolved: "resolve (fh_canonicalize sample_reader ()) sample_guard (ra_path sample_read) = Inr ''/w/f''"
    by code_simp
  have shown: "read_shown sample_read 67 ?content = (True, 1)" by code_simp
  have start: "start_line sample_read = 1" by code_simp
  have "nat_str (Suc (Suc 0)) = ''2''" by code_simp
  moreover obtain out where run: "file_read sample_reader sample_guard 67 (Inr sample_read) () = Inr out"
    using resolved by (simp add: file_read_def host MAX_FILE_SIZE_def)
  ultimately show ?thesis
    using clamped_read_continues [OF run resolved host(2,3) shown] start by simp
qed

end
