(* ===== verification/Git_Checkout.thy ===== *)
theory Git_Checkout
  imports Action Errors Rust_Path
begin

text \<open>
  The checkouts the channels prepare before a turn (\<^verbatim>\<open>src/src/tools/git/checkout.rs\<close>,
  \<^verbatim>\<open>src/src/channel/github/review_checkout.rs\<close> under \<open>github\<close>, \<^verbatim>\<open>src/src/channel/execution_checkout.rs\<close>)
  and the names of repositories (\<^verbatim>\<open>src/src/tools/git/url.rs\<close>). Running \<open>git\<close> and touching the
  disk are the fields of \<open>git_host\<close> over a world \<open>'w\<close>; the state also carries the log of
  what was run, with its outcome.
\<close>

section \<open>URLs and names\<close>

definition to_https_url :: "string \<Rightarrow> tool_error + string" where
  "to_https_url url =
     (if prefix ''https://'' url then Inr url
      else case Option.bind (strip_prefix url ''git@'') (split_once (CHR '':'')) of
        Some (host, path) \<Rightarrow> Inr (''https://'' @ host @ ''/'' @ path)
      | None \<Rightarrow> (case strip_prefix url ''ssh://git@'' of
          Some rest \<Rightarrow> Inr (''https://'' @ rest)
        | None \<Rightarrow> Inl (InvalidArguments (''unsupported URL scheme: '' @ url))))"

definition extract_nwo :: "string \<Rightarrow> string option" where
  "extract_nwo url = Option.bind (strip_prefix url ''https://'') (\<lambda>rest.
     case split_on slash (trim_end_matches ''.git'' (trim_end_matches ''/'' rest)) of
       [host, owner, repo] \<Rightarrow> if owner \<noteq> [] \<and> repo \<noteq> [] then Some (owner @ ''/'' @ repo) else None
     | _ \<Rightarrow> None)"

definition is_trusted_repo :: "string \<Rightarrow> string list \<Rightarrow> bool" where
  "is_trusted_repo nwo trusted \<longleftrightarrow> list_ex (\<lambda>entry. eq_ignore_ascii_case entry nwo) trusted"

definition validate_name :: "string \<Rightarrow> tool_error + string" where
  "validate_name name =
     (if name = [] \<or> slash \<in> set name \<or> CHR 0x5C \<in> set name \<or> str_contains name ''..''
         \<or> prefix ''.'' name \<or> prefix ''-'' name
      then Inl (InvalidArguments (''invalid directory name: '' @ name)) else Inr name)"

definition rel_path :: "string \<Rightarrow> string \<Rightarrow> tool_error + string" where
  "rel_path root nwo = (case split_once slash nwo of
     None \<Rightarrow> Inl (InvalidArguments (''expected owner/repo, got: '' @ nwo))
   | Some (owner, repo) \<Rightarrow>
       bind_res (validate_name owner) (\<lambda>o'. bind_res (validate_name repo) (\<lambda>r'.
         Inr (root @ ''/'' @ o' @ ''/'' @ r'))))"

section \<open>The host\<close>

record cmd_output =
  cmd_exit_code :: int
  cmd_stdout :: string
  cmd_stderr :: string

text \<open>\<open>gh_git\<close> is \<open>exec_git\<close>: arguments, directory, and whether the credential helper is offered.\<close>

record 'w git_host =
  gh_root :: string
  gh_clone_base :: string
  gh_git :: "string list \<Rightarrow> string \<Rightarrow> bool \<Rightarrow> 'w \<Rightarrow> (tool_error + cmd_output) \<times> 'w"
  gh_is_dir :: "string \<Rightarrow> 'w \<Rightarrow> bool"
  gh_is_file :: "string \<Rightarrow> 'w \<Rightarrow> bool"
  gh_remove_dir :: "string \<Rightarrow> 'w \<Rightarrow> (string + unit) \<times> 'w"
  gh_create_dirs :: "string \<Rightarrow> 'w \<Rightarrow> (string + unit) \<times> 'w"
  gh_epoch :: "'w \<Rightarrow> nat"
  gh_warm :: "string \<Rightarrow> 'w \<Rightarrow> 'w"

datatype git_event =
    RanGit "string list" string "tool_error + cmd_output"
  | RemovedDir string "string + unit"
  | CreatedDirs string "string + unit"
  | Warmed string

record 'w git_state =
  gs_world :: 'w
  gs_log :: "git_event list"

type_synonym ('w, 'a) git_action = "('w git_state, tool_error, 'a) action"

definition repo_url :: "'w git_host \<Rightarrow> string \<Rightarrow> string" where
  "repo_url gh nwo = gh_clone_base gh @ ''/'' @ nwo @ ''.git''"

definition git_exec :: "'w git_host \<Rightarrow> string list \<Rightarrow> string \<Rightarrow> bool \<Rightarrow> ('w, cmd_output) git_action" where
  "git_exec gh args dir authenticated s = (case gh_git gh args dir authenticated (gs_world s) of
     (r, w) \<Rightarrow> (r, \<lparr>gs_world = w, gs_log = gs_log s @ [RanGit args dir r]\<rparr>))"

definition git_remove_dir :: "'w git_host \<Rightarrow> string \<Rightarrow> ('w, unit) git_action" where
  "git_remove_dir gh dir s = (case gh_remove_dir gh dir (gs_world s) of
     (r, w) \<Rightarrow> (case r of Inl e \<Rightarrow> Inl (IoFailed ''remove'' dir e) | Inr u \<Rightarrow> Inr u,
       \<lparr>gs_world = w, gs_log = gs_log s @ [RemovedDir dir r]\<rparr>))"

definition git_create_dirs :: "'w git_host \<Rightarrow> string \<Rightarrow> ('w, unit) git_action" where
  "git_create_dirs gh dir s = (case gh_create_dirs gh dir (gs_world s) of
     (r, w) \<Rightarrow> (case r of Inl e \<Rightarrow> Inl (IoFailed ''create'' dir e) | Inr u \<Rightarrow> Inr u,
       \<lparr>gs_world = w, gs_log = gs_log s @ [CreatedDirs dir r]\<rparr>))"

definition git_warm :: "'w git_host \<Rightarrow> string \<Rightarrow> ('w, unit) git_action" where
  "git_warm gh dir = act_update (\<lambda>s. \<lparr>gs_world = gh_warm gh dir (gs_world s), gs_log = gs_log s @ [Warmed dir]\<rparr>)"

text \<open>\<open>f(..).is_ok()\<close>, and an error that is dropped after an action ran for its effect.\<close>

definition act_is_ok :: "('s, 'e, 'a) action \<Rightarrow> ('s, 'e, bool) action" where
  "act_is_ok m s = (case m s of (Inl _, s') \<Rightarrow> (Inr False, s') | (Inr _, s') \<Rightarrow> (Inr True, s'))"

definition act_catch :: "('s, 'e, 'a) action \<Rightarrow> ('e \<Rightarrow> ('s, 'e, 'a) action) \<Rightarrow> ('s, 'e, 'a) action" where
  "act_catch m h s = (case m s of (Inl e, s') \<Rightarrow> h e s' | (Inr a, s') \<Rightarrow> (Inr a, s'))"

section \<open>Running git\<close>

definition git_failed :: "string list \<Rightarrow> cmd_output \<Rightarrow> tool_error" where
  "git_failed args out =
     CommandFailed (''git '' @ join_with '' '' args) (cmd_exit_code out)
       (''git '' @ (case args of [] \<Rightarrow> [] | a # _ \<Rightarrow> a) @ '' exited '' @ int_str (cmd_exit_code out) @ '': '' @
        trim (cmd_stderr out))"

definition git_run :: "'w git_host \<Rightarrow> string list \<Rightarrow> string \<Rightarrow> bool \<Rightarrow> ('w, unit) git_action" where
  "git_run gh args cwd authenticated = act_bind (git_exec gh args cwd authenticated) (\<lambda>out.
     if cmd_exit_code out \<noteq> 0 then act_throw (git_failed args out) else act_return ())"

definition git_run_read :: "'w git_host \<Rightarrow> string list \<Rightarrow> string \<Rightarrow> ('w, int \<times> string) git_action" where
  "git_run_read gh args cwd =
     act_bind (git_exec gh args cwd False) (\<lambda>out. act_return (cmd_exit_code out, cmd_stdout out))"

section \<open>Cloning\<close>

datatype ensured = Cloned string | Existing string

fun into_dir :: "ensured \<Rightarrow> string" where
  "into_dir (Cloned dir) = dir"
| "into_dir (Existing dir) = dir"

definition clone_into :: "'w git_host \<Rightarrow> string \<Rightarrow> string \<Rightarrow> string \<Rightarrow> ('w, ensured) git_action" where
  "clone_into gh url rel dir = (case path_parent dir of
     None \<Rightarrow> act_throw (InvalidArguments (''clone destination '' @ dir @ '' has no parent directory''))
   | Some parent \<Rightarrow>
       act_then (git_create_dirs gh parent)
         (act_then
           (act_catch (git_run gh [''clone'', url, last (split_on slash rel)] parent True)
              (\<lambda>e. act_bind (act_is_ok (git_remove_dir gh dir)) (\<lambda>_. act_throw e)))
           (act_return (Cloned dir))))"

definition ensure_cloned :: "'w git_host \<Rightarrow> string \<Rightarrow> string \<Rightarrow> ('w, ensured) git_action" where
  "ensure_cloned gh url rel = (\<lambda>s.
     let dir = path_join (gh_root gh) rel in
     if gh_is_dir gh (path_join dir ''.git'') (gs_world s) then
       act_bind (act_is_ok (git_run gh [''rev-parse'', ''--git-dir''] dir False)) (\<lambda>healthy.
         if healthy then act_return (Existing dir)
         else act_then (git_remove_dir gh dir) (clone_into gh url rel dir)) s
     else clone_into gh url rel dir s)"

section \<open>Review checkouts\<close>

definition REVIEWS_DIR :: string where "REVIEWS_DIR = ''reviews''"

definition review_rel_path :: "string \<Rightarrow> tool_error + string" where
  "review_rel_path nwo = rel_path REVIEWS_DIR nwo"

definition act_lift :: "'e + 'a \<Rightarrow> ('s, 'e, 'a) action" where
  "act_lift r = (case r of Inl e \<Rightarrow> act_throw e | Inr a \<Rightarrow> act_return a)"

definition ensure_worktree :: "'w git_host \<Rightarrow> string \<Rightarrow> string \<Rightarrow> string \<Rightarrow> ('w, unit) git_action" where
  "ensure_worktree gh clone worktree head_sha = (\<lambda>s.
     let marker = path_join worktree ''.git'' in
     if gh_is_file gh marker (gs_world s) then (Inr (), s)
     else
       act_then (act_when (gh_is_dir gh marker (gs_world s)) (git_remove_dir gh worktree))
         (act_then (git_run gh [''worktree'', ''prune''] clone False)
           (git_run gh [''worktree'', ''add'', ''--detach'', worktree, head_sha] clone False)) s)"

definition is_hexdigit :: "char \<Rightarrow> bool" where
  "is_hexdigit c \<longleftrightarrow> is_ascii_digit c \<or> c \<in> set ''abcdefABCDEF''"

definition review_prepare_at ::
  "'w git_host \<Rightarrow> string \<Rightarrow> string \<Rightarrow> string \<Rightarrow> nat \<Rightarrow> string \<Rightarrow> string \<Rightarrow> ('w, unit) git_action" where
  "review_prepare_at gh url clone_rel rel pr_number head_sha base =
     (if length head_sha \<noteq> 40 \<or> \<not> list_all is_hexdigit head_sha then
        act_throw (InvalidArguments (''head SHA is not a 40-char hex string: '' @ head_sha))
      else if base = [] \<or> prefix ''-'' base then
        act_throw (InvalidArguments (''invalid base ref: '' @ base))
      else
        act_bind (ensure_cloned gh url clone_rel) (\<lambda>ensured.
          let clone = into_dir ensured; worktree = path_join (gh_root gh) rel in
          act_then (git_run gh [''fetch'', ''origin'', base, ''pull/'' @ nat_str pr_number @ ''/head''] clone True)
            (act_then (ensure_worktree gh clone worktree head_sha)
              (git_run gh [''checkout'', ''--force'', ''--detach'', head_sha] worktree False))))"

definition review_prepare ::
  "'w git_host \<Rightarrow> string \<Rightarrow> nat \<Rightarrow> string \<Rightarrow> string \<Rightarrow> ('w, string) git_action" where
  "review_prepare gh nwo pr_number head_sha base =
     act_bind (act_lift (review_rel_path nwo)) (\<lambda>rel.
       act_bind (act_lift (rel_path ''projects'' nwo)) (\<lambda>clone_rel.
         act_then (review_prepare_at gh (repo_url gh nwo) clone_rel rel pr_number head_sha base)
           (act_return rel)))"

section \<open>Execution checkouts\<close>

record prepared =
  pp_rel :: string
  pp_parked :: "string option"

definition CLONE_YOURSELF :: string where
  "CLONE_YOURSELF = ''Clone or update the repo yourself before branching.''"

definition ready_note :: "prepared \<Rightarrow> string" where
  "ready_note p =
     ''A fresh checkout at the default branch is ready at '' @ pp_rel p @ '' (use working_dir: '' @
     [CHR 0x22] @ pp_rel p @ [CHR 0x22] @ ''). Branch from there; do not clone.'' @
     (case pp_parked p of None \<Rightarrow> [] | Some parked \<Rightarrow>
        '' A previous turn left unfinished work, parked on branch '' @ parked @
        '': inspect it before starting (git log/diff origin/HEAD..'' @ parked @ '') and salvage or ignore it.'')"

definition KEPT_CACHES :: "string list" where
  "KEPT_CACHES = [''.direnv'', ''.gcroots'', ''node_modules'', ''.venv'']"

definition RECOVERED_PREFIX :: string where
  "RECOVERED_PREFIX = ''kitaebot_recovered/''"

definition execution_rel_path :: "string \<Rightarrow> tool_error + string" where
  "execution_rel_path nwo = rel_path ''projects'' nwo"

definition status_args :: "string list" where
  "status_args = [''status'', ''--porcelain'', ''--'', ''.''] @ map (\<lambda>c. '':(exclude)'' @ c) KEPT_CACHES"

definition commit_args :: "string list" where
  "commit_args = [''-c'', ''user.name=kitaebot'', ''-c'', ''user.email=kitaebot@localhost'', ''-c'',
     ''commit.gpgsign=false'', ''commit'', ''--no-verify'', ''--allow-empty'', ''-m'',
     ''Park leftover work from an interrupted turn'']"

definition clean_args :: "string list" where
  "clean_args = [''clean'', ''-fdx''] @ concat (map (\<lambda>kept. [''-e'', kept]) KEPT_CACHES)"

definition is_stranded :: "'w git_host \<Rightarrow> string \<Rightarrow> ('w, bool) git_action" where
  "is_stranded gh dir =
     act_bind (git_run_read gh [''symbolic-ref'', ''-q'', ''HEAD''] dir) (\<lambda>(attached, _).
       if attached = 0 then act_return False
       else act_bind (git_run_read gh [''merge-base'', ''--is-ancestor'', ''HEAD'', ''origin/HEAD''] dir)
         (\<lambda>(ancestor, _). act_return (ancestor \<noteq> 0)))"

definition park_branch :: "'w git_host \<Rightarrow> string \<Rightarrow> bool \<Rightarrow> ('w, string option) git_action" where
  "park_branch gh dir dirty = (\<lambda>s.
     let name = RECOVERED_PREFIX @ nat_str (gh_epoch gh (gs_world s)) in
     act_then (git_run gh [''checkout'', ''-b'', name] dir False)
       (act_then
         (act_when dirty
           (act_then (git_run gh [''add'', ''-A'', ''--'', ''.''] dir False)
             (act_then (git_run gh ([''reset'', ''--quiet'', ''--''] @ KEPT_CACHES) dir False)
               (git_run gh commit_args dir False))))
         (act_return (Some name))) s)"

definition park_leftovers :: "'w git_host \<Rightarrow> string \<Rightarrow> ('w, string option) git_action" where
  "park_leftovers gh dir =
     act_bind (git_run_read gh status_args dir) (\<lambda>(_, out).
       let dirty = (trim out \<noteq> []) in
       act_bind (is_stranded gh dir) (\<lambda>stranded.
         if \<not> dirty \<and> \<not> stranded then act_return None else park_branch gh dir dirty))"

definition reset_args :: "string list" where
  "reset_args = [''checkout'', ''--force'', ''--detach'', ''origin/HEAD'']"

definition execution_prepare_at :: "'w git_host \<Rightarrow> string \<Rightarrow> string \<Rightarrow> ('w, string option) git_action" where
  "execution_prepare_at gh url rel =
     act_bind (ensure_cloned gh url rel) (\<lambda>ensured.
       act_bind (case ensured of
           Cloned dir \<Rightarrow> act_return (dir, None)
         | Existing dir \<Rightarrow> act_bind (park_leftovers gh dir) (\<lambda>parked. act_return (dir, parked)))
         (\<lambda>(dir, parked).
           act_then (git_run gh [''fetch'', ''origin''] dir True)
             (act_then (git_run gh reset_args dir False)
               (act_then (git_run gh clean_args dir False)
                 (act_then (git_warm gh dir) (act_return parked))))))"

definition execution_prepare :: "'w git_host \<Rightarrow> string \<Rightarrow> ('w, prepared) git_action" where
  "execution_prepare gh nwo =
     act_bind (act_lift (execution_rel_path nwo)) (\<lambda>rel.
       act_bind (execution_prepare_at gh (repo_url gh nwo) rel) (\<lambda>parked.
         act_return \<lparr>pp_rel = rel, pp_parked = parked\<rparr>))"

end
