(* ===== verification/Git_Checkout_Correct.thy ===== *)
theory Git_Checkout_Correct
  imports Git_Checkout
begin

text \<open>
  What the checkout preparation guarantees: names never leave their root, and a working
  clone is reset only after its leftovers were found absent or parked. And what it does
  not: a health check that could not run is taken for a broken clone, which is deleted.
\<close>

section \<open>Names\<close>

lemma validate_name_ok:
  "validate_name n = Inr m \<Longrightarrow> m = n \<and> n \<noteq> [] \<and> slash \<notin> set n \<and> \<not> prefix ''.'' n \<and> \<not> str_contains n ''..''
     \<and> \<not> prefix ''-'' n"
  by (auto simp: validate_name_def split: if_splits)

lemma segments_name: "slash \<notin> set n \<Longrightarrow> segments n = [n]"
  by (simp add: segments_def split_on_no_sep)

lemma segments_slash: "slash \<notin> set n \<Longrightarrow> segments (n @ slash # r) = n # segments r"
  by (simp add: segments_def split_on_append_sep)

text \<open>
  C21: A repository name cannot steer a checkout out of its area. When \<open>rel_path\<close> accepts a
  name, the directory is exactly the area, the owner and the repository: two plain
  components below the root, neither hidden, a parent step, nor an option to git.
\<close>

theorem checkout_path_stays_in_area:
  assumes "rel_path root nwo = Inr dir" and "root \<noteq> []" and "slash \<notin> set root" and "\<not> skipped root" and "root \<noteq> ''..''"
  shows "\<exists>owner repo. nwo = owner @ ''/'' @ repo \<and> components dir = [Normal root, Normal owner, Normal repo]
     \<and> \<not> prefix ''-'' owner \<and> \<not> prefix ''-'' repo"
proof -
  obtain owner repo where nwo: "split_once slash nwo = Some (owner, repo)"
    using assms(1) by (cases "split_once slash nwo") (auto simp: rel_path_def)
  then obtain o' r' where valid: "validate_name owner = Inr o'" "validate_name repo = Inr r'"
    and dir': "dir = root @ ''/'' @ o' @ ''/'' @ r'"
    using assms(1) by (auto simp: rel_path_def bind_res_Inr_iff)
  then have names: "validate_name owner = Inr owner" "validate_name repo = Inr repo"
    and dir: "dir = root @ ''/'' @ owner @ ''/'' @ repo"
    using validate_name_ok [OF valid(1)] validate_name_ok [OF valid(2)] by simp_all
  have plain: "n \<noteq> []" "slash \<notin> set n" "n \<noteq> ''.''" "n \<noteq> ''..''" "\<not> prefix ''-'' n"
    if "validate_name n = Inr n" for n
    using validate_name_ok [OF that] by auto
  have "segments dir = [root, owner, repo]"
    using assms(3) plain(2) names by (simp add: dir segments_slash segments_name)
  moreover have "\<not> is_absolute dir"
    using assms(2,3) by (cases root) (auto simp: dir is_absolute_def)
  ultimately have "components dir = [Normal root, Normal owner, Normal repo]"
    using assms(4,5) plain [OF names(1)] plain [OF names(2)]
    by (simp add: components_def path_body_def body_component_def skipped_def)
  moreover have "nwo = owner @ ''/'' @ repo" using nwo by (simp add: split_once_Some_iff)
  ultimately show ?thesis using plain(5) names by blast
qed

theorem checkout_path_stays_in_area_witness:
  "\<exists>owner repo. ''amackillop/kitaebot'' = owner @ ''/'' @ repo
     \<and> components ''projects/amackillop/kitaebot'' = [Normal ''projects'', Normal owner, Normal repo]
     \<and> \<not> prefix ''-'' owner \<and> \<not> prefix ''-'' repo"
  by (rule checkout_path_stays_in_area) code_simp+

section \<open>Logs\<close>

definition destructive :: "string list \<Rightarrow> bool" where
  "destructive args \<longleftrightarrow> args = reset_args \<or> args = clean_args"

definition git_ran :: "string list \<Rightarrow> string \<Rightarrow> (cmd_output \<Rightarrow> bool) \<Rightarrow> git_event list \<Rightarrow> bool" where
  "git_ran args dir P log \<longleftrightarrow> (\<exists>out. RanGit args dir (Inr out) \<in> set log \<and> P out)"

abbreviation succeeded :: "cmd_output \<Rightarrow> bool" where
  "succeeded out \<equiv> cmd_exit_code out = 0"

text \<open>
  Nothing is lost by resetting: the clone is new, or the tree was reported clean with HEAD
  on a branch or reachable from the remote, or a recovery branch was made and whatever was
  dirty committed to it.
\<close>

definition nothing_to_lose :: "string \<Rightarrow> git_event list \<Rightarrow> bool" where
  "nothing_to_lose dir log \<longleftrightarrow>
     (\<exists>url name parent. path_parent dir = Some parent \<and> git_ran [''clone'', url, name] parent succeeded log)
     \<or> (git_ran status_args dir (\<lambda>out. trim (cmd_stdout out) = []) log
        \<and> (git_ran [''symbolic-ref'', ''-q'', ''HEAD''] dir succeeded log
           \<or> git_ran [''merge-base'', ''--is-ancestor'', ''HEAD'', ''origin/HEAD''] dir succeeded log))
     \<or> (\<exists>n. git_ran [''checkout'', ''-b'', RECOVERED_PREFIX @ nat_str n] dir succeeded log
        \<and> (git_ran commit_args dir succeeded log \<or> git_ran status_args dir (\<lambda>out. trim (cmd_stdout out) = []) log))"

definition careful :: "git_event list \<Rightarrow> bool" where
  "careful log \<longleftrightarrow> (\<forall>pre args dir r post. log = pre @ RanGit args dir r # post \<longrightarrow> destructive args
     \<longrightarrow> nothing_to_lose dir pre)"

definition grows :: "(git_event list \<Rightarrow> bool) \<Rightarrow> bool" where
  "grows Q \<longleftrightarrow> (\<forall>log e. Q log \<longrightarrow> Q (log @ [e]))"

lemma grows_ran: "grows (git_ran args dir P)"
  by (auto simp: grows_def git_ran_def)

lemma grows_conj: "grows Q \<Longrightarrow> grows R \<Longrightarrow> grows (\<lambda>l. Q l \<and> R l)"
  by (simp add: grows_def)

lemma grows_const: "grows (\<lambda>_. b)"
  by (simp add: grows_def)

lemma grows_nothing_to_lose: "grows (nothing_to_lose dir)"
  using grows_ran unfolding grows_def nothing_to_lose_def by blast

lemmas grows_rules = grows_ran grows_conj grows_const grows_nothing_to_lose

lemma careful_Nil: "careful []"
  by (simp add: careful_def)

lemma careful_snoc:
  "careful (log @ [e]) \<longleftrightarrow> careful log \<and> (\<forall>args dir r. e = RanGit args dir r \<longrightarrow> destructive args \<longrightarrow> nothing_to_lose dir log)"
proof
  assume c: "careful (log @ [e])"
  then show "careful log \<and> (\<forall>args dir r. e = RanGit args dir r \<longrightarrow> destructive args \<longrightarrow> nothing_to_lose dir log)"
    unfolding careful_def by (metis append.assoc append_Cons)
next
  assume c: "careful log \<and> (\<forall>args dir r. e = RanGit args dir r \<longrightarrow> destructive args \<longrightarrow> nothing_to_lose dir log)"
  show "careful (log @ [e])"
    unfolding careful_def
  proof (intro allI impI)
    fix pre args dir r post
    assume eq: "log @ [e] = pre @ RanGit args dir r # post" and d: "destructive args"
    show "nothing_to_lose dir pre"
    proof (cases post rule: rev_cases)
      case Nil
      with eq c d show ?thesis by auto
    next
      case (snoc post' x)
      with eq have "log = pre @ RanGit args dir r # post'" by simp
      with c d show ?thesis by (auto simp: careful_def)
    qed
  qed
qed

abbreviation tidy :: "(git_event list \<Rightarrow> bool) \<Rightarrow> 'w git_state \<Rightarrow> bool" where
  "tidy Q s \<equiv> careful (gs_log s) \<and> Q (gs_log s)"

abbreviation still_careful :: "tool_error \<Rightarrow> 'w git_state \<Rightarrow> bool" where
  "still_careful e s \<equiv> careful (gs_log s)"

lemma triple_git_exec:
  assumes "grows Q" and "\<And>log. destructive args \<Longrightarrow> Q log \<Longrightarrow> nothing_to_lose dir log"
  shows "hoare (tidy Q) (git_exec gh args dir a) (\<lambda>out. tidy (\<lambda>l. Q l \<and> git_ran args dir (\<lambda>o'. o' = out) l)) (\<lambda>_. tidy Q)"
  using assms by (auto simp: hoare_def git_exec_def careful_snoc git_ran_def grows_def split: prod.splits sum.splits)

lemma triple_git_run:
  assumes "grows Q" and "\<And>log. destructive args \<Longrightarrow> Q log \<Longrightarrow> nothing_to_lose dir log"
  shows "hoare (tidy Q) (git_run gh args dir a) (\<lambda>_. tidy (\<lambda>l. Q l \<and> git_ran args dir succeeded l)) (\<lambda>_. tidy Q)"
  unfolding git_run_def
  by (rule hoare_bind [OF triple_git_exec [OF assms]])
    (auto simp: hoare_def act_simps git_ran_def split: if_splits)

lemma triple_git_run_read:
  assumes "grows Q" and "\<not> destructive args"
  shows "hoare (tidy Q) (git_run_read gh args dir)
    (\<lambda>(code, out). tidy (\<lambda>l. Q l \<and> git_ran args dir (\<lambda>o'. cmd_exit_code o' = code \<and> cmd_stdout o' = out) l)) (\<lambda>_. tidy Q)"
  unfolding git_run_read_def
  by (rule hoare_bind [OF triple_git_exec [OF assms(1)]])
    (use assms(2) in \<open>auto simp: hoare_def act_simps git_ran_def\<close>)

lemma triple_disk:
  assumes "grows Q"
  shows "keeps (tidy Q) (git_remove_dir gh dir)" "keeps (tidy Q) (git_create_dirs gh dir)"
    "keeps (tidy Q) (git_warm gh dir)"
  using assms by (auto simp: hoare_def git_remove_dir_def git_create_dirs_def git_warm_def act_simps careful_snoc
      grows_def split: prod.splits sum.splits)

lemma triple_is_ok: "keeps I m \<Longrightarrow> keeps I (act_is_ok m)"
  by (fastforce simp: hoare_def act_is_ok_def split: prod.splits sum.splits)

section \<open>Resets\<close>

lemma not_destructive [simp]:
  "\<not> destructive (''clone'' # r)" "\<not> destructive (''rev-parse'' # r)" "\<not> destructive (''fetch'' # r)"
  "\<not> destructive (''add'' # r)" "\<not> destructive (''reset'' # r)" "\<not> destructive (''symbolic-ref'' # r)"
  "\<not> destructive (''merge-base'' # r)" "\<not> destructive [''checkout'', ''-b'', n]" "\<not> destructive status_args"
  "\<not> destructive commit_args"
  by (simp_all add: destructive_def reset_args_def clean_args_def status_args_def commit_args_def)

lemma keeps_git_run: "grows Q \<Longrightarrow> \<not> destructive args \<Longrightarrow> keeps (tidy Q) (git_run gh args dir a)"
  by (rule hoare_weaken [OF triple_git_run]) auto

lemma run_gains:
  assumes "grows Q" and "\<And>log. destructive args \<Longrightarrow> Q log \<Longrightarrow> nothing_to_lose dir log"
    and "hoare (tidy (\<lambda>l. Q l \<and> git_ran args dir succeeded l)) n R still_careful"
  shows "hoare (tidy Q) (act_then (git_run gh args dir a) n) R still_careful"
  by (rule hoare_then [OF hoare_weaken [OF triple_git_run [OF assms(1,2)]] assms(3)]) auto

lemma run_keeps:
  assumes "grows Q" and "\<not> destructive args" and "hoare (tidy Q) n R still_careful"
  shows "hoare (tidy Q) (act_then (git_run gh args dir a) n) R still_careful"
  by (rule hoare_then [OF hoare_weaken [OF keeps_git_run [OF assms(1,2)]] assms(3)]) auto

lemma run_ends:
  assumes "grows Q" and "\<And>log. destructive args \<Longrightarrow> Q log \<Longrightarrow> nothing_to_lose dir log"
    and "\<And>l. Q l \<Longrightarrow> git_ran args dir succeeded l \<Longrightarrow> R l"
  shows "hoare (tidy Q) (git_run gh args dir a) (\<lambda>_. tidy R) still_careful"
  by (rule hoare_weaken [OF triple_git_run [OF assms(1,2)]]) (auto intro: assms(3))

lemma hoare_reads: "(\<And>x. hoare P (m x) Q E) \<Longrightarrow> hoare P (\<lambda>s. m (f s) s) Q E"
  by (auto simp: hoare_def)

lemma triple_catch:
  "hoare P m Q I \<Longrightarrow> (\<And>e. hoare (I e) (h e) Q E) \<Longrightarrow> hoare P (act_catch m h) Q E"
  by (fastforce simp: hoare_def act_catch_def split: prod.splits sum.splits)

lemma triple_clone_into:
  "hoare (tidy (\<lambda>_. True)) (clone_into gh url rel dir)
     (\<lambda>en. tidy (\<lambda>l. en = Cloned dir \<and> nothing_to_lose dir l)) still_careful"
proof (cases "path_parent dir")
  case None
  then show ?thesis by (simp add: clone_into_def hoare_def act_simps)
next
  case (Some parent)
  let ?clone = "git_run gh [''clone'', url, last (split_on slash rel)] parent True"
  have clone: "hoare (tidy (\<lambda>_. True)) ?clone (\<lambda>_. tidy (nothing_to_lose dir)) (\<lambda>_. tidy (\<lambda>_. True))"
    by (rule hoare_weaken [OF run_ends [OF grows_const, where R = "nothing_to_lose dir"]])
      (use Some in \<open>auto simp: nothing_to_lose_def\<close>)
  have cleanup: "hoare (tidy (\<lambda>_. True)) (act_bind (act_is_ok (git_remove_dir gh dir)) (\<lambda>_. act_throw e))
       (\<lambda>_. tidy (nothing_to_lose dir)) still_careful" for e
  proof (rule hoare_bind)
    show "hoare (tidy (\<lambda>_. True)) (act_is_ok (git_remove_dir gh dir)) (\<lambda>_. tidy (\<lambda>_. True)) still_careful"
      by (rule hoare_weaken [OF triple_is_ok [OF triple_disk(1) [OF grows_const]]]) auto
  qed (simp add: hoare_def act_simps)
  have "hoare (tidy (\<lambda>_. True)) (act_catch ?clone (\<lambda>e. act_bind (act_is_ok (git_remove_dir gh dir)) (\<lambda>_. act_throw e)))
      (\<lambda>_. tidy (nothing_to_lose dir)) still_careful"
    by (rule triple_catch [OF clone cleanup])
  then have "hoare (tidy (\<lambda>_. True))
      (act_then (act_catch ?clone (\<lambda>e. act_bind (act_is_ok (git_remove_dir gh dir)) (\<lambda>_. act_throw e)))
        (act_return (Cloned dir)))
      (\<lambda>en. tidy (\<lambda>l. en = Cloned dir \<and> nothing_to_lose dir l)) still_careful"
    by (rule hoare_then) (simp add: hoare_def act_simps)
  from hoare_then [OF hoare_weaken [OF triple_disk(2) [OF grows_const]] this]
  have "hoare (tidy (\<lambda>_. True)) (act_then (git_create_dirs gh parent)
      (act_then (act_catch ?clone (\<lambda>e. act_bind (act_is_ok (git_remove_dir gh dir)) (\<lambda>_. act_throw e)))
        (act_return (Cloned dir))))
      (\<lambda>en. tidy (\<lambda>l. en = Cloned dir \<and> nothing_to_lose dir l)) still_careful"
    by auto
  then show ?thesis by (simp add: clone_into_def Some)
qed

abbreviation fresh_or_existing :: "ensured \<Rightarrow> git_event list \<Rightarrow> bool" where
  "fresh_or_existing en l \<equiv> (case en of Cloned dir \<Rightarrow> nothing_to_lose dir l | Existing dir \<Rightarrow> True)"

lemma triple_ensure_cloned:
  "hoare (tidy (\<lambda>_. True)) (ensure_cloned gh url rel) (\<lambda>en. tidy (fresh_or_existing en)) still_careful"
proof -
  let ?dir = "path_join (gh_root gh) rel"
  have clone: "hoare (tidy (\<lambda>_. True)) (clone_into gh url rel ?dir) (\<lambda>en. tidy (fresh_or_existing en)) still_careful"
    by (rule hoare_weaken [OF triple_clone_into]) auto
  have "hoare (tidy (\<lambda>_. True)) (act_then (git_remove_dir gh ?dir) (clone_into gh url rel ?dir))
      (\<lambda>en. tidy (fresh_or_existing en)) still_careful"
    by (rule hoare_then [OF hoare_weaken [OF triple_disk(1) [OF grows_const]] clone]) auto
  then have broken: "hoare (tidy (\<lambda>_. True)) (if healthy then act_return (Existing ?dir)
      else act_then (git_remove_dir gh ?dir) (clone_into gh url rel ?dir))
      (\<lambda>en. tidy (fresh_or_existing en)) still_careful" for healthy
    by (auto simp: hoare_def act_simps)
  have "hoare (tidy (\<lambda>_. True)) (act_is_ok (git_run gh [''rev-parse'', ''--git-dir''] ?dir False))
      (\<lambda>_. tidy (\<lambda>_. True)) still_careful"
    by (rule hoare_weaken [OF triple_is_ok [OF keeps_git_run [OF grows_const]]]) auto
  from hoare_bind [OF this broken] clone show ?thesis
    unfolding ensure_cloned_def Let_def by (rule hoare_if_state)
qed

lemma triple_park_branch:
  "hoare (tidy (\<lambda>l. \<not> dirty \<longrightarrow> git_ran status_args dir (\<lambda>o'. trim (cmd_stdout o') = []) l)) (park_branch gh dir dirty)
     (\<lambda>_. tidy (nothing_to_lose dir)) still_careful"
proof -
  let ?clean = "\<lambda>l. \<not> dirty \<longrightarrow> git_ran status_args dir (\<lambda>o'. trim (cmd_stdout o') = []) l"
  let ?on = "\<lambda>n. git_ran [''checkout'', ''-b'', RECOVERED_PREFIX @ nat_str n] dir succeeded"
  have clean: "grows ?clean" using grows_ran by (auto simp: grows_def)
  have "hoare (tidy (?on n)) (act_then (git_run gh [''add'', ''-A'', ''--'', ''.''] dir False)
      (act_then (git_run gh ([''reset'', ''--quiet'', ''--''] @ KEPT_CACHES) dir False) (git_run gh commit_args dir False)))
      (\<lambda>_. tidy (nothing_to_lose dir)) still_careful" for n
    by (rule run_keeps, rule grows_ran, simp, rule run_keeps, rule grows_ran, simp, rule run_ends, rule grows_ran, simp)
      (auto simp: nothing_to_lose_def)
  then have commit: "hoare (tidy (\<lambda>l. ?clean l \<and> ?on n l)) (act_when dirty
      (act_then (git_run gh [''add'', ''-A'', ''--'', ''.''] dir False)
        (act_then (git_run gh ([''reset'', ''--quiet'', ''--''] @ KEPT_CACHES) dir False) (git_run gh commit_args dir False))))
      (\<lambda>_. tidy (nothing_to_lose dir)) still_careful" for n
    by (intro hoare_when) (auto intro: hoare_weaken simp: nothing_to_lose_def)
  have "hoare (tidy ?clean) (act_then (git_run gh [''checkout'', ''-b'', RECOVERED_PREFIX @ nat_str n] dir False)
       (act_then
         (act_when dirty
           (act_then (git_run gh [''add'', ''-A'', ''--'', ''.''] dir False)
             (act_then (git_run gh ([''reset'', ''--quiet'', ''--''] @ KEPT_CACHES) dir False)
               (git_run gh commit_args dir False))))
         (act_return (Some (RECOVERED_PREFIX @ nat_str n))))) (\<lambda>_. tidy (nothing_to_lose dir)) still_careful" for n
    by (rule run_gains, rule clean, simp, rule hoare_then [OF commit]) (simp add: hoare_def act_simps)
  then show ?thesis unfolding park_branch_def Let_def by (rule hoare_reads)
qed

lemma triple_stranded:
  "hoare (tidy (git_ran status_args dir P)) (is_stranded gh dir)
     (\<lambda>b. tidy (\<lambda>l. git_ran status_args dir P l \<and> (\<not> b \<longrightarrow> git_ran [''symbolic-ref'', ''-q'', ''HEAD''] dir succeeded l
        \<or> git_ran [''merge-base'', ''--is-ancestor'', ''HEAD'', ''origin/HEAD''] dir succeeded l))) still_careful"
proof -
  let ?P = "git_ran status_args dir P"
  let ?sym = "git_ran [''symbolic-ref'', ''-q'', ''HEAD''] dir succeeded"
  let ?anc = "git_ran [''merge-base'', ''--is-ancestor'', ''HEAD'', ''origin/HEAD''] dir succeeded"
  let ?post = "\<lambda>b. tidy (\<lambda>l. ?P l \<and> (\<not> b \<longrightarrow> ?sym l \<or> ?anc l))"
  have "hoare (tidy ?P) (git_run_read gh [''merge-base'', ''--is-ancestor'', ''HEAD'', ''origin/HEAD''] dir)
      (\<lambda>x. tidy (\<lambda>l. ?P l \<and> (fst x = 0 \<longrightarrow> ?anc l))) still_careful"
    by (rule hoare_weaken [OF triple_git_run_read [OF grows_ran]]) (auto simp: git_ran_def)
  then have ancestor: "hoare (tidy ?P) (act_bind (git_run_read gh [''merge-base'', ''--is-ancestor'', ''HEAD'', ''origin/HEAD''] dir)
      (\<lambda>(ancestor, _). act_return (ancestor \<noteq> 0))) ?post still_careful"
    by (rule hoare_bind) (auto simp: hoare_def act_simps split: prod.splits)
  have "hoare (tidy ?P) (git_run_read gh [''symbolic-ref'', ''-q'', ''HEAD''] dir)
      (\<lambda>x. tidy (\<lambda>l. ?P l \<and> (fst x = 0 \<longrightarrow> ?sym l))) still_careful"
    by (rule hoare_weaken [OF triple_git_run_read [OF grows_ran]]) (auto simp: git_ran_def)
  then show ?thesis
    unfolding is_stranded_def
  proof (rule hoare_bind)
    fix x :: "int \<times> string"
    have "hoare (tidy (\<lambda>l. ?P l \<and> (fst x = 0 \<longrightarrow> ?sym l)))
       (act_bind (git_run_read gh [''merge-base'', ''--is-ancestor'', ''HEAD'', ''origin/HEAD''] dir)
      (\<lambda>(ancestor, _). act_return (ancestor \<noteq> 0))) ?post still_careful"
      by (rule hoare_weaken [OF ancestor]) auto
    then show "hoare (tidy (\<lambda>l. ?P l \<and> (fst x = 0 \<longrightarrow> ?sym l)))
       (case x of (attached, _) \<Rightarrow> if attached = 0 then act_return False
         else act_bind (git_run_read gh [''merge-base'', ''--is-ancestor'', ''HEAD'', ''origin/HEAD''] dir)
           (\<lambda>(ancestor, _). act_return (ancestor \<noteq> 0))) ?post still_careful"
      by (cases x) (auto simp: hoare_def act_simps)
  qed
qed

lemma triple_park_leftovers:
  "hoare (tidy (\<lambda>_. True)) (park_leftovers gh dir) (\<lambda>_. tidy (nothing_to_lose dir)) still_careful"
proof -
  let ?clean = "\<lambda>out. git_ran status_args dir (\<lambda>o'. cmd_stdout o' = out)"
  have status: "hoare (tidy (\<lambda>_. True)) (git_run_read gh status_args dir) (\<lambda>x. tidy (?clean (snd x))) still_careful"
    by (rule hoare_weaken [OF triple_git_run_read [OF grows_const]]) (auto simp: git_ran_def)
  have rest: "hoare (tidy (?clean out)) (act_bind (is_stranded gh dir) (\<lambda>stranded.
      if trim out = [] \<and> \<not> stranded then act_return None else park_branch gh dir (trim out \<noteq> [])))
      (\<lambda>_. tidy (nothing_to_lose dir)) still_careful" for out
  proof (rule hoare_bind [OF triple_stranded])
    fix stranded
    let ?kept = "\<lambda>l. ?clean out l \<and> (\<not> stranded \<longrightarrow> git_ran [''symbolic-ref'', ''-q'', ''HEAD''] dir succeeded l
        \<or> git_ran [''merge-base'', ''--is-ancestor'', ''HEAD'', ''origin/HEAD''] dir succeeded l)"
    have "hoare (tidy ?kept) (act_return None) (\<lambda>_. tidy (nothing_to_lose dir)) still_careful"
      if "trim out = []" "\<not> stranded"
      using that by (auto simp: hoare_def act_simps nothing_to_lose_def git_ran_def)
    moreover have "hoare (tidy ?kept) (park_branch gh dir (trim out \<noteq> [])) (\<lambda>_. tidy (nothing_to_lose dir)) still_careful"
      by (rule hoare_weaken [OF triple_park_branch]) (auto simp: git_ran_def)
    ultimately show "hoare (tidy ?kept)
        (if trim out = [] \<and> \<not> stranded then act_return None else park_branch gh dir (trim out \<noteq> []))
        (\<lambda>_. tidy (nothing_to_lose dir)) still_careful" by (auto intro: hoare_if)
  qed
  show ?thesis
    unfolding park_leftovers_def Let_def
  proof (rule hoare_bind [OF status])
    fix x :: "int \<times> string"
    show "hoare (tidy (?clean (snd x))) (case x of (_, out) \<Rightarrow> act_bind (is_stranded gh dir) (\<lambda>stranded.
      if \<not> trim out \<noteq> [] \<and> \<not> stranded then act_return None else park_branch gh dir (trim out \<noteq> [])))
      (\<lambda>_. tidy (nothing_to_lose dir)) still_careful"
    proof -
      obtain code out where "x = (code, out)" by (cases x)
      with rest [of out] show ?thesis by simp
    qed
  qed
qed

lemma triple_execution_prepare_at:
  "hoare (tidy (\<lambda>_. True)) (execution_prepare_at gh url rel) (\<lambda>_. tidy (\<lambda>_. True)) still_careful"
proof -
  have dir: "hoare (tidy (fresh_or_existing en)) (case en of Cloned dir \<Rightarrow> act_return (dir, None)
      | Existing dir \<Rightarrow> act_bind (park_leftovers gh dir) (\<lambda>parked. act_return (dir, parked)))
      (\<lambda>x. tidy (nothing_to_lose (fst x))) still_careful" for en
  proof (cases en)
    case (Existing dir)
    have "hoare (tidy (\<lambda>_. True)) (act_bind (park_leftovers gh dir) (\<lambda>parked. act_return (dir, parked)))
        (\<lambda>x. tidy (nothing_to_lose (fst x))) still_careful"
      by (rule hoare_bind [OF triple_park_leftovers]) (simp add: hoare_def act_simps)
    with Existing show ?thesis by simp
  qed (simp add: hoare_def act_simps)
  have reset: "hoare (tidy (nothing_to_lose dir)) (act_then (git_run gh [''fetch'', ''origin''] dir True)
      (act_then (git_run gh reset_args dir False)
        (act_then (git_run gh clean_args dir False) (act_then (git_warm gh dir) (act_return parked)))))
      (\<lambda>_. tidy (\<lambda>_. True)) still_careful" for dir parked
  proof (rule run_keeps [OF grows_nothing_to_lose])
    have warm: "hoare (tidy Q) (act_then (git_warm gh dir) (act_return parked)) (\<lambda>_. tidy (\<lambda>_. True)) still_careful"
      if "grows Q" for Q
      by (rule hoare_then [OF hoare_weaken [OF triple_disk(3) [OF that]], where R = "tidy Q"])
        (auto simp: hoare_def act_simps)
    show "hoare (tidy (nothing_to_lose dir)) (act_then (git_run gh reset_args dir False)
        (act_then (git_run gh clean_args dir False) (act_then (git_warm gh dir) (act_return parked))))
      (\<lambda>_. tidy (\<lambda>_. True)) still_careful"
      by (rule run_gains [OF grows_nothing_to_lose]; (rule run_gains | rule warm | rule grows_rules | assumption | simp)+)
  qed simp
  show ?thesis
    unfolding execution_prepare_at_def
  proof (rule hoare_bind [OF triple_ensure_cloned], rule hoare_bind [OF dir])
    fix x :: "string \<times> string option"
    obtain d p where "x = (d, p)" by (cases x)
    with reset [of d p] show "hoare (tidy (nothing_to_lose (fst x))) (case x of (dir, parked) \<Rightarrow>
        act_then (git_run gh [''fetch'', ''origin''] dir True) (act_then (git_run gh reset_args dir False)
          (act_then (git_run gh clean_args dir False) (act_then (git_warm gh dir) (act_return parked)))))
      (\<lambda>_. tidy (\<lambda>_. True)) still_careful" by simp
  qed
qed

lemma execution_prepare_careful:
  "careful (gs_log (snd (execution_prepare gh nwo \<lparr>gs_world = w, gs_log = []\<rparr>)))"
proof -
  have "hoare (tidy (\<lambda>_. True)) (execution_prepare gh nwo) (\<lambda>_. tidy (\<lambda>_. True)) still_careful"
    unfolding execution_prepare_def
  proof (rule hoare_bind)
    show "hoare (tidy (\<lambda>_. True)) (act_lift (execution_rel_path nwo)) (\<lambda>_. tidy (\<lambda>_. True)) still_careful"
      by (auto simp: act_lift_def hoare_def act_simps split: sum.splits)
    show "hoare (tidy (\<lambda>_. True)) (act_bind (execution_prepare_at gh (repo_url gh nwo) rel)
        (\<lambda>parked. act_return \<lparr>pp_rel = rel, pp_parked = parked\<rparr>)) (\<lambda>_. tidy (\<lambda>_. True)) still_careful" for rel
      by (rule hoare_bind [OF triple_execution_prepare_at]) (simp add: hoare_def act_simps)
  qed
  then show ?thesis
    by (auto simp: hoare_def careful_Nil split: prod.splits sum.splits)
      (metis careful_Nil git_state.select_convs(2) old.sum.exhaust prod.collapse)
qed


definition all_well :: cmd_output where
  "all_well = \<lparr>cmd_exit_code = 0, cmd_stdout = [], cmd_stderr = []\<rparr>"

text \<open>A host with one existing clone that has a modified file; every command succeeds.\<close>

definition dirty_host :: "unit git_host" where
  "dirty_host = \<lparr>gh_root = ''/w'', gh_clone_base = ''https://github.com'',
     gh_git = (\<lambda>args _ _ w. (Inr (if args = status_args then all_well\<lparr>cmd_stdout := '' M x''\<rparr> else all_well), w)),
     gh_is_dir = (\<lambda>_ _. True), gh_is_file = (\<lambda>_ _. False), gh_remove_dir = (\<lambda>_ w. (Inr (), w)),
     gh_create_dirs = (\<lambda>_ w. (Inr (), w)), gh_epoch = (\<lambda>_. 7), gh_warm = (\<lambda>_ w. w)\<rparr>"

definition dirty_log :: "git_event list" where
  "dirty_log = map (\<lambda>args. RanGit args ''/w/projects/o/r'' (Inr (if args = status_args then all_well\<lparr>cmd_stdout := '' M x''\<rparr> else all_well)))
     [[''rev-parse'', ''--git-dir''], status_args, [''symbolic-ref'', ''-q'', ''HEAD''],
      [''checkout'', ''-b'', ''kitaebot_recovered/7''], [''add'', ''-A'', ''--'', ''.''],
      [''reset'', ''--quiet'', ''--''] @ KEPT_CACHES, commit_args, [''fetch'', ''origin'']]"


section \<open>What the checks do not see\<close>

lemma git_run_log: "\<exists>r. gs_log (snd (git_run gh args dir a s)) = gs_log s @ [RanGit args dir r]"
  by (auto simp: git_run_def git_exec_def act_simps split: prod.splits sum.splits)

lemma clone_into_log: "\<exists>rest. gs_log (snd (clone_into gh url rel dir s)) = gs_log s @ rest"
  by (auto simp: clone_into_def git_create_dirs_def git_remove_dir_def git_run_def git_exec_def act_catch_def
      act_is_ok_def act_simps split: prod.splits sum.splits option.splits)

text \<open>
  A health check that could not run deletes the working clone. If \<open>git rev-parse\<close> fails
  without an answer (it could not be started, or ran out of time), \<open>ensure_cloned\<close> removes
  the directory next, with no look at the work in it.
\<close>

theorem failed_health_check_deletes_the_clone:
  assumes "dir = path_join (gh_root gh) rel" and "gh_is_dir gh (path_join dir ''.git'') w"
    and "gh_git gh [''rev-parse'', ''--git-dir''] dir False w = (Inl e, w1)"
    and "gh_remove_dir gh dir w1 = (Inr (), w2)"
  shows "\<exists>rest. gs_log (snd (ensure_cloned gh url rel \<lparr>gs_world = w, gs_log = []\<rparr>)) =
    RanGit [''rev-parse'', ''--git-dir''] dir (Inl e) # RemovedDir dir (Inr ()) # rest"
  using assms clone_into_log [of gh url rel dir
      "\<lparr>gs_world = w2, gs_log = [RanGit [''rev-parse'', ''--git-dir''] dir (Inl e), RemovedDir dir (Inr ())]\<rparr>"]
  by (simp add: ensure_cloned_def Let_def act_simps act_is_ok_def git_run_def git_exec_def git_remove_dir_def)

definition slow_host :: "unit git_host" where
  "slow_host = dirty_host\<lparr>gh_git := (\<lambda>args _ _ w.
     (Inl (Timeout (''git '' @ hd args) 60 \<lparr>te_output_tail = [], te_pressure = []\<rparr>), w))\<rparr>"

theorem failed_health_check_deletes_the_clone_witness:
  "\<exists>rest. gs_log (snd (ensure_cloned slow_host ''u'' ''projects/o/r'' \<lparr>gs_world = (), gs_log = []\<rparr>)) =
    RanGit [''rev-parse'', ''--git-dir''] ''/w/projects/o/r''
      (Inl (Timeout ''git rev-parse'' 60 \<lparr>te_output_tail = [], te_pressure = []\<rparr>))
    # RemovedDir ''/w/projects/o/r'' (Inr ()) # rest"
proof (rule failed_health_check_deletes_the_clone)
  show "''/w/projects/o/r'' = path_join (gh_root slow_host) ''projects/o/r''" by code_simp
  show "gh_is_dir slow_host (path_join ''/w/projects/o/r'' ''.git'') ()" by (simp add: slow_host_def dirty_host_def)
  show "gh_git slow_host [''rev-parse'', ''--git-dir''] ''/w/projects/o/r'' False () =
      (Inl (Timeout ''git rev-parse'' 60 \<lparr>te_output_tail = [], te_pressure = []\<rparr>), ())"
    by (simp add: slow_host_def)
  show "gh_remove_dir slow_host ''/w/projects/o/r'' () = (Inr (), ())" by (simp add: slow_host_def dirty_host_def)
qed

text \<open>
  The exit code of \<open>git status\<close> is not looked at: a status that failed and printed nothing
  is taken for a clean tree, which is then reset.
\<close>

definition blind_host :: "unit git_host" where
  "blind_host = dirty_host\<lparr>gh_git := (\<lambda>args _ _ w.
     (Inr (if args = status_args then all_well\<lparr>cmd_exit_code := 128\<rparr> else all_well), w))\<rparr>"

lemma failed_status_counts_as_clean:
  "map (\<lambda>e. case e of RanGit args _ _ \<Rightarrow> args | _ \<Rightarrow> [])
     (gs_log (snd (execution_prepare blind_host ''o/r'' \<lparr>gs_world = (), gs_log = []\<rparr>))) =
   [[''rev-parse'', ''--git-dir''], status_args, [''symbolic-ref'', ''-q'', ''HEAD''], [''fetch'', ''origin''],
    reset_args, clean_args, []]"
  by code_simp

end
