(* ===== verification/GitHub_Types.thy ===== *)
theory GitHub_Types
  imports Errors
begin

text \<open>
  What both GitHub pollers share: the wire types of the client (\<^verbatim>\<open>src/src/clients/github.rs\<close>)
  and whom the channels listen to (\<^verbatim>\<open>src/src/channel/github/trust.rs\<close>). A user is its login;
  time stamps are the RFC 3339 texts of the API, compared as texts, as the code does.
\<close>

text \<open>Which side of a pull request the bot is on (\<^verbatim>\<open>agent/envelope.rs\<close>).\<close>

datatype github_role = Author | Contributor | Reviewer

record search_issue =
  si_number :: nat
  si_title :: string
  si_body :: "string option"
  si_user :: string
  si_repository_url :: string
  si_updated_at :: string
  si_labels :: "string list"

definition has_label :: "search_issue \<Rightarrow> string \<Rightarrow> bool" where
  "has_label issue label \<longleftrightarrow> list_ex (\<lambda>l. eq_ignore_ascii_case l label) (si_labels issue)"

definition nwo_of :: "search_issue \<Rightarrow> string option" where
  "nwo_of issue = (case rev (split_on (CHR ''/'') (si_repository_url issue)) of
     repo # owner # _ \<Rightarrow> if owner = [] \<or> repo = [] then None else Some (owner @ ''/'' @ repo)
   | _ \<Rightarrow> None)"

record pull =
  pu_state :: string
  pu_title :: string
  pu_head_sha :: string
  pu_base_ref :: string

record pr_review =
  rv_id :: nat
  rv_user :: string
  rv_body :: "string option"
  rv_state :: string
  rv_submitted_at :: "string option"

record issue_comment =
  ic_id :: nat
  ic_user :: string
  ic_body :: string
  ic_created_at :: string

record diff_comment =
  dc_id :: nat
  dc_review_id :: "nat option"
  dc_path :: string
  dc_line :: "nat option"
  dc_body :: string
  dc_user :: string
  dc_created_at :: string

record pr_commit =
  pc_sha :: string
  pc_message :: string

record pr_file =
  pf_filename :: string
  pf_additions :: nat
  pf_deletions :: nat

text \<open>A finding of the review ledger (\<^verbatim>\<open>src/src/review.rs\<close>).\<close>

record pr_finding =
  fi_id :: int
  fi_severity :: "string option"
  fi_category :: string
  fi_file :: "string option"
  fi_line :: "int option"
  fi_note :: string
  fi_disposition :: "string option"
  fi_disposition_note :: "string option"

section \<open>Trust\<close>

record trust =
  tr_owner :: string
  tr_users :: "string list"
  tr_bots :: "string list"

definition allows :: "trust \<Rightarrow> string \<Rightarrow> bool" where
  "allows t login \<longleftrightarrow>
     eq_ignore_ascii_case login (tr_owner t)
     \<or> list_ex (\<lambda>u. eq_ignore_ascii_case u login) (tr_users t)
     \<or> (let bot = (case strip_suffix login ''[bot]'' of Some b \<Rightarrow> b | None \<Rightarrow> login)
        in list_ex (\<lambda>b. eq_ignore_ascii_case b bot) (tr_bots t))"

section \<open>Tracking keys\<close>

definition tracking_key :: "string \<Rightarrow> nat \<Rightarrow> string" where
  "tracking_key nwo number = nwo @ ''#'' @ nat_str number"

text \<open>\<open>rsplit_once('#')\<close> and \<open>parse::<u32>\<close>.\<close>

definition rsplit_once :: "char \<Rightarrow> string \<Rightarrow> (string \<times> string) option" where
  "rsplit_once c s = map_option (\<lambda>(a, b). (rev b, rev a)) (split_once c (rev s))"

definition parse_tracking_key :: "string \<Rightarrow> (string \<times> nat) option" where
  "parse_tracking_key key = Option.bind (rsplit_once (CHR ''#'') key) (\<lambda>(nwo, number).
     map_option (Pair nwo) (parse_unsigned (2 ^ 32 - 1) number))"

lemma hash_not_digit: "list_all is_ascii_digit s \<Longrightarrow> CHR ''#'' \<notin> set s"
  by (auto simp: list_all_iff is_ascii_digit_def)

lemma rsplit_once_append: "c \<notin> set b \<Longrightarrow> rsplit_once c (a @ c # b) = Some (a, b)"
proof -
  assume "c \<notin> set b"
  then have "split_once c (rev b @ c # rev a) = Some (rev b, rev a)" by (simp add: split_once_Some_iff)
  then show ?thesis by (simp add: rsplit_once_def)
qed

lemma parse_tracking_key_key: "n < 2 ^ 32 \<Longrightarrow> parse_tracking_key (tracking_key nwo n) = Some (nwo, n)"
  using hash_not_digit [OF nat_str_digits, of n]
  by (simp add: tracking_key_def parse_tracking_key_def rsplit_once_append parse_nat_str)

end
