(* ===== verification/Ordered_Map.thy ===== *)
theory Ordered_Map
  imports Prelude
begin

text \<open>
  \<open>BTreeMap\<close>: an association list in ascending key order, so that iteration is in the order
  of the program's. The laws a client relies on are the locale \<open>dictionary\<close>; what it uses
  them for is that an insertion can be undone from the previous value alone.
\<close>

fun om_insert :: "'k::linorder \<Rightarrow> 'v \<Rightarrow> ('k \<times> 'v) list \<Rightarrow> ('k \<times> 'v) list" where
  "om_insert k v [] = [(k, v)]"
| "om_insert k v ((k', v') # m) =
     (if k < k' then (k, v) # (k', v') # m
      else if k = k' then (k, v) # m
      else (k', v') # om_insert k v m)"

definition om_remove :: "'k \<Rightarrow> ('k \<times> 'v) list \<Rightarrow> ('k \<times> 'v) list" where
  "om_remove k m = filter (\<lambda>x. fst x \<noteq> k) m"

definition om_ok :: "('k::linorder \<times> 'v) list \<Rightarrow> bool" where
  "om_ok m \<longleftrightarrow> sorted_wrt (<) (map fst m)"

lemma set_om_insert: "fst ` set (om_insert k v m) = insert k (fst ` set m)"
  by (induction k v m rule: om_insert.induct) (simp_all add: insert_commute)

lemma om_ok_Cons: "om_ok (x # m) \<longleftrightarrow> (\<forall>k \<in> fst ` set m. fst x < k) \<and> om_ok m"
  by (simp add: om_ok_def)

lemma om_ok_insert: "om_ok m \<Longrightarrow> om_ok (om_insert k v m)"
proof (induction m)
  case (Cons x m)
  then show ?case by (cases x) (auto simp: om_ok_Cons set_om_insert)
qed (simp add: om_ok_def)

lemma om_ok_remove: "om_ok m \<Longrightarrow> om_ok (om_remove k m)"
  by (induction m) (auto simp: om_ok_Cons om_remove_def)

lemma map_of_om_insert: "om_ok m \<Longrightarrow> map_of (om_insert k v m) = (map_of m)(k \<mapsto> v)"
proof (induction m)
  case (Cons x m)
  then show ?case by (cases x) (auto simp: om_ok_Cons fun_eq_iff)
qed simp

lemma map_of_om_remove: "map_of (om_remove k m) = (map_of m)(k := None)"
  by (induction m) (auto simp: om_remove_def fun_eq_iff)

lemma om_ok_distinct: "om_ok m \<Longrightarrow> distinct (map fst m)"
  by (simp add: om_ok_def strict_sorted_iff)

lemma om_ext:
  assumes "om_ok m" and "om_ok n" and "map_of m = map_of n"
  shows "m = n"
proof -
  have "set (map fst m) = set (map fst n)"
    using assms(3) by (metis dom_map_of_conv_image_fst list.set_map)
  then have keys: "map fst m = map fst n"
    using assms(1,2) by (intro sorted_distinct_set_unique) (auto simp: om_ok_def strict_sorted_iff)
  moreover have "map snd m = map snd n"
  proof (rule nth_equalityI)
    show "length (map snd m) = length (map snd n)" using keys by (metis length_map)
    fix i assume "i < length (map snd m)"
    then have i: "i < length m" "i < length n" using keys by (auto dest: arg_cong [where f = length])
    have "map_of m (fst (m ! i)) = Some (snd (m ! i))" "map_of n (fst (n ! i)) = Some (snd (n ! i))"
      using i om_ok_distinct [OF assms(1)] om_ok_distinct [OF assms(2)] by (simp_all add: map_of_eq_Some_iff)
    moreover have "fst (m ! i) = fst (n ! i)" using keys i by (metis nth_map)
    ultimately show "map snd m ! i = map snd n ! i" using assms(3) i by simp
  qed
  ultimately show ?thesis by (metis zip_map_fst_snd)
qed

locale dictionary =
  fixes ok :: "'m \<Rightarrow> bool" and lookup :: "'m \<Rightarrow> 'k \<Rightarrow> 'v option"
    and ins :: "'k \<Rightarrow> 'v \<Rightarrow> 'm \<Rightarrow> 'm" and del :: "'k \<Rightarrow> 'm \<Rightarrow> 'm"
  assumes ok_ins: "ok m \<Longrightarrow> ok (ins k v m)"
    and ok_del: "ok m \<Longrightarrow> ok (del k m)"
    and lookup_ins: "ok m \<Longrightarrow> lookup (ins k v m) = (lookup m)(k \<mapsto> v)"
    and lookup_del: "ok m \<Longrightarrow> lookup (del k m) = (lookup m)(k := None)"
    and extensional: "ok m \<Longrightarrow> ok n \<Longrightarrow> lookup m = lookup n \<Longrightarrow> m = n"
begin

lemma undo_ins:
  assumes "ok m"
  shows "(case lookup m k of None \<Rightarrow> del k (ins k v m) | Some old \<Rightarrow> ins k old (ins k v m)) = m"
proof (cases "lookup m k")
  case None
  then have "del k (ins k v m) = m"
    using assms by (intro extensional) (auto simp: ok_ins ok_del lookup_ins lookup_del fun_eq_iff)
  with None show ?thesis by simp
next
  case (Some old)
  then have "ins k old (ins k v m) = m"
    using assms by (intro extensional) (auto simp: ok_ins lookup_ins fun_eq_iff)
  with Some show ?thesis by simp
qed

lemma ins_ins: "ok m \<Longrightarrow> ins k v (ins k u m) = ins k v m"
  by (rule extensional) (simp_all add: ok_ins lookup_ins)

end

interpretation btree: dictionary om_ok map_of om_insert om_remove
  by unfold_locales (auto simp: om_ok_insert om_ok_remove map_of_om_insert map_of_om_remove intro: om_ext)

end
