(* ===== verification/GitHub_Prs_Poll.thy ===== *)
theory GitHub_Prs_Poll
  imports GitHub_Prs
begin

text \<open>
  The effectful shell of the pull-request poller (\<^verbatim>\<open>src/src/channel/github/prs.rs\<close>): the four
  passes of a tick, the persisted state, and the loop. The REST client, the git checkouts,
  the review ledger, the state database, the clock and the agent are the fields of
  \<open>pr_host\<close>. The trace records, in order, each state that was saved and each turn that was
  sent, so that a crash is a prefix of it.
\<close>

section \<open>State\<close>

record in_flight =
  if_key :: string
  if_prev_sha :: "string option"

record poll_state =
  ps_last_poll :: string
  ps_reviewed :: "(string \<times> string) list"
  ps_in_flight :: "in_flight option"

definition starting_at :: "string \<Rightarrow> poll_state" where
  "starting_at now = \<lparr>ps_last_poll = now, ps_reviewed = [], ps_in_flight = None\<rparr>"

definition roll_back_in_flight :: "poll_state \<Rightarrow> in_flight option \<times> poll_state" where
  "roll_back_in_flight st = (case ps_in_flight st of
     None \<Rightarrow> (None, st)
   | Some turn \<Rightarrow> (Some turn, st\<lparr>ps_in_flight := None,
       ps_reviewed := (case if_prev_sha turn of
          None \<Rightarrow> om_remove (if_key turn) (ps_reviewed st)
        | Some sha \<Rightarrow> om_insert (if_key turn) sha (ps_reviewed st))\<rparr>))"

record github_turn =
  gt_session :: string
  gt_role :: github_role
  gt_repo :: string
  gt_pr_number :: nat
  gt_message :: string

record 'w pr_host =
  ph_search :: "string \<Rightarrow> 'w \<Rightarrow> (github_error + search_issue list) \<times> 'w"
  ph_pull :: "string \<Rightarrow> nat \<Rightarrow> 'w \<Rightarrow> (github_error + pull) \<times> 'w"
  ph_pull_reviews :: "string \<Rightarrow> nat \<Rightarrow> 'w \<Rightarrow> (github_error + pr_review list) \<times> 'w"
  ph_issue_comments :: "string \<Rightarrow> nat \<Rightarrow> 'w \<Rightarrow> (github_error + issue_comment list) \<times> 'w"
  ph_pull_comments :: "string \<Rightarrow> nat \<Rightarrow> 'w \<Rightarrow> (github_error + diff_comment list) \<times> 'w"
  ph_pull_commits :: "string \<Rightarrow> nat \<Rightarrow> 'w \<Rightarrow> (github_error + pr_commit list) \<times> 'w"
  ph_pull_files :: "string \<Rightarrow> nat \<Rightarrow> 'w \<Rightarrow> (github_error + pr_file list) \<times> 'w"
  ph_findings :: "string \<Rightarrow> string \<Rightarrow> 'w \<Rightarrow> (string + pr_finding list) \<times> 'w"
  ph_git :: "'w git_host"
  ph_send :: "github_turn \<Rightarrow> 'w \<Rightarrow> 'w"
  ph_save :: "poll_state \<Rightarrow> 'w \<Rightarrow> 'w"
  ph_load :: "'w \<Rightarrow> poll_state option"
  ph_now :: "'w \<Rightarrow> string"
  ph_wait :: "'w \<Rightarrow> 'w"

datatype poll_event = Saved poll_state | Sent github_turn

record 'w poller =
  pl_world :: 'w
  pl_state :: poll_state
  pl_trace :: "poll_event list"

type_synonym ('w, 'a) poll_action = "('w poller, github_error, 'a) action"

section \<open>Steps\<close>

definition ask :: "('w \<Rightarrow> ('e + 'a) \<times> 'w) \<Rightarrow> ('w poller, 'e, 'a) action" where
  "ask call p = (case call (pl_world p) of (r, w) \<Rightarrow> (r, p\<lparr>pl_world := w\<rparr>))"

text \<open>An attempt whose error is handled on the spot, and a loop that keeps what it finds.\<close>

definition attempt :: "('s, 'e, 'a) action \<Rightarrow> ('s, 'x, 'e + 'a) action" where
  "attempt m s = (case m s of (r, s') \<Rightarrow> (Inr r, s'))"

fun act_collect :: "('x \<Rightarrow> ('s, 'e, 'a option) action) \<Rightarrow> 'x list \<Rightarrow> ('s, 'e, 'a list) action" where
  "act_collect f [] = act_return []"
| "act_collect f (x # xs) = act_bind (f x) (\<lambda>r. act_bind (act_collect f xs) (\<lambda>ys.
     act_return (case r of None \<Rightarrow> ys | Some y \<Rightarrow> y # ys)))"

definition otherwise_skip :: "('s, 'e, 'a) action \<Rightarrow> ('a \<Rightarrow> ('s, 'x, 'b option) action) \<Rightarrow> ('s, 'x, 'b option) action" where
  "otherwise_skip m f = act_bind (attempt m) (\<lambda>r. case r of Inl _ \<Rightarrow> act_return None | Inr a \<Rightarrow> f a)"

definition save_state :: "'w pr_host \<Rightarrow> ('w, unit) poll_action" where
  "save_state h = act_update (\<lambda>p. p\<lparr>pl_world := ph_save h (pl_state p) (pl_world p),
     pl_trace := pl_trace p @ [Saved (pl_state p)]\<rparr>)"

definition session_for :: "github_role \<Rightarrow> string \<Rightarrow> nat \<Rightarrow> string" where
  "session_for role repo pr_number = (case role of
     Author \<Rightarrow> repo | Contributor \<Rightarrow> repo
   | Reviewer \<Rightarrow> ''review:'' @ repo @ ''#'' @ nat_str pr_number)"

definition send_turn :: "'w pr_host \<Rightarrow> nat \<Rightarrow> string \<Rightarrow> github_role \<Rightarrow> string \<Rightarrow> ('w, unit) poll_action" where
  "send_turn h pr_number repo role message = act_update (\<lambda>p.
     let turn = \<lparr>gt_session = session_for role repo pr_number, gt_role = role, gt_repo = repo,
           gt_pr_number = pr_number, gt_message = message\<rparr>
     in p\<lparr>pl_world := ph_send h turn (pl_world p), pl_trace := pl_trace p @ [Sent turn]\<rparr>)"

definition set_state :: "(poll_state \<Rightarrow> poll_state) \<Rightarrow> ('w, unit) poll_action" where
  "set_state f = act_update (\<lambda>p. p\<lparr>pl_state := f (pl_state p)\<rparr>)"

definition checkout_for :: "'w pr_host \<Rightarrow> review_dispatch \<Rightarrow> ('w poller, tool_error, string) action" where
  "checkout_for h d = ask (\<lambda>w.
     case review_prepare (ph_git h) (rd_repo d) (rd_pr_number d) (rd_head_sha d) (rd_base d)
            \<lparr>gs_world = w, gs_log = []\<rparr> of
       (r, g) \<Rightarrow> (r, gs_world g))"

section \<open>Fetching\<close>

definition list_bot_prs :: "'w pr_host \<Rightarrow> string \<Rightarrow> ('w, search_issue list) poll_action" where
  "list_bot_prs h login = ask (ph_search h (''is:pr is:open author:'' @ login))"

definition list_review_requested_prs :: "'w pr_host \<Rightarrow> string \<Rightarrow> ('w, search_issue list) poll_action" where
  "list_review_requested_prs h login = ask (ph_search h (''is:pr is:open review-requested:'' @ login))"

definition contributed_query :: "string \<Rightarrow> string" where
  "contributed_query login = ''is:pr is:open commenter:'' @ login @ '' -author:'' @ login @ '' -review-requested:'' @ login"

definition list_contributed_prs :: "'w pr_host \<Rightarrow> string \<Rightarrow> ('w, search_issue list) poll_action" where
  "list_contributed_prs h login = ask (ph_search h (contributed_query login))"

definition fetch_pr_feedback :: "'w pr_host \<Rightarrow> string \<Rightarrow> nat \<Rightarrow> ('w, pr_feedback) poll_action" where
  "fetch_pr_feedback h nwo n = act_bind (ask (ph_pull_reviews h nwo n)) (\<lambda>reviews.
     act_bind (ask (ph_issue_comments h nwo n)) (\<lambda>comments.
       act_return \<lparr>fb_reviews = reviews, fb_comments = comments\<rparr>))"

definition fetch_review_view :: "'w pr_host \<Rightarrow> string \<Rightarrow> nat \<Rightarrow> ('w, review_pr_view) poll_action" where
  "fetch_review_view h nwo n = act_bind (ask (ph_pull h nwo n)) (\<lambda>pull.
     act_bind (ask (ph_pull_commits h nwo n)) (\<lambda>commits.
       act_bind (ask (ph_pull_files h nwo n)) (\<lambda>files.
         act_return \<lparr>rw_head_sha = pu_head_sha pull, rw_base_ref = pu_base_ref pull,
           rw_commits = commits, rw_files = files\<rparr>)))"

definition fetch_tracked_pr :: "'w pr_host \<Rightarrow> string \<Rightarrow> nat \<Rightarrow> ('w, tracked_pr_view) poll_action" where
  "fetch_tracked_pr h nwo n = act_bind (ask (ph_pull h nwo n)) (\<lambda>pull.
     act_bind (ask (ph_issue_comments h nwo n)) (\<lambda>comments.
       act_bind (ask (ph_pull_reviews h nwo n)) (\<lambda>reviews.
         act_return \<lparr>tv_state = pu_state pull, tv_title = pu_title pull, tv_head_sha = pu_head_sha pull,
           tv_base_ref = pu_base_ref pull, tv_comments = comments, tv_reviews = reviews\<rparr>)))"

text \<open>One pull request with its feedback, or nothing when a call for it fails.\<close>

definition fetch_feedback_snapshot :: "'w pr_host \<Rightarrow> string \<Rightarrow> search_issue \<Rightarrow> ('w, feedback_snapshot option) poll_action" where
  "fetch_feedback_snapshot h nwo pr =
     otherwise_skip (fetch_pr_feedback h nwo (si_number pr)) (\<lambda>feedback.
       otherwise_skip (ask (ph_pull_comments h nwo (si_number pr))) (\<lambda>diff_comments.
         act_return (Some \<lparr>fs_nwo = nwo, fs_pr = pr, fs_feedback = feedback, fs_diff_comments = diff_comments\<rparr>)))"

section \<open>Passes\<close>

definition feedback_pass :: "'w pr_host \<Rightarrow> trust \<Rightarrow> string \<Rightarrow> string \<Rightarrow> ('w, nat) poll_action" where
  "feedback_pass h trust bot_login last_poll =
     act_bind (list_bot_prs h bot_login) (\<lambda>prs.
       act_bind (act_collect (\<lambda>pr. case nwo_of pr of
           None \<Rightarrow> act_return None | Some nwo \<Rightarrow> fetch_feedback_snapshot h nwo pr) prs) (\<lambda>snapshots.
         let dispatches = decide_feedback snapshots bot_login trust last_poll in
         act_then (act_each (\<lambda>d. send_turn h (fd_pr_number d) (fd_repo d) Author (fd_message d)) dispatches)
           (act_return (length dispatches))))"

text \<open>One review turn: the head is recorded and saved before the turn runs.\<close>

definition review_turn :: "'w pr_host \<Rightarrow> review_dispatch \<Rightarrow> ('w, unit option) poll_action" where
  "review_turn h d = otherwise_skip (checkout_for h d) (\<lambda>_.
     act_then (set_state (\<lambda>st. st\<lparr>ps_reviewed := om_insert (rd_key d) (rd_head_sha d) (ps_reviewed st),
         ps_in_flight := Some \<lparr>if_key = rd_key d, if_prev_sha = map_of (ps_reviewed st) (rd_key d)\<rparr>\<rparr>))
       (act_then (save_state h)
         (act_then (send_turn h (rd_pr_number d) (rd_repo d) Reviewer (rd_message d))
           (act_then (set_state (\<lambda>st. st\<lparr>ps_in_flight := None\<rparr>))
             (act_then (save_state h) (act_return (Some ())))))))"

definition review_turns :: "'w pr_host \<Rightarrow> review_dispatch list \<Rightarrow> ('w, nat) poll_action" where
  "review_turns h ds = act_bind (act_collect (review_turn h) ds) (\<lambda>sent. act_return (length sent))"

definition review_request_pass :: "'w pr_host \<Rightarrow> trust \<Rightarrow> string \<Rightarrow> ('w, nat) poll_action" where
  "review_request_pass h trust bot_login =
     act_bind (list_review_requested_prs h bot_login) (\<lambda>prs.
       act_bind (act_collect (\<lambda>pr. case nwo_of pr of
           None \<Rightarrow> act_return None
         | Some nwo \<Rightarrow> otherwise_skip (fetch_review_view h nwo (si_number pr)) (\<lambda>view.
             act_return (Some \<lparr>rc_pr = pr, rc_nwo = nwo, rc_view = view\<rparr>))) prs) (\<lambda>candidates. \<lambda>p.
         review_turns h (decide_review_requests candidates (ps_reviewed (pl_state p)) bot_login trust) p))"

definition fetch_tracked_snapshot ::
  "'w pr_host \<Rightarrow> string \<Rightarrow> string \<Rightarrow> string \<Rightarrow> nat \<Rightarrow> ('w, tracked_snapshot option) poll_action" where
  "fetch_tracked_snapshot h key prev_sha nwo n =
     otherwise_skip (fetch_tracked_pr h nwo n) (\<lambda>view.
       otherwise_skip (ask (ph_pull_comments h nwo n)) (\<lambda>diff_comments.
         act_bind (attempt (ask (ph_findings h nwo prev_sha))) (\<lambda>findings.
           act_return (Some \<lparr>ts_key = key, ts_nwo = nwo, ts_pr_number = n, ts_view = view,
             ts_diff_comments = diff_comments,
             ts_prior_findings = (case findings of Inl _ \<Rightarrow> [] | Inr fs \<Rightarrow> fs)\<rparr>))))"

definition corrupt_keys :: "(string \<times> string) list \<Rightarrow> string list" where
  "corrupt_keys reviewed = map fst (filter (\<lambda>e. parse_tracking_key (fst e) = None) reviewed)"

definition prune_keys :: "'w pr_host \<Rightarrow> string list \<Rightarrow> ('w, unit) poll_action" where
  "prune_keys h gone =
     act_then (set_state (\<lambda>st. st\<lparr>ps_reviewed := fold om_remove gone (ps_reviewed st)\<rparr>))
       (act_when (gone \<noteq> []) (save_state h))"

definition tracked_pass :: "'w pr_host \<Rightarrow> trust \<Rightarrow> string \<Rightarrow> ('w, nat) poll_action" where
  "tracked_pass h trust bot_login = (\<lambda>p0.
     act_bind (act_collect (\<lambda>(key, prev_sha). case parse_tracking_key key of
           None \<Rightarrow> act_return None
         | Some (nwo, n) \<Rightarrow> fetch_tracked_snapshot h key prev_sha nwo n) (ps_reviewed (pl_state p0)))
       (\<lambda>snapshots. \<lambda>p.
          case decide_tracked snapshots (ps_reviewed (pl_state p)) bot_login trust (ps_last_poll (pl_state p)) of
            (dispatches, prunes) \<Rightarrow>
              act_then (prune_keys h (corrupt_keys (ps_reviewed (pl_state p0)) @ prunes))
                (review_turns h dispatches) p) p0)"

definition contributed_pass :: "'w pr_host \<Rightarrow> trust \<Rightarrow> string \<Rightarrow> ('w, nat) poll_action" where
  "contributed_pass h trust bot_login =
     act_bind (list_contributed_prs h bot_login) (\<lambda>prs. \<lambda>p.
       act_bind (act_collect (\<lambda>(nwo, pr). fetch_feedback_snapshot h nwo pr)
           (contributed_candidates prs (ps_reviewed (pl_state p)))) (\<lambda>snapshots.
         let dispatches = decide_contributed snapshots bot_login trust (ps_last_poll (pl_state p)) in
         act_then (act_each (\<lambda>d. send_turn h (fd_pr_number d) (fd_repo d) Contributor (fd_message d)) dispatches)
           (act_return (length dispatches))) p)"

section \<open>The loop\<close>

definition poll_once :: "'w pr_host \<Rightarrow> trust \<Rightarrow> string \<Rightarrow> ('w, nat) poll_action" where
  "poll_once h trust bot_login = (\<lambda>p.
     act_bind (feedback_pass h trust bot_login (ps_last_poll (pl_state p))) (\<lambda>a.
       act_bind (review_request_pass h trust bot_login) (\<lambda>b.
         act_bind (tracked_pass h trust bot_login) (\<lambda>c.
           act_bind (contributed_pass h trust bot_login) (\<lambda>d.
             act_return (a + b + c + d))))) p)"

text \<open>Starting: the saved state, or a fresh one, with an interrupted turn rolled back.\<close>

definition poll_start :: "'w pr_host \<Rightarrow> 'w \<Rightarrow> 'w poller" where
  "poll_start h w =
     (let st = (case ph_load h w of Some st \<Rightarrow> st | None \<Rightarrow> starting_at (ph_now h w))
      in case roll_back_in_flight st of
           (None, st') \<Rightarrow> \<lparr>pl_world = w, pl_state = st', pl_trace = []\<rparr>
         | (Some _, st') \<Rightarrow> snd (save_state h \<lparr>pl_world = w, pl_state = st', pl_trace = []\<rparr>))"

definition poll_tick :: "'w pr_host \<Rightarrow> trust \<Rightarrow> string \<Rightarrow> 'w poller \<Rightarrow> 'w poller" where
  "poll_tick h trust bot_login p0 =
     (let p = p0\<lparr>pl_world := ph_wait h (pl_world p0)\<rparr>; tick_start = ph_now h (pl_world p)
      in case poll_once h trust bot_login p of
           (Inl _, p') \<Rightarrow> p'
         | (Inr _, p') \<Rightarrow> snd (save_state h (p'\<lparr>pl_state := (pl_state p')\<lparr>ps_last_poll := tick_start\<rparr>\<rparr>)))"

fun poll_ticks :: "'w pr_host \<Rightarrow> trust \<Rightarrow> string \<Rightarrow> nat \<Rightarrow> 'w poller \<Rightarrow> 'w poller" where
  "poll_ticks h trust bot_login 0 p = p"
| "poll_ticks h trust bot_login (Suc n) p = poll_tick h trust bot_login (poll_ticks h trust bot_login n p)"

end
