(* ===== verification/GitHub_Prs_Correct.thy ===== *)
theory GitHub_Prs_Correct
  imports GitHub_Prs_Poll
begin

text \<open>
  What the pull-request poller guarantees of its record of reviewed heads: a crash at any
  point loses no review and invents none. The locale \<open>poll_invariant\<close> says what an invariant
  needs so that a whole tick keeps it.
\<close>

section \<open>Persisted states\<close>

text \<open>What a start reads back after a crash, and the last state saved between turns.\<close>

fun persisted :: "poll_state \<Rightarrow> poll_event list \<Rightarrow> poll_state" where
  "persisted st [] = st"
| "persisted st (Saved st' # tr) = persisted st' tr"
| "persisted st (Sent t # tr) = persisted st tr"

fun settled :: "poll_state \<Rightarrow> poll_event list \<Rightarrow> poll_state" where
  "settled st [] = st"
| "settled st (Saved st' # tr) = settled (if ps_in_flight st' = None then st' else st) tr"
| "settled st (Sent t # tr) = settled st tr"

definition quiet :: "poll_state \<Rightarrow> bool" where
  "quiet st \<longleftrightarrow> om_ok (ps_reviewed st) \<and> ps_in_flight st = None"

definition taking_off :: "string \<Rightarrow> string \<Rightarrow> poll_state \<Rightarrow> poll_state" where
  "taking_off key sha st = st\<lparr>ps_reviewed := om_insert key sha (ps_reviewed st),
     ps_in_flight := Some \<lparr>if_key = key, if_prev_sha = map_of (ps_reviewed st) key\<rparr>\<rparr>"

lemma taking_off_flight [simp]: "ps_in_flight (taking_off key sha st) = Some \<lparr>if_key = key, if_prev_sha = map_of (ps_reviewed st) key\<rparr>"
  by (simp add: taking_off_def)

lemma roll_back_taking_off: "quiet st \<Longrightarrow> snd (roll_back_in_flight (taking_off key sha st)) = st"
  using btree.undo_ins [of "ps_reviewed st" key sha]
  by (auto simp: roll_back_in_flight_def taking_off_def quiet_def split: option.splits)

lemma roll_back_quiet: "quiet st \<Longrightarrow> snd (roll_back_in_flight st) = st"
  by (simp add: roll_back_in_flight_def quiet_def)

text \<open>
  Traces: from one quiet state to another, author and contributor turns run without a
  record, a reviewer turn only between the record of its take-off and that of its landing.
\<close>

inductive orderly :: "poll_state \<Rightarrow> poll_event list \<Rightarrow> poll_state \<Rightarrow> bool" where
  start: "quiet st \<Longrightarrow> orderly st [] st"
| turn: "orderly st tr st' \<Longrightarrow> gt_role t \<noteq> Reviewer \<Longrightarrow> orderly st (tr @ [Sent t]) st'"
| save: "orderly st tr st' \<Longrightarrow> quiet st'' \<Longrightarrow> orderly st (tr @ [Saved st'']) st''"
| review: "orderly st tr st' \<Longrightarrow> gt_role t = Reviewer \<Longrightarrow> quiet st'' \<Longrightarrow> st'' = (taking_off key sha st')\<lparr>ps_in_flight := None\<rparr> \<Longrightarrow>
    orderly st (tr @ [Saved (taking_off key sha st'), Sent t, Saved st'']) st''"

lemma orderly_quiet: "orderly st tr st' \<Longrightarrow> quiet st'"
  by (induction rule: orderly.induct)

lemma persisted_append: "persisted st (a @ b) = persisted (persisted st a) b"
  by (induction st a rule: persisted.induct) auto

lemma settled_append: "settled st (a @ b) = settled (settled st a) b"
  by (induction st a rule: settled.induct) auto

lemma orderly_states: "orderly st tr st' \<Longrightarrow> settled st tr = st' \<and> persisted st tr = st'"
proof (induction rule: orderly.induct)
  case (save st tr st' st'')
  then show ?case by (simp add: settled_append persisted_append quiet_def)
next
  case (review st tr st' t st'' key sha)
  then show ?case by (simp add: settled_append persisted_append quiet_def taking_off_def)
qed (simp_all add: settled_append persisted_append)

lemma prefix_snoc_cases: "pre @ post = tr @ ys \<Longrightarrow> (\<exists>post'. tr = pre @ post') \<or> (\<exists>zs. pre = tr @ zs \<and> zs @ post = ys \<and> zs \<noteq> [])"
  by (auto simp: append_eq_append_conv2)

lemma orderly_crash:
  "orderly st tr st' \<Longrightarrow> tr = pre @ post \<Longrightarrow> snd (roll_back_in_flight (persisted st pre)) = settled st pre"
proof (induction arbitrary: post rule: orderly.induct)
  case (start st)
  then show ?case by (simp add: roll_back_quiet)
next
  case (turn st tr st' t)
  have all: "orderly st (tr @ [Sent t]) st'" using turn by (intro orderly.turn)
  from prefix_snoc_cases [OF turn.prems [symmetric]] show ?case
  proof
    assume "\<exists>zs. pre = tr @ zs \<and> zs @ post = [Sent t] \<and> zs \<noteq> []"
    then have "pre = tr @ [Sent t]" by (auto simp: append_eq_Cons_conv)
    then show ?thesis using orderly_states [OF all] roll_back_quiet [OF orderly_quiet [OF all]] by simp
  qed (use turn.IH in blast)
next
  case (save st tr st' st'')
  have all: "orderly st (tr @ [Saved st'']) st''" using save by (intro orderly.save)
  from prefix_snoc_cases [OF save.prems [symmetric]] show ?case
  proof
    assume "\<exists>zs. pre = tr @ zs \<and> zs @ post = [Saved st''] \<and> zs \<noteq> []"
    then have "pre = tr @ [Saved st'']" by (auto simp: append_eq_Cons_conv)
    then show ?thesis using orderly_states [OF all] roll_back_quiet [OF orderly_quiet [OF all]] by simp
  qed (use save.IH in blast)
next
  case (review st tr st' t st'' key sha)
  let ?fly = "taking_off key sha st'"
  have all: "orderly st (tr @ [Saved ?fly, Sent t, Saved st'']) st''" using review by (intro orderly.review)
  note st' = orderly_states [OF review.hyps(1)]
  from prefix_snoc_cases [OF review.prems [symmetric]] show ?case
  proof
    assume "\<exists>zs. pre = tr @ zs \<and> zs @ post = [Saved ?fly, Sent t, Saved st''] \<and> zs \<noteq> []"
    then consider "pre = tr @ [Saved ?fly]" | "pre = tr @ [Saved ?fly, Sent t]"
      | "pre = tr @ [Saved ?fly, Sent t, Saved st'']"
      by (auto simp: append_eq_Cons_conv)
    then show ?thesis
    proof cases
      case 3
      then show ?thesis using orderly_states [OF all] roll_back_quiet [OF orderly_quiet [OF all]] by simp
    qed (use st' roll_back_taking_off [OF orderly_quiet [OF review.hyps(1)]]
        in \<open>simp_all add: settled_append persisted_append\<close>)
  qed (use review.IH in blast)
qed

section \<open>Invariants of a tick\<close>

lemma keeps_bind: "keeps I m \<Longrightarrow> (\<And>a. keeps I (f a)) \<Longrightarrow> keeps I (act_bind m f)"
  by (rule hoare_bind)

lemma keeps_then: "keeps I m \<Longrightarrow> keeps I n \<Longrightarrow> keeps I (act_then m n)"
  by (rule hoare_then)

lemma keeps_return: "keeps I (act_return a)"
  by (simp add: hoare_def act_simps)

lemma keeps_attempt: "keeps I m \<Longrightarrow> keeps I (attempt m)"
  by (fastforce simp: hoare_def attempt_def split: prod.splits sum.splits)

lemma keeps_collect: "(\<And>x. keeps I (f x)) \<Longrightarrow> keeps I (act_collect f xs)"
  by (induction xs) (auto intro!: keeps_bind keeps_return)

lemma keeps_skip: "keeps I m \<Longrightarrow> (\<And>a. keeps I (f a)) \<Longrightarrow> keeps I (otherwise_skip m f)"
  unfolding otherwise_skip_def by (rule keeps_bind [OF keeps_attempt]) (auto intro: keeps_return split: sum.split)

text \<open>
  What the passes need of an invariant: it does not depend on the world, and a turn of
  either kind and the pruning of keys keep it. Then a whole tick keeps it.
\<close>

locale poll_invariant =
  fixes I :: "'w poller \<Rightarrow> bool" and h :: "'w pr_host"
  assumes world: "I p \<Longrightarrow> I (p\<lparr>pl_world := w\<rparr>)"
    and sends: "role \<noteq> Reviewer \<Longrightarrow> keeps I (send_turn h n repo role message)"
    and reviews: "keeps I (review_turn h d)"
    and prunes: "keeps I (prune_keys h gone)"
begin

lemma keeps_ask: "keeps I (ask call)"
  by (auto simp: hoare_def ask_def intro: world split: prod.splits sum.splits)

lemma keeps_review_turns: "keeps I (review_turns h ds)"
  unfolding review_turns_def by (intro keeps_bind keeps_collect reviews keeps_return)

lemmas keeps_intros = keeps_bind keeps_then keeps_return keeps_collect keeps_skip keeps_attempt keeps_ask
  keeps_review_turns hoare_each

lemma keeps_fetches:
  "keeps I (list_bot_prs h login)"
  "keeps I (list_review_requested_prs h login)"
  "keeps I (list_contributed_prs h login)"
  "keeps I (fetch_pr_feedback h nwo n)"
  "keeps I (fetch_review_view h nwo n)"
  "keeps I (fetch_tracked_pr h nwo n)"
  unfolding list_bot_prs_def list_review_requested_prs_def list_contributed_prs_def fetch_pr_feedback_def
    fetch_review_view_def fetch_tracked_pr_def
  by (intro keeps_intros)+

lemma keeps_snapshot: "keeps I (fetch_feedback_snapshot h nwo pr)"
  unfolding fetch_feedback_snapshot_def by (intro keeps_intros keeps_fetches)

lemma keeps_tracked_snapshot: "keeps I (fetch_tracked_snapshot h key sha nwo n)"
  unfolding fetch_tracked_snapshot_def by (intro keeps_intros keeps_fetches)

lemma keeps_sends: "role \<noteq> Reviewer \<Longrightarrow> keeps I (act_each (\<lambda>d. send_turn h (num d) (repo d) role (msg d)) ds)"
  by (intro hoare_each sends)

lemma keeps_feedback_pass: "keeps I (feedback_pass h trust login since)"
  unfolding feedback_pass_def Let_def
proof (intro keeps_bind keeps_collect keeps_then keeps_fetches keeps_return keeps_sends)
  show "keeps I (case nwo_of pr of None \<Rightarrow> act_return None | Some nwo \<Rightarrow> fetch_feedback_snapshot h nwo pr)" for pr
    by (cases "nwo_of pr") (auto intro: keeps_return keeps_snapshot)
qed simp

lemma keeps_request_pass: "keeps I (review_request_pass h trust login)"
  unfolding review_request_pass_def
proof (rule keeps_bind [OF keeps_fetches(2)], rule keeps_bind, rule keeps_collect)
  show "keeps I (case nwo_of pr of None \<Rightarrow> act_return None
      | Some nwo \<Rightarrow> otherwise_skip (fetch_review_view h nwo (si_number pr))
          (\<lambda>view. act_return (Some \<lparr>rc_pr = pr, rc_nwo = nwo, rc_view = view\<rparr>)))" for pr
    by (cases "nwo_of pr") (auto intro: keeps_return keeps_skip keeps_fetches)
  show "keeps I (\<lambda>p. review_turns h (decide_review_requests candidates (ps_reviewed (pl_state p)) login trust) p)" for candidates
    by (rule keepsI, rule keepsD [where I = I, OF keeps_review_turns])
qed

lemma keeps_tracked_pass: "keeps I (tracked_pass h trust login)"
proof (rule keepsI)
  fix p0 assume ok: "I p0"
  let ?m = "ps_reviewed (pl_state p0)"
  have "keeps I (act_collect (\<lambda>(key, prev_sha). case parse_tracking_key key of
      None \<Rightarrow> act_return None | Some (nwo, n) \<Rightarrow> fetch_tracked_snapshot h key prev_sha nwo n) ?m)"
    by (rule keeps_collect) (auto split: prod.split option.split intro: keeps_return keeps_tracked_snapshot)
  moreover have "keeps I (\<lambda>p. case decide_tracked snapshots (ps_reviewed (pl_state p)) login trust (ps_last_poll (pl_state p)) of
      (dispatches, prunes) \<Rightarrow> act_then (prune_keys h (corrupt_keys ?m @ prunes)) (review_turns h dispatches) p)" for snapshots
  proof (rule keepsI)
    fix p assume "I p"
    then show "I (snd (case decide_tracked snapshots (ps_reviewed (pl_state p)) login trust (ps_last_poll (pl_state p)) of
      (dispatches, prunes) \<Rightarrow> act_then (prune_keys h (corrupt_keys ?m @ prunes)) (review_turns h dispatches) p))"
      using keepsD [OF keeps_then [OF prunes keeps_review_turns]] by (auto split: prod.split)
  qed
  ultimately show "I (snd (tracked_pass h trust login p0))"
    unfolding tracked_pass_def using ok by (intro keepsD [where I = I, OF keeps_bind])
qed

lemma keeps_contributed_pass: "keeps I (contributed_pass h trust login)"
proof -
  have "keeps I (act_bind (act_collect (\<lambda>(nwo, pr). fetch_feedback_snapshot h nwo pr) candidates) (\<lambda>snapshots.
      act_then (act_each (\<lambda>d. send_turn h (fd_pr_number d) (fd_repo d) Contributor (fd_message d))
        (decide_contributed snapshots login trust since)) (act_return (length (decide_contributed snapshots login trust since)))))"
    for candidates since
    by (intro keeps_bind keeps_then keeps_return keeps_sends, rule keeps_collect) (auto intro: keeps_snapshot)
  then show ?thesis
    unfolding contributed_pass_def Let_def
    by (intro keeps_bind [OF keeps_fetches(3)] keepsI, intro keepsD [where I = I])
qed

lemma keeps_poll_once: "keeps I (poll_once h trust login)"
  unfolding poll_once_def
  by (rule keepsI, intro keepsD [where I = I] keeps_bind keeps_feedback_pass keeps_request_pass
      keeps_tracked_pass keeps_contributed_pass keeps_return)

end

section \<open>The trace stays orderly\<close>

abbreviation orderly_from :: "poll_state \<Rightarrow> 'w poller \<Rightarrow> bool" where
  "orderly_from st p \<equiv> orderly st (pl_trace p) (pl_state p)"

lemma checkout_world:
  "\<exists>w. snd (checkout_for h d p) = p\<lparr>pl_world := w\<rparr>"
  by (auto simp: checkout_for_def ask_def split: prod.splits)

text \<open>A review turn either leaves all but the world alone, or runs in full.\<close>

definition landed :: "review_dispatch \<Rightarrow> poll_state \<Rightarrow> poll_state" where
  "landed d st = (taking_off (rd_key d) (rd_head_sha d) st)\<lparr>ps_in_flight := None\<rparr>"

definition turn_of :: "review_dispatch \<Rightarrow> github_turn" where
  "turn_of d = \<lparr>gt_session = session_for Reviewer (rd_repo d) (rd_pr_number d), gt_role = Reviewer,
     gt_repo = rd_repo d, gt_pr_number = rd_pr_number d, gt_message = rd_message d\<rparr>"

lemma review_turn_cases:
  obtains "pl_state (snd (review_turn h d p)) = pl_state p" "pl_trace (snd (review_turn h d p)) = pl_trace p"
  | "pl_state (snd (review_turn h d p)) = landed d (pl_state p)"
    "pl_trace (snd (review_turn h d p)) = pl_trace p @ [Saved (taking_off (rd_key d) (rd_head_sha d) (pl_state p)),
       Sent (turn_of d), Saved (landed d (pl_state p))]"
proof -
  obtain w where w: "snd (checkout_for h d p) = p\<lparr>pl_world := w\<rparr>" using checkout_world [of h d p] by auto
  show ?thesis
  proof (cases "fst (checkout_for h d p)")
    case (Inl e)
    with w have "checkout_for h d p = (Inl e, p\<lparr>pl_world := w\<rparr>)" by (metis prod.collapse)
    then show ?thesis by (intro that(1)) (simp_all add: review_turn_def otherwise_skip_def attempt_def act_simps)
  next
    case (Inr c)
    with w have run: "checkout_for h d p = (Inr c, p\<lparr>pl_world := w\<rparr>)" by (metis prod.collapse)
    show ?thesis
      by (rule that(2)) (simp_all add: review_turn_def otherwise_skip_def attempt_def act_simps run set_state_def
          save_state_def send_turn_def Let_def taking_off_def landed_def turn_of_def)
  qed
qed

lemma om_ok_fold_remove: "om_ok m \<Longrightarrow> om_ok (fold om_remove ks m)"
  by (induction ks arbitrary: m) (auto intro: om_ok_remove)

lemma prune_keys_run:
  "snd (prune_keys h gone p) = (let st = (pl_state p)\<lparr>ps_reviewed := fold om_remove gone (ps_reviewed (pl_state p))\<rparr>
     in if gone = [] then p
        else p\<lparr>pl_world := ph_save h st (pl_world p), pl_state := st, pl_trace := pl_trace p @ [Saved st]\<rparr>)"
  by (simp add: prune_keys_def set_state_def save_state_def act_simps Let_def)

interpretation orderly: poll_invariant "orderly_from st" h for st :: poll_state and h :: "'w pr_host"
proof
  fix p :: "'w poller" and d w
  show "keeps (orderly_from st) (review_turn h d)"
  proof (rule keepsI)
    fix p :: "'w poller" assume ok: "orderly_from st p"
    have "quiet (landed d (pl_state p))"
      using orderly_quiet [OF ok] by (simp add: quiet_def landed_def taking_off_def om_ok_insert)
    then have "orderly st (pl_trace p @ [Saved (taking_off (rd_key d) (rd_head_sha d) (pl_state p)), Sent (turn_of d),
        Saved (landed d (pl_state p))]) (landed d (pl_state p))"
      by (intro orderly.review [OF ok]) (simp_all add: turn_of_def landed_def)
    with ok show "orderly_from st (snd (review_turn h d p))"
      by (cases rule: review_turn_cases [of h d p]) simp_all
  qed
  show "keeps (orderly_from st) (prune_keys h gone)" for gone
  proof (rule keepsI)
    fix p :: "'w poller" assume ok: "orderly_from st p"
    let ?st = "(pl_state p)\<lparr>ps_reviewed := fold om_remove gone (ps_reviewed (pl_state p))\<rparr>"
    have "quiet ?st" using orderly_quiet [OF ok] by (simp add: quiet_def om_ok_fold_remove)
    then have "orderly st (pl_trace p @ [Saved ?st]) ?st" by (rule orderly.save [OF ok])
    with ok show "orderly_from st (snd (prune_keys h gone p))" by (simp add: prune_keys_run Let_def)
  qed
qed (auto simp: hoare_def send_turn_def act_simps Let_def intro: orderly.turn)

lemma orderly_tick:
  assumes "orderly_from st p"
  shows "orderly_from st (poll_tick h trust login p)"
proof -
  let ?p = "p\<lparr>pl_world := ph_wait h (pl_world p)\<rparr>"
  have "orderly_from st ?p" using assms by simp
  then have once: "orderly_from st (snd (poll_once h trust login ?p))"
    by (rule keepsD [OF orderly.keeps_poll_once])
  obtain r p' where run: "poll_once h trust login ?p = (r, p')" by fastforce
  have "quiet ((pl_state p')\<lparr>ps_last_poll := now\<rparr>)" for now
    using orderly_quiet [OF once] by (simp add: run quiet_def)
  then show ?thesis
    using once by (auto simp: poll_tick_def Let_def run save_state_def act_simps split: sum.split intro: orderly.save)
qed

lemma orderly_ticks: "orderly_from st p \<Longrightarrow> orderly_from st (poll_ticks h trust login n p)"
  by (induction n) (auto intro: orderly_tick)

text \<open>Directly before a reviewer turn its take-off was saved, directly after it its landing.\<close>

lemma orderly_review:
  "orderly st tr st' \<Longrightarrow> tr = before @ Sent t # after \<Longrightarrow> gt_role t = Reviewer \<Longrightarrow>
   \<exists>key sha before' after'. before = before' @ [Saved (taking_off key sha (settled st before'))]
     \<and> after = Saved ((taking_off key sha (settled st before'))\<lparr>ps_in_flight := None\<rparr>) # after'"
proof (induction arbitrary: after rule: orderly.induct)
  case (turn st tr st' t')
  show ?case
  proof (cases after rule: rev_cases)
    case (snoc after' x)
    with turn.prems have "tr = before @ Sent t # after'" by simp
    with turn.IH turn.prems(2) snoc show ?thesis by fastforce
  qed (use turn in auto)
next
  case (save st tr st' st'')
  show ?case
  proof (cases after rule: rev_cases)
    case (snoc after' x)
    with save.prems have "tr = before @ Sent t # after'" by simp
    with save.IH save.prems(2) snoc show ?thesis by fastforce
  qed (use save in auto)
next
  case (review st tr st' t' st'' key sha)
  let ?ys = "[Saved (taking_off key sha st'), Sent t', Saved st'']"
  have "(before @ [Sent t]) @ after = tr @ ?ys" using review.prems by simp
  from prefix_snoc_cases [OF this] show ?case
  proof
    assume "\<exists>post. tr = (before @ [Sent t]) @ post"
    then obtain post where tr: "tr = before @ Sent t # post" by auto
    with review.prems have "after = post @ ?ys" by simp
    with review.IH [OF tr review.prems(2)] show ?thesis by fastforce
  next
    assume "\<exists>zs. before @ [Sent t] = tr @ zs \<and> zs @ after = ?ys \<and> zs \<noteq> []"
    then obtain zs where zs: "before @ [Sent t] = tr @ zs" "zs @ after = ?ys" "zs \<noteq> []" by blast
    then have "last zs = Sent t" by (metis last_appendR last_snoc)
    with zs have "zs = [Saved (taking_off key sha st'), Sent t']" "after = [Saved st'']"
      by (auto simp: append_eq_Cons_conv)
    with zs(1) have "before = tr @ [Saved (taking_off key sha st')]" by auto
    with \<open>after = [Saved st'']\<close> review.hyps(4) orderly_states [OF review.hyps(1)] show ?thesis by blast
  qed
qed simp

section \<open>A sample host\<close>

text \<open>Passes for which the search finds nothing, or fails.\<close>

lemma feedback_nothing:
  "ph_search h (''is:pr is:open author:'' @ login) (pl_world p) = (Inr [], pl_world p) \<Longrightarrow>
   feedback_pass h trust login c p = (Inr 0, p)"
  by (simp add: feedback_pass_def list_bot_prs_def ask_def act_simps Let_def decide_feedback_def List.map_filter_def)

lemma requests_nothing:
  "ph_search h (''is:pr is:open review-requested:'' @ login) (pl_world p) = (Inr [], pl_world p) \<Longrightarrow>
   review_request_pass h trust login p = (Inr 0, p)"
  by (simp add: review_request_pass_def list_review_requested_prs_def ask_def act_simps decide_review_requests_def
      List.map_filter_def review_turns_def)

lemma contributed_nothing:
  "ph_search h (contributed_query login) (pl_world p) = (Inr [], pl_world p) \<Longrightarrow>
   contributed_pass h trust login p = (Inr 0, p)"
  by (simp add: contributed_pass_def list_contributed_prs_def ask_def act_simps Let_def decide_contributed_def
      contributed_candidates_def List.map_filter_def)

lemma contributed_fails:
  "ph_search h (contributed_query login) (pl_world p) = (Inl e, pl_world p) \<Longrightarrow>
   contributed_pass h trust login p = (Inl e, p)"
  by (simp add: contributed_pass_def list_contributed_prs_def ask_def act_simps Let_def)

lemma tracked_nothing: "ps_reviewed (pl_state p) = [] \<Longrightarrow> tracked_pass h trust login p = (Inr 0, p)"
  by (simp add: tracked_pass_def act_simps decide_tracked_def corrupt_keys_def prune_keys_def set_state_def Let_def
      List.map_filter_def review_turns_def)

text \<open>A world that is the number of ticks. Someone asked for a review; the search for contributions fails.\<close>

definition sample_pr :: search_issue where
  "sample_pr = \<lparr>si_number = 4, si_title = ''Fix'', si_body = None, si_user = ''ann'',
     si_repository_url = ''https://api.github.com/repos/o/r'', si_updated_at = ''t1'', si_labels = []\<rparr>"

definition sample_sha :: string where
  "sample_sha = ''0123456789012345678901234567890123456789''"

definition sample_git :: "nat git_host" where
  "sample_git = \<lparr>gh_root = ''/w'', gh_clone_base = ''https://github.com'',
     gh_git = (\<lambda>_ _ _ w. (Inr \<lparr>cmd_exit_code = 0, cmd_stdout = [], cmd_stderr = []\<rparr>, w)),
     gh_is_dir = (\<lambda>_ _. False), gh_is_file = (\<lambda>_ _. False),
     gh_remove_dir = (\<lambda>_ w. (Inr (), w)), gh_create_dirs = (\<lambda>_ w. (Inr (), w)),
     gh_epoch = (\<lambda>w. w), gh_warm = (\<lambda>_ w. w)\<rparr>"

definition sample_host :: "nat pr_host" where
  "sample_host = \<lparr>
     ph_search = (\<lambda>q w. (if q = ''is:pr is:open author:bot'' then Inr []
        else if q = ''is:pr is:open review-requested:bot'' then Inr [sample_pr]
        else Inl (GithubNetwork ''down''), w)),
     ph_pull = (\<lambda>_ _ w. (Inr \<lparr>pu_state = ''open'', pu_title = ''Fix'', pu_head_sha = sample_sha, pu_base_ref = ''main''\<rparr>, w)),
     ph_pull_reviews = (\<lambda>_ _ w. (Inr [], w)),
     ph_issue_comments = (\<lambda>_ _ w. (Inr [], w)),
     ph_pull_comments = (\<lambda>_ _ w. (Inr [], w)),
     ph_pull_commits = (\<lambda>_ _ w. (Inr [], w)),
     ph_pull_files = (\<lambda>_ _ w. (Inr [], w)),
     ph_findings = (\<lambda>_ _ w. (Inr [], w)),
     ph_git = sample_git,
     ph_send = (\<lambda>_ w. w), ph_save = (\<lambda>_ w. w), ph_load = (\<lambda>_. None),
     ph_now = (\<lambda>w. if w < 2 then ''t0'' else ''t2''), ph_wait = Suc\<rparr>"

definition sample_trust :: trust where
  "sample_trust = \<lparr>tr_owner = ''ann'', tr_users = [], tr_bots = []\<rparr>"

definition sample_view :: review_pr_view where
  "sample_view = \<lparr>rw_head_sha = sample_sha, rw_base_ref = ''main'', rw_commits = [], rw_files = []\<rparr>"

definition sample_dispatch :: review_dispatch where
  "sample_dispatch = \<lparr>rd_key = ''o/r#4'', rd_head_sha = sample_sha, rd_pr_number = 4, rd_repo = ''o/r'', rd_base = ''main'',
     rd_message = format_review_request sample_pr ''o/r'' sample_view ''reviews/o/r''\<rparr>"

definition sample_take_off :: poll_state where
  "sample_take_off = taking_off ''o/r#4'' sample_sha (starting_at ''t0'')"

definition sample_landed :: poll_state where
  "sample_landed = sample_take_off\<lparr>ps_in_flight := None\<rparr>"

lemma sample_search:
  "ph_search sample_host (''is:pr is:open author:'' @ ''bot'') w = (Inr [], w)"
  "ph_search sample_host (''is:pr is:open review-requested:'' @ ''bot'') w = (Inr [sample_pr], w)"
  "ph_search sample_host (contributed_query ''bot'') w = (Inl (GithubNetwork ''down''), w)"
  by (simp_all add: sample_host_def contributed_query_def)

lemma sample_decision:
  "decide_review_requests [\<lparr>rc_pr = sample_pr, rc_nwo = ''o/r'', rc_view = sample_view\<rparr>] [] ''bot'' sample_trust = [sample_dispatch]"
  by code_simp

lemma sample_checkout:
  "fst (review_prepare sample_git ''o/r'' 4 sample_sha ''main'' \<lparr>gs_world = 1, gs_log = []\<rparr>) = Inr ''reviews/o/r''"
  "gs_world (snd (review_prepare sample_git ''o/r'' 4 sample_sha ''main'' \<lparr>gs_world = 1, gs_log = []\<rparr>)) = 1"
  by code_simp+

lemma sample_review:
  "review_request_pass sample_host sample_trust ''bot'' \<lparr>pl_world = 1, pl_state = starting_at ''t0'', pl_trace = []\<rparr> =
    (Inr 1, \<lparr>pl_world = 1, pl_state = sample_landed,
      pl_trace = [Saved sample_take_off, Sent (turn_of sample_dispatch), Saved sample_landed]\<rparr>)"
proof -
  have nwo: "nwo_of sample_pr = Some ''o/r''" by code_simp
  have host: "ph_git sample_host = sample_git" "ph_pull sample_host r m w = (Inr \<lparr>pu_state = ''open'', pu_title = ''Fix'',
      pu_head_sha = sample_sha, pu_base_ref = ''main''\<rparr>, w)" "ph_pull_commits sample_host r m w = (Inr [], w)"
      "ph_pull_files sample_host r m w = (Inr [], w)" "ph_save sample_host s w = w" "ph_send sample_host t w = w" for r m w s t
    by (simp_all add: sample_host_def)
  obtain g where prep: "review_prepare sample_git ''o/r'' 4 sample_sha ''main'' \<lparr>gs_world = 1, gs_log = []\<rparr> =
      (Inr ''reviews/o/r'', g)" "gs_world g = 1"
    using sample_checkout by (metis prod.collapse)
  have "checkout_for sample_host sample_dispatch \<lparr>pl_world = 1, pl_state = st, pl_trace = tr\<rparr> =
      (Inr ''reviews/o/r'', \<lparr>pl_world = 1, pl_state = st, pl_trace = tr\<rparr>)" for st tr
    by (simp add: checkout_for_def ask_def host sample_dispatch_def prep [unfolded One_nat_def])
  then have "review_turn sample_host sample_dispatch \<lparr>pl_world = 1, pl_state = starting_at ''t0'', pl_trace = []\<rparr> =
      (Inr (Some ()), \<lparr>pl_world = 1, pl_state = sample_landed,
      pl_trace = [Saved sample_take_off, Sent (turn_of sample_dispatch), Saved sample_landed]\<rparr>)"
    by (simp add: review_turn_def otherwise_skip_def attempt_def act_simps set_state_def save_state_def send_turn_def
        host sample_landed_def sample_take_off_def taking_off_def turn_of_def sample_dispatch_def Let_def)
  then show ?thesis
    using sample_decision nwo sample_search
    by (simp add: review_request_pass_def list_review_requested_prs_def fetch_review_view_def ask_def act_simps
        otherwise_skip_def attempt_def host review_turns_def starting_at_def sample_view_def)
qed

lemma sample_tracked:
  "tracked_pass sample_host sample_trust ''bot'' \<lparr>pl_world = 1, pl_state = sample_landed, pl_trace = tr\<rparr> =
    (Inr 0, \<lparr>pl_world = 1, pl_state = sample_landed, pl_trace = tr\<rparr>)"
proof -
  have "tracking_key ''o/r'' 4 = ''o/r#4''" by code_simp
  then have key: "parse_tracking_key ''o/r#4'' = Some (''o/r'', 4)"
    using parse_tracking_key_key [of 4 "''o/r''"] by simp
  have state: "ps_reviewed sample_landed = [(''o/r#4'', sample_sha)]" by code_simp
  show ?thesis
    by (simp add: tracked_pass_def fetch_tracked_snapshot_def fetch_tracked_pr_def ask_def act_simps otherwise_skip_def
        attempt_def state key sample_host_def decide_tracked_def decide_one_def tracked_comments_def Let_def
        List.map_filter_def corrupt_keys_def prune_keys_def set_state_def review_turns_def)
qed

text \<open>
  C17: A crash loses no review and invents none. Cut the run of the poller anywhere: what the
  next start reads back and rolls back is exactly the last state saved between two turns.
  And no reviewer turn runs unrecorded: directly before it the head it reviews was saved
  with the value to fall back to, and directly after it the mark is lifted.
\<close>

theorem crash_recovers_settled_state:
  assumes "ps_in_flight st = None" and "om_ok (ps_reviewed st)"
    and "pl_trace (poll_ticks h trust login n \<lparr>pl_world = w, pl_state = st, pl_trace = []\<rparr>) = before @ after"
  shows "snd (roll_back_in_flight (persisted st before)) = settled st before
    \<and> (\<forall>t rest. after = Sent t # rest \<longrightarrow> gt_role t = Reviewer \<longrightarrow>
        (\<exists>key sha earlier later. before = earlier @ [Saved (taking_off key sha (settled st earlier))]
          \<and> rest = Saved ((taking_off key sha (settled st earlier))\<lparr>ps_in_flight := None\<rparr>) # later))"
proof -
  have "orderly_from st (poll_ticks h trust login n \<lparr>pl_world = w, pl_state = st, pl_trace = []\<rparr>)"
    using assms(1,2) by (intro orderly_ticks) (auto intro: orderly.start simp: quiet_def)
  then show ?thesis using assms(3) orderly_crash orderly_review by blast
qed

theorem crash_recovers_settled_state_witness:
  "case pl_trace (poll_ticks sample_host sample_trust ''bot'' 1 \<lparr>pl_world = 0, pl_state = starting_at ''t0'', pl_trace = []\<rparr>) of tr \<Rightarrow>
     tr = [Saved sample_take_off, Sent (turn_of sample_dispatch), Saved sample_landed]
     \<and> snd (roll_back_in_flight (persisted (starting_at ''t0'') (take 1 tr))) = settled (starting_at ''t0'') (take 1 tr)"
proof -
  have run: "pl_trace (poll_ticks sample_host sample_trust ''bot'' 1 \<lparr>pl_world = 0, pl_state = starting_at ''t0'', pl_trace = []\<rparr>) =
      [Saved sample_take_off, Sent (turn_of sample_dispatch), Saved sample_landed]"
    using sample_search sample_review sample_tracked
    by (simp add: numeral_eq_Suc poll_tick_def poll_once_def act_simps feedback_nothing contributed_fails sample_host_def)
  have "ps_in_flight (starting_at ''t0'') = None" "om_ok (ps_reviewed (starting_at ''t0''))"
    by (simp_all add: starting_at_def om_ok_def)
  from crash_recovers_settled_state [OF this, of sample_host sample_trust "''bot''" 1 0 "[Saved sample_take_off]"
      "[Sent (turn_of sample_dispatch), Saved sample_landed]"] run
  show ?thesis by simp
qed

end
