(* ===== verification/GitHub_Issues.thy ===== *)
theory GitHub_Issues
  imports GitHub_Types Git_Checkout
begin

text \<open>
  The issue poller (\<^verbatim>\<open>src/src/channel/github/issues.rs\<close>): what an issue turns into, the texts, and
  the decision for one tick. A \<open>BTreeSet\<close> of keys is a set, the map of plan comments a map. The
  plan brief, a document the build includes, is part of \<open>issue_rules\<close>, which holds what the
  configuration fixes for the life of the poller.
\<close>

section \<open>Data\<close>

datatype view_mode = Discussion bool | Work

record issue_view =
  iv_issue :: search_issue
  iv_nwo :: string
  iv_comments :: "issue_comment list"
  iv_mode :: view_mode

definition iv_key :: "issue_view \<Rightarrow> string" where
  "iv_key v = tracking_key (iv_nwo v) (si_number (iv_issue v))"

datatype turn_kind = DiscussionTurn | ExecutionTurn | PlanTurn

record issue_dispatch =
  xd_key :: string
  xd_nwo :: string
  xd_number :: nat
  xd_message :: string
  xd_kind :: turn_kind

record issue_state =
  is_last_poll :: string
  is_announced :: "string set"
  is_plan_comments :: "string \<rightharpoonup> nat"
  is_discussed :: "string set"

definition issues_starting_at :: "string \<Rightarrow> issue_state" where
  "issues_starting_at now = \<lparr>is_last_poll = now, is_announced = {}, is_plan_comments = Map.empty, is_discussed = {}\<rparr>"

record issue_rules =
  ir_login :: string
  ir_trust :: trust
  ir_plan_label :: string
  ir_plan_instructions :: string
  ir_repos :: "string list"

section \<open>Comments\<close>

definition wants_comments :: "search_issue \<Rightarrow> string \<Rightarrow> issue_state \<Rightarrow> view_mode \<Rightarrow> bool" where
  "wants_comments issue nwo st mode \<longleftrightarrow>
     (let changed = is_last_poll st < si_updated_at issue in
      case mode of
        Discussion _ \<Rightarrow> changed
      | Work \<Rightarrow> changed \<or> tracking_key nwo (si_number issue) \<notin> is_announced st)"

definition new_trusted_comments :: "issue_rules \<Rightarrow> issue_state \<Rightarrow> issue_view \<Rightarrow> issue_comment list" where
  "new_trusted_comments ru st v =
     filter (\<lambda>c. is_last_poll st < ic_created_at c \<and> ic_user c \<noteq> ir_login ru \<and> allows (ir_trust ru) (ic_user c))
       (iv_comments v)"

definition trusted_comments :: "issue_rules \<Rightarrow> issue_comment list \<Rightarrow> issue_comment list" where
  "trusted_comments ru = filter (\<lambda>c. ic_user c = ir_login ru \<or> allows (ir_trust ru) (ic_user c))"

section \<open>Texts\<close>

definition issue_title :: "issue_view \<Rightarrow> string" where
  "issue_title v = iv_key v @ '' '' @ [CHR 0x22] @ si_title (iv_issue v) @ [CHR 0x22]"

definition description :: "issue_view \<Rightarrow> string" where
  "description v = (case si_body (iv_issue v) of None \<Rightarrow> []
   | Some b \<Rightarrow> if b = [] then [] else newline @ ''Description:'' @ newline @ b @ newline)"

definition thread :: "issue_rules \<Rightarrow> string \<Rightarrow> issue_view \<Rightarrow> string" where
  "thread ru heading v = (let cs = trusted_comments ru (iv_comments v) in
     if cs = [] then []
     else newline @ heading @ newline @ concat (map (\<lambda>c. ''['' @ ic_user c @ ''] '' @ ic_body c @ newline) cs))"

definition issue_branch :: "issue_view \<Rightarrow> string" where
  "issue_branch v = ''kitaebot_issue-'' @ nat_str (si_number (iv_issue v)) @ ''_<short-summary>''"

definition closes :: "issue_view \<Rightarrow> string" where
  "closes v = [CHR 0x22] @ ''Closes #'' @ nat_str (si_number (iv_issue v)) @ [CHR 0x22]"

definition format_new_issue :: "issue_rules \<Rightarrow> issue_view \<Rightarrow> string" where
  "format_new_issue ru v =
     ''GitHub issue '' @ issue_title v @ '' was assigned to you.'' @ newline @ description v @
     thread ru ''Existing comments:'' v @ newline @ ir_plan_instructions ru @ newline"

definition format_new_issue_execute :: "issue_rules \<Rightarrow> issue_view \<Rightarrow> string" where
  "format_new_issue_execute ru v =
     ''GitHub issue '' @ issue_title v @ '' was assigned to you for direct execution '' @
     ''(no plan requested).'' @ newline @ description v @ thread ru ''Existing comments:'' v @ newline @
     ''Implement it end-to-end: create a branch named '' @ issue_branch v @ '', '' @
     ''implement, test, commit, push, and open a PR whose description '' @
     ''includes '' @ closes v @ '' so merging it closes this issue. '' @
     ''On success reply with one line at most; the PR cross-references '' @
     ''itself on the ticket. Be detailed only if something failed or '' @
     ''needs a decision. If the ticket turns out underspecified or '' @
     ''materially larger than it reads, stop before implementing and '' @
     ''reply with your plan or questions instead '' @ em_dash @ '' your reply is posted '' @
     ''verbatim as a comment on the ticket.'' @ newline"

definition format_issue_comment :: "issue_view \<Rightarrow> issue_comment \<Rightarrow> nat option \<Rightarrow> string" where
  "format_issue_comment v c plan_comment =
     ''Comment on GitHub issue '' @ issue_title v @ '' by @'' @ ic_user c @ '':'' @ newline @
     newline @ ic_body c @ newline @
     (case Option.bind plan_comment (\<lambda>i. find (\<lambda>p. ic_id p = i) (iv_comments v)) of
        None \<Rightarrow> []
      | Some plan \<Rightarrow> newline @ ''Your current plan (comment id '' @ nat_str (ic_id plan) @ ''):'' @ newline @
          newline @ ic_body plan @ newline) @
     newline @ ''If this approves your plan, execute it end-to-end: create a '' @
     ''branch named '' @ issue_branch v @ '', implement, test, commit, push, and open a '' @
     ''PR whose description includes '' @ closes v @ '' so merging it '' @
     ''closes this issue. On success reply with one line at most; the PR '' @
     ''cross-references itself on the ticket. Be detailed only if '' @
     ''something failed or needs a decision.'' @ newline @
     (case plan_comment of
        Some i \<Rightarrow> newline @ ''If the comment is feedback on the plan instead, engage '' @
          ''with it like a colleague '' @ em_dash @ '' your reply is posted verbatim '' @
          ''as a comment, and some prose discussing the request is '' @
          ''welcome. Where the feedback improves the plan, revise the '' @
          ''plan in place with github_comment_update (your plan is '' @
          ''comment id '' @ nat_str i @ ''; the edit history shows the reviewer what '' @
          ''changed) and summarize the change in your reply. Where you '' @
          ''disagree, push back with your reasoning and leave the plan '' @
          ''unchanged on that point '' @ em_dash @ '' do not adopt changes you believe '' @
          ''are wrong just to comply.'' @ newline
      | None \<Rightarrow> newline @ ''If the comment is feedback instead, revise your plan and '' @
          ''reply with the updated plan.'' @ newline)"

definition discussion_instructions :: "bool \<Rightarrow> string" where
  "discussion_instructions closed =
     (if closed then
        ''This issue is closed, so the comments are disposition on '' @
        ''finished work '' @ em_dash @ '' how a human resolved or judged it. Take note '' @
        ''of anything that should change how you work, and reply '' @
        ''briefly; your reply is posted verbatim as a comment. Do not '' @
        ''reopen the issue or start any work.''
      else
        ''This is discussion, not an assignment. Reply as a peer: '' @
        ''engage with the comments, answer questions, and where a '' @
        ''comment changes your mind about the issue's direction, say so '' @
        ''concretely '' @ em_dash @ '' your reply is posted verbatim as a comment on '' @
        ''the issue. Where you disagree, push back with your reasoning '' @
        ''rather than complying. Do not create branches, commit, open '' @
        ''PRs, or start implementing; assignment is the gate for work. '' @
        ''If the discussion settles the direction, state it plainly so '' @
        ''a later assignment starts from it.'')"

definition state_word :: "bool \<Rightarrow> string" where
  "state_word closed = (if closed then ''closed '' else [])"

definition format_discussion :: "issue_rules \<Rightarrow> issue_view \<Rightarrow> bool \<Rightarrow> string" where
  "format_discussion ru v closed =
     ''New discussion on '' @ state_word closed @ ''GitHub issue '' @ issue_title v @
     '' (not assigned to you).'' @ newline @ description v @ thread ru ''Comments:'' v @
     newline @ discussion_instructions closed @ newline"

definition format_discussion_comment :: "issue_view \<Rightarrow> issue_comment \<Rightarrow> bool \<Rightarrow> string" where
  "format_discussion_comment v c closed =
     ''Comment on '' @ state_word closed @ ''GitHub issue '' @ issue_title v @ '' by @'' @ ic_user c @
     '' (discussion; not assigned to you):'' @ newline @ newline @ ic_body c @ newline @
     newline @ discussion_instructions closed @ newline"

section \<open>Decisions\<close>

definition dispatch_for :: "issue_view \<Rightarrow> string \<Rightarrow> turn_kind \<Rightarrow> issue_dispatch" where
  "dispatch_for v message kind = \<lparr>xd_key = iv_key v, xd_nwo = iv_nwo v, xd_number = si_number (iv_issue v),
     xd_message = message, xd_kind = kind\<rparr>"

definition work_dispatches :: "issue_rules \<Rightarrow> issue_state \<Rightarrow> issue_view \<Rightarrow> issue_dispatch list" where
  "work_dispatches ru st v =
     (if iv_key v \<notin> is_announced st then
        (if has_label (iv_issue v) (ir_plan_label ru) then [dispatch_for v (format_new_issue ru v) PlanTurn]
         else [dispatch_for v (format_new_issue_execute ru v) ExecutionTurn])
      else map (\<lambda>c. dispatch_for v (format_issue_comment v c (is_plan_comments st (iv_key v))) ExecutionTurn)
             (new_trusted_comments ru st v))"

definition is_closed_view :: "issue_view \<Rightarrow> bool" where
  "is_closed_view v \<longleftrightarrow> iv_mode v = Discussion True"

definition discussion_dispatches :: "issue_rules \<Rightarrow> issue_state \<Rightarrow> issue_view \<Rightarrow> issue_dispatch list" where
  "discussion_dispatches ru st v =
     (let fresh = new_trusted_comments ru st v; closed = is_closed_view v in
      if fresh = [] then []
      else if iv_key v \<in> is_discussed st
      then map (\<lambda>c. dispatch_for v (format_discussion_comment v c closed) DiscussionTurn) fresh
      else [dispatch_for v (format_discussion ru v closed) DiscussionTurn])"

definition stays_discussed :: "issue_rules \<Rightarrow> issue_state \<Rightarrow> issue_view \<Rightarrow> bool" where
  "stays_discussed ru st v \<longleftrightarrow> new_trusted_comments ru st v \<noteq> [] \<or> iv_key v \<in> is_discussed st"

definition decide_events :: "issue_rules \<Rightarrow> issue_state \<Rightarrow> issue_view list \<Rightarrow> string \<Rightarrow> issue_dispatch list \<times> issue_state" where
  "decide_events ru st views now =
     (let work = filter (\<lambda>v. iv_mode v = Work) views;
          announced = set (map iv_key work);
          discussion = filter (\<lambda>v. iv_mode v \<noteq> Work \<and> iv_key v \<notin> announced) views
      in (concat (map (work_dispatches ru st) work) @ concat (map (discussion_dispatches ru st) discussion),
          \<lparr>is_last_poll = now, is_announced = announced,
           is_plan_comments = (\<lambda>k. if k \<in> announced then is_plan_comments st k else None),
           is_discussed = set (map iv_key (filter (stays_discussed ru st) discussion))\<rparr>))"

section \<open>The host\<close>

record 'w issue_host =
  ih_search :: "string \<Rightarrow> 'w \<Rightarrow> (github_error + search_issue list) \<times> 'w"
  ih_comments :: "string \<Rightarrow> nat \<Rightarrow> 'w \<Rightarrow> (github_error + issue_comment list) \<times> 'w"
  ih_create :: "string \<Rightarrow> nat \<Rightarrow> string \<Rightarrow> 'w \<Rightarrow> (github_error + issue_comment) \<times> 'w"
  ih_git :: "'w git_host"
  ih_send :: "issue_dispatch \<Rightarrow> string \<Rightarrow> 'w \<Rightarrow> (string + string) \<times> 'w"
  ih_sleep :: "nat \<Rightarrow> 'w \<Rightarrow> 'w"
  ih_save :: "issue_state \<Rightarrow> 'w \<Rightarrow> 'w"
  ih_load :: "'w \<Rightarrow> issue_state option"
  ih_now :: "'w \<Rightarrow> string"
  ih_wait :: "'w \<Rightarrow> 'w"

datatype issue_event =
    IssueTurn issue_dispatch string
  | PostTried string nat string "github_error + issue_comment"
  | Slept nat
  | SavedIssues issue_state

record 'w issue_poller =
  ip_world :: 'w
  ip_state :: issue_state
  ip_trace :: "issue_event list"

type_synonym ('w, 'a) issue_action = "('w issue_poller, github_error, 'a) action"

definition issue_call :: "('w \<Rightarrow> (github_error + 'a) \<times> 'w) \<Rightarrow> ('w, 'a) issue_action" where
  "issue_call f p = (case f (ip_world p) of (r, w) \<Rightarrow> (r, p\<lparr>ip_world := w\<rparr>))"

section \<open>Fetching\<close>

fun act_fold :: "('x \<Rightarrow> 'a \<Rightarrow> ('s, 'e, 'a) action) \<Rightarrow> 'x list \<Rightarrow> 'a \<Rightarrow> ('s, 'e, 'a) action" where
  "act_fold f [] a = act_return a"
| "act_fold f (x # xs) a = act_bind (f x a) (act_fold f xs)"

definition searches :: "string \<Rightarrow> string \<Rightarrow> (string \<times> view_mode) list" where
  "searches login cursor =
     [(''is:issue is:open assignee:'' @ login, Work),
      (''is:issue is:open author:'' @ login @ '' -assignee:'' @ login @ '' updated:>'' @ cursor, Discussion False),
      (''is:issue is:closed author:'' @ login @ '' updated:>'' @ cursor, Discussion True),
      (''is:issue is:open mentions:'' @ login @ '' -assignee:'' @ login @ '' -author:'' @ login @
         '' updated:>'' @ cursor, Discussion False)]"

definition fetch_issue ::
  "'w issue_host \<Rightarrow> issue_rules \<Rightarrow> issue_state \<Rightarrow> view_mode \<Rightarrow> search_issue \<Rightarrow> issue_view list \<times> string set \<Rightarrow>
   ('w, issue_view list \<times> string set) issue_action" where
  "fetch_issue h ru st mode issue = (\<lambda>(views, seen).
     case nwo_of issue of
       None \<Rightarrow> act_return (views, seen)
     | Some nwo \<Rightarrow>
         (let key = tracking_key nwo (si_number issue) in
          if nwo \<notin> set (ir_repos ru) \<or> key \<in> seen then act_return (views, seen)
          else act_bind (if wants_comments issue nwo st mode then issue_call (ih_comments h nwo (si_number issue))
                         else act_return [])
            (\<lambda>comments. act_return
              (views @ [\<lparr>iv_issue = issue, iv_nwo = nwo, iv_comments = comments, iv_mode = mode\<rparr>], insert key seen))))"

definition fetch_search ::
  "'w issue_host \<Rightarrow> issue_rules \<Rightarrow> issue_state \<Rightarrow> string \<times> view_mode \<Rightarrow> issue_view list \<times> string set \<Rightarrow>
   ('w, issue_view list \<times> string set) issue_action" where
  "fetch_search h ru st = (\<lambda>(query, mode) acc.
     act_bind (issue_call (ih_search h query)) (\<lambda>issues. act_fold (fetch_issue h ru st mode) issues acc))"

definition fetch_views :: "'w issue_host \<Rightarrow> issue_rules \<Rightarrow> issue_state \<Rightarrow> ('w, issue_view list) issue_action" where
  "fetch_views h ru st =
     act_bind (act_fold (fetch_search h ru st) (searches (ir_login ru) (is_last_poll st)) ([], {}))
       (\<lambda>(views, _). act_return views)"

section \<open>Dispatch\<close>

definition POST_RETRIES :: nat where "POST_RETRIES = 3"

definition issue_transient :: "github_error \<Rightarrow> bool" where
  "issue_transient e = (case e of
     GithubApi status _ \<Rightarrow> 500 \<le> status \<and> status \<le> 599
   | GithubDeserialize _ \<Rightarrow> False
   | GithubNetwork _ \<Rightarrow> True
   | GithubRateLimited _ _ _ \<Rightarrow> True)"

definition post_once :: "'w issue_host \<Rightarrow> string \<Rightarrow> nat \<Rightarrow> string \<Rightarrow> ('w, issue_comment) issue_action" where
  "post_once h nwo number body p = (case ih_create h nwo number body (ip_world p) of
     (r, w) \<Rightarrow> (r, p\<lparr>ip_world := w, ip_trace := ip_trace p @ [PostTried nwo number body r]\<rparr>))"

definition sleep_secs_then :: "'w issue_host \<Rightarrow> nat \<Rightarrow> 'w issue_poller \<Rightarrow> 'w issue_poller" where
  "sleep_secs_then h secs p = p\<lparr>ip_world := ih_sleep h secs (ip_world p), ip_trace := ip_trace p @ [Slept secs]\<rparr>"

function post_attempts :: "'w issue_host \<Rightarrow> string \<Rightarrow> nat \<Rightarrow> string \<Rightarrow> nat \<Rightarrow> ('w, issue_comment) issue_action" where
  "post_attempts h nwo number body attempts p = (case post_once h nwo number body p of
     (Inr posted, p') \<Rightarrow> (Inr posted, p')
   | (Inl e, p') \<Rightarrow>
       if attempts < POST_RETRIES \<and> issue_transient e
       then post_attempts h nwo number body (Suc attempts) (sleep_secs_then h (2 ^ attempts) p')
       else (Inl e, p'))"
  by pat_completeness auto
termination by (relation "measure (\<lambda>(_, _, _, _, attempts, _). POST_RETRIES - attempts)") auto

definition post_comment :: "'w issue_host \<Rightarrow> string \<Rightarrow> nat \<Rightarrow> string \<Rightarrow> ('w, issue_comment) issue_action" where
  "post_comment h nwo number body = post_attempts h nwo number body 0"

definition checkout_note :: "'w issue_host \<Rightarrow> issue_dispatch \<Rightarrow> ('w, string option) issue_action" where
  "checkout_note h d p =
     (if xd_kind d \<noteq> ExecutionTurn then (Inr None, p)
      else case execution_prepare (ih_git h) (xd_nwo d) \<lparr>gs_world = ip_world p, gs_log = []\<rparr> of
        (r, g) \<Rightarrow> (Inr (Some (case r of Inl _ \<Rightarrow> CLONE_YOURSELF | Inr prep \<Rightarrow> ready_note prep)),
                  p\<lparr>ip_world := gs_world g\<rparr>))"

definition run_issue_turn :: "'w issue_host \<Rightarrow> issue_dispatch \<Rightarrow> string \<Rightarrow> ('w, string) issue_action" where
  "run_issue_turn h d message p = (case ih_send h d message (ip_world p) of
     (r, w) \<Rightarrow> (Inr (case r of Inl e \<Rightarrow> e | Inr reply \<Rightarrow> reply),
       p\<lparr>ip_world := w, ip_trace := ip_trace p @ [IssueTurn d message]\<rparr>))"

text \<open>The id of the posted comment, for an announcement that asked for a plan.\<close>

definition dispatch_issue :: "'w issue_host \<Rightarrow> issue_dispatch \<Rightarrow> ('w, nat option) issue_action" where
  "dispatch_issue h d =
     act_bind (checkout_note h d) (\<lambda>note.
       act_bind (run_issue_turn h d (case note of Some n \<Rightarrow> xd_message d @ newline @ newline @ n | None \<Rightarrow> xd_message d)) (\<lambda>body.
         \<lambda>p. case post_comment h (xd_nwo d) (xd_number d) body p of
           (Inr posted, p') \<Rightarrow> (Inr (if xd_kind d = PlanTurn then Some (ic_id posted) else None), p')
         | (Inl _, p') \<Rightarrow> (Inr None, p')))"

section \<open>The loop\<close>

definition dispatch_step :: "'w issue_host \<Rightarrow> issue_dispatch \<Rightarrow> issue_state \<Rightarrow> ('w, issue_state) issue_action" where
  "dispatch_step h d next = act_bind (dispatch_issue h d) (\<lambda>r. act_return (case r of
     None \<Rightarrow> next | Some i \<Rightarrow> next\<lparr>is_plan_comments := (is_plan_comments next)(xd_key d \<mapsto> i)\<rparr>))"

definition issues_save :: "'w issue_host \<Rightarrow> issue_state \<Rightarrow> 'w issue_poller \<Rightarrow> 'w issue_poller" where
  "issues_save h st p = p\<lparr>ip_world := ih_save h st (ip_world p), ip_state := st, ip_trace := ip_trace p @ [SavedIssues st]\<rparr>"

definition issues_start :: "'w issue_host \<Rightarrow> 'w \<Rightarrow> 'w issue_poller" where
  "issues_start h w = \<lparr>ip_world = w, ip_state = (case ih_load h w of Some st \<Rightarrow> st | None \<Rightarrow> issues_starting_at (ih_now h w)),
     ip_trace = []\<rparr>"

definition issues_tick :: "'w issue_host \<Rightarrow> issue_rules \<Rightarrow> 'w issue_poller \<Rightarrow> 'w issue_poller" where
  "issues_tick h ru p0 =
     (case fetch_views h ru (ip_state p0) (p0\<lparr>ip_world := ih_wait h (ip_world p0)\<rparr>) of
        (Inl _, p) \<Rightarrow> p
      | (Inr views, p) \<Rightarrow>
          (case decide_events ru (ip_state p) views (ih_now h (ip_world p)) of
             (dispatches, next) \<Rightarrow>
               (case act_fold (dispatch_step h) dispatches next p of
                  (Inl _, p') \<Rightarrow> p'
                | (Inr next', p') \<Rightarrow> issues_save h next' p')))"

fun issues_ticks :: "'w issue_host \<Rightarrow> issue_rules \<Rightarrow> nat \<Rightarrow> 'w issue_poller \<Rightarrow> 'w issue_poller" where
  "issues_ticks h ru 0 p = p"
| "issues_ticks h ru (Suc n) p = issues_tick h ru (issues_ticks h ru n p)"

end
