(* ===== verification/GitHub_Issues_Correct.thy ===== *)
theory GitHub_Issues_Correct
  imports GitHub_Issues
begin

text \<open>
  What the issue poller guarantees: only assigned issues of configured repositories get a work
  turn, a recorded plan is the bot's own comment, a reply is posted at most four times; and two
  ways in which its cursor falls short.
\<close>

declare post_attempts.simps [simp del]

section \<open>Posting\<close>

definition failed_posts :: "string \<Rightarrow> nat \<Rightarrow> string \<Rightarrow> nat \<Rightarrow> github_error list \<Rightarrow> issue_event list" where
  "failed_posts nwo number body from es =
     concat (map (\<lambda>(i, e). [PostTried nwo number body (Inl e), Slept (2 ^ i)]) (zip [from..<from + length es] es))"

lemma failed_posts_simps [simp]:
  "failed_posts nwo n body from [] = []"
  "failed_posts nwo n body from (e # es) = PostTried nwo n body (Inl e) # Slept (2 ^ from) # failed_posts nwo n body (Suc from) es"
  by (simp_all add: failed_posts_def upt_conv_Cons del: upt_Suc)

lemma post_attempts_trace:
  "attempts \<le> POST_RETRIES \<Longrightarrow> \<exists>es. attempts + length es \<le> POST_RETRIES \<and> list_all issue_transient es
     \<and> (case post_attempts h nwo n body attempts p of (r, p') \<Rightarrow>
          ip_trace p' = ip_trace p @ failed_posts nwo n body attempts es @ [PostTried nwo n body r]
          \<and> (\<forall>e. r = Inl e \<longrightarrow> attempts + length es = POST_RETRIES \<or> \<not> issue_transient e))"
proof (induction h nwo n body attempts p rule: post_attempts.induct)
  case (1 h nwo n body attempts p)
  obtain r p' where once: "post_once h nwo n body p = (r, p')" by fastforce
  then have tr: "ip_trace p' = ip_trace p @ [PostTried nwo n body r]"
    by (auto simp: post_once_def split: prod.splits)
  show ?case
  proof (cases "\<exists>e. r = Inl e \<and> attempts < POST_RETRIES \<and> issue_transient e")
    case True
    then obtain e where e: "r = Inl e" "attempts < POST_RETRIES" "issue_transient e" by blast
    obtain es where es: "Suc attempts + length es \<le> POST_RETRIES" "list_all issue_transient es"
      "case post_attempts h nwo n body (Suc attempts) (sleep_secs_then h (2 ^ attempts) p') of (r, q) \<Rightarrow>
          ip_trace q = ip_trace (sleep_secs_then h (2 ^ attempts) p') @ failed_posts nwo n body (Suc attempts) es @ [PostTried nwo n body r]
          \<and> (\<forall>e. r = Inl e \<longrightarrow> Suc attempts + length es = POST_RETRIES \<or> \<not> issue_transient e)"
      using 1 once e by fastforce
    then show ?thesis
      using tr e once by (intro exI [of _ "e # es"]) (auto simp: post_attempts.simps [of _ _ _ _ attempts] sleep_secs_then_def)
  next
    case False
    then show ?thesis
      using tr once 1(2) by (intro exI [of _ "[]"])
        (auto simp: post_attempts.simps [of _ _ _ _ attempts] split: sum.splits)
  qed
qed

text \<open>
  C22: A reply is posted once, after at most three tries that failed for a transient reason,
  with waits of one, two and four seconds. An error is given up on only when it is not
  transient or came after the third retry.
\<close>

theorem replies_are_posted_once:
  "\<exists>es. length es \<le> 3 \<and> list_all issue_transient es
     \<and> (case post_comment h nwo n body p of (r, p') \<Rightarrow>
          ip_trace p' = ip_trace p @ failed_posts nwo n body 0 es @ [PostTried nwo n body r]
          \<and> (case r of Inl e \<Rightarrow> (if issue_transient e then length es = 3 else True) | Inr posted \<Rightarrow> True))"
  using post_attempts_trace [where attempts = 0 and h = h and nwo = nwo and n = n and body = body and p = p]
  by (fastforce simp: post_comment_def POST_RETRIES_def split: prod.splits sum.splits)

section \<open>Folds over actions\<close>

lemma hoare_fold:
  "(\<And>x a. x \<in> set xs \<Longrightarrow> hoare (Q a) (f x a) Q E) \<Longrightarrow> hoare (Q a) (act_fold f xs a) Q E"
proof (induction xs arbitrary: a)
  case (Cons x xs)
  have "hoare (Q a) (f x a) Q E" using Cons.prems by simp
  moreover have "hoare (Q b) (act_fold f xs b) Q E" for b using Cons by simp
  ultimately show ?case unfolding act_fold.simps by (rule hoare_bind)
qed (simp add: hoare_return)

lemma hoare_fold_from:
  assumes "P a" and "\<And>x a. x \<in> set xs \<Longrightarrow> P a \<Longrightarrow> hoare I (f x a) (\<lambda>b p. I p \<and> P b) (\<lambda>_. I)"
  shows "hoare I (act_fold f xs a) (\<lambda>b p. I p \<and> P b) (\<lambda>_. I)"
proof -
  have "hoare (\<lambda>p. I p \<and> P a) (f x a) (\<lambda>b p. I p \<and> P b) (\<lambda>_. I)" if "x \<in> set xs" for x a
    using assms(2) [OF that] by (auto simp: hoare_def)
  then have "hoare (\<lambda>p. I p \<and> P a) (act_fold f xs a) (\<lambda>b p. I p \<and> P b) (\<lambda>_. I)" by (rule hoare_fold)
  then show ?thesis using assms(1) by (simp add: hoare_def)
qed

section \<open>What a fetch returns\<close>

definition assigned :: "'w issue_host \<Rightarrow> issue_rules \<Rightarrow> search_issue \<Rightarrow> string \<Rightarrow> bool" where
  "assigned h ru issue nwo \<longleftrightarrow> nwo_of issue = Some nwo \<and> nwo \<in> set (ir_repos ru)
     \<and> (\<exists>w issues. fst (ih_search h (''is:issue is:open assignee:'' @ ir_login ru) w) = Inr issues \<and> issue \<in> set issues)"

definition work_ok :: "'w issue_host \<Rightarrow> issue_rules \<Rightarrow> issue_view \<Rightarrow> bool" where
  "work_ok h ru v \<longleftrightarrow> (iv_mode v = Work \<longrightarrow> assigned h ru (iv_issue v) (iv_nwo v))"

lemma call_keeps: "hoare (\<lambda>p. ip_state p = st \<and> ip_trace p = tr) (issue_call f)
    (\<lambda>a p. (ip_state p = st \<and> ip_trace p = tr) \<and> (\<exists>w. fst (f w) = Inr a)) (\<lambda>_ p. ip_state p = st \<and> ip_trace p = tr)"
proof (rule hoareI)
  fix p a p' assume "ip_state p = st \<and> ip_trace p = tr" and "issue_call f p = (Inr a, p')"
  then show "(ip_state p' = st \<and> ip_trace p' = tr) \<and> (\<exists>w. fst (f w) = Inr a)"
    by (auto simp: issue_call_def split: prod.splits intro!: exI [of _ "ip_world p"])
qed (auto simp: issue_call_def split: prod.splits)

lemma fetch_issue_ok:
  assumes "list_all (work_ok h ru) (fst acc)"
    and "mode = Work \<Longrightarrow> \<exists>w issues. fst (ih_search h (''is:issue is:open assignee:'' @ ir_login ru) w) = Inr issues \<and> issue \<in> set issues"
  shows "hoare (\<lambda>p. ip_state p = s \<and> ip_trace p = tr) (fetch_issue h ru st mode issue acc)
    (\<lambda>b p. (ip_state p = s \<and> ip_trace p = tr) \<and> list_all (work_ok h ru) (fst b)) (\<lambda>_ p. ip_state p = s \<and> ip_trace p = tr)"
proof (cases "\<exists>nwo. nwo_of issue = Some nwo \<and> nwo \<in> set (ir_repos ru) \<and> tracking_key nwo (si_number issue) \<notin> snd acc")
  case True
  then obtain nwo where nwo: "nwo_of issue = Some nwo" "nwo \<in> set (ir_repos ru)" "tracking_key nwo (si_number issue) \<notin> snd acc" by blast
  let ?I = "\<lambda>p. ip_state p = s \<and> ip_trace p = tr"
  have new: "work_ok h ru \<lparr>iv_issue = issue, iv_nwo = nwo, iv_comments = cs, iv_mode = mode\<rparr>" for cs
    using assms(2) nwo by (auto simp: work_ok_def assigned_def)
  have get: "hoare ?I (if b then issue_call f else act_return []) (\<lambda>_. ?I) (\<lambda>_. ?I)" for b f
    by (cases b) (auto intro: hoare_weaken [OF call_keeps] hoare_return)
  have "fetch_issue h ru st mode issue acc = act_bind (if wants_comments issue nwo st mode then issue_call (ih_comments h nwo (si_number issue))
      else act_return []) (\<lambda>comments. act_return (fst acc @ [\<lparr>iv_issue = issue, iv_nwo = nwo, iv_comments = comments, iv_mode = mode\<rparr>],
      insert (tracking_key nwo (si_number issue)) (snd acc)))"
    using nwo by (cases acc) (simp add: fetch_issue_def Let_def)
  moreover have "hoare ?I \<dots> (\<lambda>b p. ?I p \<and> list_all (work_ok h ru) (fst b)) (\<lambda>_. ?I)"
    by (rule hoare_bind [OF get]) (use assms(1) new in \<open>auto intro!: hoare_return\<close>)
  ultimately show ?thesis by simp
next
  case False
  then have "fetch_issue h ru st mode issue acc = act_return acc"
    by (auto simp: fetch_issue_def Let_def split: prod.split option.split)
  then show ?thesis using assms(1) by (simp add: hoare_return)
qed

lemma fetch_views_ok:
  "hoare (\<lambda>p. ip_state p = s \<and> ip_trace p = tr) (fetch_views h ru st)
    (\<lambda>views p. (ip_state p = s \<and> ip_trace p = tr) \<and> list_all (work_ok h ru) views) (\<lambda>_ p. ip_state p = s \<and> ip_trace p = tr)"
proof -
  let ?I = "\<lambda>p. ip_state p = s \<and> ip_trace p = tr" and ?P = "\<lambda>acc :: issue_view list \<times> string set. list_all (work_ok h ru) (fst acc)"
  have one: "hoare ?I (fetch_search h ru st qm acc) (\<lambda>b p. ?I p \<and> ?P b) (\<lambda>_. ?I)"
    if qm: "qm \<in> set (searches (ir_login ru) (is_last_poll st))" and acc: "?P acc" for qm acc
  proof -
    obtain q mode where [simp]: "qm = (q, mode)" by fastforce
    have "hoare (\<lambda>p. ?I p \<and> (\<exists>w. fst (ih_search h q w) = Inr issues))
        (act_fold (fetch_issue h ru st mode) issues acc) (\<lambda>b p. ?I p \<and> ?P b) (\<lambda>_. ?I)" for issues
    proof (cases "\<exists>w. fst (ih_search h q w) = Inr issues")
      case True
      have "hoare ?I (act_fold (fetch_issue h ru st mode) issues acc) (\<lambda>b p. ?I p \<and> ?P b) (\<lambda>_. ?I)"
      proof (rule hoare_fold_from [where P = ?P, OF acc])
        fix x a assume "x \<in> set issues" and "?P a"
        moreover have "q = ''is:issue is:open assignee:'' @ ir_login ru" if "mode = Work"
          using qm that by (auto simp: searches_def)
        ultimately show "hoare ?I (fetch_issue h ru st mode x a) (\<lambda>b p. ?I p \<and> ?P b) (\<lambda>_. ?I)"
          using True by (intro fetch_issue_ok) auto
      qed
      then show ?thesis by (rule hoare_weaken) auto
    qed (simp add: hoare_def)
    then show ?thesis unfolding fetch_search_def \<open>qm = (q, mode)\<close> prod.case by (rule hoare_bind [OF call_keeps])
  qed
  have "hoare ?I (act_fold (fetch_search h ru st) (searches (ir_login ru) (is_last_poll st)) ([], {}))
      (\<lambda>b p. ?I p \<and> ?P b) (\<lambda>_. ?I)"
    by (rule hoare_fold_from [where P = ?P]) (use one in auto)
  then show ?thesis unfolding fetch_views_def
    by (rule hoare_bind) (auto simp: hoare_def act_simps split: prod.splits)
qed

lemma decided_work:
  assumes "list_all (work_ok h ru) views" and "d \<in> set (fst (decide_events ru st views now))" and "xd_kind d \<noteq> DiscussionTurn"
  shows "\<exists>issue. assigned h ru issue (xd_nwo d) \<and> si_number issue = xd_number d
    \<and> xd_key d = tracking_key (xd_nwo d) (xd_number d) \<and> xd_key d \<in> is_announced (snd (decide_events ru st views now))"
proof -
  from assms(2,3) obtain v where v: "v \<in> set views" "iv_mode v = Work" "d \<in> set (work_dispatches ru st v)"
    by (auto simp: decide_events_def Let_def discussion_dispatches_def dispatch_for_def split: if_splits)
  then have "xd_nwo d = iv_nwo v" "xd_number d = si_number (iv_issue v)" "xd_key d = iv_key v"
    by (auto simp: work_dispatches_def dispatch_for_def split: if_splits)
  moreover have "assigned h ru (iv_issue v) (iv_nwo v)"
    using assms(1) v by (auto simp: list_all_iff work_ok_def)
  moreover have "iv_key v \<in> is_announced (snd (decide_events ru st views now))"
    using v by (auto simp: decide_events_def Let_def)
  ultimately show ?thesis by (auto simp: iv_key_def)
qed

section \<open>The trace of the poller\<close>

text \<open>
  Every work turn is for an assigned issue of a configured repository, a discussion turn gets
  no checkout, and the recorded plan of an issue is a comment the poller posted there after a
  plan turn.
\<close>

definition turn_ok :: "'w issue_host \<Rightarrow> issue_rules \<Rightarrow> issue_event \<Rightarrow> bool" where
  "turn_ok h ru e \<longleftrightarrow> (\<forall>d m. e = IssueTurn d m \<longrightarrow>
     (if xd_kind d = DiscussionTurn then m = xd_message d
      else \<exists>issue. assigned h ru issue (xd_nwo d) \<and> si_number issue = xd_number d))"

definition posted_plan :: "issue_event list \<Rightarrow> string \<Rightarrow> nat \<Rightarrow> bool" where
  "posted_plan tr key i \<longleftrightarrow> (\<exists>d m body c. IssueTurn d m \<in> set tr \<and> xd_kind d = PlanTurn \<and> xd_key d = key
     \<and> PostTried (xd_nwo d) (xd_number d) body (Inr c) \<in> set tr \<and> ic_id c = i)"

definition plans_ok :: "issue_state \<Rightarrow> issue_event list \<Rightarrow> bool" where
  "plans_ok st tr \<longleftrightarrow> (\<forall>k i. is_plan_comments st k = Some i \<longrightarrow> k \<in> is_announced st \<and> posted_plan tr k i)"

lemma posted_plan_mono: "posted_plan tr k i \<Longrightarrow> set tr \<subseteq> set tr' \<Longrightarrow> posted_plan tr' k i"
  unfolding posted_plan_def by blast

lemma plans_ok_mono: "plans_ok st tr \<Longrightarrow> set tr \<subseteq> set tr' \<Longrightarrow> plans_ok st tr'"
  unfolding plans_ok_def using posted_plan_mono by blast

lemma failed_posts_events: "e \<in> set (failed_posts nwo n body from es) \<Longrightarrow> (\<exists>x. e = PostTried nwo n body (Inl x)) \<or> (\<exists>k. e = Slept k)"
  by (auto simp: failed_posts_def)

lemma post_attempts_state: "ip_state (snd (post_attempts h nwo n body attempts p)) = ip_state p"
proof (induction h nwo n body attempts p rule: post_attempts.induct)
  case (1 h nwo n body attempts p)
  obtain r p' where once: "post_once h nwo n body p = (r, p')" by fastforce
  then have "ip_state p' = ip_state p" by (auto simp: post_once_def split: prod.splits)
  with 1 once show ?case
    by (auto simp: post_attempts.simps [of _ _ _ _ attempts] sleep_secs_then_def split: sum.splits)
qed

text \<open>What one dispatch adds to the trace.\<close>

lemma dispatch_issue_run:
  obtains m body posts r p' where "dispatch_issue h d p = (Inr r, p')" and "ip_state p' = ip_state p"
    and "ip_trace p' = ip_trace p @ IssueTurn d m # posts"
    and "xd_kind d = DiscussionTurn \<Longrightarrow> m = xd_message d"
    and "\<And>e. e \<in> set posts \<Longrightarrow> (\<exists>x. e = PostTried (xd_nwo d) (xd_number d) body x) \<or> (\<exists>k. e = Slept k)"
    and "\<And>i. r = Some i \<Longrightarrow> xd_kind d = PlanTurn \<and> (\<exists>c. PostTried (xd_nwo d) (xd_number d) body (Inr c) \<in> set posts \<and> ic_id c = i)"
proof -
  obtain nt w1 where nt: "checkout_note h d p = (Inr nt, p\<lparr>ip_world := w1\<rparr>)" "xd_kind d = DiscussionTurn \<Longrightarrow> nt = None"
  proof (cases "xd_kind d = ExecutionTurn")
    case True
    obtain r g where "execution_prepare (ih_git h) (xd_nwo d) \<lparr>gs_world = ip_world p, gs_log = []\<rparr> = (r, g)" by fastforce
    with True show ?thesis
      by (intro that [of "Some (case r of Inl _ \<Rightarrow> CLONE_YOURSELF | Inr prep \<Rightarrow> ready_note prep)" "gs_world g"])
        (simp_all add: checkout_note_def)
  next
    case False
    then show ?thesis by (intro that [of None "ip_world p"]) (auto simp: checkout_note_def)
  qed
  let ?m = "case nt of Some n \<Rightarrow> xd_message d @ newline @ newline @ n | None \<Rightarrow> xd_message d"
  obtain answer w2 where "ih_send h d ?m w1 = (answer, w2)" by fastforce
  then obtain body p2 where turn: "run_issue_turn h d ?m (p\<lparr>ip_world := w1\<rparr>) = (Inr body, p2)"
      "ip_state p2 = ip_state p" "ip_trace p2 = ip_trace p @ [IssueTurn d ?m]"
    by (simp add: run_issue_turn_def)
  obtain r p3 where post: "post_comment h (xd_nwo d) (xd_number d) body p2 = (r, p3)" by fastforce
  obtain es where es: "ip_trace p3 = ip_trace p2 @ failed_posts (xd_nwo d) (xd_number d) body 0 es @
      [PostTried (xd_nwo d) (xd_number d) body r]"
    using post_attempts_trace [where attempts = 0 and h = h and nwo = "xd_nwo d" and n = "xd_number d" and body = body and p = p2] post
    by (auto simp: post_comment_def)
  have state: "ip_state p3 = ip_state p2"
    using post_attempts_state [of h "xd_nwo d" "xd_number d" body 0 p2] post by (simp add: post_comment_def)
  let ?r = "case r of Inl _ \<Rightarrow> None | Inr posted \<Rightarrow> if xd_kind d = PlanTurn then Some (ic_id posted) else None"
  show ?thesis
  proof (rule that)
    show "dispatch_issue h d p = (Inr ?r, p3)"
      using nt turn post by (auto simp: dispatch_issue_def act_simps split: sum.split)
    show "ip_trace p3 = ip_trace p @ IssueTurn d ?m # (failed_posts (xd_nwo d) (xd_number d) body 0 es @
        [PostTried (xd_nwo d) (xd_number d) body r])" using es turn by simp
    show "(\<exists>x. e = PostTried (xd_nwo d) (xd_number d) body x) \<or> (\<exists>k. e = Slept k)"
      if "e \<in> set (failed_posts (xd_nwo d) (xd_number d) body 0 es @ [PostTried (xd_nwo d) (xd_number d) body r])" for e
      using that failed_posts_events by fastforce
  qed (use state turn nt in \<open>auto split: sum.splits if_splits\<close>)
qed

lemma dispatches_keep:
  assumes "\<And>d. d \<in> set ds \<Longrightarrow> xd_kind d \<noteq> DiscussionTurn \<Longrightarrow>
      (\<exists>issue. assigned h ru issue (xd_nwo d) \<and> si_number issue = xd_number d) \<and> xd_key d \<in> A"
    and "plans_ok next (ip_trace p)" and "is_announced next = A" and "list_all (turn_ok h ru) (ip_trace p)"
  shows "case act_fold (dispatch_step h) ds next p of (r, p') \<Rightarrow>
    ip_state p' = ip_state p \<and> list_all (turn_ok h ru) (ip_trace p') \<and> set (ip_trace p) \<subseteq> set (ip_trace p')
    \<and> (\<forall>st. r = Inr st \<longrightarrow> plans_ok st (ip_trace p'))"
  using assms
proof (induction ds arbitrary: "next" p)
  case (Cons d ds)
  from dispatch_issue_run [of h d p] obtain m body posts r p' where run: "dispatch_issue h d p = (Inr r, p')"
    and state: "ip_state p' = ip_state p" and tr: "ip_trace p' = ip_trace p @ IssueTurn d m # posts"
    and msg: "xd_kind d = DiscussionTurn \<Longrightarrow> m = xd_message d"
    and posts: "\<And>e. e \<in> set posts \<Longrightarrow> (\<exists>x. e = PostTried (xd_nwo d) (xd_number d) body x) \<or> (\<exists>k. e = Slept k)"
    and plan: "\<And>i. r = Some i \<Longrightarrow> xd_kind d = PlanTurn \<and> (\<exists>c. PostTried (xd_nwo d) (xd_number d) body (Inr c) \<in> set posts \<and> ic_id c = i)"
    by metis
  let ?next = "case r of None \<Rightarrow> next | Some i \<Rightarrow> next\<lparr>is_plan_comments := (is_plan_comments next)(xd_key d \<mapsto> i)\<rparr>"
  have step: "act_fold (dispatch_step h) (d # ds) next p = act_fold (dispatch_step h) ds ?next p'"
    by (simp add: dispatch_step_def act_simps run)
  have sub: "set (ip_trace p) \<subseteq> set (ip_trace p')" using tr by auto
  have "plans_ok ?next (ip_trace p')"
  proof (cases r)
    case None
    then show ?thesis using plans_ok_mono [OF Cons.prems(2) sub] by simp
  next
    case (Some i)
    have "posted_plan (ip_trace p') (xd_key d) i"
      using plan [OF Some] tr unfolding posted_plan_def by auto
    moreover have "xd_key d \<in> A" using Cons.prems(1) [of d] plan [OF Some] by simp
    ultimately show ?thesis
      using plans_ok_mono [OF Cons.prems(2) sub] Some Cons.prems(3) by (auto simp: plans_ok_def)
  qed
  moreover have "is_announced ?next = A" using Cons.prems(3) by (cases r) auto
  moreover have "list_all (turn_ok h ru) (ip_trace p')"
    using Cons.prems(4) Cons.prems(1) [of d] msg posts by (fastforce simp: tr turn_ok_def list_all_iff)
  ultimately show ?case
    using Cons.IH [of ?next p'] Cons.prems(1) state sub unfolding step by (auto split: prod.splits)
qed (auto simp: act_simps)

definition issues_ok :: "'w issue_host \<Rightarrow> issue_rules \<Rightarrow> 'w issue_poller \<Rightarrow> bool" where
  "issues_ok h ru p \<longleftrightarrow> list_all (turn_ok h ru) (ip_trace p) \<and> plans_ok (ip_state p) (ip_trace p)"

lemma issues_ok_tick:
  assumes "issues_ok h ru p0"
  shows "issues_ok h ru (issues_tick h ru p0)"
proof -
  let ?p0 = "p0\<lparr>ip_world := ih_wait h (ip_world p0)\<rparr>"
  obtain r p where fetch: "fetch_views h ru (ip_state p0) ?p0 = (r, p)" by fastforce
  have kept: "ip_state p = ip_state p0" "ip_trace p = ip_trace p0"
    and views: "\<And>views. r = Inr views \<Longrightarrow> list_all (work_ok h ru) views"
    using hoare_result [OF fetch_views_ok, of ?p0 "ip_state p0" "ip_trace p0" h ru "ip_state p0" r p] fetch
    by (auto split: sum.splits)
  show ?thesis
  proof (cases r)
    case (Inl e)
    then show ?thesis using assms kept fetch by (simp add: issues_tick_def issues_ok_def)
  next
    case (Inr views)
    let ?now = "ih_now h (ip_world p)"
    obtain ds "next" where dec: "decide_events ru (ip_state p) views ?now = (ds, next)" by fastforce
    have ds: "(\<exists>issue. assigned h ru issue (xd_nwo d) \<and> si_number issue = xd_number d) \<and> xd_key d \<in> is_announced next"
      if "d \<in> set ds" "xd_kind d \<noteq> DiscussionTurn" for d
      using decided_work [OF views [OF Inr], of d "ip_state p" ?now] that by (auto simp: dec)
    have "plans_ok next (ip_trace p)"
      using assms kept dec by (auto simp: issues_ok_def plans_ok_def decide_events_def Let_def split: if_splits)
    moreover have "list_all (turn_ok h ru) (ip_trace p)" using assms kept by (simp add: issues_ok_def)
    moreover obtain r' p' where run: "act_fold (dispatch_step h) ds next p = (r', p')" by fastforce
    ultimately have after: "ip_state p' = ip_state p" "list_all (turn_ok h ru) (ip_trace p')" "set (ip_trace p) \<subseteq> set (ip_trace p')"
        "\<And>st. r' = Inr st \<Longrightarrow> plans_ok st (ip_trace p')"
      using dispatches_keep [of ds h ru "is_announced next" "next" p, OF ds] by auto
    show ?thesis
    proof (cases r')
      case (Inl e)
      then show ?thesis
        using after fetch Inr dec run assms kept plans_ok_mono [of "ip_state p0" "ip_trace p0" "ip_trace p'"]
        by (simp add: issues_tick_def issues_ok_def)
    next
      case (Inr st)
      have "plans_ok st (ip_trace p' @ [SavedIssues st])"
        using after(4) [OF Inr] by (rule plans_ok_mono) auto
      then show ?thesis
        using after fetch \<open>r = Inr views\<close> Inr dec run
        by (simp add: issues_tick_def issues_ok_def issues_save_def turn_ok_def)
    qed
  qed
qed

text \<open>
  C19: Assignment is the gate for work. Over any number of ticks, whatever the searches, the
  agent and the posting do: each turn that may plan or implement is for an issue that the
  search for assigned issues returned, in a configured repository; a discussion turn gets its
  message without a checkout; and each recorded plan belongs to an announced issue and is a
  comment that was posted there after a plan turn for it.
\<close>

theorem assignment_is_the_gate:
  assumes "is_plan_comments st = Map.empty"
  shows "case issues_ticks h ru k \<lparr>ip_world = w, ip_state = st, ip_trace = []\<rparr> of p \<Rightarrow>
     (\<forall>e \<in> set (ip_trace p). turn_ok h ru e)
     \<and> (\<forall>key i. is_plan_comments (ip_state p) key = Some i \<longrightarrow> key \<in> is_announced (ip_state p) \<and> posted_plan (ip_trace p) key i)"
proof -
  have "issues_ok h ru (issues_ticks h ru k \<lparr>ip_world = w, ip_state = st, ip_trace = []\<rparr>)"
    by (induction k) (use assms in \<open>auto simp: issues_ok_tick\<close>, simp add: issues_ok_def plans_ok_def)
  then show ?thesis by (simp add: issues_ok_def plans_ok_def list_all_iff)
qed

section \<open>Sample issues\<close>

definition sample_issue :: "string \<Rightarrow> search_issue" where
  "sample_issue updated = \<lparr>si_number = 3, si_title = ''Bug'', si_body = None, si_user = ''ann'',
     si_repository_url = ''https://api.github.com/repos/o/r'', si_updated_at = updated, si_labels = [''plan'']\<rparr>"

definition sample_rules :: issue_rules where
  "sample_rules = \<lparr>ir_login = ''bot'', ir_trust = \<lparr>tr_owner = ''ann'', tr_users = [], tr_bots = []\<rparr>,
     ir_plan_label = ''plan'', ir_plan_instructions = ''Plan first.'', ir_repos = [''o/r'']\<rparr>"

definition late_comment :: issue_comment where
  "late_comment = \<lparr>ic_id = 9, ic_user = ''ann'', ic_body = ''go ahead'', ic_created_at = ''t1''\<rparr>"

text \<open>
  An assigned issue whose thread grows right after it was listed: the world counts the
  listings, and the clock shows \<open>t2\<close> when the listing is back.
\<close>

definition idle_git :: "nat git_host" where
  "idle_git = \<lparr>gh_root = ''/w'', gh_clone_base = ''https://github.com'',
     gh_git = (\<lambda>_ _ _ w. (Inr \<lparr>cmd_exit_code = 0, cmd_stdout = [], cmd_stderr = []\<rparr>, w)),
     gh_is_dir = (\<lambda>_ _. True), gh_is_file = (\<lambda>_ _. False),
     gh_remove_dir = (\<lambda>_ w. (Inr (), w)), gh_create_dirs = (\<lambda>_ w. (Inr (), w)),
     gh_epoch = (\<lambda>w. w), gh_warm = (\<lambda>_ w. w)\<rparr>"

definition racing_host :: "nat issue_host" where
  "racing_host = \<lparr>
     ih_search = (\<lambda>q w. (Inr (if q = ''is:issue is:open assignee:bot'' then [sample_issue (if w = 0 then ''t0'' else ''t1'')] else []), w)),
     ih_comments = (\<lambda>_ _ w. (Inr (if w = 0 then [] else [late_comment]), Suc w)),
     ih_create = (\<lambda>_ _ body w. (Inr \<lparr>ic_id = 5, ic_user = ''bot'', ic_body = body, ic_created_at = ''t2''\<rparr>, w)),
     ih_git = idle_git,
     ih_send = (\<lambda>_ _ w. (Inr ''reply'', w)), ih_sleep = (\<lambda>_ w. w), ih_save = (\<lambda>_ w. w), ih_load = (\<lambda>_. None),
     ih_now = (\<lambda>w. if w = 0 then ''t0'' else ''t2''), ih_wait = (\<lambda>w. w)\<rparr>"

lemma sample_key: "nwo_of (sample_issue u) = Some ''o/r''" "tracking_key ''o/r'' 3 = ''o/r#3''" "si_number (sample_issue u) = 3"
    "has_label (sample_issue u) ''plan''"
  by (simp_all add: sample_issue_def nwo_of_def) code_simp+

lemma assignment_is_the_gate_witness:
  "case issues_ticks racing_host sample_rules 1 \<lparr>ip_world = 0, ip_state = issues_starting_at ''a'', ip_trace = []\<rparr> of p \<Rightarrow>
     is_plan_comments (ip_state p) ''o/r#3'' = Some 5 \<and> posted_plan (ip_trace p) ''o/r#3'' 5"
proof -
  let ?p = "issues_ticks racing_host sample_rules 1 \<lparr>ip_world = 0, ip_state = issues_starting_at ''a'', ip_trace = []\<rparr>"
  have "is_plan_comments (ip_state ?p) ''o/r#3'' = Some 5"
    by (simp add: issues_tick_def fetch_views_def searches_def fetch_search_def fetch_issue_def issue_call_def
        act_simps sample_key wants_comments_def issues_starting_at_def racing_host_def sample_rules_def Let_def
        decide_events_def work_dispatches_def iv_key_def dispatch_for_def dispatch_step_def dispatch_issue_def checkout_note_def
        run_issue_turn_def post_comment_def post_attempts.simps post_once_def issues_save_def)
  then show ?thesis
    using assignment_is_the_gate [of "issues_starting_at ''a''" racing_host sample_rules 1 0]
    by (simp add: issues_starting_at_def)
qed

section \<open>What the cursor passes over\<close>

text \<open>
  A comment written while the poller is fetching is lost. The clock for the cursor is read
  after the listings: here the owner's comment arrives right after its issue was listed and
  before the clock is read. From the first tick on every listing shows it, and still no turn
  is ever run, however many ticks follow.
\<close>

theorem comment_during_fetch_is_lost:
  "case issues_ticks racing_host sample_rules (Suc k) \<lparr>ip_world = 0,
       ip_state = (issues_starting_at ''a'')\<lparr>is_announced := {''o/r#3''}\<rparr>, ip_trace = []\<rparr> of p \<Rightarrow>
     fst (ih_comments racing_host ''o/r'' 3 (ip_world p)) = Inr [late_comment]
     \<and> (\<forall>d m. IssueTurn d m \<notin> set (ip_trace p))"
proof -
  let ?st = "\<lparr>is_last_poll = ''t2'', is_announced = {''o/r#3''}, is_plan_comments = Map.empty, is_discussed = {}\<rparr>"
  let ?start = "\<lparr>ip_world = 0, ip_state = (issues_starting_at ''a'')\<lparr>is_announced := {''o/r#3''}\<rparr>, ip_trace = []\<rparr>"
  have less: "''a'' < ''t0''" "\<not> ''t2'' < ''t1''" by code_simp+
  note run = issues_tick_def fetch_views_def searches_def fetch_search_def fetch_issue_def issue_call_def
        act_simps sample_key wants_comments_def issues_starting_at_def racing_host_def sample_rules_def Let_def
        decide_events_def work_dispatches_def iv_key_def new_trusted_comments_def issues_save_def
  have first: "issues_tick racing_host sample_rules ?start = \<lparr>ip_world = 1, ip_state = ?st, ip_trace = [SavedIssues ?st]\<rparr>"
    using less by (simp add: run) (simp add: sample_issue_def fun_eq_iff)
  have again: "issues_tick racing_host sample_rules \<lparr>ip_world = 1, ip_state = ?st, ip_trace = tr\<rparr> =
      \<lparr>ip_world = 1, ip_state = ?st, ip_trace = tr @ [SavedIssues ?st]\<rparr>" for tr
    using less by (simp add: run) (simp add: sample_issue_def fun_eq_iff)
  have "\<exists>tr. issues_ticks racing_host sample_rules (Suc k) ?start = \<lparr>ip_world = 1, ip_state = ?st, ip_trace = tr\<rparr>
      \<and> (\<forall>d m. IssueTurn d m \<notin> set tr)"
  proof (induction k)
    case (Suc k)
    then obtain tr where tr: "issues_ticks racing_host sample_rules (Suc k) ?start = \<lparr>ip_world = 1, ip_state = ?st, ip_trace = tr\<rparr>"
      "\<forall>d m. IssueTurn d m \<notin> set tr" by blast
    then show ?case unfolding issues_ticks.simps(2) [of _ _ "Suc k"] tr(1) again by auto
  qed (simp add: first)
  then show ?thesis by (auto simp: racing_host_def)
qed

text \<open>
  A discussion that pauses starts over. An issue that one tick did not see is no longer
  counted as discussed, so its next comment is not dispatched on its own: the whole thread is
  embedded again, as for a discussion that never was.
\<close>

theorem paused_discussion_starts_over:
  assumes "iv_mode v \<noteq> Work" and "iv_key v \<in> is_discussed st" and "iv_key v \<notin> set (map iv_key views)"
    and "new_trusted_comments ru (snd (decide_events ru st views now)) v \<noteq> []"
  shows "fst (decide_events ru (snd (decide_events ru st views now)) [v] later) =
    [dispatch_for v (format_discussion ru v (is_closed_view v)) DiscussionTurn]"
proof -
  have "iv_key v \<notin> is_discussed (snd (decide_events ru st views now))"
    using assms(3) by (auto simp: decide_events_def Let_def)
  then show ?thesis
    using assms(1,4) by (simp add: decide_events_def [of ru _ "[v]"] Let_def discussion_dispatches_def)
qed

lemma paused_discussion_starts_over_witness:
  "fst (decide_events sample_rules \<lparr>is_last_poll = ''t0'', is_announced = {}, is_plan_comments = Map.empty, is_discussed = {}\<rparr>
      [\<lparr>iv_issue = sample_issue ''t1'', iv_nwo = ''o/r'', iv_comments = [late_comment], iv_mode = Discussion False\<rparr>] ''t3'') =
   [dispatch_for \<lparr>iv_issue = sample_issue ''t1'', iv_nwo = ''o/r'', iv_comments = [late_comment], iv_mode = Discussion False\<rparr>
     (format_discussion sample_rules \<lparr>iv_issue = sample_issue ''t1'', iv_nwo = ''o/r'', iv_comments = [late_comment], iv_mode = Discussion False\<rparr> False)
     DiscussionTurn]"
proof -
  let ?v = "\<lparr>iv_issue = sample_issue ''t1'', iv_nwo = ''o/r'', iv_comments = [late_comment], iv_mode = Discussion False\<rparr>"
  let ?st = "\<lparr>is_last_poll = ''a'', is_announced = {}, is_plan_comments = Map.empty, is_discussed = {iv_key ?v}\<rparr>"
  have next_st: "snd (decide_events sample_rules ?st [] ''t0'') =
      \<lparr>is_last_poll = ''t0'', is_announced = {}, is_plan_comments = Map.empty, is_discussed = {}\<rparr>"
    by (simp add: decide_events_def Let_def)
  have "new_trusted_comments sample_rules (snd (decide_events sample_rules ?st [] ''t0'')) ?v \<noteq> []"
    unfolding next_st by code_simp
  from paused_discussion_starts_over [OF _ _ _ this, of "''t3''"] show ?thesis
    by (simp add: next_st is_closed_view_def)
qed

end
