(* ===== verification/Memory_Distill_Correct.thy ===== *)
theory Memory_Distill_Correct
  imports Memory_Distill
begin

text \<open>
  What distillation guarantees. The engine is an event log per session (locale \<open>event_log\<close>):
  successful passes fold each event once, in order and without a gap, however the log grows in
  between and however many passes fail; and no pending session waits for more passes than
  there are other pending sessions.
\<close>

section \<open>What one gathering returns\<close>

definition span_of :: "string \<Rightarrow> (string \<times> message list) list \<Rightarrow> message list" where
  "span_of n spans = concat (map snd (filter (\<lambda>s. fst s = n) spans))"

lemma span_of_append [simp]: "span_of n (a @ b) = span_of n a @ span_of n b"
  by (simp add: span_of_def)

lemma span_of_Nil [simp]: "span_of n [] = []"
  by (simp add: span_of_def)

lemma span_of_absent: "n \<notin> fst ` set spans \<Longrightarrow> span_of n spans = []"
  by (induction spans) (auto simp: span_of_def)

definition fetched :: "('e, 'w, 't, 'f) distill_host \<Rightarrow> 'e \<Rightarrow> distill_state \<Rightarrow> string \<Rightarrow> message list \<Rightarrow> bool" where
  "fetched h e st n ms \<longleftrightarrow> (\<exists>b. dh_transcript_since h n (watermark st n) b e = Inr ms)"

definition gathered_ok :: "('e, 'w, 't, 'f) distill_host \<Rightarrow> 'e \<Rightarrow> distill_state \<Rightarrow> gathered \<Rightarrow> bool" where
  "gathered_ok h e st g \<longleftrightarrow> om_ok (ga_advances g) \<and>
     (\<forall>n. if n \<in> fst ` set (ga_spans g)
        then map_of (ga_advances g) n = Some (watermark st n + length (span_of n (ga_spans g))) \<and> fetched h e st n (span_of n (ga_spans g))
        else map_of (ga_advances g) n = None)"

lemma gathered_accept_ok:
  assumes "gathered_ok h e st g" and "n \<notin> fst ` set (ga_spans g)" and "fetched h e st n ms"
  shows "gathered_ok h e st (gathered_accept n (watermark st n) ms g)"
  using assms by (auto simp: gathered_ok_def gathered_accept_def om_ok_insert map_of_om_insert span_of_absent)
    (auto simp: span_of_def)

lemma gathered_names: "fst ` set (ga_spans (gathered_accept n a ms g)) \<subseteq> insert n (fst ` set (ga_spans g))"
  by (auto simp: gathered_accept_def)

lemma gather_ok:
  "gather_from h e st names g = Inr g' \<Longrightarrow> distinct names \<Longrightarrow> set names \<inter> fst ` set (ga_spans g) = {} \<Longrightarrow>
   gathered_ok h e st g \<Longrightarrow> gathered_ok h e st g'"
proof (induction names arbitrary: g)
  case (Cons n names)
  show ?case
  proof (cases "ga_budget g = 0")
    case False
    then obtain ms where ms: "dh_transcript_since h n (watermark st n) (ga_budget g) e = Inr ms"
        and rest: "gather_from h e st names (gathered_accept n (watermark st n) ms g) = Inr g'"
      using Cons.prems(1) by (auto split: sum.splits)
    have "gathered_ok h e st (gathered_accept n (watermark st n) ms g)"
      using Cons.prems ms by (intro gathered_accept_ok) (auto simp: fetched_def)
    with Cons.IH [OF rest] Cons.prems gathered_names [of n "watermark st n" ms g] show ?thesis by auto
  qed (use Cons.prems in simp)
qed simp

lemma upd_map_add: "m k2 = None \<Longrightarrow> m0(k2 \<mapsto> v) ++ m = m0 ++ m(k2 \<mapsto> v)"
  by (rule ext) (auto simp: map_add_def split: option.splits)

lemma fold_upd: "distinct (map fst kvs) \<Longrightarrow> fold (\<lambda>(k, v) m. m(k \<mapsto> v)) kvs m = m ++ map_of kvs"
proof (induction kvs arbitrary: m)
  case (Cons kv kvs)
  obtain k v where [simp]: "kv = (k, v)" by fastforce
  have none: "map_of kvs k = None" using Cons.prems by (auto simp: map_of_eq_None_iff)
  have "fold (\<lambda>(k, v) m. m(k \<mapsto> v)) (kv # kvs) m = fold (\<lambda>(k, v) m. m(k \<mapsto> v)) kvs (m(k \<mapsto> v))"
    by (simp del: fun_upd_apply)
  also have "\<dots> = m(k \<mapsto> v) ++ map_of kvs" using Cons by (simp del: fun_upd_apply)
  also have "\<dots> = m ++ map_of (kv # kvs)" using upd_map_add [of "map_of kvs" k m v] none by (simp del: fun_upd_apply)
  finally show ?case .
qed simp

lemma advanced_watermark:
  assumes "gathered_ok h e st g"
  shows "watermark (advanced g st) n = watermark st n + length (span_of n (ga_spans g))"
proof -
  have "distinct (map fst (ga_advances g))" using assms om_ok_distinct by (auto simp: gathered_ok_def)
  then have "di_watermarks (advanced g st) n = (di_watermarks st ++ map_of (ga_advances g)) n"
    by (simp add: advanced_def fold_upd)
  with assms show ?thesis
    by (cases "n \<in> fst ` set (ga_spans g)")
      (auto simp: gathered_ok_def watermark_def map_add_def span_of_absent split: if_splits option.splits)
qed

section \<open>The outcomes of a pass\<close>

text \<open>What a pass folded: nothing unless it returned a summary.\<close>

definition pass_folds :: "('e, 'w, 't, 'f::{zero,plus}) distill_host \<Rightarrow> distiller \<Rightarrow> gate \<Rightarrow> 'e \<Rightarrow> distill_state \<Rightarrow> 'w \<Rightarrow> (string \<times> message list) list" where
  "pass_folds h ds gate e st w = (case fst (distill_run h ds gate e st w) of
     Inr (Some _) \<Rightarrow> (case dh_pending h (di_watermarks st) e of
        Inr pending \<Rightarrow> (case gather_from h e st (session_order pending (di_last_session st)) (gathered_new (ds_slice_tokens ds)) of
           Inr g \<Rightarrow> ga_spans g | Inl _ \<Rightarrow> [])
      | Inl _ \<Rightarrow> [])
   | _ \<Rightarrow> [])"

lemma distill_run_cases:
  assumes "distill_run h ds gate e st w = (r, st', w')"
  obtains (idle) "st' = st" "pass_folds h ds gate e st w = []" "\<And>x. r \<noteq> Inr (Some x)"
  | (pass) x pending g where "r = Inr (Some x)" "dh_pending h (di_watermarks st) e = Inr pending"
      "gather_from h e st (session_order pending (di_last_session st)) (gathered_new (ds_slice_tokens ds)) = Inr g"
      "ga_spans g \<noteq> []" "st' = advanced g st" "pass_folds h ds gate e st w = ga_spans g"
proof (cases "\<exists>x. r = Inr (Some x)")
  case True
  then obtain x where x: "r = Inr (Some x)" by blast
  obtain pending where p: "dh_pending h (di_watermarks st) e = Inr pending"
    using assms x by (cases "dh_pending h (di_watermarks st) e") (auto simp: distill_run_def)
  obtain g where g: "gather_from h e st (session_order pending (di_last_session st)) (gathered_new (ds_slice_tokens ds)) = Inr g"
    using assms x p by (cases "gather_from h e st (session_order pending (di_last_session st)) (gathered_new (ds_slice_tokens ds))")
      (auto simp: distill_run_def split: if_splits)
  have "ga_spans g \<noteq> []" and "st' = advanced g st"
    using assms x p g by (auto simp: distill_run_def Let_def split: if_splits sum.splits prod.splits)
  then show ?thesis using x p g assms by (intro pass) (auto simp: pass_folds_def)
next
  case False
  then have "pass_folds h ds gate e st w = []"
    using assms by (auto simp: pass_folds_def split: sum.splits option.splits)
  moreover have "st' = st"
    using assms False by (auto simp: distill_run_def Let_def split: if_splits sum.splits prod.splits)
  ultimately show ?thesis using False idle by blast
qed

lemma distinct_swap: "distinct xs \<Longrightarrow> distinct (drop k xs @ take k xs)"
  using set_take_disj_set_drop_if_distinct [of xs k k] by (auto simp: Int_commute)

lemma distinct_session_order: "sorted_wrt (<) (map fst pending) \<Longrightarrow> distinct (session_order pending l)"
  using distinct_swap [of "map fst pending"]
  by (simp add: session_order_def Let_def strict_sorted_iff split: option.split del: distinct_append)

section \<open>Rotation\<close>

text \<open>\<open>s\<close> comes strictly between the last folded session and \<open>x\<close> in the cyclic order of names.\<close>

fun between :: "string option \<Rightarrow> string \<Rightarrow> string \<Rightarrow> bool" where
  "between None s x \<longleftrightarrow> s < x"
| "between (Some l) s x \<longleftrightarrow> (if l < x then l < s \<and> s < x else l < s \<or> s < x)"

definition waiting_for :: "string option \<Rightarrow> string \<Rightarrow> string set \<Rightarrow> nat" where
  "waiting_for last_session x S = card {s \<in> S. s \<noteq> x \<and> between last_session s x}"

lemma sorted_split:
  "sorted_wrt (<) (xs :: string list) \<Longrightarrow> takeWhile (\<lambda>n. n \<le> l) xs = filter (\<lambda>n. n \<le> l) xs
    \<and> drop (length (takeWhile (\<lambda>n. n \<le> l) xs)) xs = filter (\<lambda>n. l < n) xs"
proof (induction xs)
  case (Cons x xs)
  then show ?case
    by (cases "x \<le> l") (auto simp: not_le intro!: filter_True [symmetric] filter_False [symmetric])
qed simp

lemma session_order_split:
  assumes "sorted_wrt (<) (map fst pending)"
  shows "session_order pending (Some l) = filter (\<lambda>n. l < n) (map fst pending) @ filter (\<lambda>n. n \<le> l) (map fst pending)"
proof -
  let ?names = "map fst pending"
  have "take (length (takeWhile (\<lambda>n. n \<le> l) ?names)) ?names = takeWhile (\<lambda>n. n \<le> l) ?names"
    by (rule takeWhile_eq_take [symmetric])
  with sorted_split [OF assms, of l] show ?thesis
    unfolding session_order_def Let_def option.case by metis
qed

lemma sorted_before:
  "sorted_wrt (<) (xs :: string list) \<Longrightarrow> x \<in> set xs \<Longrightarrow> s \<in> set (takeWhile (\<lambda>n. n \<noteq> x) xs) \<Longrightarrow> s < x"
proof (induction xs)
  case (Cons y ys)
  then show ?case by (cases "y = x") auto
qed simp

lemma set_session_order: "set (session_order pending l) = fst ` set pending"
proof (cases l)
  case (Some a)
  have "set (drop k xs) \<union> set (take k xs) = set xs" for k and xs :: "string list"
    using append_take_drop_id [of k xs] set_append [of "take k xs" "drop k xs"] by auto
  with Some show ?thesis by (simp add: session_order_def Let_def)
qed (simp add: session_order_def)

lemma order_between:
  assumes "sorted_wrt (<) (map fst pending)" and "x \<in> fst ` set pending"
    and "s \<in> set (takeWhile (\<lambda>n. n \<noteq> x) (session_order pending l))"
  shows "s \<noteq> x \<and> between l s x"
proof (cases l)
  case None
  then show ?thesis using assms sorted_before [OF assms(1)] by (fastforce simp: session_order_def)
next
  case (Some a)
  let ?hi = "filter (\<lambda>n. a < n) (map fst pending)" and ?lo = "filter (\<lambda>n. n \<le> a) (map fst pending)"
  have s: "s \<in> set (takeWhile (\<lambda>n. n \<noteq> x) (?hi @ ?lo))"
    using assms(3) unfolding Some session_order_split [OF assms(1)] .
  have srt: "sorted_wrt (<) ?hi" "sorted_wrt (<) ?lo" using assms(1) by (simp_all add: sorted_wrt_filter)
  show ?thesis
  proof (cases "a < x")
    case True
    then have "x \<in> set ?hi" using assms(2) by auto
    then have "s \<in> set (takeWhile (\<lambda>n. n \<noteq> x) ?hi)" using s by (simp add: takeWhile_append1)
    then have "s < x" and "s \<in> set ?hi"
      using sorted_before [OF srt(1) \<open>x \<in> set ?hi\<close>] set_takeWhileD [of s "\<lambda>n. n \<noteq> x" ?hi] by simp_all
    then show ?thesis using Some True by simp
  next
    case False
    then have "x \<in> set ?lo" and "x \<notin> set ?hi" using assms(2) by auto
    then have "s \<in> set ?hi \<or> s \<in> set (takeWhile (\<lambda>n. n \<noteq> x) ?lo)"
      using s by (auto simp: takeWhile_append split: if_splits dest: set_takeWhileD)
    then have "a < s \<or> s < x" using sorted_before [OF srt(2) \<open>x \<in> set ?lo\<close>] by auto
    then show ?thesis using Some False by auto
  qed
qed

lemma waiting_decreases:
  assumes "finite S" and "l' \<in> S" and "l' \<noteq> x" and "between l l' x"
  shows "waiting_for (Some l') x S < waiting_for l x S"
proof -
  have "{s \<in> S. s \<noteq> x \<and> between (Some l') s x} \<subset> {s \<in> S. s \<noteq> x \<and> between l s x}"
    using assms by (cases l) (auto split: if_splits)
  with assms(1) show ?thesis by (simp add: waiting_for_def psubset_card_mono)
qed

lemma waiting_bound: "finite S \<Longrightarrow> waiting_for l x S \<le> card (S - {x})"
  unfolding waiting_for_def by (rule card_mono) auto

text \<open>A gathering reaches \<open>x\<close>, or ends at a session before it.\<close>

lemma gather_keeps_spans: "gather_from h e st names g = Inr g' \<Longrightarrow> set (ga_spans g) \<subseteq> set (ga_spans g')"
  by (induction names arbitrary: g) (fastforce simp: gathered_accept_def split: if_splits sum.splits)+

lemma gather_progress:
  "gather_from h e st names g = Inr g' \<Longrightarrow> 0 < ga_budget g \<Longrightarrow> x \<in> set names \<Longrightarrow>
   (\<And>n b ms. n \<in> set names \<Longrightarrow> 0 < b \<Longrightarrow> dh_transcript_since h n (watermark st n) b e = Inr ms \<Longrightarrow> ms \<noteq> []) \<Longrightarrow>
   x \<in> fst ` set (ga_spans g') \<or> (\<exists>l. ga_last_session g' = Some l \<and> l \<in> set (takeWhile (\<lambda>n. n \<noteq> x) names))"
proof (induction names arbitrary: g)
  case (Cons n names)
  obtain ms where get: "dh_transcript_since h n (watermark st n) (ga_budget g) e = Inr ms"
      and rest: "gather_from h e st names (gathered_accept n (watermark st n) ms g) = Inr g'"
    using Cons.prems(1,2) by (auto split: sum.splits)
  let ?g = "gathered_accept n (watermark st n) ms g"
  have "ms \<noteq> []" using Cons.prems(4) [OF _ Cons.prems(2) get] by simp
  then have accepted: "n \<in> fst ` set (ga_spans ?g)" "ga_last_session ?g = Some n" by (auto simp: gathered_accept_def)
  show ?case
  proof (cases "n = x")
    case True
    then show ?thesis using accepted(1) gather_keeps_spans [OF rest] by blast
  next
    case False
    show ?thesis
    proof (cases "ga_budget ?g = 0")
      case True
      then have "g' = ?g" using rest by (cases names) auto
      then show ?thesis using accepted False by simp
    next
      case budget: False
      have "x \<in> fst ` set (ga_spans g') \<or> (\<exists>l. ga_last_session g' = Some l \<and> l \<in> set (takeWhile (\<lambda>n. n \<noteq> x) names))"
      proof (rule Cons.IH [OF rest])
        show "0 < ga_budget ?g" using budget by simp
        show "x \<in> set names" using Cons.prems(3) False by simp
        fix n' b ms'
        assume "n' \<in> set names" and "0 < b" and "dh_transcript_since h n' (watermark st n') b e = Inr ms'"
        then show "ms' \<noteq> []" using Cons.prems(4) [of n' b ms'] by simp
      qed
      then show ?thesis using False by auto
    qed
  qed
qed simp

section \<open>Sequences of passes\<close>

text \<open>\<open>grows\<close> is what may happen to the engine between passes.\<close>

inductive distill_steps ::
  "('e, 'w, 't, 'f::{zero,plus}) distill_host \<Rightarrow> ('e \<Rightarrow> 'e \<Rightarrow> bool) \<Rightarrow> distiller \<Rightarrow> 'e \<Rightarrow> distill_state \<Rightarrow>
   (string \<times> message list) list \<Rightarrow> 'e \<Rightarrow> distill_state \<Rightarrow> bool"
  for h grows ds e0 st0 where
  start: "distill_steps h grows ds e0 st0 [] e0 st0"
| grow: "distill_steps h grows ds e0 st0 folds e st \<Longrightarrow> grows e e' \<Longrightarrow> distill_steps h grows ds e0 st0 folds e' st"
| pass: "distill_steps h grows ds e0 st0 folds e st \<Longrightarrow> distill_run h ds gate e st w = (r, st', w') \<Longrightarrow>
    distill_steps h grows ds e0 st0 (folds @ pass_folds h ds gate e st w) e st'"

text \<open>\<open>k\<close> successful passes went by while \<open>x\<close> was pending and none of them folded it.\<close>

inductive distill_waits ::
  "('e, 'w, 't, 'f::{zero,plus}) distill_host \<Rightarrow> ('e \<Rightarrow> 'e \<Rightarrow> bool) \<Rightarrow> distiller \<Rightarrow> string \<Rightarrow> string set \<Rightarrow> 'e \<Rightarrow>
   distill_state \<Rightarrow> nat \<Rightarrow> 'e \<Rightarrow> distill_state \<Rightarrow> bool"
  for h grows ds x S e0 st0 where
  waits_start: "distill_waits h grows ds x S e0 st0 0 e0 st0"
| waits_grow: "distill_waits h grows ds x S e0 st0 k e st \<Longrightarrow> grows e e' \<Longrightarrow> distill_waits h grows ds x S e0 st0 k e' st"
| waits_fail: "distill_waits h grows ds x S e0 st0 k e st \<Longrightarrow> distill_run h ds gate e st w = (r, st', w') \<Longrightarrow>
    (\<And>y. r \<noteq> Inr (Some y)) \<Longrightarrow> distill_waits h grows ds x S e0 st0 k e st'"
| waits_pass: "distill_waits h grows ds x S e0 st0 k e st \<Longrightarrow> distill_run h ds gate e st w = (Inr (Some y), st', w') \<Longrightarrow>
    dh_pending h (di_watermarks st) e = Inr p \<Longrightarrow> x \<in> fst ` set p \<Longrightarrow> fst ` set p \<subseteq> S \<Longrightarrow>
    x \<notin> fst ` set (pass_folds h ds gate e st w) \<Longrightarrow> distill_waits h grows ds x S e0 st0 (Suc k) e st'"

section \<open>Event logs\<close>

locale event_log =
  fixes inv :: "'e \<Rightarrow> bool"
    and events :: "string \<Rightarrow> 'e \<Rightarrow> 'row list"
    and renders :: "'e \<Rightarrow> 'row \<Rightarrow> message \<Rightarrow> bool"
    and h :: "('e, 'w, 't, 'f::{zero,plus}) distill_host"
  assumes span: "inv e \<Longrightarrow> dh_transcript_since h n after b e = Inr ms \<Longrightarrow>
      list_all2 (renders e) (take (length ms) (drop after (events n e))) ms"
    and pending_sorted: "inv e \<Longrightarrow> dh_pending h since e = Inr p \<Longrightarrow> sorted_wrt (<) (map fst p)"
    and pending_span: "inv e \<Longrightarrow> dh_pending h since e = Inr p \<Longrightarrow> n \<in> fst ` set p \<Longrightarrow> 0 < b \<Longrightarrow>
      dh_transcript_since h n (case since n of None \<Rightarrow> 0 | Some k \<Rightarrow> k) b e = Inr ms \<Longrightarrow> ms \<noteq> []"
begin

text \<open>Between passes the log only grows.\<close>

definition grows :: "'e \<Rightarrow> 'e \<Rightarrow> bool" where
  "grows e e' \<longleftrightarrow> inv e' \<and> (\<forall>n. prefix (events n e) (events n e'))
     \<and> (\<forall>n r m. r \<in> set (events n e) \<longrightarrow> renders e r m \<longrightarrow> renders e' r m)"

lemma run_inv: "distill_steps h grows ds e0 st0 folds e st \<Longrightarrow> inv e0 \<Longrightarrow> inv e"
  by (induction rule: distill_steps.induct) (auto simp: grows_def)

lemma span_length:
  assumes "inv e" and "dh_transcript_since h n after b e = Inr ms"
  shows "ms = [] \<or> after + length ms \<le> length (events n e)"
  using list_all2_lengthD [OF span [OF assms]] by (cases "after \<le> length (events n e)") auto

lemma take_more: "prefix xs ys \<Longrightarrow> k \<le> length xs \<Longrightarrow> take k ys = take k xs"
  by (auto simp: prefix_def)

lemma folds_events:
  assumes "distill_steps h grows ds e0 st0 folds e st" and "inv e0" and "\<And>n. watermark st0 n \<le> length (events n e0)"
  shows "watermark st n \<le> length (events n e) \<and> watermark st n = watermark st0 n + length (span_of n folds)
    \<and> list_all2 (renders e) (drop (watermark st0 n) (take (watermark st n) (events n e))) (span_of n folds)"
  using assms
proof (induction rule: distill_steps.induct)
  case (grow folds e st e')
  then have IH: "watermark st n \<le> length (events n e)" "watermark st n = watermark st0 n + length (span_of n folds)"
      "list_all2 (renders e) (drop (watermark st0 n) (take (watermark st n) (events n e))) (span_of n folds)"
    by auto
  have "take (watermark st n) (events n e') = take (watermark st n) (events n e)"
    using grow.hyps(2) IH(1) by (intro take_more) (auto simp: grows_def)
  moreover have "list_all2 (renders e') (drop (watermark st0 n) (take (watermark st n) (events n e))) (span_of n folds)"
    using IH(3) by (rule list.rel_mono_strong)
      (use grow.hyps(2) in \<open>auto simp: grows_def dest!: in_set_dropD in_set_takeD\<close>)
  moreover have "length (events n e) \<le> length (events n e')"
    using grow.hyps(2) by (auto simp: grows_def dest: prefix_length_le)
  ultimately show ?case using IH by auto
next
  case (pass folds e st gate w r st' w')
  then have IH: "watermark st n \<le> length (events n e)" "watermark st n = watermark st0 n + length (span_of n folds)"
      "list_all2 (renders e) (drop (watermark st0 n) (take (watermark st n) (events n e))) (span_of n folds)"
    by auto
  have inv: "inv e" using run_inv [OF pass.hyps(1) assms(2)] .
  from pass.hyps(2) show ?case
  proof (cases rule: distill_run_cases)
    case idle
    then show ?thesis using IH by simp
  next
    case (pass x pending g)
    have ok: "gathered_ok h e st g"
      using gather_ok [OF pass(3) distinct_session_order [OF pending_sorted [OF inv pass(2)]]]
      by (simp add: gathered_new_def gathered_ok_def om_ok_def)
    let ?ms = "span_of n (ga_spans g)"
    have wm: "watermark st' n = watermark st n + length ?ms" using advanced_watermark [OF ok] pass by simp
    show ?thesis
    proof (cases "n \<in> fst ` set (ga_spans g)")
      case True
      then obtain b where get: "dh_transcript_since h n (watermark st n) b e = Inr ?ms"
        using ok by (auto simp: gathered_ok_def fetched_def split: if_splits)
      have "take (length ?ms) (drop (watermark st n) (events n e)) = drop (watermark st n) (take (watermark st' n) (events n e))"
        by (simp add: wm take_drop add.commute)
      moreover have "drop (watermark st0 n) (take (watermark st' n) (events n e)) =
          drop (watermark st0 n) (take (watermark st n) (events n e)) @ drop (watermark st n) (take (watermark st' n) (events n e))"
        using IH(1,2) by (simp add: wm take_add drop_append)
      ultimately have "list_all2 (renders e) (drop (watermark st0 n) (take (watermark st' n) (events n e))) (span_of n folds @ ?ms)"
        using IH(3) span [OF inv get] by (simp only: list_all2_appendI)
      moreover have "watermark st' n \<le> length (events n e)"
        using span_length [OF inv get] IH(1) wm by auto
      ultimately show ?thesis using IH(2) wm pass(6) by simp
    next
      case False
      then show ?thesis using IH wm pass by (simp add: span_of_absent)
    qed
  qed
qed (simp add: assms)

lemma waits_inv: "distill_waits h grows ds x S e0 st0 k e st \<Longrightarrow> inv e0 \<Longrightarrow> inv e"
  by (induction rule: distill_waits.induct) (auto simp: grows_def)

lemma waits_bound:
  assumes "distill_waits h grows ds x S e0 st0 k e st" and "inv e0" and "finite S"
  shows "k + waiting_for (di_last_session st) x S \<le> waiting_for (di_last_session st0) x S"
  using assms
proof (induction rule: distill_waits.induct)
  case (waits_fail k e st gate w r st' w')
  from waits_fail.hyps(2) show ?case
    by (cases rule: distill_run_cases) (use waits_fail in auto)
next
  case (waits_pass k e st gate w y st' w' p)
  have inv: "inv e" using waits_inv [OF waits_pass.hyps(1) assms(2)] .
  from waits_pass.hyps(2) show ?case
  proof (cases rule: distill_run_cases)
    case (pass y' p' g)
    have p: "p' = p" using pass(2) waits_pass.hyps(3) by simp
    have srt: "sorted_wrt (<) (map fst p)" using pending_sorted [OF inv waits_pass.hyps(3)] .
    let ?order = "session_order p (di_last_session st)"
    have "0 < ds_slice_tokens ds"
    proof (rule ccontr)
      assume "\<not> ?thesis"
      then have "g = gathered_new 0" using pass(3) by (cases ?order) (auto simp: p gathered_new_def)
      then show False using pass(4) by (simp add: gathered_new_def)
    qed
    then have "x \<in> fst ` set (ga_spans g) \<or> (\<exists>l. ga_last_session g = Some l \<and> l \<in> set (takeWhile (\<lambda>n. n \<noteq> x) ?order))"
    proof (intro gather_progress [OF pass(3) [unfolded p]])
      show "x \<in> set ?order" using waits_pass.hyps(4) by (simp add: set_session_order)
      fix n b ms
      assume "n \<in> set ?order" and "0 < b" and "dh_transcript_since h n (watermark st n) b e = Inr ms"
      then show "ms \<noteq> []" using pending_span [OF inv waits_pass.hyps(3), of n b ms] by (simp add: watermark_def set_session_order)
    qed (simp add: gathered_new_def)
    then obtain l where l: "ga_last_session g = Some l" "l \<in> set (takeWhile (\<lambda>n. n \<noteq> x) ?order)"
      using waits_pass.hyps(6) pass(6) by auto
    have "l \<in> S" using set_takeWhileD [OF l(2)] waits_pass.hyps(5) by (auto simp: set_session_order)
    then have "waiting_for (Some l) x S < waiting_for (di_last_session st) x S"
      using order_between [OF srt waits_pass.hyps(4) l(2)] by (intro waiting_decreases assms(3)) simp_all
    moreover have "di_last_session st' = Some l" using pass(5) l(1) by (simp add: advanced_def)
    ultimately show ?thesis using waits_pass.IH [OF assms(2,3)] by simp
  qed blast
qed simp_all

lemma waits_at_most:
  assumes "distill_waits h grows ds x S e0 st0 k e st" and "inv e0" and "finite S"
  shows "k \<le> card (S - {x})"
  using waits_bound [OF assms] waiting_bound [OF assms(3), of "di_last_session st0" x] by simp

end

end
