(* ===== verification/Memory_Distill_Lcm.thy ===== *)
theory Memory_Distill_Lcm
  imports Memory_Distill_Correct Agent_Lcm
begin

text \<open>
  Distillation from the LCM engine: its raw store is an event log (an interpretation of
  \<open>event_log\<close>), so passes fold every message of every session exactly once, and in turn.
\<close>

section \<open>Names as keys\<close>

lemma dashes_induct [case_names Nil dashes char]:
  assumes "P []" and "\<And>s. P s \<Longrightarrow> P (''--'' @ s)" and "\<And>c cs. \<not> prefix ''--'' (c # cs) \<Longrightarrow> P cs \<Longrightarrow> P (c # cs)"
  shows "P s"
proof (induction s rule: length_induct)
  case (1 s)
  then have IH: "length t < length s \<Longrightarrow> P t" for t by blast
  show ?case
  proof (cases s)
    case (Cons c cs)
    show ?thesis
    proof (cases "prefix ''--'' (c # cs)")
      case True
      then obtain t where "s = ''--'' @ t" using Cons by (auto simp: prefix_def)
      then show ?thesis using assms(2) IH by simp
    qed (use Cons assms(3) IH in simp)
  qed (simp add: assms(1))
qed

lemma desanitize_dashes: "desanitize_name (''--'' @ s) = CHR ''/'' # desanitize_name s"
  using str_replace_match [of "''--''" "''/''" s] by (simp add: desanitize_name_def)

lemma desanitize_char: "\<not> prefix ''--'' (c # cs) \<Longrightarrow> desanitize_name (c # cs) = c # desanitize_name cs"
  unfolding desanitize_name_def by (rule str_replace_skip)

lemma hd_desanitize: "desanitize_name s \<noteq> [] \<Longrightarrow> hd (desanitize_name s) = CHR ''.'' \<Longrightarrow> s \<noteq> [] \<and> hd s = CHR ''.''"
proof (induction s rule: dashes_induct)
  case (dashes s)
  then show ?case unfolding desanitize_dashes by simp
next
  case (char c cs)
  then show ?case by (simp add: desanitize_char)
qed (simp add: desanitize_name_def)

lemma desanitize_no_dots: "\<not> str_contains s ''..'' \<Longrightarrow> \<not> str_contains (desanitize_name s) ''..''"
proof (induction s rule: dashes_induct)
  case (dashes s)
  then show ?case unfolding desanitize_dashes by (simp add: no_dots_Cons)
next
  case (char c cs)
  then show ?case using hd_desanitize [of cs] by (auto simp: desanitize_char no_dots_Cons)
qed (simp add: desanitize_name_def)

lemma set_desanitize: "set (desanitize_name s) \<subseteq> insert (CHR ''/'') (set s)"
proof (induction s rule: dashes_induct)
  case (dashes s)
  then show ?case unfolding desanitize_dashes by auto
next
  case (char c cs)
  then show ?case by (auto simp: desanitize_char)
qed (simp add: desanitize_name_def)

lemma desanitize_restore: "CHR ''/'' \<notin> set s \<Longrightarrow> str_replace ''/'' ''--'' (desanitize_name s) = s"
proof (induction s rule: dashes_induct)
  case (dashes s)
  then show ?case unfolding desanitize_dashes by (simp add: str_replace_char)
next
  case (char c cs)
  then show ?case by (auto simp: desanitize_char str_replace_char)
qed (simp add: desanitize_name_def)

text \<open>The display name of a stored name leads back to it.\<close>

lemma sanitize_desanitize:
  assumes "sanitize_name s = s"
  shows "sanitize_name (desanitize_name s) = s"
proof -
  have clean: "CHR ''/'' \<notin> set s" "CHR 0x00 \<notin> set s" "\<not> str_contains s ''..''"
    using sanitize_no_slash [of s] sanitize_no_nul [of s] sanitize_no_dots [of s] assms by simp_all
  have "CHR 0x00 \<notin> set (desanitize_name s)" using set_desanitize [of s] clean(2) by auto
  then have "str_replace [CHR 0x00] [] (desanitize_name s) = desanitize_name s"
    by (auto simp: str_replace_erase_char filter_id_conv)
  moreover have "str_replace ''..'' [] (desanitize_name s) = desanitize_name s"
    using desanitize_no_dots [OF clean(3)] by (simp add: str_replace_absent)
  ultimately show ?thesis using desanitize_restore [OF clean(1)] by (simp add: sanitize_name_def)
qed

section \<open>The host\<close>

definition lcm_pending_pairs :: "db \<Rightarrow> (string \<Rightarrow> nat option) \<Rightarrow> (string \<times> nat) list" where
  "lcm_pending_pairs d since = List.map_filter
     (\<lambda>cv. let name = desanitize_name (cv_name cv);
              s = pending_tokens d (cv_id cv) (clamp_i64 (case since name of None \<Rightarrow> 0 | Some n \<Rightarrow> n))
          in if 0 < s then Some (name, nat s) else None) (conversations d)"

definition om_collect :: "('k::linorder \<times> 'v) list \<Rightarrow> ('k \<times> 'v) list" where
  "om_collect kvs = fold (\<lambda>(k, v). om_insert k v) kvs []"

lemma om_collect_fold: "om_ok m \<Longrightarrow> om_ok (fold (\<lambda>(k, v). om_insert k v) kvs m)
  \<and> map_of (fold (\<lambda>(k, v). om_insert k v) kvs m) = map_of m ++ map_of (rev kvs)"
proof (induction kvs arbitrary: m)
  case (Cons kv kvs)
  obtain k v where kv: "kv = (k, v)" by fastforce
  show ?case
    using Cons.IH [OF om_ok_insert [OF Cons.prems, of k v]] map_of_om_insert [OF Cons.prems, of k v]
    by (simp add: kv del: fun_upd_apply)
qed simp

lemma om_collect_ok: "om_ok (om_collect kvs)" and map_of_om_collect: "map_of (om_collect kvs) = collect_map kvs"
  using om_collect_fold [of "[]" kvs] by (simp_all add: om_collect_def collect_map_def om_ok_def)

lemma pending_pairs: "map_of (om_collect (lcm_pending_pairs d since)) = pending_distill_tokens_sync d since"
  by (simp add: map_of_om_collect pending_distill_tokens_sync_def lcm_pending_pairs_def Let_def)

text \<open>\<open>failed\<close> is the conversion of a store error to an engine error.\<close>

definition lcm_distill ::
  "(store_error \<Rightarrow> engine_failure) \<Rightarrow> ('tools lcm_engine, 'w, 't, 'f) distill_host \<Rightarrow> ('tools lcm_engine, 'w, 't, 'f) distill_host" where
  "lcm_distill failed h = h\<lparr>
     dh_latest_positions := \<lambda>e. Inr (latest_positions_sync (le_db e)),
     dh_pending := \<lambda>since e. Inr (om_collect (lcm_pending_pairs (le_db e) since)),
     dh_transcript_since := \<lambda>session after max_tokens e.
       (case lcm_transcript_since session after max_tokens e of Inl x \<Rightarrow> Inl (failed x) | Inr ms \<Rightarrow> Inr ms)\<rparr>"

section \<open>The store as an event log\<close>

definition lcm_log_ok :: "'tools lcm_engine \<Rightarrow> bool" where
  "lcm_log_ok e \<longleftrightarrow> wf_db (le_db e)
     \<and> (\<forall>cv \<in> set (conversations (le_db e)). sanitize_name (cv_name cv) = cv_name cv \<and> dense_seqs (le_db e) (cv_id cv))"

definition lcm_events :: "string \<Rightarrow> 'tools lcm_engine \<Rightarrow> message_row list" where
  "lcm_events session e = (case find_conversation (le_db e) (sanitize_name session) of
     None \<Rightarrow> [] | Some c \<Rightarrow> messages_of (le_db e) c)"

definition lcm_renders :: "'tools lcm_engine \<Rightarrow> message_row \<Rightarrow> message \<Rightarrow> bool" where
  "lcm_renders e r m \<longleftrightarrow> reconstruct_row (le_db e) r = Inr m"

lemma find_conversation_in:
  assumes "find_conversation d n = Some c"
  obtains cv where "cv \<in> set (conversations d)" and "cv_name cv = n" and "cv_id cv = c"
proof -
  obtain cv where "find (\<lambda>c. cv_name c = n) (conversations d) = Some cv" and "cv_id cv = c"
    using assms by (auto simp: find_conversation_def)
  then show ?thesis using that [of cv] by (auto simp: find_Some_iff)
qed

lemma find_key: "distinct (map f xs) \<Longrightarrow> x \<in> set xs \<Longrightarrow> find (\<lambda>y. f y = f x) xs = Some x"
  by (induction xs) force+

lemma find_conversation_of:
  assumes "wf_db d" and "cv \<in> set (conversations d)"
  shows "find_conversation d (cv_name cv) = Some (cv_id cv)"
  using assms find_key [of cv_name "conversations d" cv]
  by (simp add: wf_db_def wf_conversations_def find_conversation_def)

text \<open>Dense positions end below the length.\<close>

lemma dense_below: "dense_seqs d c \<Longrightarrow> r \<in> set (messages_of d c) \<Longrightarrow> mr_seq r < int (length (messages_of d c))"
proof -
  assume "dense_seqs d c" and "r \<in> set (messages_of d c)"
  then have "mr_seq r \<in> set (map int [0..<length (messages_of d c)])"
    unfolding dense_seqs_def by (metis image_eqI set_map)
  then show ?thesis by auto
qed

lemma map_res_all2: "map_res f xs = Inr ys \<Longrightarrow> list_all2 (\<lambda>x y. f x = Inr y) xs ys"
  by (induction xs arbitrary: ys) (auto simp: bind_res_def split: sum.splits)

lemma transcript_past_end:
  assumes "find_conversation d stem = Some c" and "dense_seqs d c" and "length (messages_of d c) \<le> after"
  shows "transcript_since_sync d stem after b = Inr []"
proof -
  have len: "int (length (messages_of d c)) \<le> i64_max" using assms(2) by (simp add: dense_seqs_def)
  have "mr_seq r < int (length (messages_of d c))" if "r \<in> set (messages_of d c)" for r
    using dense_below [OF assms(2) that] .
  moreover have "int (length (messages_of d c)) \<le> clamp_i64 after" using assms(3) len by (simp add: clamp_i64_def)
  ultimately have "filter (\<lambda>r. clamp_i64 after \<le> mr_seq r) (messages_of d c) = []"
    by (fastforce simp: filter_empty_conv)
  then show ?thesis by (simp add: transcript_since_sync_def assms(1))
qed

lemma lcm_log_conversation:
  assumes "lcm_log_ok e" and "find_conversation (le_db e) (sanitize_name n) = Some c"
  shows "dense_seqs (le_db e) c"
  using find_conversation_in [OF assms(2)] assms(1) by (metis lcm_log_ok_def)

lemma lcm_span:
  assumes "lcm_log_ok e" and "lcm_transcript_since n after b e = Inr ms"
  shows "list_all2 (lcm_renders e) (take (length ms) (drop after (lcm_events n e))) ms"
proof (cases "find_conversation (le_db e) (sanitize_name n)")
  case None
  then show ?thesis using assms(2) by (simp add: lcm_transcript_since_def transcript_since_sync_def)
next
  case (Some c)
  show ?thesis
  proof (cases "after < length (messages_of (le_db e) c)")
    case True
    obtain k where k: "after + k \<le> length (messages_of (le_db e) c)"
        "transcript_since_sync (le_db e) (sanitize_name n) after b
          = map_res (reconstruct_row (le_db e)) (take k (drop after (messages_of (le_db e) c)))"
      using transcript_since_rows [OF Some lcm_log_conversation [OF assms(1) Some] True] by metis
    then have all: "list_all2 (lcm_renders e) (take k (drop after (lcm_events n e))) ms"
      using assms(2) map_res_all2 by (simp add: lcm_transcript_since_def lcm_renders_def [abs_def] lcm_events_def Some)
    then have "length ms = k" using list_all2_lengthD [OF all] k(1) by (simp add: lcm_events_def Some)
    then show ?thesis using all by simp
  next
    case False
    then show ?thesis
      using assms transcript_past_end [OF Some lcm_log_conversation [OF assms(1) Some]]
      by (simp add: lcm_transcript_since_def)
  qed
qed

lemma pending_row:
  assumes "0 < pending_tokens d c wm"
  obtains r where "r \<in> set (messages_of d c)" and "wm \<le> mr_seq r"
proof -
  have "filter (\<lambda>r. mr_conv r = c \<and> wm \<le> mr_seq r) (messages d) \<noteq> []"
    using assms by (auto simp: pending_tokens_def)
  then show ?thesis using that by (auto simp: filter_empty_conv set_messages_of)
qed

lemma lcm_pending_nonempty:
  assumes ok: "lcm_log_ok e" and "n \<in> fst ` set (om_collect (lcm_pending_pairs (le_db e) since))"
    and "lcm_transcript_since n (case since n of None \<Rightarrow> 0 | Some k \<Rightarrow> k) b e = Inr ms"
  shows "ms \<noteq> []"
proof
  assume "ms = []"
  let ?d = "le_db e" and ?after = "case since n of None \<Rightarrow> 0 | Some k \<Rightarrow> k"
  have "collect_map (lcm_pending_pairs ?d since) n \<noteq> None"
    using assms(2) by (simp add: map_of_om_collect [symmetric] map_of_eq_None_iff)
  then have "n \<in> fst ` set (lcm_pending_pairs ?d since)"
    by (auto simp: collect_map_def map_of_eq_None_iff)
  then obtain cv where cv: "cv \<in> set (conversations ?d)" "n = desanitize_name (cv_name cv)"
      "0 < pending_tokens ?d (cv_id cv) (clamp_i64 ?after)"
    by (auto simp: lcm_pending_pairs_def List.map_filter_def Let_def split: if_splits)
  have clean: "sanitize_name n = cv_name cv" and dense: "dense_seqs ?d (cv_id cv)"
    using ok cv(1,2) sanitize_desanitize by (auto simp: lcm_log_ok_def)
  have found: "find_conversation ?d (sanitize_name n) = Some (cv_id cv)"
    using find_conversation_of [OF _ cv(1)] ok clean by (simp add: lcm_log_ok_def)
  obtain r where r: "r \<in> set (messages_of ?d (cv_id cv))" "clamp_i64 ?after \<le> mr_seq r" using pending_row [OF cv(3)] .
  have "mr_seq r < int (length (messages_of ?d (cv_id cv)))" using dense_below [OF dense r(1)] .
  moreover have "int (length (messages_of ?d (cv_id cv))) \<le> i64_max" using dense by (simp add: dense_seqs_def)
  ultimately have pending: "?after < length (messages_of ?d (cv_id cv))" using r(2) by (auto simp: clamp_i64_def)
  obtain k where k: "1 \<le> k" "?after + k \<le> length (messages_of ?d (cv_id cv))"
      "transcript_since_sync ?d (sanitize_name n) ?after b
        = map_res (reconstruct_row ?d) (take k (drop ?after (messages_of ?d (cv_id cv))))"
    by (rule transcript_since_rows [OF found dense pending, of b])
  then have "map_res (reconstruct_row ?d) (take k (drop ?after (messages_of ?d (cv_id cv)))) = Inr []"
    using assms(3) \<open>ms = []\<close> by (simp add: lcm_transcript_since_def)
  from list_all2_lengthD [OF map_res_all2 [OF this]] show False using k(1) pending by (auto simp: min_def split: if_splits)
qed

interpretation lcm_log: event_log
  "lcm_log_ok :: 'tools lcm_engine \<Rightarrow> bool" lcm_events lcm_renders
  "lcm_distill failed h :: ('tools lcm_engine, 'w, 't, 'f::{zero,plus}) distill_host" for failed h
proof unfold_locales
  fix e :: "'tools lcm_engine" and n :: string and after b :: nat and since :: "string \<Rightarrow> nat option" and ms p
  assume ok: "lcm_log_ok e"
  show "list_all2 (lcm_renders e) (take (length ms) (drop after (lcm_events n e))) ms"
    if "dh_transcript_since (lcm_distill failed h) n after b e = Inr ms"
    using that lcm_span [OF ok] by (simp add: lcm_distill_def split: sum.splits)
  assume "dh_pending (lcm_distill failed h) since e = Inr p"
  then have p: "p = om_collect (lcm_pending_pairs (le_db e) since)" by (simp add: lcm_distill_def)
  then show "sorted_wrt (<) (map fst p)" using om_collect_ok by (simp add: om_ok_def)
  assume "n \<in> fst ` set p"
    and "dh_transcript_since (lcm_distill failed h) n (case since n of None \<Rightarrow> 0 | Some k \<Rightarrow> k) b e = Inr ms"
  then have "n \<in> fst ` set (om_collect (lcm_pending_pairs (le_db e) since))"
      and "lcm_transcript_since n (case since n of None \<Rightarrow> 0 | Some k \<Rightarrow> k) b e = Inr ms"
    by (simp_all add: p lcm_distill_def split: sum.splits)
  then show "ms \<noteq> []" by (rule lcm_pending_nonempty [OF ok])
qed

text \<open>What may happen to the store between passes: it grows, and what it holds stays readable.\<close>

definition lcm_grows :: "'tools lcm_engine \<Rightarrow> 'tools lcm_engine \<Rightarrow> bool" where
  "lcm_grows e e' \<longleftrightarrow> lcm_log_ok e' \<and> (\<forall>n. prefix (lcm_events n e) (lcm_events n e'))
     \<and> (\<forall>n r m. r \<in> set (lcm_events n e) \<longrightarrow> lcm_renders e r m \<longrightarrow> lcm_renders e' r m)"

lemma lcm_grows_log: "lcm_grows = lcm_log.grows"
  by (simp add: fun_eq_iff lcm_grows_def lcm_log.grows_def)

text \<open>A stored message is such a change.\<close>

lemma messages_of_other: "c' \<noteq> c \<Longrightarrow> messages_of (pushed_db now c msg ext d) c' = messages_of d c'"
  by (simp add: messages_of_def pushed_row_def)

lemma push_grows:
  assumes "lcm_log_ok e" and "conversation_exists (le_db e) c"
    and "int (length (messages_of (le_db e) c)) < i64_max"
  shows "lcm_grows e (e\<lparr>le_db := pushed_db now c msg ext (le_db e)\<rparr>)"
proof -
  let ?d = "le_db e" and ?d' = "pushed_db now c msg ext (le_db e)"
  have wf: "wf_db ?d" using assms(1) by (simp add: lcm_log_ok_def)
  have convs: "conversations ?d' = conversations ?d" by simp
  have "dense_seqs ?d' (cv_id cv)" if "dense_seqs ?d (cv_id cv)" for cv :: conversation
  proof (cases "cv_id cv = c")
    case False
    then show ?thesis using that by (simp add: dense_seqs_def messages_of_other)
  qed (use that assms(3) dense_seqs_pushed in auto)
  then have ok: "lcm_log_ok (e\<lparr>le_db := ?d'\<rparr>)"
    using assms(1) wf_pushed_db [OF wf assms(2)] by (simp add: lcm_log_ok_def convs)
  have msgs: "prefix (messages_of ?d c') (messages_of ?d' c')" for c'
    by (cases "c' = c") (simp_all add: messages_of_pushed messages_of_other)
  then have "prefix (lcm_events n e) (lcm_events n (e\<lparr>le_db := ?d'\<rparr>))" for n
    by (simp add: lcm_events_def find_conversation_def convs split: option.split)
  moreover have "lcm_renders (e\<lparr>le_db := ?d'\<rparr>) r m" if "r \<in> set (lcm_events n e)" and "lcm_renders e r m" for n r m
  proof -
    have "r \<in> set (messages ?d)" using that(1) by (auto simp: lcm_events_def set_messages_of split: option.splits)
    then show ?thesis using that(2) reconstruct_pushed_old [OF wf] by (simp add: lcm_renders_def)
  qed
  ultimately show ?thesis using ok by (simp add: lcm_grows_def)
qed

section \<open>A concrete history\<close>

definition ok_outside :: "(unit, unit, nat) outside" where
  "ok_outside = sample_outside\<lparr>os_chat := \<lambda>_ _ _ w. (Some (Inr \<lparr>oc_response = TextResponse ''ok'',
     oc_usage = \<lparr>cu_prompt_tokens = None, cu_cached_tokens = None, cu_provider = None,
       cu_completion_tokens = 1, cu_cost = None\<rparr>, oc_failed = []\<rparr>), w)\<rparr>"

lemma ok_turn: "0 < n \<Longrightarrow> \<exists>m. distiller_turn ok_outside p n u w = (Inr (TurnText ''ok''), m, w)"
  by (simp add: distiller_turn_def run_turn_metered_def turn_loop_def upt_conv_Cons turn_round_def
    check_cancelled_def ok_outside_def sample_outside_def ephemeral_env_def act_then_def act_bind_def act_return_def
    push_def engine_call_def stats_def usage_def act_update_def act_when_def complete_def assemble_def cancellable_def
    text_round_def emit_def)

definition distill_row :: "int \<Rightarrow> message_row" where
  "distill_row k = \<lparr>mr_id = k, mr_conv = k, mr_seq = 0, mr_role = ''user'', mr_content = ''a fact'', mr_tokens = 2, mr_created = []\<rparr>"

definition distill_db :: db where
  "distill_db = empty_db\<lparr>conversations := [\<lparr>cv_id = 1, cv_name = ''general''\<rparr>, \<lparr>cv_id = 2, cv_name = ''o--r''\<rparr>],
     messages := [distill_row 1, distill_row 2],
     parts := [text_part 1 0 ''a fact'', text_part 2 0 ''a fact''],
     next_conversation_id := 3, next_message_id := 3\<rparr>"

definition distill_engine :: "unit list lcm_engine" where
  "distill_engine = sample_root_engine distill_db default_context_config"

definition sample_distill_host :: "(unit list lcm_engine, unit, unit, nat) distill_host" where
  "sample_distill_host = \<lparr>dh_latest_positions = (\<lambda>_. Inr (\<lambda>_. None)), dh_pending = (\<lambda>_ _. Inr []),
     dh_transcript_since = (\<lambda>_ _ _ _. Inr []), dh_get_doc = (\<lambda>_. Inr None), dh_parse = (\<lambda>_. None),
     dh_save = (\<lambda>_ w. w), dh_index_file = (\<lambda>_. None), dh_index_size = (\<lambda>_. None), dh_topic_files = (\<lambda>_. None),
     dh_fold_tools = ok_outside, dh_compact_tools = ok_outside\<rparr>"

definition sample_distiller :: distiller where
  "sample_distiller = \<lparr>ds_system_prompt = ''p'', ds_threshold = 1, ds_slice_tokens = 1, ds_max_iterations = 4,
     ds_index_cap_bytes = 100\<rparr>"

definition fresh_state :: distill_state where
  "fresh_state = \<lparr>di_last_session = None, di_watermarks = (\<lambda>_. None)\<rparr>"

end
