(* ===== verification/Memory_Distill_Claims.thy ===== *)
theory Memory_Distill_Claims
  imports Memory_Distill_Lcm
begin

text \<open>
  The two properties of memory distillation on the LCM engine, and a concrete pass that
  witnesses both: two sessions with one message each and a budget for one of them.
\<close>

abbreviation "sample_lcm_host \<equiv> lcm_distill (\<lambda>_. EngineStorage []) sample_distill_host"

lemma distill_engine_db [simp]: "le_db distill_engine = distill_db"
  by (simp add: distill_engine_def sample_root_engine_def)

lemma distill_messages: "messages_of distill_db 1 = [distill_row 1]" "messages_of distill_db 2 = [distill_row 2]"
  by code_simp+

lemma distill_names: "sanitize_name ''general'' = ''general''" "sanitize_name ''o--r'' = ''o--r''"
  "sanitize_name ''o/r'' = ''o--r''" by code_simp+

lemma distill_log_ok: "lcm_log_ok distill_engine"
proof -
  have "wf_db distill_db" by code_simp
  moreover have "conversations distill_db = [\<lparr>cv_id = 1, cv_name = ''general''\<rparr>, \<lparr>cv_id = 2, cv_name = ''o--r''\<rparr>]"
    by (simp add: distill_db_def)
  ultimately show ?thesis
    by (simp add: lcm_log_ok_def distill_names dense_seqs_def distill_messages distill_row_def i64_max_def)
qed

lemma distill_pending: "dh_pending sample_lcm_host (di_watermarks fresh_state) distill_engine = Inr [(''general'', 2), (''o/r'', 2)]"
proof -
  have "om_collect (lcm_pending_pairs distill_db (\<lambda>_. None)) = [(''general'', 2), (''o/r'', 2)]" by code_simp
  then show ?thesis by (simp add: lcm_distill_def fresh_state_def)
qed

lemma distill_gathered:
  "gather_from sample_lcm_host distill_engine fresh_state [''general'', ''o/r''] (gathered_new 1) =
     Inr \<lparr>ga_budget = 0, ga_last_session = Some ''general'', ga_spans = [(''general'', [User ''a fact''])],
          ga_advances = [(''general'', 1)]\<rparr>"
proof -
  have "transcript_since_sync distill_db ''general'' 0 1 = Inr [User ''a fact'']" by code_simp
  moreover have "token_estimate (User ''a fact'') \<ge> 1" by (simp add: token_estimate_def estimate_tokens_from_chars_def)
  ultimately show ?thesis
    by (simp add: lcm_distill_def lcm_transcript_since_def distill_names watermark_def fresh_state_def gathered_new_def
        gathered_accept_def)
qed

lemma distill_pass:
  "\<exists>y. distill_run sample_lcm_host sample_distiller Enforce distill_engine fresh_state () =
     (Inr (Some y), \<lparr>di_last_session = Some ''general'', di_watermarks = [''general'' \<mapsto> 1]\<rparr>, ())"
proof -
  have order: "session_order [(''general'', 2), (''o/r'', 2)] (di_last_session fresh_state) = [''general'', ''o/r'']"
    by (simp add: session_order_def fresh_state_def)
  have open_gate: "gate_open (total_pending [(''general'', 2), (''o/r'', 2)]) 1" by (simp add: gate_open_def total_pending_def)
  let ?g = "\<lparr>ga_budget = 0, ga_last_session = Some ''general'', ga_spans = [(''general'', [User ''a fact''])],
          ga_advances = [(''general'', 1)]\<rparr>"
  obtain m where turn: "distiller_turn ok_outside ''p'' 4 (fold_message sample_lcm_host sample_distiller ?g ()) () = (Inr (TurnText ''ok''), m, ())"
    using ok_turn [of 4 "''p''"] by (metis zero_less_numeral)
  have fields: "dh_fold_tools sample_lcm_host = ok_outside" "dh_index_size sample_lcm_host = (\<lambda>_. None)"
      "dh_save sample_lcm_host = (\<lambda>_ w. w)" "ds_threshold sample_distiller = 1" "ds_slice_tokens sample_distiller = 1"
      "ds_system_prompt sample_distiller = ''p''" "ds_max_iterations sample_distiller = 4"
    by (simp_all add: lcm_distill_def sample_distill_host_def sample_distiller_def)
  have retry: "retry_compaction sample_lcm_host sample_distiller () = (None, ())"
    by (simp add: retry_compaction_def index_over_cap_def fields)
  have state: "advanced ?g fresh_state = \<lparr>di_last_session = Some ''general'', di_watermarks = [''general'' \<mapsto> 1]\<rparr>"
    by (simp add: advanced_def fresh_state_def)
  show ?thesis
    unfolding distill_run_def distill_pending fields
    by (simp add: order open_gate [unfolded One_nat_def] distill_gathered [unfolded One_nat_def]
        turn [unfolded One_nat_def] state [unfolded One_nat_def] retry fields Let_def
        del: gather_from.simps)
qed

lemma distill_folded: "pass_folds sample_lcm_host sample_distiller Enforce distill_engine fresh_state () = [(''general'', [User ''a fact''])]"
proof -
  have "session_order [(''general'', 2), (''o/r'', 2)] (di_last_session fresh_state) = [''general'', ''o/r'']"
    by (simp add: session_order_def fresh_state_def)
  moreover obtain y where "fst (distill_run sample_lcm_host sample_distiller Enforce distill_engine fresh_state ()) = Inr (Some y)"
    using distill_pass by auto
  moreover have "ds_slice_tokens sample_distiller = 1" by (simp add: sample_distiller_def)
  ultimately show ?thesis
    by (simp add: pass_folds_def distill_pending distill_gathered [unfolded One_nat_def] del: gather_from.simps)
qed

section \<open>Claims\<close>

text \<open>
  C34: Memory folds each message once. From an engine in order and watermarks inside it, after any
  passes and any growth of the store between them, what was folded of a session is exactly its
  stored messages from the old watermark to the new one, in order, whatever passes failed.
\<close>

theorem memory_folds_each_message_once:
  assumes "distill_steps (lcm_distill failed h) lcm_grows ds e0 st0 folds e st" and "lcm_log_ok e0"
    and "\<And>n. watermark st0 n \<le> length (lcm_events n e0)"
  shows "watermark st n \<le> length (lcm_events n e) \<and> watermark st n = watermark st0 n + length (span_of n folds)
    \<and> list_all2 (lcm_renders e) (drop (watermark st0 n) (take (watermark st n) (lcm_events n e))) (span_of n folds)"
  by (rule lcm_log.folds_events [OF assms(1) [unfolded lcm_grows_log] assms(2,3)])

theorem memory_folds_each_message_once_witness:
  "\<exists>st. distill_steps sample_lcm_host lcm_grows sample_distiller distill_engine fresh_state
       [(''general'', [User ''a fact''])] distill_engine st
     \<and> watermark st ''general'' = 1
     \<and> list_all2 (lcm_renders distill_engine) (take 1 (lcm_events ''general'' distill_engine)) [User ''a fact'']"
proof -
  obtain y where run: "distill_run sample_lcm_host sample_distiller Enforce distill_engine fresh_state () =
     (Inr (Some y), \<lparr>di_last_session = Some ''general'', di_watermarks = [''general'' \<mapsto> 1]\<rparr>, ())"
    using distill_pass by blast
  let ?st = "\<lparr>di_last_session = Some ''general'', di_watermarks = [''general'' \<mapsto> 1]\<rparr>"
  have steps: "distill_steps sample_lcm_host lcm_grows sample_distiller distill_engine fresh_state
      [(''general'', [User ''a fact''])] distill_engine ?st"
    using distill_steps.pass [OF distill_steps.start run] by (simp add: distill_folded)
  have "watermark fresh_state n \<le> length (lcm_events n distill_engine)" for n
    by (simp add: watermark_def fresh_state_def)
  from memory_folds_each_message_once [OF steps distill_log_ok this, of "''general''"] steps show ?thesis
    by (intro exI [of _ ?st]) (simp add: watermark_def fresh_state_def span_of_def)
qed

text \<open>
  C35: No session is starved. While a session stays pending, at most as many successful passes
  leave it out as there are other sessions pending with it, however the store grows and however
  many passes fail in between.
\<close>

theorem no_session_is_starved:
  assumes "distill_waits (lcm_distill failed h) lcm_grows ds x S e0 st0 k e st" and "lcm_log_ok e0" and "finite S"
  shows "k \<le> card (S - {x})"
  by (rule lcm_log.waits_at_most [OF assms(1) [unfolded lcm_grows_log] assms(2,3)])

theorem no_session_is_starved_witness:
  "\<exists>st. distill_waits sample_lcm_host lcm_grows sample_distiller ''o/r'' {''general'', ''o/r''} distill_engine fresh_state
       1 distill_engine st
     \<and> 1 \<le> card ({''general'', ''o/r''} - {''o/r''})"
proof -
  obtain y where run: "distill_run sample_lcm_host sample_distiller Enforce distill_engine fresh_state () =
     (Inr (Some y), \<lparr>di_last_session = Some ''general'', di_watermarks = [''general'' \<mapsto> 1]\<rparr>, ())"
    using distill_pass by blast
  have waits: "distill_waits sample_lcm_host lcm_grows sample_distiller ''o/r'' {''general'', ''o/r''} distill_engine fresh_state
      1 distill_engine \<lparr>di_last_session = Some ''general'', di_watermarks = [''general'' \<mapsto> 1]\<rparr>"
    using distill_waits.waits_pass [OF distill_waits.waits_start run distill_pending] by (simp add: distill_folded)
  from no_session_is_starved [OF waits distill_log_ok] waits show ?thesis by blast
qed

end
