(* ===== verification/Agent_Keeps.thy ===== *)
theory Agent_Keeps
  imports Agent_Turn
begin

text \<open>
  What a turn leaves alone: a predicate on the engine that pushes, compactions and
  observations keep is kept by the whole turn, whatever the provider and the tools do and
  however it ends.
\<close>

locale turn_frame =
  fixes env :: "('e, 'w, 't, 'f::{zero,plus}) turn_env"
    and I :: "'e \<Rightarrow> bool"
  assumes push_I: "I e \<Longrightarrow> tv_push env m (e, w) = (r, e', w') \<Longrightarrow> I e'"
    and compact_I: "I e \<Longrightarrow> tv_compact_if_urgent env (e, w) = (c, e', w') \<Longrightarrow> I e'"
    and request_I: "I e \<Longrightarrow> tv_observe_request env ms tools (e, w) = (e', w') \<Longrightarrow> I e'"
    and tokens_I: "I e \<Longrightarrow> I (tv_observe_tokens env n e)"
begin

definition held :: "('e, 'w, 'f) turn_state \<Rightarrow> bool" where
  "held s \<longleftrightarrow> I (ts_engine s)"

lemma emit_held: "keeps held (emit a)"
  by (rule keepsI) (simp add: emit_def act_simps held_def)

lemma stats_held: "keeps held (stats f)"
  by (rule keepsI) (simp add: stats_def act_simps held_def)

lemma usage_held: "keeps held (usage f)"
  unfolding usage_def by (rule stats_held)

lemma push_held: "keeps held (push env m)"
  using push_I by (auto simp: hoare_def push_def engine_call_def held_def split: prod.splits sum.splits)

lemma compact_held: "keeps held (engine_call (tv_compact_if_urgent env))"
  using compact_I by (auto simp: hoare_def engine_call_def held_def split: prod.splits sum.splits)

lemma request_held: "keeps held (engine_call (\<lambda>ew. (Inr (), tv_observe_request env ms tools ew)))"
  using request_I by (auto simp: hoare_def engine_call_def held_def split: prod.splits)

lemma tokens_held: "keeps held (engine_call (\<lambda>(e, w). (Inr (), tv_observe_tokens env n e, w)))"
  using tokens_I by (auto simp: hoare_def engine_call_def held_def split: prod.splits)

lemma assemble_held: "keeps held (assemble env prompt)"
  by (auto simp: hoare_def assemble_def engine_call_def held_def split: prod.splits sum.splits)

lemma cancellable_held: "keeps held (cancellable f)"
  by (auto simp: hoare_def cancellable_def held_def emit_def act_simps split: prod.splits option.splits)

lemma cancellable_of_state_held: "keeps held (\<lambda>s. cancellable (f s) s)"
  by (auto simp: hoare_def cancellable_def held_def emit_def act_simps split: prod.splits option.splits)

lemma check_held: "keeps held (check_cancelled env)"
  by (auto simp: hoare_def check_cancelled_def held_def emit_def act_simps)

lemma return_held: "keeps held (act_return a)"
  by (rule hoare_return)

lemma throw_held: "keeps held (act_throw e)"
  by (rule hoare_throw)

lemma each_held: "(\<And>x. keeps held (f x)) \<Longrightarrow> keeps held (act_each f xs)"
  by (rule hoare_each)

lemma when_held: "keeps held m \<Longrightarrow> keeps held (act_when b m)"
  by (rule hoare_when)

lemmas held_then = hoare_then [where P = held and R = held and Q = "\<lambda>_. held" and E = "\<lambda>_. held"]
lemmas held_bind = hoare_bind [where P = held and R = "\<lambda>_. held" and Q = "\<lambda>_. held" and E = "\<lambda>_. held"]
lemmas held_steps = held_then held_bind emit_held stats_held usage_held push_held compact_held request_held
  tokens_held assemble_held cancellable_held cancellable_of_state_held check_held return_held throw_held
  each_held when_held

lemma record_result_held: "held s \<Longrightarrow> held (record_result env call result content s)"
  unfolding record_result_def Let_def by (rule keepsD [OF push_held]) (simp add: held_def)

lemma record_held: "keeps held (record_tool_results env crs acc)"
proof (rule keepsI)
  fix s assume "held s"
  then show "held (snd (record_tool_results env crs acc s))"
    by (induction crs arbitrary: acc s) (auto simp: Let_def record_result_held split: prod.split)
qed

lemma complete_held: "keeps held (complete env prompt tools)"
  unfolding complete_def by (intro held_steps) (auto intro!: held_steps split: sum.split option.split)

lemma text_round_held: "keeps held (text_round env tp i lv content)"
  unfolding text_round_def by (intro held_steps hoare_if_state)

lemma repeated_round_held: "keeps held (repeated_round env lv calls)"
  unfolding repeated_round_def Let_def by (intro held_steps hoare_if)

lemma policy_step_held: "keeps held (policy_step env lv blocked)"
  unfolding policy_step_def Let_def by (auto intro!: held_steps hoare_if split: prod.split)

lemma executed_round_held: "keeps held (executed_round env lv calls)"
  unfolding executed_round_def Let_def
  by (intro held_steps record_held) (auto intro: held_steps policy_step_held split: option.split)

lemma calls_round_held: "keeps held (calls_round env lv content calls)"
  unfolding calls_round_def Let_def
  by (intro held_steps) (auto intro: repeated_round_held executed_round_held split: prod.split)

lemma turn_round_held: "keeps held (turn_round env tp i lv)"
  unfolding turn_round_def
  by (intro held_steps complete_held) (auto intro: held_steps text_round_held calls_round_held split: option.split response.split)

lemma squeeze_held: "keeps held (squeeze env tp directive)"
  unfolding squeeze_def Let_def by (intro held_steps complete_held)

lemma budget_exhausted_held: "keeps held (budget_exhausted env tp)"
proof -
  have report: "keeps held (state_report env tp)"
    using squeeze_held [of tp STATE_REPORT_DIRECTIVE]
    by (fastforce simp: hoare_def state_report_def split: prod.splits sum.splits if_splits)
  have final: "keeps held (final_answer env tp)"
    unfolding final_answer_def by (intro held_steps squeeze_held)
  show ?thesis
    unfolding budget_exhausted_def by (intro held_steps) (simp add: report final split: budget_policy.split)
qed

lemma turn_iterations_held: "keeps held (turn_iterations env tp iterations lv)"
proof (induction iterations arbitrary: lv)
  case (Cons i iterations)
  show ?case
    unfolding turn_iterations.simps
    by (intro held_bind turn_round_held) (auto intro: return_held Cons.IH split: option.split prod.split)
qed (simp add: budget_exhausted_held)

lemma turn_loop_held: "keeps held (turn_loop env tp user_message)"
  unfolding turn_loop_def by (intro held_steps turn_iterations_held)

lemma turn_keeps_engine:
  assumes "I e" and "run_turn_metered env tp user_message (e, w) = (r, meter, s)"
  shows "I (ts_engine s)"
proof -
  have "held (snd (turn_loop env tp user_message \<lparr>ts_engine = e, ts_world = w, ts_events = [], ts_stats = no_stats\<rparr>))"
    using assms(1) by (intro keepsD [OF turn_loop_held]) (simp add: held_def)
  then show ?thesis using assms(2) by (auto simp: run_turn_metered_def held_def split: prod.splits)
qed

end

end
