(* ===== verification/Agent_Actor.thy ===== *)
theory Agent_Actor
  imports Agent_Keeps Memory_Distill GitHub_Types
begin

text \<open>
  The agent actor (\<^verbatim>\<open>src/src/agent/actor.rs\<close>): a mailbox of envelopes, handled one at a time,
  with the slash commands (\<^verbatim>\<open>commands.rs\<close>, \<^verbatim>\<open>dispatch.rs\<close>), the escalation table
  (\<^verbatim>\<open>agent/escalation.rs\<close>) and the handle the channels send through (\<^verbatim>\<open>agent/handle.rs\<close>).
  The engine and the providers are the fields of \<open>actor_host\<close>; a turn is
  \<open>process_message_metered\<close> and a distillation \<open>distill_run\<close>. What the actor sends to the
  notifier, the journal and the ledger is the list \<open>ac_log\<close>; \<open>Turned\<close> is written beside each
  turn for the statements about providers.
\<close>

section \<open>Sources and tasks\<close>

datatype channel_source =
    Duty string
  | GitHubPr nat string github_role
  | GitHubIssue string
  | LinearIssue string
  | Socket
  | Telegram

definition is_attended :: "channel_source \<Rightarrow> bool" where
  "is_attended source \<longleftrightarrow> source = Socket \<or> source = Telegram"

fun topic_of :: "channel_source \<Rightarrow> string" where
  "topic_of (Duty _) = ''duty''"
| "topic_of (GitHubPr _ _ _) = ''github''"
| "topic_of (GitHubIssue _) = ''github''"
| "topic_of (LinearIssue _) = ''linear''"
| "topic_of Socket = ''socket''"
| "topic_of Telegram = ''telegram''"

fun source_str :: "channel_source \<Rightarrow> string" where
  "source_str (Duty _) = ''Duty''"
| "source_str (GitHubPr pr_number _ _) = ''GitHub PR #'' @ nat_str pr_number"
| "source_str (GitHubIssue issue) = ''GitHub issue '' @ issue"
| "source_str (LinearIssue issue) = ''Linear '' @ issue"
| "source_str Socket = ''Socket''"
| "source_str Telegram = ''Telegram''"

fun task_key :: "channel_source \<Rightarrow> string" where
  "task_key (Duty duty) = ''duty:'' @ duty"
| "task_key (GitHubPr pr_number repo _) = ''pr:'' @ repo @ ''#'' @ nat_str pr_number"
| "task_key (GitHubIssue issue) = ''issue:'' @ issue"
| "task_key (LinearIssue issue) = ''linear:'' @ issue"
| "task_key Socket = ''chat:socket''"
| "task_key Telegram = ''chat:telegram''"

definition role_segments :: "'a \<Rightarrow> 'a \<Rightarrow> channel_source \<Rightarrow> 'a" where
  "role_segments reviewer builder source = (case source of GitHubPr _ _ Reviewer \<Rightarrow> reviewer | _ \<Rightarrow> builder)"

section \<open>Input\<close>

datatype slash_command =
    CmdCompact | CmdContext | CmdDistill | CmdDuty string | CmdDuties | CmdNew
  | CmdProject "string option" | CmdStats | CmdUsage | CmdFindings

definition match_command :: "string \<Rightarrow> string \<Rightarrow> slash_command option" where
  "match_command hd_word arg =
     (if hd_word = ''/compact'' \<and> arg = [] then Some CmdCompact
      else if hd_word = ''/context'' \<and> arg = [] then Some CmdContext
      else if hd_word = ''/distill'' \<and> arg = [] then Some CmdDistill
      else if hd_word = ''/duties'' \<and> arg = [] then Some CmdDuties
      else if hd_word = ''/duty'' \<and> arg \<noteq> [] then Some (CmdDuty arg)
      else if hd_word = ''/new'' \<and> arg = [] then Some CmdNew
      else if hd_word = ''/stats'' \<and> arg = [] then Some CmdStats
      else if hd_word = ''/usage'' \<and> arg = [] then Some CmdUsage
      else if hd_word = ''/findings'' \<and> arg = [] then Some CmdFindings
      else if hd_word = ''/project'' then Some (CmdProject (if arg = [] then None else Some arg))
      else None)"

definition parse_slash :: "string \<Rightarrow> slash_command option" where
  "parse_slash input = (case split_whitespace input of
     [] \<Rightarrow> None
   | [hd_word] \<Rightarrow> match_command hd_word []
   | [hd_word, arg] \<Rightarrow> match_command hd_word arg
   | _ \<Rightarrow> None)"

datatype parsed_input = Command slash_command | FreeText string

definition parse_input :: "string \<Rightarrow> parsed_input option" where
  "parse_input text_in =
     (if \<not> prefix ''/'' text_in then Some (FreeText text_in) else map_option Command (parse_slash text_in))"

record reply =
  rp_content :: string
  rp_preformatted :: bool
  rp_routine :: bool

definition reply_text :: "string \<Rightarrow> reply" where
  "reply_text content = \<lparr>rp_content = content, rp_preformatted = False, rp_routine = False\<rparr>"

definition reply_pre :: "string \<Rightarrow> reply" where
  "reply_pre content = \<lparr>rp_content = content, rp_preformatted = True, rp_routine = False\<rparr>"

definition reply_routine :: "string \<Rightarrow> reply" where
  "reply_routine content = \<lparr>rp_content = content, rp_preformatted = False, rp_routine = True\<rparr>"

section \<open>The actor\<close>

datatype turn_role = DefaultRole | PlannerRole
datatype provider_tier = DefaultTier | RetryTier
datatype transition = Armed | Cleared | Exhausted
datatype served_by = DefaultProvider | RetryProvider | PlannerProvider | MemoryProvider

record input_envelope =
  ie_source :: channel_source
  ie_input :: string
  ie_hint :: "string option"
  ie_role :: turn_role

record 'f turn_record =
  ur_session :: string
  ur_source :: string
  ur_model :: string
  ur_task :: string
  ur_meter :: "'f turn_meter"

datatype 'f actor_event =
    Alerted string
  | Journalled string string
  | Billed "'f turn_record"
  | TurnBegan
  | Flushed
  | ErrorLogged string
  | Turned turn_role string served_by bool

record ('e, 'w, 'f) actor =
  ac_engine :: 'e
  ac_world :: 'w
  ac_escalated :: "string set"
  ac_log :: "'f actor_event list"
  ac_seq :: nat

record ('e, 'w, 't, 'f) actor_host =
  ah_active :: "'e \<Rightarrow> string"
  ah_stats :: "'e \<Rightarrow> context_stats"
  ah_switch :: "string \<Rightarrow> 'e \<times> 'w \<Rightarrow> (engine_failure + unit) \<times> 'e \<times> 'w"
  ah_save :: "'e \<times> 'w \<Rightarrow> (engine_failure + unit) \<times> 'e \<times> 'w"
  ah_clear :: "'e \<times> 'w \<Rightarrow> (engine_failure + unit) \<times> 'e \<times> 'w"
  ah_force_compact :: "'e \<times> 'w \<Rightarrow> (engine_failure + compaction_event) \<times> 'e \<times> 'w"
  ah_between :: "'e \<times> 'w \<Rightarrow> (engine_failure + compaction_event option) \<times> 'e \<times> 'w"
  ah_list :: "'e \<Rightarrow> engine_failure + session_info list"
  ah_report :: "'e \<Rightarrow> engine_failure + string"
  ah_tee_section :: "'w \<Rightarrow> string"
  ah_env :: "served_by \<Rightarrow> input_envelope \<Rightarrow> ('e, 'w, 't, 'f) turn_env"
  ah_prompt :: "'w \<Rightarrow> string"
  ah_index :: "'w \<Rightarrow> string option"
  ah_conventions :: "string \<Rightarrow> 'w \<Rightarrow> string option"
  ah_gates :: "string option"
  ah_reviewer_segments :: "string list"
  ah_builder_segments :: "string list"
  ah_max_iterations :: nat
  ah_model :: "served_by \<Rightarrow> string"
  ah_retry :: bool
  ah_notifier :: bool
  ah_ledger :: bool
  ah_duties :: "string list option"
  ah_try_send :: "string option \<Rightarrow> 'w \<Rightarrow> (string + unit) \<times> 'w"
  ah_db_fault :: "'w \<Rightarrow> string option"
  ah_distill :: "('e, 'w, 't, 'f) distill_host"
  ah_distiller :: distiller
  ah_usage_report :: "('w \<Rightarrow> string + string) option"
  ah_findings_report :: "('w \<Rightarrow> string + string) option"
  ah_debug :: "string \<Rightarrow> string"

definition logged :: "'f actor_event \<Rightarrow> ('e, 'w, 'f) actor \<Rightarrow> ('e, 'w, 'f) actor" where
  "logged ev a = a\<lparr>ac_log := ac_log a @ [ev]\<rparr>"

definition engine_op ::
  "('e \<times> 'w \<Rightarrow> (engine_failure + 'a) \<times> 'e \<times> 'w) \<Rightarrow> ('e, 'w, 'f) actor \<Rightarrow> (engine_failure + 'a) \<times> ('e, 'w, 'f) actor" where
  "engine_op f a = (case f (ac_engine a, ac_world a) of (r, e, w) \<Rightarrow> (r, a\<lparr>ac_engine := e, ac_world := w\<rparr>))"

text \<open>\<open>if let Err(e) = op { error!(..) }\<close>.\<close>

definition best_effort ::
  "string \<Rightarrow> (string \<Rightarrow> string) \<Rightarrow> ('e \<times> 'w \<Rightarrow> (engine_failure + unit) \<times> 'e \<times> 'w) \<Rightarrow> ('e, 'w, 'f) actor \<Rightarrow> ('e, 'w, 'f) actor" where
  "best_effort what dbg f a = (case engine_op f a of
     (Inl err, a') \<Rightarrow> logged (ErrorLogged (what @ engine_failure_str dbg err)) a'
   | (Inr _, a') \<Rightarrow> a')"

definition save_session :: "('e, 'w, 't, 'f) actor_host \<Rightarrow> ('e, 'w, 'f) actor \<Rightarrow> ('e, 'w, 'f) actor" where
  "save_session h = best_effort ''Failed to save session: '' (ah_debug h) (ah_save h)"

definition record_turn :: "('e, 'w, 't, 'f) actor_host \<Rightarrow> 'f turn_record \<Rightarrow> ('e, 'w, 'f) actor \<Rightarrow> ('e, 'w, 'f) actor" where
  "record_turn h r a = (if ah_ledger h then logged (Billed r) a else a)"

definition alert :: "('e, 'w, 't, 'f) actor_host \<Rightarrow> string \<Rightarrow> ('e, 'w, 'f) actor \<Rightarrow> ('e, 'w, 'f) actor" where
  "alert h msg a = (if ah_notifier h then logged (Alerted msg) a else a)"

section \<open>Commands\<close>

definition context_reply :: "('e, 'w, 't, 'f) actor_host \<Rightarrow> 'e \<Rightarrow> reply" where
  "context_reply h e = (let st = ah_stats h e;
       pct = (if cs_budget st = 0 then 0 else cs_token_estimate st * 100 div cs_budget st)
     in reply_text (''Context: '' @ nat_str (cs_token_estimate st) @ '' / '' @ nat_str (cs_budget st) @
          '' tokens ('' @ nat_str pct @ ''%)'' @ newline @ ''Messages: '' @ nat_str (cs_message_count st) @ newline @
          ''Session: '' @ display_name (ah_active h e)))"

definition distill_pass ::
  "('e, 'w, 't, 'f::{zero,plus}) actor_host \<Rightarrow> string \<Rightarrow> string \<Rightarrow> gate \<Rightarrow> ('e, 'w, 'f) actor \<Rightarrow>
   (string + string option) \<times> ('e, 'w, 'f) actor" where
  "distill_pass h task session gate a =
     (case load_distill_state (ah_distill h) (ac_engine a) (ac_world a) of
        (Inl err, w) \<Rightarrow> (Inl (''Distillation state load failed: '' @ turn_error_str (ah_debug h) err), a\<lparr>ac_world := w\<rparr>)
      | (Inr st, w) \<Rightarrow>
          (case distill_run (ah_distill h) (ah_distiller h) gate (ac_engine a) st w of
             (Inl err, _, w1) \<Rightarrow> (Inl (turn_error_str (ah_debug h) err), a\<lparr>ac_world := w1\<rparr>)
           | (Inr None, _, w1) \<Rightarrow> (Inr None, a\<lparr>ac_world := w1\<rparr>)
           | (Inr (Some (summary, meter)), _, w1) \<Rightarrow>
               (Inr (Some summary),
                logged (Journalled ''distill'' (''Distilled: '' @ summary))
                  (record_turn h \<lparr>ur_session = session, ur_source = ''distill'', ur_model = ah_model h MemoryProvider,
                     ur_task = task, ur_meter = meter\<rparr> (a\<lparr>ac_world := w1\<rparr>)))))"

definition distill_reply ::
  "('e, 'w, 't, 'f::{zero,plus}) actor_host \<Rightarrow> string \<Rightarrow> gate \<Rightarrow> string \<Rightarrow> ('e, 'w, 'f) actor \<Rightarrow>
   (string + reply) \<times> ('e, 'w, 'f) actor" where
  "distill_reply h task gate idle a =
     (case distill_pass h task (ah_active h (ac_engine a)) gate a of
        (Inl err, a') \<Rightarrow> (Inl (''Distillation failed: '' @ err), a')
      | (Inr (Some summary), a') \<Rightarrow> (Inr (reply_text (''Distilled: '' @ summary)), a')
      | (Inr None, a') \<Rightarrow> (Inr (reply_routine idle), a'))"

definition run_duty ::
  "('e, 'w, 't, 'f::{zero,plus}) actor_host \<Rightarrow> string \<Rightarrow> string \<Rightarrow> ('e, 'w, 'f) actor \<Rightarrow>
   (string + reply) \<times> ('e, 'w, 'f) actor" where
  "run_duty h task name a =
     (if name = ''distill'' then distill_reply h task Enforce ''Distillation gate closed.'' a
      else (Inl (''Unknown duty: '' @ name), a))"

definition session_line :: "string \<Rightarrow> session_info \<Rightarrow> string" where
  "session_line active s =
     (if sanitize_name (si_name s) = active then ''* '' else ''  '') @ si_name s @ '' ('' @ nat_str (si_count s) @
     '' messages, ~'' @ nat_str (si_tokens s) @ '' tokens)'' @ newline"

definition render_sessions :: "session_info list \<Rightarrow> string \<Rightarrow> string" where
  "render_sessions sessions active =
     (let out = concat (map (session_line active) sessions)
      in if out = [] then ''No sessions.'' @ newline else out)"

definition list_projects ::
  "('e, 'w, 't, 'f) actor_host \<Rightarrow> ('e, 'w, 'f) actor \<Rightarrow> (string + reply) \<times> ('e, 'w, 'f) actor" where
  "list_projects h a = (case ah_list h (ac_engine a) of
     Inl err \<Rightarrow> (Inl (engine_failure_str (ah_debug h) err), a)
   | Inr sessions \<Rightarrow> (Inr (reply_pre (render_sessions sessions (ah_active h (ac_engine a)))), a))"

definition switch_project ::
  "('e, 'w, 't, 'f) actor_host \<Rightarrow> string \<Rightarrow> ('e, 'w, 'f) actor \<Rightarrow> (string + reply) \<times> ('e, 'w, 'f) actor" where
  "switch_project h name a = (case ah_list h (ac_engine a) of
     Inl err \<Rightarrow> (Inl (engine_failure_str (ah_debug h) err), a)
   | Inr sessions \<Rightarrow>
       if \<not> list_ex (\<lambda>s. sanitize_name (si_name s) = sanitize_name name) sessions
       then (Inl (''No session '' @ [CHR 0x27] @ name @ [CHR 0x27] @ ''. Sessions:'' @ newline @
               render_sessions sessions (ah_active h (ac_engine a))), a)
       else case engine_op (ah_switch h name) a of
         (Inl err, a1) \<Rightarrow> (Inl (engine_failure_str (ah_debug h) err), a1)
       | (Inr _, a1) \<Rightarrow>
           (let a2 = save_session h a1 in
            (Inr (reply_text (''Switched to '' @ [CHR 0x27] @ display_name (ah_active h (ac_engine a2)) @ [CHR 0x27] @
               '' ('' @ nat_str (cs_message_count (ah_stats h (ac_engine a2))) @ '' messages)'')), a2)))"

definition report_reply :: "string \<Rightarrow> string \<Rightarrow> ('w \<Rightarrow> string + string) option \<Rightarrow> 'w \<Rightarrow> string + reply" where
  "report_reply disabled failed report w = (case report of
     None \<Rightarrow> Inr (reply_text disabled)
   | Some f \<Rightarrow> (case f w of Inl err \<Rightarrow> Inl (failed @ err) | Inr s \<Rightarrow> Inr (reply_pre s)))"

definition execute_command ::
  "('e, 'w, 't, 'f::{zero,plus}) actor_host \<Rightarrow> string \<Rightarrow> slash_command \<Rightarrow> ('e, 'w, 'f) actor \<Rightarrow>
   (string + reply) \<times> ('e, 'w, 'f) actor" where
  "execute_command h task cmd a = (case cmd of
     CmdCompact \<Rightarrow> (case engine_op (ah_force_compact h) a of
         (Inl err, a1) \<Rightarrow> (Inl (''Compaction failed: '' @ engine_failure_str (ah_debug h) err), a1)
       | (Inr ev, a1) \<Rightarrow>
           if ev_before ev = 0 \<and> ev_after ev = 0 then (Inr (reply_text ''Nothing to compact.''), a1)
           else (Inr (reply_text (''Compacted: '' @ nat_str (ev_before ev) @ '' -> '' @ nat_str (ev_after ev) @ '' tokens'')),
             save_session h a1))
   | CmdContext \<Rightarrow> (Inr (context_reply h (ac_engine a)), a)
   | CmdDistill \<Rightarrow> distill_reply h task Bypass ''Nothing to distill.'' a
   | CmdDuty name \<Rightarrow> run_duty h task name a
   | CmdDuties \<Rightarrow> distill_reply h task Enforce ''Distillation gate closed.'' a
   | CmdNew \<Rightarrow> (case engine_op (ah_clear h) a of
         (Inl err, a1) \<Rightarrow> (Inl (engine_failure_str (ah_debug h) err), a1)
       | (Inr _, a1) \<Rightarrow> (Inr (reply_text ''Session cleared.''), save_session h a1))
   | CmdProject None \<Rightarrow> list_projects h a
   | CmdProject (Some raw) \<Rightarrow> switch_project h raw a
   | CmdStats \<Rightarrow> (case ah_report h (ac_engine a) of
         Inl err \<Rightarrow> (Inl (engine_failure_str (ah_debug h) err), a)
       | Inr out \<Rightarrow> (Inr (reply_pre (out @ ah_tee_section h (ac_world a))), a))
   | CmdUsage \<Rightarrow> (report_reply ''Usage tracking is disabled.'' ''Usage query failed: '' (ah_usage_report h) (ac_world a), a)
   | CmdFindings \<Rightarrow>
       (report_reply ''Review tracking is disabled.'' ''Findings query failed: '' (ah_findings_report h) (ac_world a), a))"

text \<open>\<open>None\<close> when the command is not for the scheduler.\<close>

definition send_trigger ::
  "('e, 'w, 't, 'f) actor_host \<Rightarrow> string option \<Rightarrow> ('e, 'w, 'f) actor \<Rightarrow> (string + reply) \<times> ('e, 'w, 'f) actor" where
  "send_trigger h name a = (case ah_try_send h name (ac_world a) of
     (Inr _, w) \<Rightarrow> (Inr (reply_text (''Queued: '' @ (case name of None \<Rightarrow> ''all duties'' | Some n \<Rightarrow> n) @ '' '' @ em_dash @
        '' gates respected, outcomes land in the journal.'')), a\<lparr>ac_world := w\<rparr>)
   | (Inl err, w) \<Rightarrow> (Inl (''duty trigger queue unavailable: '' @ err), a\<lparr>ac_world := w\<rparr>))"

definition forward_duty ::
  "('e, 'w, 't, 'f) actor_host \<Rightarrow> slash_command \<Rightarrow> channel_source \<Rightarrow> ('e, 'w, 'f) actor \<Rightarrow>
   ((string + reply) \<times> ('e, 'w, 'f) actor) option" where
  "forward_duty h cmd source a =
     (if (case source of Duty _ \<Rightarrow> True | _ \<Rightarrow> False) then None
      else case ah_duties h of
        None \<Rightarrow> None
      | Some names \<Rightarrow> (case cmd of
            CmdDuties \<Rightarrow> Some (send_trigger h None a)
          | CmdDuty name \<Rightarrow>
              if name \<notin> set names
              then Some (Inr (reply_text (''Unknown duty '' @ ah_debug h name @ ''; known: '' @ join_with '', '' names)), a)
              else Some (send_trigger h (Some name) a)
          | _ \<Rightarrow> None))"

section \<open>Escalation\<close>

definition escalation_tier ::
  "('e, 'w, 't, 'f) actor_host \<Rightarrow> turn_role \<Rightarrow> string \<Rightarrow> ('e, 'w, 'f) actor \<Rightarrow> string + provider_tier option" where
  "escalation_tier h role task a = (case role of
     PlannerRole \<Rightarrow> Inr None
   | DefaultRole \<Rightarrow>
       if ah_retry h then (case ah_db_fault h (ac_world a) of
           Some err \<Rightarrow> Inl (''Failed to load execution retry state for '' @ task @ '': '' @ err)
         | None \<Rightarrow> Inr (Some (if task \<in> ac_escalated a then RetryTier else DefaultTier)))
       else Inr None)"

definition provider_for :: "('e, 'w, 't, 'f) actor_host \<Rightarrow> turn_role \<Rightarrow> provider_tier option \<Rightarrow> string + served_by" where
  "provider_for h role tier = (case role of
     PlannerRole \<Rightarrow> Inr PlannerProvider
   | DefaultRole \<Rightarrow> (if tier = Some RetryTier
       then (if ah_retry h then Inr RetryProvider else Inl ''Execution retry provider became unavailable'')
       else Inr DefaultProvider))"

definition escalation_record :: "string \<Rightarrow> provider_tier \<Rightarrow> bool \<Rightarrow> string set \<Rightarrow> transition \<times> string set" where
  "escalation_record task tier capped table =
     (if capped then (case tier of DefaultTier \<Rightarrow> (Armed, insert task table) | RetryTier \<Rightarrow> (Exhausted, table - {task}))
      else (Cleared, table - {task}))"

definition EXHAUSTED_NOTE :: string where
  "EXHAUSTED_NOTE = newline @ newline @ ''The configured execution retry tier also exhausted its budget. '' @
     ''Human intervention is required before retrying.''"

definition add_note :: "turn_error + turn_output \<Rightarrow> turn_error + turn_output" where
  "add_note result = (case result of
     Inl (MaxIterationsReached report) \<Rightarrow> Inl (MaxIterationsReached (report @ EXHAUSTED_NOTE))
   | _ \<Rightarrow> result)"

definition record_escalation ::
  "('e, 'w, 't, 'f) actor_host \<Rightarrow> string \<Rightarrow> provider_tier option \<Rightarrow> bool \<Rightarrow> turn_error + turn_output \<Rightarrow>
   ('e, 'w, 'f) actor \<Rightarrow> (string + unit) \<times> (turn_error + turn_output) \<times> ('e, 'w, 'f) actor" where
  "record_escalation h task tier capped result a = (case tier of
     None \<Rightarrow> (Inr (), result, a)
   | Some t \<Rightarrow> (case ah_db_fault h (ac_world a) of
       Some err \<Rightarrow> (Inl (''Failed to update execution retry state for '' @ task @ '': '' @ err), result, a)
     | None \<Rightarrow> (case escalation_record task t capped (ac_escalated a) of
         (tr, table) \<Rightarrow> (Inr (), (if tr = Exhausted then add_note result else result), a\<lparr>ac_escalated := table\<rparr>))))"

section \<open>One envelope\<close>

definition halt_alert ::
  "('e, 'w, 't, 'f) actor_host \<Rightarrow> channel_source \<Rightarrow> turn_error + turn_output \<Rightarrow> ('e, 'w, 'f) actor \<Rightarrow> ('e, 'w, 'f) actor" where
  "halt_alert h source result a =
     (if is_attended source then a
      else case result of
        Inr (PolicyHalt reasons) \<Rightarrow>
          alert h (source_str source @ '': turn halted by policy gate: '' @ join_with ''; '' reasons) a
      | Inr (ToolHalt tool _ err_class n) \<Rightarrow>
          alert h (source_str source @ '': turn halted by tool strike: '' @ tool @ '' failed '' @ nat_str n @ ''x ('' @
            err_class @ '')'') a
      | _ \<Rightarrow> a)"

definition finish_message :: "('e, 'w, 't, 'f) actor_host \<Rightarrow> string \<Rightarrow> bool \<Rightarrow> ('e, 'w, 'f) actor \<Rightarrow> ('e, 'w, 'f) actor" where
  "finish_message h original switched a =
     (let a1 = (if ah_notifier h then logged Flushed a else a)
      in if switched
         then best_effort (''Failed to restore active session '' @ [CHR 0x27] @ original @ [CHR 0x27] @ '': '') (ah_debug h)
                (ah_switch h original) a1
         else save_session h a1)"

definition root_turn ::
  "('e, 'w, 't, 'f::{zero,plus}) actor_host \<Rightarrow> served_by \<Rightarrow> input_envelope \<Rightarrow> string \<Rightarrow> ('e, 'w, 'f) actor \<Rightarrow>
   (turn_error + turn_output) \<times> 'f turn_meter \<times> ('e, 'w, 'f) actor" where
  "root_turn h provider env tagged a =
     (case process_message_metered (ah_env h provider env) (ah_prompt h (ac_world a)) (ah_index h (ac_world a))
        (ah_conventions h (ah_active h (ac_engine a)) (ac_world a)) (ah_gates h)
        (role_segments (ah_reviewer_segments h) (ah_builder_segments h) (ie_source env))
        (ah_max_iterations h) tagged (ac_engine a, ac_world a) of
      (result, meter, s) \<Rightarrow> (result, meter, a\<lparr>ac_engine := ts_engine s, ac_world := ts_world s\<rparr>))"

definition is_capped :: "turn_error + turn_output \<Rightarrow> bool" where
  "is_capped result = (case result of Inl (MaxIterationsReached _) \<Rightarrow> True | _ \<Rightarrow> False)"

text \<open>From the turn to the reply, with the session already switched.\<close>

definition message_turn ::
  "('e, 'w, 't, 'f::{zero,plus}) actor_host \<Rightarrow> input_envelope \<Rightarrow> string \<Rightarrow> provider_tier option \<Rightarrow> served_by \<Rightarrow> string \<Rightarrow>
   string \<Rightarrow> ('e, 'w, 'f) actor \<Rightarrow> (string + reply) \<times> ('e, 'w, 'f) actor" where
  "message_turn h env msg tier provider original target a =
     (let task = task_key (ie_source env); source = source_str (ie_source env);
          a1 = (if ah_notifier h then logged TurnBegan a else a)
      in case root_turn h provider env (''['' @ source @ '']: '' @ msg) a1 of
        (result, meter, a2) \<Rightarrow>
          (let a3 = record_turn h \<lparr>ur_session = target, ur_source = source, ur_model = ah_model h provider,
                      ur_task = task, ur_meter = meter\<rparr> (logged (Turned (ie_role env) task provider (is_capped result)) a2)
           in case record_escalation h task tier (is_capped result) result a3 of
             (escalation, result', a4) \<Rightarrow>
               (let a5 = finish_message h original (target \<noteq> original) (halt_alert h (ie_source env) result' a4)
                in (case escalation of
                      Inl err \<Rightarrow> Inl err
                    | Inr _ \<Rightarrow> (case result' of
                        Inl err \<Rightarrow> Inl (turn_error_str (ah_debug h) err)
                      | Inr out \<Rightarrow> Inr (reply_text (into_text out))), a5))))"

definition handle_message ::
  "('e, 'w, 't, 'f::{zero,plus}) actor_host \<Rightarrow> input_envelope \<Rightarrow> string \<Rightarrow> ('e, 'w, 'f) actor \<Rightarrow>
   (string + reply) \<times> ('e, 'w, 'f) actor" where
  "handle_message h env msg a =
     (case escalation_tier h (ie_role env) (task_key (ie_source env)) a of
        Inl err \<Rightarrow> (Inl err, a)
      | Inr tier \<Rightarrow> (case provider_for h (ie_role env) tier of
          Inl err \<Rightarrow> (Inl err, a)
        | Inr provider \<Rightarrow>
            (let original = ah_active h (ac_engine a);
                 target = (case ie_hint env of None \<Rightarrow> original | Some s \<Rightarrow> s)
             in if target \<noteq> original then (case engine_op (ah_switch h target) a of
                    (Inl err, a1) \<Rightarrow> (Inl (''Failed to switch session: '' @ engine_failure_str (ah_debug h) err), a1)
                  | (Inr _, a1) \<Rightarrow> message_turn h env msg tier provider original target a1)
                else message_turn h env msg tier provider original target a)))"

definition journal_entry :: "channel_source \<Rightarrow> string + reply \<Rightarrow> string option" where
  "journal_entry source result = (case result of
     Inr r \<Rightarrow> if rp_routine r then None else Some (source_str source @ '': '' @ rp_content r)
   | Inl err \<Rightarrow> Some (source_str source @ '': failed: '' @ err))"

definition report_outcome ::
  "('e, 'w, 't, 'f) actor_host \<Rightarrow> channel_source \<Rightarrow> string + reply \<Rightarrow> ('e, 'w, 'f) actor \<Rightarrow> ('e, 'w, 'f) actor" where
  "report_outcome h source result a =
     (if is_attended source then a
      else (let a1 = (case result of
                   Inl problem \<Rightarrow> alert h (source_str source @ '': turn failed: '' @ problem) a
                 | Inr _ \<Rightarrow> a)
            in case journal_entry source result of
                 None \<Rightarrow> a1
               | Some entry \<Rightarrow> logged (Journalled (topic_of source) entry) a1))"

definition handle_input ::
  "('e, 'w, 't, 'f::{zero,plus}) actor_host \<Rightarrow> input_envelope \<Rightarrow> ('e, 'w, 'f) actor \<Rightarrow>
   (string + reply) \<times> ('e, 'w, 'f) actor" where
  "handle_input h env a = (case parse_input (ie_input env) of
     None \<Rightarrow> (Inl (''Unknown command: '' @ ie_input env), a)
   | Some (Command cmd) \<Rightarrow> (case forward_duty h cmd (ie_source env) a of
       Some ra \<Rightarrow> ra
     | None \<Rightarrow> execute_command h (task_key (ie_source env)) cmd a)
   | Some (FreeText msg) \<Rightarrow> handle_message h env msg a)"

definition handle_envelope ::
  "('e, 'w, 't, 'f::{zero,plus}) actor_host \<Rightarrow> input_envelope \<Rightarrow> ('e, 'w, 'f) actor \<Rightarrow>
   (string + reply) \<times> ('e, 'w, 'f) actor" where
  "handle_envelope h env a = (case handle_input h env a of
     (result, a') \<Rightarrow> (result, report_outcome h (ie_source env) result a'))"

definition format_greeting :: "('e, 'w, 't, 'f) actor_host \<Rightarrow> 'e \<Rightarrow> string" where
  "format_greeting h e = (let active = display_name (ah_active h e); n = cs_message_count (ah_stats h e)
     in if n = 0 then ''New session: '' @ active
        else ''Resumed: '' @ active @ '' ('' @ nat_str n @ '' messages)'')"

section \<open>The mailbox\<close>

text \<open>An envelope carries the number of the channel its answer goes to.\<close>

datatype envelope = Greeting nat | InputTurn nat input_envelope
datatype answer = Greeted string | Replied "string + reply"

fun envelope_id :: "envelope \<Rightarrow> nat" where
  "envelope_id (Greeting n) = n"
| "envelope_id (InputTurn n _) = n"

definition MAILBOX :: nat where "MAILBOX = 32"

text \<open>\<open>sy_settle\<close>: a reply is out and the compaction after it is still to be decided.\<close>

record ('e, 'w, 'f) actor_system =
  sy_queue :: "envelope list"
  sy_drain :: bool
  sy_settle :: bool
  sy_actor :: "('e, 'w, 'f) actor"
  sy_replies :: "(nat \<times> answer) list"

definition receive ::
  "('e, 'w, 't, 'f::{zero,plus}) actor_host \<Rightarrow> envelope \<Rightarrow> ('e, 'w, 'f) actor_system \<Rightarrow> ('e, 'w, 'f) actor_system" where
  "receive h envelope s = (case envelope of
     Greeting n \<Rightarrow> s\<lparr>sy_replies := sy_replies s @ [(n, Greeted (format_greeting h (ac_engine (sy_actor s))))]\<rparr>
   | InputTurn n env \<Rightarrow>
       if sy_drain s then s\<lparr>sy_replies := sy_replies s @ [(n, Replied (Inl ''Agent draining''))]\<rparr>
       else case handle_envelope h env (sy_actor s\<lparr>ac_seq := ac_seq (sy_actor s) + 1\<rparr>) of
         (result, a) \<Rightarrow> s\<lparr>sy_settle := True, sy_actor := a, sy_replies := sy_replies s @ [(n, Replied result)]\<rparr>)"

definition settle :: "('e, 'w, 't, 'f) actor_host \<Rightarrow> ('e, 'w, 'f) actor_system \<Rightarrow> ('e, 'w, 'f) actor_system" where
  "settle h s =
     (if sy_queue s = [] then (case engine_op (ah_between h) (sy_actor s) of
         (Inl err, a) \<Rightarrow> s\<lparr>sy_settle := False, sy_actor :=
            logged (ErrorLogged (''between-turns compaction failed: '' @ engine_failure_str (ah_debug h) err)) a\<rparr>
       | (Inr _, a) \<Rightarrow> s\<lparr>sy_settle := False, sy_actor := a\<rparr>)
      else s\<lparr>sy_settle := False\<rparr>)"

text \<open>
  The steps of the channels and of the actor. An arrival during a turn is one before the
  settling after it: a turn does not look at the mailbox.
\<close>

inductive actor_step ::
  "('e, 'w, 't, 'f::{zero,plus}) actor_host \<Rightarrow> ('e, 'w, 'f) actor_system \<Rightarrow> envelope list \<Rightarrow> ('e, 'w, 'f) actor_system \<Rightarrow> bool"
  for h where
  arrive: "length (sy_queue s) < MAILBOX \<Longrightarrow> actor_step h s [envelope] (s\<lparr>sy_queue := sy_queue s @ [envelope]\<rparr>)"
| begin_drain: "actor_step h s [] (s\<lparr>sy_drain := True\<rparr>)"
| take_next: "\<not> sy_settle s \<Longrightarrow> sy_queue s = envelope # rest \<Longrightarrow>
    actor_step h s [] (receive h envelope (s\<lparr>sy_queue := rest\<rparr>))"
| settle_down: "sy_settle s \<Longrightarrow> actor_step h s [] (settle h s)"

inductive actor_run ::
  "('e, 'w, 't, 'f::{zero,plus}) actor_host \<Rightarrow> ('e, 'w, 'f) actor_system \<Rightarrow> envelope list \<Rightarrow> ('e, 'w, 'f) actor_system \<Rightarrow> bool"
  for h s0 where
  run_start: "actor_run h s0 [] s0"
| run_step: "actor_run h s0 arrivals s \<Longrightarrow> actor_step h s new s' \<Longrightarrow> actor_run h s0 (arrivals @ new) s'"

end
