(* ===== verification/Agent_Actor_Correct.thy ===== *)
theory Agent_Actor_Correct
  imports Agent_Actor
begin

text \<open>
  What the mailbox and the escalation table guarantee: every envelope is answered once and
  in order, nothing runs after draining began, the keys of tasks tell tasks apart, and the
  retry provider serves exactly the turns that follow a capped one.
\<close>

section \<open>The mailbox\<close>

lemma receive_fields:
  "map fst (sy_replies (receive h envelope s)) = map fst (sy_replies s) @ [envelope_id envelope]"
  "sy_queue (receive h envelope s) = sy_queue s"
  "sy_drain (receive h envelope s) = sy_drain s"
  by (auto simp: receive_def split: envelope.split prod.split)

lemma settle_fields [simp]:
  "sy_replies (settle h s) = sy_replies s" "sy_queue (settle h s) = sy_queue s" "sy_drain (settle h s) = sy_drain s"
  by (auto simp: settle_def split: prod.split sum.split)

lemma step_order:
  assumes "actor_step h s new s'"
  shows "map fst (sy_replies s') @ map envelope_id (sy_queue s') =
      map fst (sy_replies s) @ map envelope_id (sy_queue s) @ map envelope_id new"
    and "length (sy_queue s) \<le> MAILBOX \<Longrightarrow> length (sy_queue s') \<le> MAILBOX"
  using assms by (cases rule: actor_step.cases; simp add: receive_fields)+

text \<open>
  C36: Every envelope is answered exactly once, in the order of arrival: the answers given so far
  and the mailbox, which never holds more than 32 envelopes, make up the arrivals; and while the
  mailbox holds an envelope the actor can go on.
\<close>

theorem envelopes_are_answered_in_order:
  assumes "actor_run h s0 arrivals s" and "sy_queue s0 = []" and "sy_replies s0 = []"
  shows "map fst (sy_replies s) @ map envelope_id (sy_queue s) = map envelope_id arrivals
    \<and> length (sy_queue s) \<le> MAILBOX
    \<and> (sy_queue s \<noteq> [] \<longrightarrow> (\<exists>s'. actor_step h s [] s' \<and> s' \<noteq> s \<and> sy_drain s' = sy_drain s))"
proof -
  have "map fst (sy_replies s) @ map envelope_id (sy_queue s) = map envelope_id arrivals \<and> length (sy_queue s) \<le> MAILBOX"
    using assms
  proof (induction rule: actor_run.induct)
    case (run_step arrivals s new s')
    then show ?case using step_order [OF run_step.hyps(2)] by simp
  qed (simp add: MAILBOX_def)
  moreover have "\<exists>s'. actor_step h s [] s' \<and> s' \<noteq> s \<and> sy_drain s' = sy_drain s" if q: "sy_queue s \<noteq> []"
  proof (cases "sy_settle s")
    case True
    have "settle h s \<noteq> s" using True q by (metis settle_def actor_system.select_convs(3) actor_system.surjective actor_system.update_convs(3))
    then show ?thesis using actor_step.settle_down [OF True] settle_fields(3) by blast
  next
    case False
    obtain envelope rest where e: "sy_queue s = envelope # rest" using q by (cases "sy_queue s") auto
    have "sy_queue (receive h envelope (s\<lparr>sy_queue := rest\<rparr>)) \<noteq> sy_queue s" by (simp add: receive_fields e)
    then show ?thesis using actor_step.take_next [OF False e] receive_fields(3) [of h envelope "s\<lparr>sy_queue := rest\<rparr>"]
      by (metis actor_system.select_convs(2) actor_system.surjective actor_system.update_convs(1))
  qed
  ultimately show ?thesis by blast
qed

definition refused :: "nat \<times> answer \<Rightarrow> bool" where
  "refused r = (case snd r of Greeted _ \<Rightarrow> True | Replied x \<Rightarrow> x = Inl ''Agent draining'')"

lemma refused_simps [simp]: "refused (n, Greeted g)" "refused (n, Replied x) \<longleftrightarrow> x = Inl ''Agent draining''"
  by (simp_all add: refused_def)

text \<open>
  C37: Nothing runs after draining began: from a system that is draining, whatever arrives, no turn
  or command is started, every input is answered with an error and the escalation table is as it
  was; only the compaction that was still due may touch the engine.
\<close>

theorem draining_runs_nothing:
  assumes "actor_run h s0 arrivals s" and "sy_drain s0"
  shows "sy_drain s \<and> ac_seq (sy_actor s) = ac_seq (sy_actor s0) \<and> ac_escalated (sy_actor s) = ac_escalated (sy_actor s0)
    \<and> (\<exists>answers. sy_replies s = sy_replies s0 @ answers \<and> list_all refused answers)"
  using assms
proof (induction rule: actor_run.induct)
  case (run_step arrivals s new s')
  then have IH: "sy_drain s" "ac_seq (sy_actor s) = ac_seq (sy_actor s0)" "ac_escalated (sy_actor s) = ac_escalated (sy_actor s0)"
      "\<exists>answers. sy_replies s = sy_replies s0 @ answers \<and> list_all refused answers" by auto
  from run_step.hyps(2) show ?case
  proof (cases rule: actor_step.cases)
    case (take_next envelope rest)
    then show ?thesis using IH by (auto simp: receive_def split: envelope.split)
  next
    case settle_down
    have "ac_seq (sy_actor (settle h s)) = ac_seq (sy_actor s) \<and> ac_escalated (sy_actor (settle h s)) = ac_escalated (sy_actor s)"
      by (auto simp: settle_def engine_op_def logged_def split: prod.split sum.split)
    then show ?thesis using settle_down IH by simp
  qed (use IH in auto)
qed simp

section \<open>Task keys\<close>

text \<open>The same work: the roles on one pull request are folded.\<close>

fun same_task :: "channel_source \<Rightarrow> channel_source \<Rightarrow> bool" where
  "same_task (GitHubPr n repo _) (GitHubPr n' repo' _) \<longleftrightarrow> n = n' \<and> repo = repo'"
| "same_task s s' \<longleftrightarrow> s = s'"

lemma nat_str_no_hash: "CHR ''#'' \<notin> set (nat_str n)"
  using nat_str_digits [of n] by (auto simp: list_all_iff is_ascii_digit_def)

lemma nat_str_inject: "nat_str m = nat_str n \<longleftrightarrow> m = n"
  using digits_value_nat_str by metis

lemma last_hash:
  "a @ ''#'' @ b = c @ ''#'' @ d \<Longrightarrow> CHR ''#'' \<notin> set b \<Longrightarrow> CHR ''#'' \<notin> set d \<Longrightarrow> a = c \<and> b = d"
  by (auto simp: append_eq_append_conv2 append_eq_Cons_conv Cons_eq_append_conv)

text \<open>
  Task keys identify tasks: two sources have the same key exactly when they are the same duty,
  pull request (in whatever role), issue or chat.
\<close>

theorem task_keys_identify_tasks: "task_key s = task_key s' \<longleftrightarrow> same_task s s'"
proof (cases "\<exists>n repo r n' repo' r'. s = GitHubPr n repo r \<and> s' = GitHubPr n' repo' r'")
  case True
  then obtain n repo r n' repo' r' where s: "s = GitHubPr n repo r" "s' = GitHubPr n' repo' r'" by blast
  show ?thesis
    using last_hash [of repo "nat_str n" repo' "nat_str n'"] nat_str_no_hash nat_str_inject by (auto simp: s)
next
  case False
  then show ?thesis by (cases s; cases s') auto
qed

section \<open>Escalation\<close>

text \<open>The default-role turns of a task in the log: who served them, and whether they hit the cap.\<close>

definition turns_of :: "string \<Rightarrow> 'f actor_event list \<Rightarrow> (served_by \<times> bool) list" where
  "turns_of task evs = List.map_filter (\<lambda>ev. case ev of
     Turned DefaultRole t p capped \<Rightarrow> if t = task then Some (p, capped) else None | _ \<Rightarrow> None) evs"

lemma turns_of_append [simp]: "turns_of t (a @ b) = turns_of t a @ turns_of t b"
  by (simp add: turns_of_def List.map_filter_def)

lemma turns_of_simps [simp]:
  "turns_of t [] = []" "turns_of t [Alerted m] = []" "turns_of t [Journalled x y] = []" "turns_of t [Billed r] = []"
  "turns_of t [TurnBegan] = []" "turns_of t [Flushed] = []" "turns_of t [ErrorLogged m] = []"
  "turns_of t [Turned PlannerRole k p c] = []"
  "turns_of t [Turned DefaultRole k p c] = (if k = t then [(p, c)] else [])"
  by (simp_all add: turns_of_def List.map_filter_def)

lemma turns_of_Cons: "turns_of t (x # y # ys) = turns_of t [x] @ turns_of t (y # ys)"
  using turns_of_append [of t "[x]" "y # ys"] by simp

text \<open>What leaves the table and the turns alone.\<close>

definition same_turns :: "('e, 'w, 'f) actor \<Rightarrow> ('e, 'w, 'f) actor \<Rightarrow> bool" where
  "same_turns a a' \<longleftrightarrow> ac_escalated a' = ac_escalated a \<and> (\<forall>t. turns_of t (ac_log a') = turns_of t (ac_log a))"

lemma same_turns_refl [simp]: "same_turns a a"
  by (simp add: same_turns_def)

lemma same_turns_trans: "same_turns a b \<Longrightarrow> same_turns b c \<Longrightarrow> same_turns a c"
  by (simp add: same_turns_def)

lemma same_turns_steps [simp]:
  "same_turns a (a\<lparr>ac_world := w\<rparr>)" "same_turns a (a\<lparr>ac_engine := e\<rparr>)" "same_turns a (a\<lparr>ac_seq := n\<rparr>)"
  "same_turns a (a\<lparr>ac_engine := e, ac_world := w\<rparr>)"
  "same_turns a (logged (Alerted m) a)" "same_turns a (logged (Journalled x y) a)" "same_turns a (logged (Billed r) a)"
  "same_turns a (logged TurnBegan a)" "same_turns a (logged Flushed a)" "same_turns a (logged (ErrorLogged m) a)"
  by (simp_all add: same_turns_def logged_def)

lemma engine_op_same: "engine_op f a = (r, a') \<Longrightarrow> same_turns a a'"
  by (auto simp: engine_op_def split: prod.splits)

lemma best_effort_same: "same_turns a (best_effort m dbg f a)"
  by (auto simp: best_effort_def split: prod.split sum.split
      dest!: engine_op_same intro: same_turns_trans [OF _ same_turns_steps(10)])

lemma effects_same: "same_turns a (save_session h a)" "same_turns a (record_turn h r a)" "same_turns a (alert h m a)"
  by (simp_all add: save_session_def best_effort_same record_turn_def alert_def)

lemma distill_reply_same: "same_turns a (snd (distill_reply h task gate idle a))"
proof -
  have "same_turns a (snd (distill_pass h task s gate a))" for s
    by (auto simp: distill_pass_def split: prod.split sum.split option.split
        intro: same_turns_trans [OF same_turns_trans [OF same_turns_steps(1) effects_same(2)] same_turns_steps(6)])
  from this [of "ah_active h (ac_engine a)"] show ?thesis
    by (auto simp: distill_reply_def split: prod.split sum.split option.split)
qed

lemma engine_op_save_same: "engine_op f a = (r, a') \<Longrightarrow> same_turns a (save_session h a')"
  using same_turns_trans engine_op_same effects_same(1) by blast

lemma after_op:
  "(\<And>err a'. same_turns a a' \<Longrightarrow> Q (f err a')) \<Longrightarrow> (\<And>x a'. same_turns a a' \<Longrightarrow> Q (g x a')) \<Longrightarrow>
   Q (case engine_op op a of (Inl err, a') \<Rightarrow> f err a' | (Inr x, a') \<Rightarrow> g x a')"
  using engine_op_same [of op a] by (auto split: prod.split sum.split)

lemmas after_op_same = after_op [where Q = "\<lambda>r. same_turns a (snd r)" for a]

lemma saved_same: "same_turns a a' \<Longrightarrow> same_turns a (save_session h a')"
  using same_turns_trans effects_same(1) by blast

lemma switch_project_same: "same_turns a (snd (switch_project h name a))"
  unfolding switch_project_def Let_def
  by (auto intro!: after_op_same saved_same split: sum.split)

lemma execute_command_same: "same_turns a (snd (execute_command h task cmd a))"
proof (cases cmd)
  case CmdCompact
  then show ?thesis unfolding execute_command_def by (auto intro!: after_op_same saved_same)
next
  case CmdNew
  then show ?thesis unfolding execute_command_def by (auto intro!: after_op_same saved_same)
next
  case (CmdProject name)
  then show ?thesis
    by (cases name) (auto simp: execute_command_def switch_project_same list_projects_def split: sum.split)
qed (auto simp: execute_command_def run_duty_def distill_reply_same split: sum.split)

lemma forward_duty_same: "forward_duty h cmd source a = Some (r, a') \<Longrightarrow> same_turns a a'"
  by (auto simp: forward_duty_def send_trigger_def split: if_splits option.splits slash_command.splits prod.splits sum.splits)

lemma report_outcome_same: "same_turns a (report_outcome h source result a)"
  by (auto simp: report_outcome_def Let_def effects_same split: option.split sum.split
      intro: same_turns_trans [OF effects_same(3) same_turns_steps(6)])

lemma halt_alert_same: "same_turns a (halt_alert h source result a)"
  by (auto simp: halt_alert_def effects_same split: sum.split turn_output.split)

lemma finish_message_same: "same_turns a (finish_message h original switched a)"
  by (auto simp: finish_message_def Let_def best_effort_same effects_same
      intro: same_turns_trans [OF same_turns_steps(9) best_effort_same] same_turns_trans [OF same_turns_steps(9) effects_same(1)])

lemma root_turn_same: "root_turn h p env tagged a = (result, meter, a') \<Longrightarrow> same_turns a a'"
  by (auto simp: root_turn_def split: prod.splits)

text \<open>Each default-role turn is served by the retry provider exactly if the one before was capped on the default one.\<close>

definition retry_rule :: "(served_by \<times> bool) list \<Rightarrow> bool" where
  "retry_rule xs \<longleftrightarrow> (\<forall>i < length xs. fst (xs ! i) =
     (if 0 < i \<and> xs ! (i - 1) = (DefaultProvider, True) then RetryProvider else DefaultProvider))"

definition armed :: "(served_by \<times> bool) list \<Rightarrow> bool" where
  "armed xs \<longleftrightarrow> xs \<noteq> [] \<and> last xs = (DefaultProvider, True)"

lemma retry_rule_snoc: "retry_rule (xs @ [x]) \<longleftrightarrow> retry_rule xs \<and> fst x = (if armed xs then RetryProvider else DefaultProvider)"
proof -
  let ?want = "\<lambda>ys i. if 0 < i \<and> ys ! (i - 1) = (DefaultProvider, True) then RetryProvider else DefaultProvider"
  have "retry_rule (xs @ [x]) \<longleftrightarrow> (\<forall>i < length xs. fst ((xs @ [x]) ! i) = ?want (xs @ [x]) i)
      \<and> fst ((xs @ [x]) ! length xs) = ?want (xs @ [x]) (length xs)"
    unfolding retry_rule_def length_append_singleton All_less_Suc by blast
  also have "(\<forall>i < length xs. fst ((xs @ [x]) ! i) = ?want (xs @ [x]) i) \<longleftrightarrow> retry_rule xs"
  proof -
    have "(xs @ [x]) ! i = xs ! i \<and> (xs @ [x]) ! (i - 1) = xs ! (i - 1)" if "i < length xs" for i
      using that by (auto simp: nth_append)
    then show ?thesis unfolding retry_rule_def by metis
  qed
  also have "?want (xs @ [x]) (length xs) = (if armed xs then RetryProvider else DefaultProvider)"
    by (cases xs rule: rev_cases) (simp_all add: armed_def nth_append)
  finally show ?thesis by simp
qed

definition escalation_ok :: "('e, 'w, 'f) actor \<Rightarrow> bool" where
  "escalation_ok a \<longleftrightarrow> (\<forall>t. retry_rule (turns_of t (ac_log a)) \<and> (t \<in> ac_escalated a \<longleftrightarrow> armed (turns_of t (ac_log a))))"

lemma escalation_ok_same: "same_turns a a' \<Longrightarrow> escalation_ok a \<Longrightarrow> escalation_ok a'"
  by (simp add: same_turns_def escalation_ok_def)

text \<open>A turn adds one entry to the log of its task and updates the table to match.\<close>

lemma message_turn_escalation:
  fixes a :: "('e, 'w, 'f::{zero,plus}) actor"
  assumes ok: "escalation_ok a" and "ah_retry h" and nofault: "\<And>w. ah_db_fault h w = None"
    and tier: "escalation_tier h (ie_role env) (task_key (ie_source env)) a0 = Inr tier" and "same_turns a0 a"
    and prov: "provider_for h (ie_role env) tier = Inr provider"
  shows "escalation_ok (snd (message_turn h env msg tier provider original target a))"
proof -
  let ?task = "task_key (ie_source env)"
  obtain result meter a2 where turn: "root_turn h provider env (''['' @ source_str (ie_source env) @ '']: '' @ msg)
      (if ah_notifier h then logged TurnBegan a else a) = (result, meter, a2)" by (metis prod_cases3)
  have "same_turns a (if ah_notifier h then logged TurnBegan a else a)" by simp
  with root_turn_same [OF turn] have same2: "same_turns a a2" using same_turns_trans by blast
  let ?a3 = "record_turn h \<lparr>ur_session = target, ur_source = source_str (ie_source env), ur_model = ah_model h provider,
      ur_task = ?task, ur_meter = meter\<rparr> (logged (Turned (ie_role env) ?task provider (is_capped result)) a2)"
  obtain esc result' a4 where rec: "record_escalation h ?task tier (is_capped result) result ?a3 = (esc, result', a4)"
    by (metis prod_cases3)
  have out: "snd (message_turn h env msg tier provider original target a)
      = finish_message h original (target \<noteq> original) (halt_alert h (ie_source env) result' a4)"
    unfolding message_turn_def Let_def turn prod.case rec by simp
  have log3: "turns_of t (ac_log ?a3) = turns_of t (ac_log a) @
      (if ie_role env = DefaultRole \<and> t = ?task then [(provider, is_capped result)] else [])" for t
    using same2 by (cases "ie_role env") (auto simp: record_turn_def logged_def same_turns_def turns_of_Cons)
  have esc3: "ac_escalated ?a3 = ac_escalated a" using same2 by (simp add: record_turn_def logged_def same_turns_def)
  have "escalation_ok a4"
  proof (cases "ie_role env")
    case PlannerRole
    then have "tier = None" using tier by (simp add: escalation_tier_def)
    with rec have "(Inr (), result, ?a3) = (esc, result', a4)" by (simp only: record_escalation_def option.case)
    then have "a4 = ?a3" by blast
    then show ?thesis using ok log3 esc3 PlannerRole by (simp add: escalation_ok_def)
  next
    case DefaultRole
    let ?armed = "?task \<in> ac_escalated a"
    have t: "tier = Some (if ?armed then RetryTier else DefaultTier)"
      using tier assms(2,5) nofault DefaultRole by (simp add: escalation_tier_def same_turns_def)
    have p: "provider = (if ?armed then RetryProvider else DefaultProvider)"
      using prov t DefaultRole assms(2) by (auto simp: provider_for_def split: if_splits)
    have a4: "ac_log a4 = ac_log ?a3"
        "ac_escalated a4 = (if is_capped result \<and> \<not> ?armed then insert ?task (ac_escalated a) else ac_escalated a - {?task})"
      using rec t nofault esc3 by (auto simp: record_escalation_def escalation_record_def split: if_splits)
    have armed: "?armed \<longleftrightarrow> armed (turns_of ?task (ac_log a))" using ok by (simp add: escalation_ok_def)
    show ?thesis
      unfolding escalation_ok_def
    proof
      fix t
      show "retry_rule (turns_of t (ac_log a4)) \<and> (t \<in> ac_escalated a4 \<longleftrightarrow> armed (turns_of t (ac_log a4)))"
      proof (cases "t = ?task")
        case True
        have "retry_rule (turns_of ?task (ac_log a))" using ok by (simp add: escalation_ok_def)
        then show ?thesis using True DefaultRole a4 log3 armed p
          by (auto simp: retry_rule_snoc) (auto simp: armed_def)
      next
        case False
        then show ?thesis using ok a4 log3 by (simp add: escalation_ok_def)
      qed
    qed
  qed
  then show ?thesis
    unfolding out using escalation_ok_same halt_alert_same finish_message_same same_turns_trans by meson
qed

lemma handle_message_escalation:
  assumes "escalation_ok a" and "ah_retry h" and "\<And>w. ah_db_fault h w = None"
  shows "escalation_ok (snd (handle_message h env msg a))"
proof (cases "escalation_tier h (ie_role env) (task_key (ie_source env)) a")
  case (Inr tier)
  show ?thesis
  proof (cases "provider_for h (ie_role env) tier")
    case provider: (Inr provider)
    note turn = message_turn_escalation [OF _ assms(2,3) Inr _ provider]
    have switched: "same_turns a a1 \<Longrightarrow> escalation_ok a1" for a1 using escalation_ok_same [OF _ assms(1)] .
    have msg: "escalation_ok (snd (message_turn h env msg tier provider original target a1))"
      if "same_turns a a1" for original target a1
      using turn [OF switched] that by blast
    show ?thesis
      unfolding handle_message_def Inr provider sum.case Let_def
      by (auto intro!: after_op [where Q = "\<lambda>r. escalation_ok (snd r)"] msg dest: switched)
  qed (simp add: handle_message_def Inr assms(1))
qed (simp add: handle_message_def assms(1))

lemma handle_envelope_escalation:
  assumes "escalation_ok a" and "ah_retry h" and "\<And>w. ah_db_fault h w = None"
  shows "escalation_ok (snd (handle_envelope h env a))"
proof -
  have "escalation_ok (snd (handle_input h env a))"
    using handle_message_escalation [OF assms] escalation_ok_same [OF execute_command_same assms(1)] assms(1)
    by (auto simp: handle_input_def split: option.split parsed_input.split
        dest!: forward_duty_same escalation_ok_same [OF _ assms(1)])
  then show ?thesis
    using escalation_ok_same [OF report_outcome_same] by (cases "handle_input h env a") (simp add: handle_envelope_def)
qed

text \<open>
  C38: The retry provider serves exactly the turns that follow a capped one. Over any run of the
  actor from an empty table, with a retry provider and a state database that answers: of the
  default-role turns of a task, one is served by the retry provider if and only if the one
  before it was served by the default provider and ran out of iterations; so never two in a row,
  whatever other tasks, planner turns, commands and shutdown do in between.
\<close>

theorem retry_follows_a_capped_turn:
  assumes "actor_run h s0 arrivals s" and "ah_retry h" and "\<And>w. ah_db_fault h w = None"
    and "ac_escalated (sy_actor s0) = {}" and "ac_log (sy_actor s0) = []"
  shows "retry_rule (turns_of task (ac_log (sy_actor s)))"
proof -
  have "escalation_ok (sy_actor s0)" using assms(4,5) by (simp add: escalation_ok_def retry_rule_def armed_def)
  with assms(1) have "escalation_ok (sy_actor s)"
  proof (induction rule: actor_run.induct)
    case (run_step arrivals s new s')
    then have ok: "escalation_ok (sy_actor s)" by simp
    from run_step.hyps(2) show ?case
    proof (cases rule: actor_step.cases)
      case (take_next envelope rest)
      have "escalation_ok (sy_actor s\<lparr>ac_seq := ac_seq (sy_actor s) + 1\<rparr>)" using escalation_ok_same [OF same_turns_steps(3) ok] .
      from handle_envelope_escalation [OF this assms(2,3)]
      have "handle_envelope h env (sy_actor s\<lparr>ac_seq := ac_seq (sy_actor s) + 1\<rparr>) = (r, a') \<Longrightarrow> escalation_ok a'" for env r a'
        by (metis snd_conv)
      then show ?thesis using take_next ok by (auto simp: receive_def split: envelope.split prod.split)
    next
      case settle_down
      obtain r a' where op: "engine_op (ah_between h) (sy_actor s) = (r, a')" by fastforce
      have ok': "escalation_ok a'" using escalation_ok_same [OF engine_op_same [OF op] ok] .
      show ?thesis
        unfolding settle_down(2) settle_def op
        using ok ok' escalation_ok_same [OF same_turns_steps(10) ok'] by (simp split: sum.split)
    qed (use ok in simp_all)
  qed simp
  then show ?thesis by (simp add: escalation_ok_def)
qed

end
