(* ===== verification/Agent_Actor_Engines.thy ===== *)
theory Agent_Actor_Engines
  imports Agent_Actor_Correct Memory_Distill_Lcm Flat_Correct
begin

text \<open>
  The actor on the program's engines. \<open>session_host\<close> is what the actor relies on to route a
  message to another session and to come back; the LCM engine and the flat engine provide it.
  They differ in when a session is saved, which shows a turn the flat engine never writes.
\<close>

section \<open>Routing to a session and back\<close>

definition restore_failed :: "'f actor_event list \<Rightarrow> bool" where
  "restore_failed evs \<longleftrightarrow> (\<exists>m. ErrorLogged (''Failed to restore active session '' @ m) \<in> set evs)"

locale session_host =
  fixes h :: "('e, 'w, 't, 'f::{zero,plus}) actor_host"
  assumes switch_ok: "ah_switch h n (e, w) = (Inr u, e', w') \<Longrightarrow> ah_active h e' = sanitize_name n"
    and switch_failed: "ah_switch h n (e, w) = (Inl x, e', w') \<Longrightarrow> ah_active h e' = ah_active h e"
    and save_active: "ah_save h (e, w) = (r, e', w') \<Longrightarrow> ah_active h e' = ah_active h e"
    and turn_active: "turn_frame (ah_env h p env) (\<lambda>e. ah_active h e = n)"
begin

lemma root_turn_active:
  assumes "root_turn h p env tagged a = (result, meter, a')"
  shows "ah_active h (ac_engine a') = ah_active h (ac_engine a)"
  using assms turn_frame.turn_keeps_engine [OF turn_active, of "ac_engine a" "ah_active h (ac_engine a)"]
  by (auto simp: root_turn_def process_message_metered_def split: prod.splits)

lemma best_effort_active:
  assumes "\<And>r e' w'. f (ac_engine a, ac_world a) = (r, e', w') \<Longrightarrow> ah_active h e' = ah_active h (ac_engine a)"
  shows "ah_active h (ac_engine (best_effort m dbg f a)) = ah_active h (ac_engine a)"
  using assms by (auto simp: best_effort_def engine_op_def logged_def split: prod.split sum.split)

lemma effects_active [simp]:
  "ac_engine (logged ev a) = ac_engine a" "ac_engine (record_turn h r a) = ac_engine a" "ac_engine (alert h m a) = ac_engine a"
  "ac_engine (halt_alert h source result a) = ac_engine a"
  by (auto simp: logged_def record_turn_def alert_def halt_alert_def split: sum.split turn_output.split)

lemma save_session_active: "ah_active h (ac_engine (save_session h a)) = ah_active h (ac_engine a)"
  unfolding save_session_def by (rule best_effort_active) (use save_active in blast)

lemma record_escalation_active: "record_escalation h task tier capped result a = (x, y, a') \<Longrightarrow> ac_engine a' = ac_engine a"
  by (auto simp: record_escalation_def split: option.splits prod.splits)

lemma finish_message_active:
  assumes "sanitize_name original = original" and "\<not> switched \<Longrightarrow> ah_active h (ac_engine a) = original"
  shows "ah_active h (ac_engine (finish_message h original switched a)) = original
    \<or> restore_failed (ac_log (finish_message h original switched a))"
proof (cases switched)
  case True
  let ?a = "if ah_notifier h then logged Flushed a else a"
  obtain r e' w' where sw: "ah_switch h original (ac_engine ?a, ac_world ?a) = (r, e', w')" by (metis prod_cases3)
  show ?thesis
  proof (cases r)
    case (Inl x)
    then have "ErrorLogged (''Failed to restore active session '' @ [CHR 0x27] @ original @ [CHR 0x27] @ '': '' @ engine_failure_str (ah_debug h) x)
        \<in> set (ac_log (finish_message h original switched a))"
      using True sw by (simp add: finish_message_def best_effort_def engine_op_def logged_def Let_def)
    then show ?thesis unfolding restore_failed_def by blast
  next
    case (Inr u)
    then show ?thesis using True sw switch_ok [of original "ac_engine ?a" "ac_world ?a" u e' w'] assms(1)
      by (simp add: finish_message_def best_effort_def engine_op_def Let_def)
  qed
next
  case False
  then show ?thesis using assms(2) by (simp add: finish_message_def Let_def save_session_active)
qed

lemma message_turn_active:
  assumes "sanitize_name original = original" and "target = original \<Longrightarrow> ah_active h (ac_engine a) = original"
  shows "ah_active h (ac_engine (snd (message_turn h env msg tier p original target a))) = original
    \<or> restore_failed (ac_log (snd (message_turn h env msg tier p original target a)))"
proof -
  let ?a1 = "if ah_notifier h then logged TurnBegan a else a"
  obtain result meter a2 where turn: "root_turn h p env (''['' @ source_str (ie_source env) @ '']: '' @ msg) ?a1 = (result, meter, a2)"
    by (metis prod_cases3)
  obtain esc result' a4 where rec: "record_escalation h (task_key (ie_source env)) tier (is_capped result) result
      (record_turn h \<lparr>ur_session = target, ur_source = source_str (ie_source env), ur_model = ah_model h p,
         ur_task = task_key (ie_source env), ur_meter = meter\<rparr>
         (logged (Turned (ie_role env) (task_key (ie_source env)) p (is_capped result)) a2)) = (esc, result', a4)"
    by (metis prod_cases3)
  have out: "snd (message_turn h env msg tier p original target a)
      = finish_message h original (target \<noteq> original) (halt_alert h (ie_source env) result' a4)"
    unfolding message_turn_def Let_def turn prod.case rec by simp
  have "ah_active h (ac_engine (halt_alert h (ie_source env) result' a4)) = ah_active h (ac_engine a)"
    using root_turn_active [OF turn] record_escalation_active [OF rec] by simp
  then show ?thesis unfolding out using assms by (intro finish_message_active) auto
qed

lemma message_returns:
  assumes "sanitize_name (ah_active h (ac_engine a)) = ah_active h (ac_engine a)"
  shows "ah_active h (ac_engine (snd (handle_message h env msg a))) = ah_active h (ac_engine a)
    \<or> restore_failed (ac_log (snd (handle_message h env msg a)))"
proof (cases "escalation_tier h (ie_role env) (task_key (ie_source env)) a")
  case (Inr tier)
  show ?thesis
  proof (cases "provider_for h (ie_role env) tier")
    case provider: (Inr p)
    let ?original = "ah_active h (ac_engine a)" and ?target = "case ie_hint env of None \<Rightarrow> ah_active h (ac_engine a) | Some s \<Rightarrow> s"
    show ?thesis
    proof (cases "?target = ?original")
      case True
      then show ?thesis
        using message_turn_active [OF assms, of ?original a] by (simp add: handle_message_def Inr provider Let_def)
    next
      case False
      obtain r e' w' where sw: "ah_switch h ?target (ac_engine a, ac_world a) = (r, e', w')" by (metis prod_cases3)
      show ?thesis
      proof (cases r)
        case (Inl x)
        then show ?thesis
          using False sw switch_failed by (simp add: handle_message_def Inr provider Let_def engine_op_def)
      next
        case (Inr u)
        then show ?thesis
          using False sw message_turn_active [OF assms, of ?target]
          by (simp add: handle_message_def \<open>escalation_tier h _ _ _ = _\<close> provider Let_def engine_op_def)
      qed
    qed
  qed (simp add: handle_message_def Inr)
qed (simp add: handle_message_def)

end

section \<open>The LCM engine\<close>

text \<open>\<open>lo_of\<close>: the outside of a turn per provider; \<open>stored\<close>: whether the cursor file can be written.\<close>

definition lcm_result ::
  "('w, 't, 'f) lcm_outside \<Rightarrow> 't list lcm_engine \<times> 'w \<Rightarrow> ((store_error + 'a) \<times> 't list lcm_engine \<times> 'w) option \<Rightarrow> 'a \<Rightarrow>
   (engine_failure + 'a) \<times> 't list lcm_engine \<times> 'w" where
  "lcm_result lo ew r nothing = (case r of
     None \<Rightarrow> (Inr nothing, ew)
   | Some (Inl err, ew') \<Rightarrow> (Inl (store_failure lo err), ew')
   | Some (Inr x, ew') \<Rightarrow> (Inr x, ew'))"

definition lcm_actor ::
  "('w, 't, 'f) lcm_outside \<Rightarrow> (served_by \<Rightarrow> input_envelope \<Rightarrow> ('w, 't, 'f) lcm_outside) \<Rightarrow> ('w \<Rightarrow> bool) \<Rightarrow>
   ('t list lcm_engine, 'w, 't, 'f) actor_host \<Rightarrow> ('t list lcm_engine, 'w, 't, 'f) actor_host" where
  "lcm_actor lo lo_of stored h = h\<lparr>
     ah_active := le_active,
     ah_stats := lcm_stats,
     ah_switch := \<lambda>name (e, w). (case lcm_switch_session (lo_now lo w) (stored w) name e of
        Inl err \<Rightarrow> (Inl (store_failure lo err), e, w) | Inr e' \<Rightarrow> (Inr (), e', w)),
     ah_save := \<lambda>(e, w). (Inr (), e, w),
     ah_clear := \<lambda>(e, w). (Inr (), lcm_clear e, w),
     ah_force_compact := \<lambda>(e, w). lcm_result lo (e, w) (lcm_force_compact (lo_compact lo w) e w) \<lparr>ev_before = 0, ev_after = 0\<rparr>,
     ah_between := \<lambda>(e, w). lcm_result lo (e, w) (lcm_compact_between_turns (lo_compact lo w) e w) None,
     ah_list := \<lambda>e. Inr (list_sessions_sync (le_db e)),
     ah_env := \<lambda>p env. lcm_env_of (lo_of p env)\<rparr>"

lemma lcm_actor_fields [simp]:
  "ah_active (lcm_actor lo lo_of stored h) = le_active" "ah_env (lcm_actor lo lo_of stored h) p env = lcm_env_of (lo_of p env)"
  "ah_list (lcm_actor lo lo_of stored h) e = Inr (list_sessions_sync (le_db e))"
  "ah_save (lcm_actor lo lo_of stored h) (e, w) = (Inr (), e, w)"
  by (simp_all add: lcm_actor_def)

lemma lcm_force_active: "lcm_force_compact ce e w = Some (r, e', w') \<Longrightarrow> le_active e' = le_active e"
  by (auto simp: lcm_force_compact_def split: option.splits sum.splits)

lemma lcm_switch_active: "lcm_switch_session now stored name e = Inr e' \<Longrightarrow> le_active e' = sanitize_name name"
  by (auto simp: lcm_switch_session_def Let_def bind_res_Inr_iff split: if_splits prod.splits)

lemma lcm_push_active: "tv_push (lcm_env_of lo) m (e, w) = (r, e', w') \<Longrightarrow> le_active e' = le_active e"
  by (auto simp: lcm_env_of_def lcm_push_message_def split: prod.splits sum.splits)

lemma lcm_compact_active:
  assumes "tv_compact_if_urgent (lcm_env_of lo) (e, w) = (c, e', w')"
  shows "le_active e' = le_active e"
proof (cases "lcm_force_compact (lo_compact lo w) e w")
  case None
  then show ?thesis using assms
    by (auto simp: lcm_env_of_def lcm_compact_if_urgent_def compact_above_def split: if_splits)
next
  case (Some q)
  obtain r e1 w1 where q: "q = (r, e1, w1)" by (cases q)
  have "le_active e1 = le_active e" using lcm_force_active [OF Some [unfolded q]] .
  then show ?thesis using assms Some q
    by (cases r) (auto simp: lcm_env_of_def lcm_compact_if_urgent_def compact_above_def split: if_splits)
qed

lemma lcm_frame_laws: "turn_frame (lcm_env_of lo) (\<lambda>e. le_active e = n)"
  by unfold_locales
    (auto dest: lcm_push_active lcm_compact_active, auto simp: lcm_env_of_def lcm_observe_request_def lcm_observe_tokens_def)

interpretation lcm_frame: turn_frame "lcm_env_of lo" "\<lambda>e. le_active e = n" for lo n
  by (rule lcm_frame_laws)

interpretation lcm_host: session_host
  "lcm_actor lo lo_of stored h :: ('t list lcm_engine, 'w, 't, 'f::{zero,plus}) actor_host" for lo lo_of stored h
proof (rule session_host.intro)
  fix n and e :: "'t list lcm_engine" and w :: 'w and u e' w'
  show "ah_active (lcm_actor lo lo_of stored h) e' = sanitize_name n"
    if "ah_switch (lcm_actor lo lo_of stored h) n (e, w) = (Inr u, e', w')"
    using that lcm_switch_active by (auto simp: lcm_actor_def split: sum.splits)
  show "ah_active (lcm_actor lo lo_of stored h) e' = ah_active (lcm_actor lo lo_of stored h) e"
    if "ah_switch (lcm_actor lo lo_of stored h) n (e, w) = (Inl x, e', w')" for x
    using that by (auto simp: lcm_actor_def split: sum.splits)
qed (simp_all add: lcm_frame_laws)

text \<open>
  C39: A message leaves the operator's session as it found it. On the LCM engine, whatever session
  the message was routed to and however its turn ended, the active session is the same again, or
  the failure to restore it is in the log.
\<close>

theorem routed_message_returns_to_the_session:
  assumes "sanitize_name (le_active (ac_engine a)) = le_active (ac_engine a)"
    and "handle_message (lcm_actor lo lo_of stored h) env msg a = (r, a')"
  shows "le_active (ac_engine a') = le_active (ac_engine a) \<or> restore_failed (ac_log a')"
  using lcm_host.message_returns [where a = a and lo = lo and lo_of = lo_of and stored = stored and h = h and env = env and msg = msg]
    assms by simp

section \<open>Navigation\<close>

lemma list_sessions_names: "set (map si_name (list_sessions_sync d)) = (\<lambda>cv. desanitize_name (cv_name cv)) ` set (conversations d)"
  by (auto simp: list_sessions_sync_def)

lemma known_session_found:
  assumes "\<forall>cv \<in> set (conversations d). sanitize_name (cv_name cv) = cv_name cv"
    and "list_ex (\<lambda>s. sanitize_name (si_name s) = target) (list_sessions_sync d)"
  shows "find_conversation d target \<noteq> None"
proof -
  obtain s where "s \<in> set (list_sessions_sync d)" "sanitize_name (si_name s) = target"
    using assms(2) by (auto simp: list_ex_iff)
  then obtain cv where "cv \<in> set (conversations d)" "sanitize_name (desanitize_name (cv_name cv)) = target"
    by (auto simp: list_sessions_sync_def)
  then have "cv \<in> set (conversations d) \<and> cv_name cv = target" using assms(1) sanitize_desanitize by fastforce
  then show ?thesis by (auto simp: find_conversation_def find_None_iff)
qed

text \<open>
  \<open>/project\<close> is navigation: whatever name it is given, no conversation is created on the LCM
  engine, and a name that no session has leaves the active session alone and is an error.
\<close>

theorem project_never_creates:
  assumes "engine_wf (ac_engine a)" and "\<forall>cv \<in> set (conversations (le_db (ac_engine a))). sanitize_name (cv_name cv) = cv_name cv"
    and "execute_command (lcm_actor lo lo_of stored h) task (CmdProject (Some name)) a = (r, a')"
  shows "conversations (le_db (ac_engine a')) = conversations (le_db (ac_engine a))
    \<and> (if find_conversation (le_db (ac_engine a)) (sanitize_name name) = None
       then (\<exists>m. r = Inl m) \<and> ac_engine a' = ac_engine a
       else (case r of Inl _ \<Rightarrow> True | Inr _ \<Rightarrow> le_active (ac_engine a') = sanitize_name name))"
proof -
  let ?h = "lcm_actor lo lo_of stored h" and ?e = "ac_engine a"
  let ?known = "list_ex (\<lambda>s. sanitize_name (si_name s) = sanitize_name name) (list_sessions_sync (le_db ?e))"
  have run: "switch_project ?h name a = (r, a')" using assms(3) by (simp add: execute_command_def)
  have known: "?known \<longleftrightarrow> find_conversation (le_db ?e) (sanitize_name name) \<noteq> None"
  proof
    assume "find_conversation (le_db ?e) (sanitize_name name) \<noteq> None"
    then obtain cv where "cv \<in> set (conversations (le_db ?e))" "cv_name cv = sanitize_name name"
      using find_conversation_in by blast
    then have "sanitize_name (desanitize_name (cv_name cv)) = sanitize_name name"
      using assms(2) sanitize_desanitize by fastforce
    with \<open>cv \<in> _\<close> show ?known by (auto simp: list_ex_iff list_sessions_sync_def)
  qed (rule known_session_found [OF assms(2)])
  show ?thesis
  proof (cases ?known)
    case False
    then show ?thesis using run known by (auto simp: switch_project_def)
  next
    case True
    let ?sw = "lcm_switch_session (lo_now lo (ac_world a)) (stored (ac_world a)) name ?e"
    have sw: "ah_switch ?h name (?e, ac_world a) = (case ?sw of Inl err \<Rightarrow> (Inl (store_failure lo err), ?e, ac_world a)
        | Inr e' \<Rightarrow> (Inr (), e', ac_world a))"
      by (simp add: lcm_actor_def)
    show ?thesis
    proof (cases ?sw)
      case (Inl err)
      then show ?thesis using run True known sw by (auto simp: switch_project_def engine_op_def)
    next
      case (Inr e1)
      have same: "conversations (le_db e1) = conversations (le_db ?e)"
      proof (cases "sanitize_name name = le_active ?e")
        case True
        then show ?thesis using Inr by (simp add: lcm_switch_session_def)
      next
        case False
        obtain i where i: "find_conversation (le_db ?e) (sanitize_name name) = Some i" using True known by auto
        have wf: "wf_db (le_db ?e)" using assms(1) by (simp add: engine_wf_def)
        obtain d2 where rep: "repair_dangling_tool_calls (lo_now lo (ac_world a)) i (le_db ?e) = Inr d2" and "le_db e1 = d2"
          using Inr False i by (auto simp: lcm_switch_session_def Let_def ensure_conversation_def bind_res_Inr_iff)
        then show ?thesis using engine_wf_repaired(3) [OF wf find_conversation_exists [OF i] rep] by auto
      qed
      have "ac_engine a' = e1" and "\<exists>x. r = Inr x"
        using run True sw Inr by (auto simp: switch_project_def engine_op_def save_session_def best_effort_def Let_def)
      then show ?thesis using same True known lcm_switch_active [OF Inr] by auto
    qed
  qed
qed

section \<open>The flat engine\<close>

definition flat_env_of ::
  "('w, 't, 'f) outside \<Rightarrow> ('w \<Rightarrow> nat) \<Rightarrow> ('w, engine_failure) summarize_fn \<Rightarrow> (flat_session, 'w, 't, 'f) turn_env" where
  "flat_env_of os now summarize =
     \<lparr>tv_push = (\<lambda>m (f, w). (Inr (), flat_push (now w) m f, w)),
      tv_compact_if_urgent = (\<lambda>(f, w). flat_compact_if_urgent (now w) summarize f w),
      tv_assemble = (\<lambda>prompt f. Inr (flat_assemble prompt f)),
      tv_observe_request = (\<lambda>_ _ ew. ew),
      tv_observe_tokens = flat_observe_tokens,
      tv_active_session = fs_active,
      tv_chat = os_chat os, tv_execute = os_execute os, tv_cancelled = os_cancelled os,
      tv_tools = os_tools os, tv_json = os_json os, tv_regex = os_regex os, tv_debug = os_debug os\<rparr>"

definition flat_actor ::
  "(served_by \<Rightarrow> input_envelope \<Rightarrow> ('w, 't, 'f) outside) \<Rightarrow> ('w \<Rightarrow> nat) \<Rightarrow> ('w \<Rightarrow> bool) \<Rightarrow>
   ('w, engine_failure) summarize_fn \<Rightarrow> (session_error \<Rightarrow> engine_failure) \<Rightarrow>
   (flat_session, 'w, 't, 'f) actor_host \<Rightarrow> (flat_session, 'w, 't, 'f) actor_host" where
  "flat_actor os_of now stored summarize failed h = h\<lparr>
     ah_active := fs_active,
     ah_stats := flat_stats,
     ah_switch := \<lambda>name (f, w). (case flat_switch_session (now w) (stored w) name f of
        (Inl err, f') \<Rightarrow> (Inl (failed err), f', w) | (Inr _, f') \<Rightarrow> (Inr (), f', w)),
     ah_save := \<lambda>(f, w). (Inr (), flat_save (now w) f, w),
     ah_clear := \<lambda>(f, w). (Inr (), flat_clear (now w) f, w),
     ah_force_compact := \<lambda>(f, w). flat_force_compact (now w) summarize f w,
     ah_between := \<lambda>(f, w). (Inr None, f, w),
     ah_list := \<lambda>f. Inr (flat_list_sessions f),
     ah_env := \<lambda>p env. flat_env_of (os_of p env) now summarize\<rparr>"

lemma flat_frame_laws: "turn_frame (flat_env_of os now summarize) (\<lambda>f. fs_active f = n)"
  by unfold_locales
    (auto simp: flat_env_of_def flat_push_def flat_compact_if_urgent_def do_compact_def flat_observe_tokens_def Let_def
      split: if_splits prod.splits sum.splits)

interpretation flat_host: session_host
  "flat_actor os_of now stored summarize failed h :: (flat_session, 'w, 't, 'f::{zero,plus}) actor_host"
  for os_of now stored summarize failed h
  by (rule session_host.intro)
    (auto simp: flat_actor_def flat_switch_session_def flat_save_def flat_frame_laws Let_def split: if_splits prod.splits sum.splits)

text \<open>A turn alone writes no session file.\<close>

lemma flat_files_frame: "turn_frame (flat_env_of os now summarize) (\<lambda>f. fs_files f = F \<and> fs_active f = n)"
  by unfold_locales
    (auto simp: flat_env_of_def flat_push_def flat_compact_if_urgent_def do_compact_def flat_observe_tokens_def Let_def
      split: if_splits prod.splits sum.splits)

text \<open>
  C40: A turn routed to the session that is active is not saved by the flat engine. The actor compares
  the hint as the channel spells it (\<open>o/r\<close>) with the stored name of the active session (\<open>o--r\<close>),
  takes the turn for one in another session, and switches \<open>back\<close> instead of saving; as both
  switches are to the active session, no file is written and the turn is lost with the process.
\<close>

theorem routed_turn_to_the_active_session_is_not_saved:
  assumes "ie_hint env = Some n" and "sanitize_name n = fs_active (ac_engine a)" and "n \<noteq> fs_active (ac_engine a)"
    and "sanitize_name (fs_active (ac_engine a)) = fs_active (ac_engine a)"
    and "handle_message (flat_actor os_of now stored summarize failed h) env msg a = (r, a')"
  shows "fs_files (ac_engine a') = fs_files (ac_engine a)"
proof -
  let ?h = "flat_actor os_of now stored summarize failed h" and ?active = "fs_active (ac_engine a)"
  let ?ok = "\<lambda>f. fs_files f = fs_files (ac_engine a) \<and> fs_active f = ?active"
  have fields: "ah_active ?h = fs_active" "ah_env ?h p env = flat_env_of (os_of p env) now summarize" for p
    by (simp_all add: flat_actor_def)
  have stay: "ah_switch ?h m (f, w) = (Inr (), f, w)" if "sanitize_name m = ?active" and "?ok f" for m f w
    using that by (simp add: flat_actor_def flat_switch_session_def)
  have turn: "?ok (ac_engine b')" if "root_turn ?h p env tagged b = (result, meter, b')" and "?ok (ac_engine b)" for p tagged b result meter b'
  proof -
    note root = that
    obtain tp s where run: "run_turn_metered (flat_env_of (os_of p env) now summarize) tp tagged (ac_engine b, ac_world b) = (result, meter, s)"
        and "ac_engine b' = ts_engine s"
      using root(1) by (auto simp: root_turn_def process_message_metered_def fields split: prod.splits)
    then show ?thesis using turn_frame.turn_keeps_engine [OF flat_files_frame root(2) run] by simp
  qed
  have finish: "?ok (ac_engine (finish_message ?h ?active True b))" if "?ok (ac_engine b)" for b
    using that stay [OF assms(4)] by (simp add: finish_message_def best_effort_def engine_op_def Let_def flat_host.effects_active)
  have msg_turn: "?ok (ac_engine (snd (message_turn ?h env msg tier p ?active n b)))" if b: "?ok (ac_engine b)" for tier p b
  proof -
    let ?b1 = "if ah_notifier ?h then logged TurnBegan b else b"
    obtain result meter b2 where t: "root_turn ?h p env (''['' @ source_str (ie_source env) @ '']: '' @ msg) ?b1 = (result, meter, b2)"
      by (metis prod_cases3)
    obtain esc result' b4 where rec: "record_escalation ?h (task_key (ie_source env)) tier (is_capped result) result
        (record_turn ?h \<lparr>ur_session = n, ur_source = source_str (ie_source env), ur_model = ah_model ?h p,
           ur_task = task_key (ie_source env), ur_meter = meter\<rparr>
           (logged (Turned (ie_role env) (task_key (ie_source env)) p (is_capped result)) b2)) = (esc, result', b4)"
      by (metis prod_cases3)
    have out: "snd (message_turn ?h env msg tier p ?active n b) = finish_message ?h ?active True (halt_alert ?h (ie_source env) result' b4)"
      unfolding message_turn_def Let_def t prod.case rec using assms(3) by simp
    have "?ok (ac_engine b2)" using turn [OF t] b by (simp add: flat_host.effects_active)
    then show ?thesis
      unfolding out by (intro finish) (simp add: flat_host.effects_active flat_host.record_escalation_active [OF rec])
  qed
  have "ac_engine (snd (engine_op (ah_switch ?h n) a)) = ac_engine a" and "fst (engine_op (ah_switch ?h n) a) = Inr ()"
    using stay [OF assms(2), of "ac_engine a" "ac_world a"] by (simp_all add: engine_op_def)
  then obtain a1 where sw: "engine_op (ah_switch ?h n) a = (Inr (), a1)" and a1: "ac_engine a1 = ac_engine a"
    by (cases "engine_op (ah_switch ?h n) a") auto
  show ?thesis
  proof (cases "escalation_tier ?h (ie_role env) (task_key (ie_source env)) a")
    case (Inr tier)
    show ?thesis
    proof (cases "provider_for ?h (ie_role env) tier")
      case provider: (Inr p)
      have "(r, a') = message_turn ?h env msg tier p ?active n a1"
        using assms(1,3,5) sw by (simp add: handle_message_def Inr provider fields Let_def)
      then show ?thesis using msg_turn [of a1 tier p] a1 by (metis snd_conv)
    qed (use assms(5) Inr in \<open>simp add: handle_message_def\<close>)
  qed (use assms(5) in \<open>simp add: handle_message_def\<close>)
qed

end
