(* ===== verification/Agent_Actor_Samples.thy ===== *)
theory Agent_Actor_Samples
  imports Agent_Actor_Engines Memory_Distill_Claims
begin

text \<open>
  Concrete runs of the actor, which witness the properties of \<open>Agent_Actor_Correct\<close> and
  \<open>Agent_Actor_Engines\<close>: a model that answers \<open>ok\<close>, on the flat and on the LCM engine.
\<close>

definition idle_distill_host :: "('e, unit, unit, nat) distill_host" where
  "idle_distill_host = \<lparr>dh_latest_positions = (\<lambda>_. Inr (\<lambda>_. None)), dh_pending = (\<lambda>_ _. Inr []),
     dh_transcript_since = (\<lambda>_ _ _ _. Inr []), dh_get_doc = (\<lambda>_. Inr None), dh_parse = (\<lambda>_. None),
     dh_save = (\<lambda>_ w. w), dh_index_file = (\<lambda>_. None), dh_index_size = (\<lambda>_. None), dh_topic_files = (\<lambda>_. None),
     dh_fold_tools = ok_outside, dh_compact_tools = ok_outside\<rparr>"

definition bare_host :: "('e, unit, unit, nat) actor_host" where
  "bare_host = \<lparr>ah_active = (\<lambda>_. ''general''), ah_stats = (\<lambda>_. \<lparr>cs_token_estimate = 0, cs_budget = 0, cs_message_count = 0\<rparr>),
     ah_switch = (\<lambda>_ (e, w). (Inr (), e, w)), ah_save = (\<lambda>(e, w). (Inr (), e, w)), ah_clear = (\<lambda>(e, w). (Inr (), e, w)),
     ah_force_compact = (\<lambda>(e, w). (Inr \<lparr>ev_before = 0, ev_after = 0\<rparr>, e, w)), ah_between = (\<lambda>(e, w). (Inr None, e, w)),
     ah_list = (\<lambda>_. Inr []), ah_report = (\<lambda>_. Inr []), ah_tee_section = (\<lambda>_. []),
     ah_env = (\<lambda>_ _. \<lparr>tv_push = (\<lambda>_ (e, w). (Inr (), e, w)), tv_compact_if_urgent = (\<lambda>(e, w). (Inr None, e, w)),
       tv_assemble = (\<lambda>_ _. Inr []), tv_observe_request = (\<lambda>_ _ ew. ew), tv_observe_tokens = (\<lambda>_ e. e),
       tv_active_session = (\<lambda>_. []), tv_chat = os_chat ok_outside, tv_execute = os_execute ok_outside,
       tv_cancelled = (\<lambda>_. False), tv_tools = [], tv_json = os_json ok_outside, tv_regex = os_regex ok_outside,
       tv_debug = (\<lambda>s. s)\<rparr>),
     ah_prompt = (\<lambda>_. []), ah_index = (\<lambda>_. None), ah_conventions = (\<lambda>_ _. None), ah_gates = None,
     ah_reviewer_segments = [], ah_builder_segments = [], ah_max_iterations = 1, ah_model = (\<lambda>_. ''m''),
     ah_retry = True, ah_notifier = False, ah_ledger = False, ah_duties = None, ah_try_send = (\<lambda>_ w. (Inr (), w)),
     ah_db_fault = (\<lambda>_. None), ah_distill = idle_distill_host, ah_distiller = sample_distiller,
     ah_usage_report = None, ah_findings_report = None, ah_debug = (\<lambda>s. s)\<rparr>"

definition sample_actor :: "'e \<Rightarrow> ('e, unit, nat) actor" where
  "sample_actor e = \<lparr>ac_engine = e, ac_world = (), ac_escalated = {}, ac_log = [], ac_seq = 0\<rparr>"

definition sample_system :: "'e \<Rightarrow> ('e, unit, nat) actor_system" where
  "sample_system e = \<lparr>sy_queue = [], sy_drain = False, sy_settle = False, sy_actor = sample_actor e, sy_replies = []\<rparr>"

definition socket_envelope :: input_envelope where
  "socket_envelope = \<lparr>ie_source = Socket, ie_input = ''hey'', ie_hint = None, ie_role = DefaultRole\<rparr>"

definition pr_envelope :: input_envelope where
  "pr_envelope = \<lparr>ie_source = GitHubPr 7 ''o/r'' Author, ie_input = ''hey'', ie_hint = Some ''o/r'', ie_role = DefaultRole\<rparr>"

section \<open>Turns that answer \<open>ok\<close>\<close>

lemmas turn_unfold = run_turn_metered_def turn_loop_def turn_round_def check_cancelled_def act_eval push_def engine_call_def
  stats_def usage_def act_update_def complete_def assemble_def cancellable_def text_round_def emit_def

lemma bare_turn: "\<exists>meter. root_turn bare_host p env tagged a = (Inr (TurnText ''ok''), meter, a)"
  by (simp add: root_turn_def process_message_metered_def bare_host_def turn_unfold ok_outside_def sample_outside_def upt_conv_Cons)

lemma flat_turn:
  assumes "current_tokens (flat_push 0 (User tagged) f) \<le> flat_budget f"
  shows "\<exists>meter s. run_turn_metered (flat_env_of ok_outside (\<lambda>_. 0) summarize) \<lparr>tp_system_prompt = prompt, tp_max_iterations = 1,
      tp_budget = FailBudget, tp_reply = AcceptReply\<rparr> tagged (f, ()) = (Inr (TurnText ''ok''), meter, s)
    \<and> ts_engine s = flat_push 0 (Assistant ''ok'') (flat_push 0 (User tagged) f)"
  using assms
  by (simp add: flat_env_of_def turn_unfold ok_outside_def sample_outside_def upt_conv_Cons flat_compact_if_urgent_def
      flat_budget_def flat_push_def)

section \<open>The mailbox\<close>

lemma bare_reply:
  "\<exists>a'. handle_envelope bare_host socket_envelope a = (Inr (reply_text ''ok''), a') \<and> ac_log a' = ac_log a @
     [Turned DefaultRole ''chat:socket'' (if ''chat:socket'' \<in> ac_escalated a then RetryProvider else DefaultProvider) False]"
proof -
  let ?tier = "if ''chat:socket'' \<in> ac_escalated a then RetryTier else DefaultTier"
  let ?p = "if ''chat:socket'' \<in> ac_escalated a then RetryProvider else DefaultProvider"
  have host: "ah_retry bare_host" "ah_db_fault bare_host w = None" "\<not> ah_notifier bare_host" "\<not> ah_ledger bare_host"
      "ah_save bare_host (e, w) = (Inr (), e, w)" for e w
    by (simp_all add: bare_host_def)
  have env: "task_key (ie_source socket_envelope) = ''chat:socket''" "ie_role socket_envelope = DefaultRole"
      "ie_hint socket_envelope = None" "is_attended (ie_source socket_envelope)" "source_str (ie_source socket_envelope) = ''Socket''"
    by (simp_all add: socket_envelope_def is_attended_def)
  have input: "parse_input (ie_input socket_envelope) = Some (FreeText ''hey'')" by code_simp
  obtain meter where turn: "root_turn bare_host ?p socket_envelope (''['' @ ''Socket'' @ '']: '' @ ''hey'') a = (Inr (TurnText ''ok''), meter, a)"
    using bare_turn by blast
  have tier: "escalation_tier bare_host DefaultRole ''chat:socket'' a = Inr (Some ?tier)"
    by (simp add: escalation_tier_def host)
  have prov: "provider_for bare_host DefaultRole (Some ?tier) = Inr ?p" by (simp add: provider_for_def host)
  have saved: "save_session bare_host b = b" for b
    by (simp add: save_session_def best_effort_def engine_op_def host)
  let ?a = "logged (Turned DefaultRole ''chat:socket'' ?p False) a\<lparr>ac_escalated := ac_escalated a - {''chat:socket''}\<rparr>"
  have rec: "record_escalation bare_host ''chat:socket'' (Some ?tier) False (Inr (TurnText ''ok'')) (logged (Turned DefaultRole ''chat:socket'' ?p False) a)
      = (Inr (), Inr (TurnText ''ok''), ?a)"
    by (simp add: record_escalation_def escalation_record_def host logged_def)
  have "message_turn bare_host socket_envelope ''hey'' (Some ?tier) ?p original original a = (Inr (reply_text ''ok''), ?a)" for original
    unfolding message_turn_def Let_def env using turn rec
    by (simp add: host record_turn_def is_capped_def halt_alert_def env finish_message_def saved)
  then have "handle_message bare_host socket_envelope ''hey'' a = (Inr (reply_text ''ok''), ?a)"
    by (simp add: handle_message_def env tier prov Let_def)
  then have "handle_envelope bare_host socket_envelope a = (Inr (reply_text ''ok''), ?a)"
    by (simp add: handle_envelope_def handle_input_def input report_outcome_def env)
  then show ?thesis by (simp add: logged_def)
qed

lemma one_turn_run:
  "\<exists>s. actor_run bare_host (sample_system ()) [InputTurn 0 socket_envelope] s
     \<and> sy_replies s = [(0, Replied (Inr (reply_text ''ok'')))] \<and> sy_queue s = []
     \<and> turns_of ''chat:socket'' (ac_log (sy_actor s)) = [(DefaultProvider, False)]"
proof -
  let ?s = "sample_system ()\<lparr>sy_queue := [InputTurn 0 socket_envelope]\<rparr>"
  have "actor_run bare_host (sample_system ()) ([] @ [InputTurn 0 socket_envelope])
      (sample_system ()\<lparr>sy_queue := sy_queue (sample_system ()) @ [InputTurn 0 socket_envelope]\<rparr>)"
    by (rule actor_run.run_step [OF actor_run.run_start actor_step.arrive]) (simp add: sample_system_def MAILBOX_def)
  then have arrived: "actor_run bare_host (sample_system ()) [InputTurn 0 socket_envelope] ?s" by (simp add: sample_system_def)
  have step: "actor_step bare_host ?s [] (receive bare_host (InputTurn 0 socket_envelope) (?s\<lparr>sy_queue := []\<rparr>))"
    by (rule actor_step.take_next) (simp_all add: sample_system_def)
  obtain a' where h: "handle_envelope bare_host socket_envelope (sample_actor ()\<lparr>ac_seq := 1\<rparr>) = (Inr (reply_text ''ok''), a')"
      and log: "ac_log a' = [Turned DefaultRole ''chat:socket'' DefaultProvider False]"
    using bare_reply [of "sample_actor ()\<lparr>ac_seq := 1\<rparr>"] by (auto simp: sample_actor_def)
  have "receive bare_host (InputTurn 0 socket_envelope) (?s\<lparr>sy_queue := []\<rparr>) =
      \<lparr>sy_queue = [], sy_drain = False, sy_settle = True, sy_actor = a', sy_replies = [(0, Replied (Inr (reply_text ''ok'')))]\<rparr>"
    using h by (simp add: receive_def sample_system_def sample_actor_def)
  with actor_run.run_step [OF arrived step] show ?thesis
    by (intro exI [of _ "\<lparr>sy_queue = [], sy_drain = False, sy_settle = True, sy_actor = a',
        sy_replies = [(0, Replied (Inr (reply_text ''ok'')))]\<rparr>"]) (simp add: log)
qed

theorem envelopes_are_answered_in_order_witness:
  "\<exists>s. actor_run bare_host (sample_system ()) [InputTurn 0 socket_envelope] s
     \<and> map fst (sy_replies s) @ map envelope_id (sy_queue s) = [0] \<and> length (sy_queue s) \<le> MAILBOX"
proof -
  obtain s where run: "actor_run bare_host (sample_system ()) [InputTurn 0 socket_envelope] s" using one_turn_run by blast
  have "sy_queue (sample_system ()) = []" "sy_replies (sample_system ()) = []" by (simp_all add: sample_system_def)
  from envelopes_are_answered_in_order [OF run this] run show ?thesis by auto
qed

theorem retry_follows_a_capped_turn_witness:
  "\<exists>s. actor_run bare_host (sample_system ()) [InputTurn 0 socket_envelope] s
     \<and> turns_of ''chat:socket'' (ac_log (sy_actor s)) = [(DefaultProvider, False)]
     \<and> retry_rule (turns_of ''chat:socket'' (ac_log (sy_actor s)))"
proof -
  obtain s where run: "actor_run bare_host (sample_system ()) [InputTurn 0 socket_envelope] s"
      and turns: "turns_of ''chat:socket'' (ac_log (sy_actor s)) = [(DefaultProvider, False)]" using one_turn_run by blast
  have "ah_retry bare_host" "\<And>w. ah_db_fault bare_host w = None" by (simp_all add: bare_host_def)
  moreover have "ac_escalated (sy_actor (sample_system ())) = {}" "ac_log (sy_actor (sample_system ())) = []"
    by (simp_all add: sample_system_def sample_actor_def)
  ultimately show ?thesis using retry_follows_a_capped_turn [OF run] run turns by blast
qed

theorem draining_runs_nothing_witness:
  "\<exists>s. actor_run bare_host (sample_system ()\<lparr>sy_drain := True\<rparr>) [InputTurn 0 socket_envelope] s
     \<and> sy_replies s = [(0, Replied (Inl ''Agent draining''))] \<and> ac_seq (sy_actor s) = 0 \<and> ac_escalated (sy_actor s) = {}"
proof -
  let ?start = "sample_system ()\<lparr>sy_drain := True\<rparr>"
  let ?s = "?start\<lparr>sy_queue := [InputTurn 0 socket_envelope]\<rparr>"
  have "actor_run bare_host ?start ([] @ [InputTurn 0 socket_envelope]) (?start\<lparr>sy_queue := sy_queue ?start @ [InputTurn 0 socket_envelope]\<rparr>)"
    by (rule actor_run.run_step [OF actor_run.run_start actor_step.arrive]) (simp add: sample_system_def MAILBOX_def)
  then have arrived: "actor_run bare_host ?start [InputTurn 0 socket_envelope] ?s" by (simp add: sample_system_def)
  have step: "actor_step bare_host ?s [] (receive bare_host (InputTurn 0 socket_envelope) (?s\<lparr>sy_queue := []\<rparr>))"
    by (rule actor_step.take_next) (simp_all add: sample_system_def)
  have out: "sy_replies (receive bare_host (InputTurn 0 socket_envelope) (?s\<lparr>sy_queue := []\<rparr>)) = [(0, Replied (Inl ''Agent draining''))]"
    by (simp add: receive_def sample_system_def)
  have run: "actor_run bare_host ?start [InputTurn 0 socket_envelope] (receive bare_host (InputTurn 0 socket_envelope) (?s\<lparr>sy_queue := []\<rparr>))"
    using actor_run.run_step [OF arrived step] by simp
  from draining_runs_nothing [OF run] run out show ?thesis
    by (intro exI [of _ "receive bare_host (InputTurn 0 socket_envelope) (?s\<lparr>sy_queue := []\<rparr>)"])
      (simp add: sample_system_def sample_actor_def)
qed

section \<open>The engines\<close>

definition sample_lcm_actor :: "(unit list lcm_engine, unit, unit, nat) actor_host" where
  "sample_lcm_actor = lcm_actor sample_lcm_outside (\<lambda>_ _. sample_lcm_outside) (\<lambda>_. True) bare_host"

theorem routed_message_returns_to_the_session_witness:
  "\<exists>r a'. handle_message sample_lcm_actor pr_envelope ''hey'' (sample_actor distill_engine) = (r, a')
     \<and> (le_active (ac_engine a') = ''general'' \<or> restore_failed (ac_log a'))"
proof -
  obtain r a' where run: "handle_message (lcm_actor sample_lcm_outside (\<lambda>_ _. sample_lcm_outside) (\<lambda>_. True) bare_host) pr_envelope ''hey''
      (sample_actor distill_engine) = (r, a')" by fastforce
  have active: "le_active (ac_engine (sample_actor distill_engine)) = ''general''"
    by (simp add: sample_actor_def distill_engine_def sample_root_engine_def)
  show ?thesis
    using routed_message_returns_to_the_session [OF _ run] run by (simp add: active distill_names sample_lcm_actor_def)
qed

theorem project_never_creates_witness:
  "\<exists>m a'. execute_command sample_lcm_actor ''chat:socket'' (CmdProject (Some ''x'')) (sample_actor distill_engine) = (Inl m, a')
     \<and> ac_engine a' = distill_engine"
proof -
  let ?a = "sample_actor distill_engine"
  obtain r a' where run: "execute_command (lcm_actor sample_lcm_outside (\<lambda>_ _. sample_lcm_outside) (\<lambda>_. True) bare_host) ''chat:socket''
      (CmdProject (Some ''x'')) ?a = (r, a')" by fastforce
  have found: "find_conversation distill_db ''general'' = Some 1" "find_conversation distill_db (sanitize_name ''x'') = None"
    by code_simp+
  have "wf_db distill_db" by code_simp
  then have wf: "engine_wf (ac_engine ?a)"
    using found(1) by (simp add: engine_wf_def sample_actor_def distill_engine_def sample_root_engine_def)
  have clean: "\<forall>cv \<in> set (conversations (le_db (ac_engine ?a))). sanitize_name (cv_name cv) = cv_name cv"
    using distill_log_ok by (simp add: lcm_log_ok_def sample_actor_def)
  show ?thesis
    using project_never_creates [OF wf clean run] run found(2) by (auto simp: sample_actor_def sample_lcm_actor_def)
qed

definition sample_flat_actor :: "(flat_session, unit, unit, nat) actor_host" where
  "sample_flat_actor = flat_actor (\<lambda>_ _. ok_outside) (\<lambda>_. 0) (\<lambda>_. True) (\<lambda>_ _ w. (Inr [], w)) (\<lambda>_. EngineStorage []) bare_host"

lemma repo_flat_fields: "fs_active repo_flat = ''o--r''" "fs_files repo_flat = [(''o--r'', Some \<lparr>se_messages = [], se_created = 0, se_updated = 0\<rparr>)]"
  "se_messages (fs_session repo_flat) = [User ''hi'']"
  by (simp_all add: repo_flat_def sample_flat_def)

lemma small_turn: "current_tokens (flat_push 0 (User ''[GitHub PR #7]: hey'') repo_flat) \<le> flat_budget repo_flat"
  by (simp add: current_tokens_def flat_token_estimate_def messages_chars_def flat_push_def add_message_def repo_flat_def sample_flat_def
      flat_budget_def default_context_config_def estimate_tokens_from_chars_def)

lemma flat_routed_turn:
  "\<exists>r a'. handle_message sample_flat_actor pr_envelope ''hey'' (sample_actor repo_flat) = (r, a')
     \<and> se_messages (fs_session (ac_engine a')) = [User ''hi'', User ''[GitHub PR #7]: hey'', Assistant ''ok'']"
proof -
  have host: "ah_retry sample_flat_actor" "ah_db_fault sample_flat_actor w = None" "\<not> ah_notifier sample_flat_actor"
      "\<not> ah_ledger sample_flat_actor" "ah_active sample_flat_actor = fs_active" "ah_max_iterations sample_flat_actor = 1"
      "ah_env sample_flat_actor p env = flat_env_of ok_outside (\<lambda>_. 0) (\<lambda>_ _ w. (Inr [], w))" for w p env
    by (simp_all add: sample_flat_actor_def flat_actor_def bare_host_def)
  have stay: "ah_switch sample_flat_actor n (f, w) = (Inr (), f, w)" if "sanitize_name n = fs_active f" for n f w
    using that by (simp add: sample_flat_actor_def flat_actor_def flat_switch_session_def)
  have names: "sanitize_name ''o/r'' = ''o--r''" "sanitize_name ''o--r'' = ''o--r''" by code_simp+
  have seven: "nat_str 7 = ''7''" by code_simp
  have env: "task_key (ie_source pr_envelope) = ''pr:o/r#7''" "ie_role pr_envelope = DefaultRole" "ie_hint pr_envelope = Some ''o/r''"
      "source_str (ie_source pr_envelope) = ''GitHub PR #7''"
    using seven by (simp_all add: pr_envelope_def)
  let ?f = "flat_push 0 (Assistant ''ok'') (flat_push 0 (User ''[GitHub PR #7]: hey'') repo_flat)"
  have prompt: "\<exists>meter s. process_message_metered (ah_env sample_flat_actor p pr_envelope) base index conventions gates segments
      (ah_max_iterations sample_flat_actor) ''[GitHub PR #7]: hey'' (repo_flat, ()) = (Inr (TurnText ''ok''), meter, s) \<and> ts_engine s = ?f"
    for p base index conventions gates segments
    using flat_turn [OF small_turn] by (simp add: process_message_metered_def host)
  obtain meter a2 where turn: "root_turn sample_flat_actor DefaultProvider pr_envelope ''[GitHub PR #7]: hey'' (sample_actor repo_flat)
      = (Inr (TurnText ''ok''), meter, a2)" and f: "ac_engine a2 = ?f" and esc: "ac_escalated a2 = {}"
  proof -
    let ?h = sample_flat_actor
    obtain meter s where "process_message_metered (ah_env ?h DefaultProvider pr_envelope) (ah_prompt ?h ()) (ah_index ?h ())
        (ah_conventions ?h (fs_active repo_flat) ()) (ah_gates ?h)
        (role_segments (ah_reviewer_segments ?h) (ah_builder_segments ?h) (ie_source pr_envelope))
        (ah_max_iterations ?h) ''[GitHub PR #7]: hey'' (repo_flat, ()) = (Inr (TurnText ''ok''), meter, s)" and "ts_engine s = ?f"
      using prompt by blast
    then show ?thesis
      by (intro that [of meter "sample_actor repo_flat\<lparr>ac_engine := ts_engine s, ac_world := ts_world s\<rparr>"])
        (simp_all add: root_turn_def sample_actor_def host)
  qed
  have tier: "escalation_tier sample_flat_actor DefaultRole ''pr:o/r#7'' (sample_actor repo_flat) = Inr (Some DefaultTier)"
    by (simp add: escalation_tier_def host sample_actor_def)
  have prov: "provider_for sample_flat_actor DefaultRole (Some DefaultTier) = Inr DefaultProvider" by (simp add: provider_for_def)
  have sw: "engine_op (ah_switch sample_flat_actor ''o/r'') (sample_actor repo_flat) = (Inr (), sample_actor repo_flat)"
    by (simp add: engine_op_def sample_actor_def stay names repo_flat_fields)
  have returned: "ac_engine (finish_message sample_flat_actor ''o--r'' True b) = ac_engine b" if "fs_active (ac_engine b) = ''o--r''" for b
    using that stay [of "''o--r''" "ac_engine b"] by (simp add: finish_message_def best_effort_def engine_op_def host names)
  have "ac_engine (snd (message_turn sample_flat_actor pr_envelope ''hey'' (Some DefaultTier) DefaultProvider ''o--r'' ''o/r'' (sample_actor repo_flat))) = ?f"
    unfolding message_turn_def Let_def env using turn f
    by (simp add: host record_turn_def is_capped_def record_escalation_def escalation_record_def logged_def halt_alert_def returned
        flat_push_def repo_flat_fields split: prod.split)
  then have "ac_engine (snd (handle_message sample_flat_actor pr_envelope ''hey'' (sample_actor repo_flat))) = ?f"
    using tier prov sw by (simp add: handle_message_def env Let_def host sample_actor_def repo_flat_fields)
  moreover have "se_messages (fs_session ?f) = [User ''hi'', User ''[GitHub PR #7]: hey'', Assistant ''ok'']"
    by (simp add: flat_push_def add_message_def repo_flat_fields)
  ultimately show ?thesis by (metis prod.collapse)
qed

theorem routed_turn_to_the_active_session_is_not_saved_witness:
  "\<exists>r a'. handle_message sample_flat_actor pr_envelope ''hey'' (sample_actor repo_flat) = (r, a')
     \<and> se_messages (fs_session (ac_engine a')) = [User ''hi'', User ''[GitHub PR #7]: hey'', Assistant ''ok'']
     \<and> fs_files (ac_engine a') = [(''o--r'', Some \<lparr>se_messages = [], se_created = 0, se_updated = 0\<rparr>)]"
proof -
  obtain r a' where run: "handle_message (flat_actor (\<lambda>_ _. ok_outside) (\<lambda>_. 0) (\<lambda>_. True) (\<lambda>_ _ w. (Inr [], w)) (\<lambda>_. EngineStorage []) bare_host)
      pr_envelope ''hey'' (sample_actor repo_flat) = (r, a')"
      and msgs: "se_messages (fs_session (ac_engine a')) = [User ''hi'', User ''[GitHub PR #7]: hey'', Assistant ''ok'']"
    using flat_routed_turn by (auto simp: sample_flat_actor_def)
  have names: "sanitize_name ''o/r'' = ''o--r''" "sanitize_name ''o--r'' = ''o--r''" by code_simp+
  have "fs_files (ac_engine a') = fs_files (ac_engine (sample_actor repo_flat))"
    by (rule routed_turn_to_the_active_session_is_not_saved [where n = "''o/r''", OF _ _ _ _ run])
      (simp_all add: pr_envelope_def names sample_actor_def repo_flat_fields)
  then show ?thesis using run msgs by (intro exI conjI) (simp_all add: sample_flat_actor_def sample_actor_def repo_flat_fields)
qed

end
