(* ===== verification/Lcm_Expand.thy ===== *)
theory Lcm_Expand
  imports Lcm_Assemble Errors
begin

text \<open>
  The tool \<^verbatim>\<open>lcm_expand\<close> of \<^verbatim>\<open>src/src/context/lcm/tools.rs\<close>: the walk from a summary down to
  its children and source messages, under a depth and a token cap. The tool reads the tables
  of \<open>Lcm_Store\<close> through a connection of its own; payload files on disk are the argument
  \<open>read\<close> (the text of \<open>read_to_string\<close>, or the error's text). The \<open>Vec\<close> used as a stack is a
  list whose head is its top. Token counters are \<open>u32\<close>, with the wrap written out.
\<close>

section \<open>Counters\<close>

text \<open>\<open>u32::try_from(n).unwrap_or(u32::MAX)\<close> and \<open>+=\<close> on a \<open>u32\<close>.\<close>

definition to_u32 :: "int \<Rightarrow> nat" where
  "to_u32 n = (if 0 \<le> n \<and> n < 2 ^ 32 then nat n else 2 ^ 32 - 1)"

definition u32_add :: "nat \<Rightarrow> nat \<Rightarrow> nat" where
  "u32_add a b = (a + b) mod 2 ^ 32"

section \<open>Texts\<close>

definition summary_chunk :: "summary_row \<Rightarrow> nat \<Rightarrow> string" where
  "summary_chunk r level =
     ''## '' @ sr_id r @ '' (kind='' @ kind_str (sr_kind r) @ '', depth='' @ int_str (sr_depth r)
     @ '', level='' @ nat_str level @ '')'' @ newline @ sr_content r @ newline @ newline"

definition message_block :: "message_row \<Rightarrow> string" where
  "message_block r =
     ''### message_id='' @ int_str (mr_id r) @ '' role='' @ mr_role r @ newline
     @ mr_content r @ newline @ newline"

definition payload_missing :: "string \<Rightarrow> string \<Rightarrow> string" where
  "payload_missing f e = ''### '' @ f @ '': payload unavailable ('' @ e @ '')'' @ newline @ newline"

definition payload_block :: "string \<Rightarrow> string \<Rightarrow> string" where
  "payload_block f p = ''### '' @ f @ '' (externalized payload)'' @ newline @ p @ newline @ newline"

definition payload_head :: "string \<Rightarrow> string \<Rightarrow> string \<Rightarrow> string" where
  "payload_head f kept p =
     ''### '' @ f @ '' (externalized payload, first '' @ nat_str (length kept) @ '' of ''
     @ nat_str (length p) @ '' bytes)'' @ newline @ kept @ newline"

definition cap_notice :: "nat \<Rightarrow> string" where
  "cap_notice cap = ''[truncated at token_cap='' @ nat_str cap @ '']'' @ newline"

definition frontier_notice :: "nat \<Rightarrow> nat \<Rightarrow> string" where
  "frontier_notice cap n =
     ''[truncated at token_cap='' @ nat_str cap @ ''; remaining frontier: '' @ nat_str n @ '' node(s)]''
     @ newline"

definition no_summary :: "lcm_env \<Rightarrow> string \<Rightarrow> string" where
  "no_summary env s = ''No summary with id '' @ debug_str env s @ '' in the active session.''"

section \<open>Payloads and source messages\<close>

datatype payload_append = Fit nat | CapReached

definition append_payload ::
  "string + string \<Rightarrow> nat \<Rightarrow> nat \<Rightarrow> string \<Rightarrow> string \<Rightarrow> string \<times> payload_append" where
  "append_payload payload used cap f out =
     (case payload of
        Inl e \<Rightarrow> (out @ payload_missing f e, Fit 0)
      | Inr p \<Rightarrow>
          (let remaining_chars = (cap - used) * 4
           in if length p \<le> remaining_chars
              then (out @ payload_block f p, Fit (to_u32 (int (estimate_tokens p))))
              else (let kept = text_prefix p remaining_chars
                    in (out @ payload_head f kept p @ cap_notice cap, CapReached))))"

text \<open>What appending to the output ends with: the tool returns, or goes on with the counter.\<close>

datatype expansion = Stopped string | Going string nat

fun append_payloads ::
  "(string \<Rightarrow> string + string) \<Rightarrow> nat \<Rightarrow> string list \<Rightarrow> string \<Rightarrow> nat \<Rightarrow> expansion" where
  "append_payloads read cap [] out used = Going out used"
| "append_payloads read cap (f # fs) out used =
     (case append_payload (read f) used cap f out of
        (out1, Fit tokens) \<Rightarrow> append_payloads read cap fs out1 (u32_add used tokens)
      | (out1, CapReached) \<Rightarrow> Stopped out1)"

fun append_messages ::
  "lcm_env \<Rightarrow> (string \<Rightarrow> string + string) \<Rightarrow> nat \<Rightarrow> message_row list \<Rightarrow> string \<Rightarrow> nat \<Rightarrow> expansion" where
  "append_messages env read cap [] out used = Going out used"
| "append_messages env read cap (r # rs) out used =
     (if used + estimate_tokens (message_block r) > cap then Stopped (out @ cap_notice cap)
      else
        (case append_payloads read cap (extract_file_ids env (mr_content r)) (out @ message_block r)
                (u32_add used (to_u32 (int (estimate_tokens (mr_content r))))) of
           Stopped out1 \<Rightarrow> Stopped out1
         | Going out1 used1 \<Rightarrow> append_messages env read cap rs out1 used1))"

text \<open>\<open>summary_messages JOIN messages .. ORDER BY seq\<close>, and the children \<open>ORDER BY summary_id\<close>.\<close>

definition source_rows :: "db \<Rightarrow> string \<Rightarrow> message_row list" where
  "source_rows d s = sort_key mr_seq (filter (\<lambda>r. (s, mr_id r) \<in> set (summary_messages d)) (messages d))"

definition child_ids :: "db \<Rightarrow> string \<Rightarrow> string list" where
  "child_ids d s = sort (map fst (filter (\<lambda>(x, p). p = s) (summary_parents d)))"

section \<open>The walk\<close>

record walk =
  wk_frontier :: "(string \<times> nat) list"
  wk_seen :: "string list"
  wk_out :: string
  wk_used :: nat

datatype walk_step = StepFails tool_error | StepReturns string | StepNext walk

text \<open>Each child not seen before goes on top of the stack.\<close>

fun push_children ::
  "nat \<Rightarrow> string list \<Rightarrow> (string \<times> nat) list \<Rightarrow> string list \<Rightarrow> (string \<times> nat) list \<times> string list" where
  "push_children level [] frontier seen = (frontier, seen)"
| "push_children level (x # xs) frontier seen =
     (if x \<in> set seen then push_children level xs frontier seen
      else push_children level xs ((x, level) # frontier) (x # seen))"

definition no_rows :: tool_error where
  "no_rows = SqliteFailed ''lcm'' ''Query returned no rows''"

text \<open>The body of the \<open>while let Some((id, level)) = frontier.pop()\<close> loop.\<close>

definition expand_step ::
  "lcm_env \<Rightarrow> (string \<Rightarrow> string + string) \<Rightarrow> db \<Rightarrow> nat \<Rightarrow> bool \<Rightarrow> nat
   \<Rightarrow> string \<Rightarrow> nat \<Rightarrow> (string \<times> nat) list \<Rightarrow> walk \<Rightarrow> walk_step" where
  "expand_step env read d depth include_messages cap s level frontier w =
     (case find_summary d s of
        None \<Rightarrow> StepFails no_rows
      | Some row \<Rightarrow>
          (let chunk = summary_chunk row level in
           if wk_used w + estimate_tokens chunk > cap
           then StepReturns (wk_out w @ frontier_notice cap (length frontier + 1))
           else
             (let out = wk_out w @ chunk;
                  used = u32_add (wk_used w) (to_u32 (sr_tokens row));
                  w1 = w\<lparr>wk_frontier := frontier, wk_out := out, wk_used := used\<rparr>
              in if depth \<le> level then StepNext w1
                 else if sr_kind row = Leaf then
                   (if include_messages then
                      (case append_messages env read cap (source_rows d s) out used of
                         Stopped out1 \<Rightarrow> StepReturns out1
                       | Going out1 used1 \<Rightarrow> StepNext (w1\<lparr>wk_out := out1, wk_used := used1\<rparr>))
                    else StepNext w1)
                 else
                   (let (frontier1, seen1) = push_children (level + 1) (child_ids d s) frontier (wk_seen w)
                    in StepNext (w1\<lparr>wk_frontier := frontier1, wk_seen := seen1\<rparr>)))))"

text \<open>Summaries named as a child and not seen yet, plus those on the stack: each turn has one less.\<close>

definition unseen :: "db \<Rightarrow> string list \<Rightarrow> nat" where
  "unseen d seen = card (fst ` set (summary_parents d) - set seen)"

lemma push_children_measure:
  assumes "set xs \<subseteq> fst ` set (summary_parents d)" and "push_children level xs fr seen = (fr1, seen1)"
  shows "unseen d seen1 + length fr1 = unseen d seen + length fr"
  using assms
proof (induction level xs fr seen rule: push_children.induct)
  case (2 level x xs fr seen)
  show ?case
  proof (cases "x \<in> set seen")
    case True
    with 2 show ?thesis by simp
  next
    case False
    let ?A = "fst ` set (summary_parents d) - set seen"
    have "x \<in> ?A" using "2.prems"(1) False by auto
    moreover have "fst ` set (summary_parents d) - set (x # seen) = ?A - {x}" by auto
    ultimately have "Suc (unseen d (x # seen)) = unseen d seen"
      unfolding unseen_def by (metis card_Suc_Diff1 finite_Diff finite_imageI finite_set)
    with 2 False show ?thesis by simp
  qed
qed simp

lemma set_child_ids: "set (child_ids d s) = {x. (x, s) \<in> set (summary_parents d)}"
  by (force simp: child_ids_def)

lemma child_ids_known: "set (child_ids d s) \<subseteq> fst ` set (summary_parents d)"
  by (force simp: set_child_ids)

lemma expand_step_measure:
  assumes "expand_step env read d depth inc cap s level frontier w = StepNext w1"
  shows "unseen d (wk_seen w1) + length (wk_frontier w1) = unseen d (wk_seen w) + length frontier"
  using assms push_children_measure [OF child_ids_known]
  by (auto simp: expand_step_def Let_def split: option.splits if_splits expansion.splits prod.splits)

function expand_loop ::
  "lcm_env \<Rightarrow> (string \<Rightarrow> string + string) \<Rightarrow> db \<Rightarrow> nat \<Rightarrow> bool \<Rightarrow> nat \<Rightarrow> walk \<Rightarrow> tool_error + string" where
  "expand_loop env read d depth include_messages cap w =
     (case wk_frontier w of
        [] \<Rightarrow> Inr (wk_out w)
      | (s, level) # frontier \<Rightarrow>
          (case expand_step env read d depth include_messages cap s level frontier w of
             StepFails e \<Rightarrow> Inl e
           | StepReturns out \<Rightarrow> Inr out
           | StepNext w1 \<Rightarrow> expand_loop env read d depth include_messages cap w1))"
  by pat_completeness auto
termination
proof (relation "measure (\<lambda>(env, read, d, depth, inc, cap, w). unseen d (wk_seen w) + length (wk_frontier w))")
  fix env read d depth inc cap w x xs s level w1
  assume "wk_frontier w = x # xs" and "(s, level) = x"
    and "expand_step env read d depth inc cap s level xs w = StepNext w1"
  then show "((env, read, d, depth, inc, cap, w1), env, read, d, depth, inc, cap, w)
      \<in> measure (\<lambda>(env, read, d, depth, inc, cap, w). unseen d (wk_seen w) + length (wk_frontier w))"
    using expand_step_measure [of env read d depth inc cap s level xs w w1] by simp
qed simp

declare expand_loop.simps [simp del]

definition expand ::
  "lcm_env \<Rightarrow> (string \<Rightarrow> string + string) \<Rightarrow> db \<Rightarrow> int \<Rightarrow> string \<Rightarrow> nat \<Rightarrow> bool \<Rightarrow> nat
   \<Rightarrow> tool_error + string" where
  "expand env read d c s depth include_messages token_cap =
     (if \<not> list_ex (\<lambda>r. sr_id r = s \<and> sr_conv r = c) (summaries d) then Inr (no_summary env s)
      else expand_loop env read d depth include_messages token_cap
        \<lparr>wk_frontier = [(s, 0)], wk_seen = [s], wk_out = [], wk_used = 0\<rparr>)"

section \<open>The tool\<close>

definition DEFAULT_EXPAND_TOKEN_CAP :: nat where "DEFAULT_EXPAND_TOKEN_CAP = 5000"
definition MAX_EXPAND_TOKEN_CAP :: nat where "MAX_EXPAND_TOKEN_CAP = 20000"

record expand_args =
  xa_summary_id :: string
  xa_depth :: "nat option"
  xa_include_messages :: "bool option"
  xa_token_cap :: "nat option"

definition unwrap_or :: "'a \<Rightarrow> 'a option \<Rightarrow> 'a" where
  "unwrap_or x v = (case v of None \<Rightarrow> x | Some y \<Rightarrow> y)"

text \<open>\<open>execute\<close> once the arguments are parsed; \<open>c\<close> is the active conversation.\<close>

definition lcm_expand ::
  "lcm_env \<Rightarrow> (string \<Rightarrow> string + string) \<Rightarrow> db \<Rightarrow> int \<Rightarrow> expand_args \<Rightarrow> tool_error + string" where
  "lcm_expand env read d c args =
     expand env read d c (xa_summary_id args) (max (unwrap_or 1 (xa_depth args)) 1)
       (unwrap_or False (xa_include_messages args))
       (min (unwrap_or DEFAULT_EXPAND_TOKEN_CAP (xa_token_cap args)) MAX_EXPAND_TOKEN_CAP)"

end
