(* ===== verification/Lcm_Search.thy ===== *)
theory Lcm_Search
  imports Lcm_Expand Rust_Lines
begin

text \<open>
  The tools \<^verbatim>\<open>lcm_grep\<close> and \<^verbatim>\<open>lcm_describe\<close> of \<^verbatim>\<open>src/src/context/lcm/tools.rs\<close>. The matchers are
  code outside the repository and arguments of the model: SQLite's FTS5 query parser and
  matcher, the regex behind the \<open>REGEXP\<close> function, and the line searcher over payload files.
  A query without \<open>ORDER BY\<close> yields rows in the order of the table.
\<close>

section \<open>Matchers\<close>

text \<open>
  \<open>fts\<close> parses a query (the error's text, or the matcher); \<open>regexp\<close> is one call of
  \<open>REGEXP(pattern, text)\<close>; \<open>regex_new\<close> compiles a pattern (the error's text, if any);
  \<open>search_lines\<close> gives the matching lines of a file with their numbers.
\<close>

record search_env =
  fts :: "string \<Rightarrow> string + (string \<Rightarrow> bool)"
  regexp :: "string \<Rightarrow> string \<Rightarrow> string + bool"
  regex_new :: "string \<Rightarrow> string option"
  search_lines :: "string \<Rightarrow> string \<Rightarrow> string + (nat \<times> string) list"
  payload_path :: "string \<Rightarrow> string"

definition exec_err :: "string \<Rightarrow> tool_error" where
  "exec_err e = SqliteFailed ''lcm'' e"

text \<open>\<open>WHERE .. LIMIT n\<close>: rows are tested in order until \<open>n\<close> of them matched.\<close>

fun scan_rows :: "nat \<Rightarrow> ('a \<Rightarrow> string + bool) \<Rightarrow> 'a list \<Rightarrow> tool_error + 'a list" where
  "scan_rows 0 p rs = Inr []"
| "scan_rows (Suc n) p [] = Inr []"
| "scan_rows (Suc n) p (r # rs) =
     (case p r of
        Inl e \<Rightarrow> Inl (exec_err e)
      | Inr True \<Rightarrow> bind_res (scan_rows n p rs) (\<lambda>rest. Inr (r # rest))
      | Inr False \<Rightarrow> scan_rows (Suc n) p rs)"

datatype search_mode = FtsMode | RegexMode

text \<open>The rows of a conversation whose text matches; a full-text query is parsed before any row.\<close>

definition match_rows ::
  "search_env \<Rightarrow> search_mode \<Rightarrow> string \<Rightarrow> ('a \<Rightarrow> string) \<Rightarrow> nat \<Rightarrow> 'a list \<Rightarrow> tool_error + 'a list" where
  "match_rows se mode pattern text limit rows =
     (if limit = 0 then Inr []
      else case mode of
        FtsMode \<Rightarrow>
          (case fts se pattern of
             Inl e \<Rightarrow> Inl (exec_err e)
           | Inr matches \<Rightarrow> scan_rows limit (\<lambda>r. Inr (matches (text r))) rows)
      | RegexMode \<Rightarrow> scan_rows limit (\<lambda>r. regexp se pattern (text r)) rows)"

section \<open>Snippets\<close>

definition SNIPPET_CHARS :: nat where "SNIPPET_CHARS = 200"

text \<open>\<open>chars().count()\<close> of a UTF-8 text.\<close>

definition chars_count :: "string \<Rightarrow> nat" where
  "chars_count s = length (filter (\<lambda>b. \<not> is_cont b) s)"

definition snippet :: "string \<Rightarrow> string" where
  "snippet s =
     (let cleaned = map (\<lambda>b. if b = CHR 0x0A then CHR '' '' else b) s
      in if chars_count cleaned \<le> SNIPPET_CHARS then cleaned
         else take_chars SNIPPET_CHARS cleaned @ ''...'')"

section \<open>Searching the tables\<close>

definition message_hit :: "message_row \<Rightarrow> string" where
  "message_hit r =
     ''[message_id='' @ int_str (mr_id r) @ '' role='' @ mr_role r @ ''] '' @ snippet (mr_content r)"

definition summary_hit :: "summary_row \<Rightarrow> string" where
  "summary_hit r =
     ''[summary_id='' @ sr_id r @ '' kind='' @ kind_str (sr_kind r) @ '' depth=''
     @ int_str (sr_depth r) @ ''] '' @ snippet (sr_content r)"

definition conversation_messages :: "db \<Rightarrow> int \<Rightarrow> message_row list" where
  "conversation_messages d c = filter (\<lambda>r. mr_conv r = c) (messages d)"

definition conversation_summaries :: "db \<Rightarrow> int \<Rightarrow> summary_row list" where
  "conversation_summaries d c = filter (\<lambda>r. sr_conv r = c) (summaries d)"

definition grep_messages ::
  "search_env \<Rightarrow> db \<Rightarrow> int \<Rightarrow> string \<Rightarrow> search_mode \<Rightarrow> nat \<Rightarrow> tool_error + string list" where
  "grep_messages se d c pattern mode limit =
     bind_res (match_rows se mode pattern mr_content limit (conversation_messages d c)) (\<lambda>rows.
       Inr (map message_hit rows))"

definition grep_summaries ::
  "search_env \<Rightarrow> db \<Rightarrow> int \<Rightarrow> string \<Rightarrow> search_mode \<Rightarrow> nat \<Rightarrow> tool_error + string list" where
  "grep_summaries se d c pattern mode limit =
     bind_res (match_rows se mode pattern sr_content limit (conversation_summaries d c)) (\<lambda>rows.
       Inr (map summary_hit rows))"

section \<open>Searching the payload files\<close>

text \<open>\<open>ORDER BY created_at, file_id\<close>, by two stable sorts.\<close>

definition file_ids :: "db \<Rightarrow> int \<Rightarrow> string list" where
  "file_ids d c =
     map lf_id (sort_key lf_created (sort_key lf_id (filter (\<lambda>f. lf_conv f = c) (large_files d))))"

definition file_hit :: "string \<Rightarrow> nat \<times> string \<Rightarrow> string" where
  "file_hit f l = ''[file_id='' @ f @ '' line='' @ nat_str (fst l) @ ''] '' @ snippet (snd l)"

fun grep_file_list ::
  "lcm_env \<Rightarrow> search_env \<Rightarrow> string \<Rightarrow> nat \<Rightarrow> string list \<Rightarrow> string list \<Rightarrow> tool_error + string list" where
  "grep_file_list env se pattern limit [] hits = Inr hits"
| "grep_file_list env se pattern limit (f # fs) hits =
     (if limit \<le> length hits then Inr hits
      else if \<not> (case extract_file_ids env f of [] \<Rightarrow> False | x # _ \<Rightarrow> x = f)
      then Inl (Precondition (''lcm large_files row has unsafe file id '' @ debug_str env f))
      else
        (case search_lines se pattern (payload_path se f) of
           Inl e \<Rightarrow> Inl (IoFailed ''search'' (payload_path se f) e)
         | Inr ls \<Rightarrow> grep_file_list env se pattern limit fs
             (hits @ map (file_hit f) (take (limit - length hits) ls))))"

definition grep_files ::
  "lcm_env \<Rightarrow> search_env \<Rightarrow> db \<Rightarrow> int \<Rightarrow> string \<Rightarrow> nat \<Rightarrow> tool_error + string list" where
  "grep_files env se d c pattern limit =
     (case regex_new se pattern of
        Some e \<Rightarrow> Inl (InvalidArguments (''invalid regex: '' @ e))
      | None \<Rightarrow> grep_file_list env se pattern limit (file_ids d c) [])"

section \<open>Patterns that are not query syntax\<close>

definition fts_phrase :: "string \<Rightarrow> string" where
  "fts_phrase pattern = [CHR 0x22] @ str_replace [CHR 0x22] [CHR 0x22, CHR 0x22] pattern @ [CHR 0x22]"

definition is_fts_parse_error :: "tool_error \<Rightarrow> bool" where
  "is_fts_parse_error e =
     (case e of
        SqliteFailed _ msg \<Rightarrow> str_contains msg ''fts5: syntax error'' \<or> prefix ''no such column:'' msg
      | _ \<Rightarrow> False)"

definition uses_fts_operators :: "string \<Rightarrow> bool" where
  "uses_fts_operators pattern \<longleftrightarrow>
     CHR 0x22 \<in> set pattern
     \<or> list_ex (\<lambda>t. t \<in> {''AND'', ''NOT'', ''OR''} \<or> prefix ''NEAR('' t) (split_whitespace pattern)"

definition fts_query_error :: "string \<Rightarrow> tool_error \<Rightarrow> tool_error" where
  "fts_query_error pattern e = (case e of SqliteFailed _ source \<Rightarrow> FtsQuery pattern source | other \<Rightarrow> other)"

section \<open>The search\<close>

datatype search_scope = InFiles | InMessages | InSummaries | InBoth

fun mode_str :: "search_mode \<Rightarrow> string" where
  "mode_str FtsMode = ''fts''"
| "mode_str RegexMode = ''regex''"

fun scope_str :: "search_scope \<Rightarrow> string" where
  "scope_str InFiles = ''files''"
| "scope_str InMessages = ''messages''"
| "scope_str InSummaries = ''summaries''"
| "scope_str InBoth = ''both''"

text \<open>The closure \<open>run\<close>: messages first, then summaries, each under the limit.\<close>

definition grep_tables ::
  "search_env \<Rightarrow> db \<Rightarrow> int \<Rightarrow> search_mode \<Rightarrow> search_scope \<Rightarrow> nat \<Rightarrow> string \<Rightarrow> tool_error + string list" where
  "grep_tables se d c mode scope limit pattern =
     bind_res (if scope \<in> {InMessages, InBoth} then grep_messages se d c pattern mode limit else Inr []) (\<lambda>ms.
     bind_res (if scope \<in> {InSummaries, InBoth} then grep_summaries se d c pattern mode limit else Inr []) (\<lambda>ss.
       Inr (ms @ ss)))"

definition grep_hits ::
  "search_env \<Rightarrow> db \<Rightarrow> int \<Rightarrow> string \<Rightarrow> search_mode \<Rightarrow> search_scope \<Rightarrow> nat \<Rightarrow> tool_error + string list" where
  "grep_hits se d c pattern mode scope limit =
     (case grep_tables se d c mode scope limit pattern of
        Inr hits \<Rightarrow> Inr hits
      | Inl first \<Rightarrow>
          if mode = FtsMode \<and> is_fts_parse_error first then
            (if uses_fts_operators pattern then Inl (fts_query_error pattern first)
             else (case grep_tables se d c mode scope limit (fts_phrase pattern) of
                     Inl retry \<Rightarrow> if is_fts_parse_error retry then Inl (fts_query_error pattern first) else Inl retry
                   | Inr hits \<Rightarrow> Inr hits))
          else Inl first)"

definition hits_text :: "lcm_env \<Rightarrow> string \<Rightarrow> search_mode \<Rightarrow> search_scope \<Rightarrow> string list \<Rightarrow> string" where
  "hits_text env pattern mode scope hits =
     (if hits = [] then
        ''No matches for '' @ debug_str env pattern @ '' in '' @ scope_str scope @ '' ('' @ mode_str mode @ '').''
      else nat_str (length hits) @ '' match(es):'' @ newline @ join_with newline hits)"

definition run_grep ::
  "lcm_env \<Rightarrow> search_env \<Rightarrow> db \<Rightarrow> int \<Rightarrow> string \<Rightarrow> search_mode \<Rightarrow> search_scope \<Rightarrow> nat \<Rightarrow> tool_error + string" where
  "run_grep env se d c pattern mode scope limit =
     bind_res (if scope = InFiles then grep_files env se d c pattern limit
               else grep_hits se d c pattern mode scope limit) (\<lambda>hits.
       Inr (hits_text env pattern mode scope hits))"

definition DEFAULT_GREP_LIMIT :: nat where "DEFAULT_GREP_LIMIT = 50"
definition MAX_GREP_LIMIT :: nat where "MAX_GREP_LIMIT = 200"

record grep_args =
  ga_pattern :: string
  ga_mode :: "string option"
  ga_scope :: "string option"
  ga_limit :: "nat option"

definition parse_mode :: "lcm_env \<Rightarrow> string \<Rightarrow> tool_error + search_mode" where
  "parse_mode env s =
     (if s = ''fts'' then Inr FtsMode else if s = ''regex'' then Inr RegexMode
      else Inl (InvalidArguments (''mode must be \"fts\" or \"regex\", got '' @ debug_str env s)))"

definition parse_scope :: "lcm_env \<Rightarrow> string \<Rightarrow> tool_error + search_scope" where
  "parse_scope env s =
     (if s = ''files'' then Inr InFiles else if s = ''messages'' then Inr InMessages
      else if s = ''summaries'' then Inr InSummaries else if s = ''both'' then Inr InBoth
      else Inl (InvalidArguments
        (''scope must be \"messages\", \"summaries\", \"both\", or \"files\", got '' @ debug_str env s)))"

definition grep_limit :: "grep_args \<Rightarrow> nat" where
  "grep_limit args = min (unwrap_or DEFAULT_GREP_LIMIT (ga_limit args)) MAX_GREP_LIMIT"

definition lcm_grep ::
  "lcm_env \<Rightarrow> search_env \<Rightarrow> db \<Rightarrow> int \<Rightarrow> grep_args \<Rightarrow> tool_error + string" where
  "lcm_grep env se d c args =
     bind_res (parse_mode env (unwrap_or ''fts'' (ga_mode args))) (\<lambda>mode.
     bind_res (parse_scope env (unwrap_or ''both'' (ga_scope args))) (\<lambda>scope.
       if scope = InFiles \<and> mode \<noteq> RegexMode
       then Inl (InvalidArguments ''scope=\"files\" requires mode=\"regex\"'')
       else run_grep env se d c (ga_pattern args) mode scope (grep_limit args)))"

section \<open>Describing one node\<close>

definition or_none :: "string list \<Rightarrow> string" where
  "or_none xs = (if xs = [] then ''(none)'' else join_with '', '' xs)"

definition describe_summary :: "lcm_env \<Rightarrow> db \<Rightarrow> int \<Rightarrow> string \<Rightarrow> string" where
  "describe_summary env d c s =
     (case find (\<lambda>r. sr_id r = s \<and> sr_conv r = c) (summaries d) of
        None \<Rightarrow> no_summary env s
      | Some r \<Rightarrow> join_with newline
          [''summary_id: '' @ s, ''kind: '' @ kind_str (sr_kind r), ''depth: '' @ int_str (sr_depth r),
           ''token_count: '' @ int_str (sr_tokens r), ''earliest_at: '' @ sr_earliest r,
           ''latest_at: '' @ sr_latest r,
           ''descendants: '' @ int_str (sr_desc_count r) @ '' ('' @ int_str (sr_desc_tokens r) @ '' tokens)'',
           ''model: '' @ sr_model r, ''created_at: '' @ sr_created r,
           ''parents: '' @ or_none (sort (map snd (filter (\<lambda>(x, p). x = s) (summary_parents d)))),
           ''children: '' @ or_none (child_ids d s),
           ''source_messages: '' @ or_none (map int_str
              (sort (map snd (filter (\<lambda>(x, m). x = s) (summary_messages d))))),
           ''files: '' @ or_none (sort (map snd (filter (\<lambda>(x, f). x = s) (summary_files d)))),
           [], ''content:'', sr_content r])"

definition describe_file :: "lcm_env \<Rightarrow> db \<Rightarrow> int \<Rightarrow> string \<Rightarrow> string" where
  "describe_file env d c f =
     (case find (\<lambda>r. lf_id r = f \<and> lf_conv r = c) (large_files d) of
        None \<Rightarrow> ''No file with id '' @ debug_str env f @ '' in the active session.''
      | Some r \<Rightarrow> join_with newline
          [''file_id: '' @ f, ''path: '' @ lf_path r, ''mime_type: '' @ lf_mime r,
           ''byte_size: '' @ int_str (lf_bytes r), ''token_count: '' @ int_str (lf_tokens r),
           ''first_seen_message_id: '' @ int_str (lf_first_seen r),
           ''created_at: '' @ lf_created r, [], ''exploration_summary:'', lf_summary r])"

definition lcm_describe :: "lcm_env \<Rightarrow> db \<Rightarrow> int \<Rightarrow> string \<Rightarrow> tool_error + string" where
  "lcm_describe env d c i =
     (if prefix ''sum_'' i then Inr (describe_summary env d c i)
      else if prefix ''file_'' i then Inr (describe_file env d c i)
      else Inl (InvalidArguments (''id must start with \"sum_\" or \"file_\", got '' @ debug_str env i)))"

end
