(* ===== verification/Lcm_Expand_Correct.thy ===== *)
theory Lcm_Expand_Correct
  imports Lcm_Expand Lcm_Run
begin

text \<open>
  What \<open>lcm_expand\<close> returns. \<open>visits\<close> is the order of the walk without any budget and
  \<open>node_text\<close> the text of one node; an expansion that stays within the cap is the text of the
  visited nodes, and every other one says that it was truncated. The walk visits a summary
  once, even in a cyclic store, and with enough depth it reaches every message the summary
  covers.
\<close>

section \<open>The walk without a budget\<close>

definition leaf_node :: "db \<Rightarrow> string \<Rightarrow> bool" where
  "leaf_node d s \<longleftrightarrow> (case find_summary d s of None \<Rightarrow> True | Some r \<Rightarrow> sr_kind r = Leaf)"

definition open_node ::
  "db \<Rightarrow> nat \<Rightarrow> string \<Rightarrow> nat \<Rightarrow> (string \<times> nat) list \<Rightarrow> string list \<Rightarrow> (string \<times> nat) list \<times> string list" where
  "open_node d depth s level fr seen =
     (if depth \<le> level \<or> leaf_node d s then (fr, seen)
      else push_children (level + 1) (child_ids d s) fr seen)"

lemma open_node_measure:
  "open_node d depth s level fr seen = (fr1, seen1) \<Longrightarrow>
     unseen d seen1 + length fr1 = unseen d seen + length fr"
  using push_children_measure [OF child_ids_known]
  by (auto simp: open_node_def split: if_splits)

function visits :: "db \<Rightarrow> nat \<Rightarrow> (string \<times> nat) list \<Rightarrow> string list \<Rightarrow> (string \<times> nat) list" where
  "visits d depth [] seen = []"
| "visits d depth ((s, level) # fr) seen =
     (s, level) # visits d depth (fst (open_node d depth s level fr seen))
                                 (snd (open_node d depth s level fr seen))"
  by pat_completeness auto
termination
proof (relation "measure (\<lambda>(d, depth, fr, seen). unseen d seen + length fr)")
  fix d depth s level fr seen
  show "((d, depth, fst (open_node d depth s level fr seen), snd (open_node d depth s level fr seen)),
      d, depth, (s, level) # fr, seen) \<in> measure (\<lambda>(d, depth, fr, seen). unseen d seen + length fr)"
    using open_node_measure [of d depth s level fr seen]
    by (cases "open_node d depth s level fr seen") simp
qed simp

lemma push_children_frontier:
  assumes "push_children level xs fr seen = (fr1, seen1)"
  shows "\<exists>new. fr1 = map (\<lambda>x. (x, level)) new @ fr \<and> seen1 = new @ seen \<and> distinct new
    \<and> set new = set xs - set seen"
  using assms
proof (induction level xs fr seen rule: push_children.induct)
  case (1 level fr seen)
  then show ?case by simp
next
  case (2 level x xs fr seen)
  show ?case
  proof (cases "x \<in> set seen")
    case True
    with 2 show ?thesis by auto
  next
    case False
    with "2.IH"(2) "2.prems" obtain new where
      "fr1 = map (\<lambda>x. (x, level)) new @ (x, level) # fr" "seen1 = new @ x # seen" "distinct new"
      "set new = set xs - set (x # seen)"
      by auto
    with False show ?thesis by (intro exI [of _ "new @ [x]"]) auto
  qed
qed

lemma open_node_cases:
  assumes "open_node d depth s level fr seen = (fr1, seen1)"
  shows "\<exists>new. fr1 = map (\<lambda>x. (x, level + 1)) new @ fr \<and> seen1 = new @ seen \<and> distinct new
    \<and> set new = (if depth \<le> level \<or> leaf_node d s then {} else set (child_ids d s) - set seen)"
  using assms push_children_frontier [of "level + 1" "child_ids d s" fr seen fr1 seen1]
  by (cases "depth \<le> level \<or> leaf_node d s") (auto simp: open_node_def)

text \<open>The state of the walk: the stack holds distinct summaries, all marked as seen.\<close>

definition walk_ok :: "(string \<times> nat) list \<Rightarrow> string list \<Rightarrow> bool" where
  "walk_ok fr seen \<longleftrightarrow> distinct (map fst fr) \<and> fst ` set fr \<subseteq> set seen"

lemma walk_ok_step:
  assumes "walk_ok ((s, level) # fr) seen" and "open_node d depth s level fr seen = (fr1, seen1)"
  shows "walk_ok fr1 seen1" and "s \<notin> fst ` set fr1" and "s \<in> set seen1"
proof -
  obtain new where n: "fr1 = map (\<lambda>x. (x, level + 1)) new @ fr" "seen1 = new @ seen" "distinct new"
    "set new \<inter> set seen = {}"
    using open_node_cases [OF assms(2)] by (auto split: if_splits)
  have 1: "map fst (map (\<lambda>x. (x, level + 1)) new) = new" by (induction new) auto
  have 2: "fst ` (\<lambda>x. (x, level + 1)) ` set new = set new" by force
  show "walk_ok fr1 seen1"
    using assms(1) n 1 2 by (auto simp: walk_ok_def image_Un)
  show "s \<notin> fst ` set fr1" "s \<in> set seen1"
    using assms(1) n 2 by (auto simp: walk_ok_def image_Un)
qed

lemma visits_fresh:
  "walk_ok fr seen \<Longrightarrow> s \<in> set seen \<Longrightarrow> s \<notin> fst ` set fr \<Longrightarrow> s \<notin> fst ` set (visits d depth fr seen)"
proof (induction d depth fr seen rule: visits.induct)
  case (2 d depth x level fr seen)
  obtain fr1 seen1 where o: "open_node d depth x level fr seen = (fr1, seen1)" by fastforce
  have "s \<notin> fst ` set fr1"
    using open_node_cases [OF o] 2(3,4) by (auto split: if_splits)
  moreover have "s \<in> set seen1" using open_node_cases [OF o] 2(3) by auto
  ultimately have "s \<notin> fst ` set (visits d depth fr1 seen1)"
    using 2(1) walk_ok_step(1) [OF 2(2) o] by (simp add: o)
  with 2(4) show ?case by (simp add: o)
qed simp

lemma visits_distinct: "walk_ok fr seen \<Longrightarrow> distinct (map fst (visits d depth fr seen))"
proof (induction d depth fr seen rule: visits.induct)
  case (2 d depth s level fr seen)
  obtain fr1 seen1 where o: "open_node d depth s level fr seen = (fr1, seen1)" by fastforce
  note ok = walk_ok_step [OF 2(2) o]
  show ?case
    using 2(1) ok(1) visits_fresh [OF ok(1,3,2), of d depth] by (simp add: o)
qed simp

lemma visits_frontier: "set fr \<subseteq> set (visits d depth fr seen)"
proof (induction d depth fr seen rule: visits.induct)
  case (2 d depth s level fr seen)
  obtain fr1 seen1 where o: "open_node d depth s level fr seen = (fr1, seen1)" by fastforce
  have "set fr \<subseteq> set fr1" using open_node_cases [OF o] by auto
  with 2 show ?case by (auto simp: o)
qed simp

text \<open>Every visited summary is one of the stack or some summary's child.\<close>

lemma visits_known:
  "fst ` set (visits d depth fr seen) \<subseteq> fst ` set fr \<union> fst ` set (summary_parents d)"
proof (induction d depth fr seen rule: visits.induct)
  case (2 d depth s level fr seen)
  obtain fr1 seen1 where o: "open_node d depth s level fr seen = (fr1, seen1)" by fastforce
  obtain new where "fr1 = map (\<lambda>x. (x, level + 1)) new @ fr"
    "set new = (if depth \<le> level \<or> leaf_node d s then {} else set (child_ids d s) - set seen)"
    using open_node_cases [OF o] by blast
  then have "fst ` set fr1 \<subseteq> fst ` set fr \<union> fst ` set (summary_parents d)"
    using child_ids_known [of d s] by (auto split: if_splits)
  with 2 show ?case by (auto simp: o)
qed simp

lemma visits_closed:
  "(s, level) \<in> set (visits d depth fr seen) \<Longrightarrow> level < depth \<Longrightarrow> \<not> leaf_node d s
   \<Longrightarrow> x \<in> set (child_ids d s) \<Longrightarrow> x \<in> set seen \<union> fst ` set (visits d depth fr seen)"
proof (induction d depth fr seen rule: visits.induct)
  case (2 d depth s' level' fr seen)
  obtain fr1 seen1 where o: "open_node d depth s' level' fr seen = (fr1, seen1)" by fastforce
  obtain new where new: "fr1 = map (\<lambda>x. (x, level' + 1)) new @ fr" "seen1 = new @ seen"
    "set new = (if depth \<le> level' \<or> leaf_node d s' then {} else set (child_ids d s') - set seen)"
    using open_node_cases [OF o] by blast
  have "set new \<subseteq> fst ` set fr1" using new(1) by force
  then have opened: "set new \<subseteq> fst ` set (visits d depth fr1 seen1)"
    using visits_frontier [of fr1 d depth seen1] by blast
  show ?case
  proof (cases "(s, level) = (s', level')")
    case True
    with "2.prems" new(3) opened show ?thesis by (auto simp: o)
  next
    case False
    with "2.prems"(1) have "(s, level) \<in> set (visits d depth fr1 seen1)" by (auto simp: o)
    with "2.IH" "2.prems"(2-4) have "x \<in> set seen1 \<union> fst ` set (visits d depth fr1 seen1)"
      by (simp add: o)
    with new(2) opened show ?thesis by (auto simp: o)
  qed
qed simp

text \<open>The level of a visited summary is at most its position in the walk.\<close>

lemma visits_level:
  "\<forall>(s, l) \<in> set fr. l \<le> n \<Longrightarrow> i < length (visits d depth fr seen)
   \<Longrightarrow> snd (visits d depth fr seen ! i) \<le> n + i"
proof (induction d depth fr seen arbitrary: n i rule: visits.induct)
  case (2 d depth s level fr seen)
  obtain fr1 seen1 where o: "open_node d depth s level fr seen = (fr1, seen1)" by fastforce
  have le: "\<forall>(s, l) \<in> set fr1. l \<le> n + 1"
    using open_node_cases [OF o] "2.prems"(1) by fastforce
  show ?case
  proof (cases i)
    case 0
    with "2.prems"(1) show ?thesis by simp
  next
    case (Suc j)
    with "2.prems"(2) have "snd (visits d depth fr1 seen1 ! j) \<le> (n + 1) + j"
      using "2.IH" [of "n + 1" j] le by (simp add: o)
    with Suc show ?thesis by (simp add: o)
  qed
qed simp

section \<open>What the walk from one summary reaches\<close>

abbreviation walk_from :: "db \<Rightarrow> nat \<Rightarrow> string \<Rightarrow> (string \<times> nat) list" where
  "walk_from d depth s \<equiv> visits d depth [(s, 0)] [s]"

lemma find_distinct: "distinct (map f xs) \<Longrightarrow> x \<in> set xs \<Longrightarrow> find (\<lambda>y. f y = f x) xs = Some x"
  by (induction xs) (auto simp: image_iff)

lemma find_summary_row:
  "wf_summaries d \<Longrightarrow> r \<in> set (summaries d) \<Longrightarrow> find_summary d (sr_id r) = Some r"
  by (simp add: find_summary_def wf_summaries_def find_distinct)

lemma find_summary_in: "find_summary d s = Some r \<Longrightarrow> r \<in> set (summaries d) \<and> sr_id r = s"
  unfolding find_summary_def find_Some_iff by (metis nth_mem)

lemma find_summary_exists: "summary_exists d s \<longleftrightarrow> (\<exists>r. find_summary d s = Some r)"
proof (cases "find_summary d s")
  case None
  then have "\<forall>r \<in> set (summaries d). sr_id r \<noteq> s"
    by (simp add: find_summary_def find_None_iff)
  with None show ?thesis by (auto simp: summary_exists_def)
next
  case (Some r)
  then show ?thesis using find_summary_in [OF Some] by (auto simp: summary_exists_def)
qed

lemma typed_kinds:
  assumes "wf_summaries d" and "links_typed d"
  shows "(s, m) \<in> set (summary_messages d) \<Longrightarrow> leaf_node d s"
    and "(x, s) \<in> set (summary_parents d) \<Longrightarrow> \<not> leaf_node d s"
proof -
  show "leaf_node d s" if "(s, m) \<in> set (summary_messages d)"
    using assms that find_summary_row [OF assms(1)]
    by (fastforce simp: links_typed_def list_all_iff list_ex_iff leaf_node_def)
  show "\<not> leaf_node d s" if "(x, s) \<in> set (summary_parents d)"
    using assms that find_summary_row [OF assms(1)]
    by (fastforce simp: links_typed_def list_all_iff list_ex_iff leaf_node_def)
qed

lemma walk_exists:
  assumes "wf_summaries d" and "summary_exists d s" and "x \<in> fst ` set (walk_from d depth s)"
  shows "summary_exists d x"
  using visits_known [of d depth "[(s, 0)]" "[s]"] assms by (fastforce simp: wf_summaries_def)

lemma walk_length:
  assumes "wf_summaries d" and "summary_exists d s"
  shows "length (walk_from d depth s) \<le> length (summaries d)"
proof -
  let ?V = "walk_from d depth s"
  have "distinct (map fst ?V)" by (rule visits_distinct) (simp add: walk_ok_def)
  then have "length ?V = card (fst ` set ?V)"
    using distinct_card [of "map fst ?V"] by simp
  also have "\<dots> \<le> card (sr_id ` set (summaries d))"
    using walk_exists [OF assms] by (intro card_mono) (auto simp: summary_exists_def)
  also have "\<dots> \<le> length (summaries d)"
    by (metis card_length length_map list.set_map)
  finally show ?thesis .
qed

lemma walk_level:
  assumes "wf_summaries d" and "summary_exists d s" and "length (summaries d) \<le> depth"
    and "(x, l) \<in> set (walk_from d depth s)"
  shows "l < depth"
proof -
  let ?V = "walk_from d depth s"
  obtain i where i: "i < length ?V" "?V ! i = (x, l)"
    using assms(4) by (metis in_set_conv_nth)
  have "snd (?V ! i) \<le> 0 + i" by (rule visits_level) (use i in auto)
  with i walk_length [OF assms(1,2), of depth] assms(3) show ?thesis by simp
qed

lemma walk_reaches:
  assumes wf: "wf_summaries d" and typed: "links_typed d" and ex: "summary_exists d s"
    and deep: "length (summaries d) \<le> depth"
    and cov: "covers d x m" and x: "x \<in> fst ` set (walk_from d depth s)"
  shows "\<exists>y l. (y, l) \<in> set (walk_from d depth s) \<and> (y, m) \<in> set (summary_messages d)"
  using cov x
proof induction
  case (direct x m)
  from direct(2) obtain l where "(x, l) \<in> set (walk_from d depth s)" by fastforce
  with direct(1) show ?case by blast
next
  case (child ch x m)
  obtain l where l: "(x, l) \<in> set (walk_from d depth s)" using child.prems by fastforce
  have "ch \<in> set [s] \<union> fst ` set (walk_from d depth s)"
  proof (rule visits_closed [OF l walk_level [OF wf ex deep l]])
    show "\<not> leaf_node d x" by (rule typed_kinds(2) [OF wf typed child.hyps(1)])
    show "ch \<in> set (child_ids d x)" using child.hyps(1) by (simp add: set_child_ids)
  qed
  moreover have "(s, 0) \<in> set (walk_from d depth s)"
    using visits_frontier [of "[(s, 0)]" d depth "[s]"] by simp
  ultimately have "ch \<in> fst ` set (walk_from d depth s)" by force
  then show ?case by (rule child.IH)
qed

section \<open>The text of a node, and what it weighs\<close>

definition payload_text :: "(string \<Rightarrow> string + string) \<Rightarrow> string \<Rightarrow> string" where
  "payload_text read f = (case read f of Inl e \<Rightarrow> payload_missing f e | Inr p \<Rightarrow> payload_block f p)"

definition message_text :: "lcm_env \<Rightarrow> (string \<Rightarrow> string + string) \<Rightarrow> message_row \<Rightarrow> string" where
  "message_text env read r =
     message_block r @ concat (map (payload_text read) (extract_file_ids env (mr_content r)))"

definition node_rows :: "db \<Rightarrow> nat \<Rightarrow> bool \<Rightarrow> string \<times> nat \<Rightarrow> message_row list" where
  "node_rows d depth include_messages n =
     (if include_messages \<and> snd n < depth \<and> leaf_node d (fst n) then source_rows d (fst n) else [])"

definition node_chunk :: "db \<Rightarrow> string \<times> nat \<Rightarrow> string" where
  "node_chunk d n =
     (case find_summary d (fst n) of None \<Rightarrow> [] | Some r \<Rightarrow> summary_chunk r (snd n))"

definition node_text ::
  "lcm_env \<Rightarrow> (string \<Rightarrow> string + string) \<Rightarrow> db \<Rightarrow> nat \<Rightarrow> bool \<Rightarrow> string \<times> nat \<Rightarrow> string" where
  "node_text env read d depth include_messages n =
     node_chunk d n @ concat (map (message_text env read) (node_rows d depth include_messages n))"

text \<open>The tokens a text needs under the cap: payloads are measured in bytes, rounded up.\<close>

definition payload_weight :: "(string \<Rightarrow> string + string) \<Rightarrow> string \<Rightarrow> nat" where
  "payload_weight read f = (case read f of Inl e \<Rightarrow> 0 | Inr p \<Rightarrow> (length p + 3) div 4)"

definition message_weight :: "lcm_env \<Rightarrow> (string \<Rightarrow> string + string) \<Rightarrow> message_row \<Rightarrow> nat" where
  "message_weight env read r = estimate_tokens (message_block r)
     + sum_list (map (payload_weight read) (extract_file_ids env (mr_content r)))"

definition node_weight ::
  "lcm_env \<Rightarrow> (string \<Rightarrow> string + string) \<Rightarrow> db \<Rightarrow> nat \<Rightarrow> bool \<Rightarrow> string \<times> nat \<Rightarrow> nat" where
  "node_weight env read d depth include_messages n = estimate_tokens (node_chunk d n)
     + sum_list (map (message_weight env read) (node_rows d depth include_messages n))"

text \<open>An output that announces its truncation.\<close>

definition truncated :: "nat \<Rightarrow> string \<Rightarrow> bool" where
  "truncated cap out \<longleftrightarrow> (\<exists>p n. out = p @ cap_notice cap \<or> out = p @ frontier_notice cap n)"

lemma truncatedI: "truncated cap (p @ cap_notice cap)" "truncated cap (p @ frontier_notice cap n)"
  by (auto simp: truncated_def)

section \<open>Each step writes the node's text or says that it stopped\<close>

lemma append_payload_cases:
  assumes "append_payload (read f) used cap f out = (out1, e)"
  shows "(out1 = out @ payload_text read f \<and> e \<noteq> CapReached) \<or> (truncated cap out1 \<and> e = CapReached)"
  using assms truncatedI(1) [of cap "out @ payload_head f (text_prefix p ((cap - used) * 4)) p" for p]
  by (auto simp: append_payload_def payload_text_def Let_def split: sum.splits if_splits)

lemma append_payloads_cases:
  "(case append_payloads read cap fs out used of
      Stopped out1 \<Rightarrow> truncated cap out1
    | Going out1 used1 \<Rightarrow> out1 = out @ concat (map (payload_text read) fs))"
proof (induction read cap fs out used rule: append_payloads.induct)
  case (2 read cap f fs out used)
  obtain out1 e where a: "append_payload (read f) used cap f out = (out1, e)" by fastforce
  show ?case
  proof (cases e)
    case (Fit t)
    with a 2 append_payload_cases [where read = read, OF a] show ?thesis by (auto split: expansion.splits)
  next
    case CapReached
    with a append_payload_cases [where read = read, OF a] show ?thesis by simp
  qed
qed simp

lemma append_payloads_stopped:
  "append_payloads read cap fs out used = Stopped out1 \<Longrightarrow> truncated cap out1"
  using append_payloads_cases [where read = read and cap = cap and fs = fs and out = out and used = used] by simp

lemma append_payloads_going:
  "append_payloads read cap fs out used = Going out1 used1 \<Longrightarrow> out1 = out @ concat (map (payload_text read) fs)"
  using append_payloads_cases [where read = read and cap = cap and fs = fs and out = out and used = used] by simp

lemma append_messages_cases:
  "(case append_messages env read cap rs out used of
      Stopped out1 \<Rightarrow> truncated cap out1
    | Going out1 used1 \<Rightarrow> out1 = out @ concat (map (message_text env read) rs))"
proof (induction env read cap rs out used rule: append_messages.induct)
  case (2 env read cap r rs out used)
  let ?a = "append_payloads read cap (extract_file_ids env (mr_content r)) (out @ message_block r)
     (u32_add used (to_u32 (int (estimate_tokens (mr_content r)))))"
  show ?case
  proof (cases "used + estimate_tokens (message_block r) > cap")
    case True
    then show ?thesis using truncatedI(1) by simp
  next
    case False
    show ?thesis
    proof (cases ?a)
      case (Stopped o1)
      with False append_payloads_stopped [OF Stopped]
      show ?thesis by simp
    next
      case (Going o1 u1)
      with append_payloads_going [OF Going]
      have "o1 = out @ message_text env read r" by (simp add: message_text_def)
      with 2 False Going show ?thesis by (auto split: expansion.splits)
    qed
  qed
qed simp

lemma expand_step_cases:
  assumes "find_summary d s = Some row"
  shows "(\<exists>out. expand_step env read d depth inc cap s level fr w = StepReturns out \<and> truncated cap out)
    \<or> (\<exists>used. expand_step env read d depth inc cap s level fr w =
         StepNext \<lparr>wk_frontier = fst (open_node d depth s level fr (wk_seen w)),
           wk_seen = snd (open_node d depth s level fr (wk_seen w)),
           wk_out = wk_out w @ node_text env read d depth inc (s, level), wk_used = used\<rparr>)"
proof -
  have leaf: "leaf_node d s \<longleftrightarrow> sr_kind row = Leaf" using assms by (simp add: leaf_node_def)
  note defs = assms leaf expand_step_def open_node_def node_text_def node_rows_def node_chunk_def Let_def
  let ?used = "u32_add (wk_used w) (to_u32 (sr_tokens row))"
  let ?m = "append_messages env read cap (source_rows d s) (wk_out w @ summary_chunk row level) ?used"
  show ?thesis
  proof (cases "wk_used w + estimate_tokens (summary_chunk row level) > cap")
    case True
    then show ?thesis using truncatedI(2) by (simp add: defs)
  next
    case ok: False
    show ?thesis
    proof (cases "level < depth \<and> sr_kind row = Leaf \<and> inc")
      case True
      with ok append_messages_cases [where env = env and read = read and cap = cap and rs = "source_rows d s"
          and out = "wk_out w @ summary_chunk row level" and used = ?used]
      show ?thesis by (cases ?m; cases w) (auto simp: defs)
    next
      case False
      with ok show ?thesis
        by (cases "sr_kind row"; cases w)
          (auto simp: defs split: prod.splits)
    qed
  qed
qed

section \<open>Within the cap nothing is left out\<close>

lemma to_u32_small: "n < 2 ^ 32 \<Longrightarrow> to_u32 (int n) = n"
  by (simp add: to_u32_def)

lemma u32_add_small: "a + b \<le> cap \<Longrightarrow> cap < 2 ^ 32 \<Longrightarrow> u32_add a b = a + b"
  by (simp add: u32_add_def)

lemma append_payloads_fit:
  assumes "used + sum_list (map (payload_weight read) fs) \<le> cap" and "cap < 2 ^ 32"
  shows "\<exists>out1 used1. append_payloads read cap fs out used = Going out1 used1
    \<and> used1 \<le> used + sum_list (map (payload_weight read) fs)"
  using assms(1)
proof (induction fs arbitrary: out used)
  case (Cons f fs)
  have "\<exists>out1 t. append_payload (read f) used cap f out = (out1, Fit t)
      \<and> t \<le> payload_weight read f \<and> u32_add used t = used + t"
  proof (cases "read f")
    case (Inl e)
    then show ?thesis
      using Cons.prems assms(2) by (simp add: append_payload_def u32_add_def payload_weight_def)
  next
    case (Inr p)
    then have w: "used + (length p + 3) div 4 \<le> cap"
      using Cons.prems by (simp add: payload_weight_def)
    then have "length p \<le> (cap - used) * 4" by linarith
    moreover have t: "estimate_tokens p \<le> (length p + 3) div 4"
      by (simp add: estimate_tokens_def estimate_tokens_from_chars_def)
    moreover have "to_u32 (int (estimate_tokens p)) = estimate_tokens p"
      using t w assms(2) by (intro to_u32_small) linarith
    ultimately show ?thesis
      using Inr w assms(2)
      by (simp add: append_payload_def payload_weight_def u32_add_small [of used _ cap])
  qed
  then obtain out1 t where a: "append_payload (read f) used cap f out = (out1, Fit t)"
    and t: "t \<le> payload_weight read f" "u32_add used t = used + t" by blast
  have "used + t + sum_list (map (payload_weight read) fs) \<le> cap" using Cons.prems t(1) by simp
  from Cons.IH [OF this, of out1] t(1) show ?case by (auto simp: a t(2))
qed simp

lemma append_messages_fit:
  assumes "used + sum_list (map (message_weight env read) rs) \<le> cap" and "cap < 2 ^ 32"
  shows "\<exists>out1 used1. append_messages env read cap rs out used = Going out1 used1
    \<and> used1 \<le> used + sum_list (map (message_weight env read) rs)"
  using assms(1)
proof (induction rs arbitrary: out used)
  case (Cons r rs)
  let ?ids = "extract_file_ids env (mr_content r)"
  let ?t = "estimate_tokens (mr_content r)"
  have t: "?t \<le> estimate_tokens (message_block r)"
    by (simp add: estimate_tokens_def estimate_tokens_from_chars_def message_block_def div_le_mono)
  have fits: "used + estimate_tokens (message_block r) \<le> cap"
    using Cons.prems by (simp add: message_weight_def [of env read r])
  have u: "u32_add used (to_u32 (int ?t)) = used + ?t"
    using t fits assms(2) by (simp add: to_u32_small u32_add_small [of used ?t cap])
  have "used + ?t + sum_list (map (payload_weight read) ?ids) \<le> cap"
    using Cons.prems t by (simp add: message_weight_def [of env read r])
  then obtain o1 u1 where a: "append_payloads read cap ?ids (out @ message_block r) (used + ?t) = Going o1 u1"
    and u1: "u1 \<le> used + ?t + sum_list (map (payload_weight read) ?ids)"
    using append_payloads_fit [OF _ assms(2)] by blast
  have "u1 + sum_list (map (message_weight env read) rs) \<le> cap"
    using Cons.prems u1 t by (simp add: message_weight_def [of env read r])
  from Cons.IH [OF this, of o1] u1 t fits show ?case
    by (auto simp: a u message_weight_def [of env read r])
qed simp

lemma expand_step_fit:
  assumes row: "find_summary d s = Some row" and count: "counted row" and small: "cap < 2 ^ 32"
    and fits: "wk_used w + node_weight env read d depth inc (s, level) \<le> cap"
  shows "\<exists>used. expand_step env read d depth inc cap s level fr w =
       StepNext \<lparr>wk_frontier = fst (open_node d depth s level fr (wk_seen w)),
         wk_seen = snd (open_node d depth s level fr (wk_seen w)),
         wk_out = wk_out w @ node_text env read d depth inc (s, level), wk_used = used\<rparr>
     \<and> used \<le> wk_used w + node_weight env read d depth inc (s, level)"
proof -
  let ?chunk = "summary_chunk row level"
  let ?t = "estimate_tokens (sr_content row)"
  let ?used = "u32_add (wk_used w) (to_u32 (sr_tokens row))"
  let ?rows = "node_rows d depth inc (s, level)"
  have leaf: "leaf_node d s \<longleftrightarrow> sr_kind row = Leaf" using row by (simp add: leaf_node_def)
  have chunk: "node_chunk d (s, level) = ?chunk" using row by (simp add: node_chunk_def)
  have t: "?t \<le> estimate_tokens ?chunk"
    by (simp add: estimate_tokens_def estimate_tokens_from_chars_def summary_chunk_def div_le_mono)
  have ok: "wk_used w + estimate_tokens ?chunk + sum_list (map (message_weight env read) ?rows) \<le> cap"
    using fits by (simp add: node_weight_def chunk)
  have used: "?used = wk_used w + ?t"
    using count t ok small by (simp add: counted_def to_u32_small u32_add_small [of _ ?t cap])
  have room: "?used + sum_list (map (message_weight env read) ?rows) \<le> cap" using ok t used by simp
  obtain o1 u1 where m: "append_messages env read cap ?rows (wk_out w @ ?chunk) ?used = Going o1 u1"
    and u1: "u1 \<le> ?used + sum_list (map (message_weight env read) ?rows)"
    using append_messages_fit [OF room small] by blast
  have no_return: "\<not> (\<exists>out. expand_step env read d depth inc cap s level fr w = StepReturns out)"
    using ok m leaf by (auto simp: expand_step_def row Let_def node_rows_def split: prod.splits)
  have next_used: "wk_used w1 \<le> wk_used w + node_weight env read d depth inc (s, level)"
    if "expand_step env read d depth inc cap s level fr w = StepNext w1" for w1
    using that ok m leaf u1 used t
    by (auto simp: expand_step_def row Let_def node_rows_def node_weight_def chunk
        split: prod.splits if_splits)
  show ?thesis
    using expand_step_cases [OF row, where env = env and read = read and depth = depth and inc = inc
        and cap = cap and level = level and fr = fr and w = w] no_return next_used by fastforce
qed

section \<open>The whole expansion\<close>

definition walk_weight ::
  "lcm_env \<Rightarrow> (string \<Rightarrow> string + string) \<Rightarrow> db \<Rightarrow> nat \<Rightarrow> bool \<Rightarrow> (string \<times> nat) list \<Rightarrow> nat" where
  "walk_weight env read d depth inc ns = sum_list (map (node_weight env read d depth inc) ns)"

definition walk_text ::
  "lcm_env \<Rightarrow> (string \<Rightarrow> string + string) \<Rightarrow> db \<Rightarrow> nat \<Rightarrow> bool \<Rightarrow> (string \<times> nat) list \<Rightarrow> string" where
  "walk_text env read d depth inc ns = concat (map (node_text env read d depth inc) ns)"

lemma expand_loop_cases:
  assumes "wk_frontier w = fr" and "wk_seen w = seen"
    and "\<forall>s \<in> fst ` set (visits d depth fr seen). summary_exists d s"
  shows "\<exists>out. expand_loop env read d depth inc cap w = Inr out
    \<and> (truncated cap out \<or> out = wk_out w @ walk_text env read d depth inc (visits d depth fr seen))"
  using assms
proof (induction d depth fr seen arbitrary: w rule: visits.induct)
  case (1 d depth seen)
  then show ?case by (simp add: expand_loop.simps walk_text_def)
next
  case (2 d depth s level fr seen)
  obtain row where row: "find_summary d s = Some row"
    using "2.prems"(3) by (auto simp: find_summary_exists)
  let ?step = "expand_step env read d depth inc cap s level fr w"
  consider (ret) out where "?step = StepReturns out" "truncated cap out"
    | (nxt) used where "?step = StepNext \<lparr>wk_frontier = fst (open_node d depth s level fr (wk_seen w)),
         wk_seen = snd (open_node d depth s level fr (wk_seen w)),
         wk_out = wk_out w @ node_text env read d depth inc (s, level), wk_used = used\<rparr>"
    using expand_step_cases [OF row] by blast
  then show ?case
  proof cases
    case ret
    with "2.prems"(1) show ?thesis by (simp add: expand_loop.simps [of _ _ _ _ _ _ w])
  next
    case nxt
    let ?w1 = "\<lparr>wk_frontier = fst (open_node d depth s level fr seen),
         wk_seen = snd (open_node d depth s level fr seen),
         wk_out = wk_out w @ node_text env read d depth inc (s, level), wk_used = used\<rparr>"
    have "expand_loop env read d depth inc cap w = expand_loop env read d depth inc cap ?w1"
      using nxt "2.prems"(1,2) by (simp add: expand_loop.simps [of _ _ _ _ _ _ w])
    moreover have "\<exists>out. expand_loop env read d depth inc cap ?w1 = Inr out
      \<and> (truncated cap out \<or> out = wk_out ?w1 @ walk_text env read d depth inc
           (visits d depth (wk_frontier ?w1) (wk_seen ?w1)))"
      using "2.IH" [of ?w1] "2.prems"(3) by simp
    ultimately show ?thesis by (auto simp: walk_text_def)
  qed
qed

lemma expand_loop_fit:
  assumes "wk_frontier w = fr" and "wk_seen w = seen"
    and "\<forall>s \<in> fst ` set (visits d depth fr seen). summary_exists d s"
    and "list_all counted (summaries d)" and "cap < 2 ^ 32"
    and "wk_used w + walk_weight env read d depth inc (visits d depth fr seen) \<le> cap"
  shows "expand_loop env read d depth inc cap w =
    Inr (wk_out w @ walk_text env read d depth inc (visits d depth fr seen))"
  using assms
proof (induction d depth fr seen arbitrary: w rule: visits.induct)
  case (1 d depth seen)
  then show ?case by (simp add: expand_loop.simps walk_text_def)
next
  case (2 d depth s level fr seen)
  obtain row where row: "find_summary d s = Some row"
    using "2.prems"(3) by (auto simp: find_summary_exists)
  have count: "counted row"
    using find_summary_in [OF row] "2.prems"(4) by (auto simp: list_all_iff)
  have "wk_used w + node_weight env read d depth inc (s, level) \<le> cap"
    using "2.prems"(6) by (simp add: walk_weight_def)
  from expand_step_fit [OF row count "2.prems"(5) this, of fr]
  obtain used where step: "expand_step env read d depth inc cap s level fr w =
       StepNext \<lparr>wk_frontier = fst (open_node d depth s level fr seen),
         wk_seen = snd (open_node d depth s level fr seen),
         wk_out = wk_out w @ node_text env read d depth inc (s, level), wk_used = used\<rparr>"
    and used: "used \<le> wk_used w + node_weight env read d depth inc (s, level)"
    using "2.prems"(2) by auto
  have "expand_loop env read d depth inc cap \<lparr>wk_frontier = fst (open_node d depth s level fr seen),
         wk_seen = snd (open_node d depth s level fr seen),
         wk_out = wk_out w @ node_text env read d depth inc (s, level), wk_used = used\<rparr>
    = Inr (wk_out w @ walk_text env read d depth inc (visits d depth ((s, level) # fr) seen))"
    by (subst "2.IH") (use "2.prems"(3-6) used in \<open>simp_all add: walk_text_def walk_weight_def\<close>)
  then show ?case
    using step "2.prems"(1) by (simp add: expand_loop.simps [of _ _ _ _ _ _ w])
qed

end
