(* ===== verification/Lcm_Expand_Claims.thy ===== *)
theory Lcm_Expand_Claims
  imports Lcm_Expand_Correct Lcm_Correct
begin

text \<open>
  The guarantees of \<open>lcm_expand\<close> on the stores the engine produces: what a compaction put
  behind a summary can be read back in full, an incomplete answer says so, and the cap
  counts less than it prints.
\<close>

section \<open>Reading back a covered message\<close>

lemma sublist_concat_map: "x \<in> set xs \<Longrightarrow> sublist (f x) (concat (map f xs))"
  by (auto dest!: split_list simp: sublist_appendI)

lemma node_text_source:
  assumes "leaf_node d s" and "level < depth" and "r \<in> set (source_rows d s)"
  shows "sublist (message_block r) (node_text env read d depth True (s, level))"
proof -
  have "sublist (message_block r) (message_text env read r)"
    by (simp add: message_text_def)
  also have "sublist (message_text env read r) (concat (map (message_text env read) (source_rows d s)))"
    using assms(3) by (rule sublist_concat_map)
  also have "sublist \<dots> (node_text env read d depth True (s, level))"
    using assms(1,2) by (simp add: node_text_def node_rows_def)
  finally show ?thesis .
qed

lemma expand_covers:
  assumes wf: "wf_db d" and typed: "store_typed d" and cov: "covers d s (mr_id row)"
    and row: "row \<in> set (messages d)" and root: "\<exists>r \<in> set (summaries d). sr_id r = s \<and> sr_conv r = c"
    and deep: "length (summaries d) \<le> depth" and cap: "cap \<le> MAX_EXPAND_TOKEN_CAP"
    and fits: "walk_weight env read d depth True (walk_from d depth s) \<le> cap"
  shows "\<exists>out. lcm_expand env read d c
      \<lparr>xa_summary_id = s, xa_depth = Some depth, xa_include_messages = Some True, xa_token_cap = Some cap\<rparr>
      = Inr out \<and> sublist (message_block row) out"
proof -
  have wfs: "wf_summaries d" and links: "links_typed d" and counts: "list_all counted (summaries d)"
    using wf typed by (simp_all add: wf_db_def store_typed_def)
  have ex: "summary_exists d s" using root by (auto simp: summary_exists_def)
  have pos: "max depth 1 = depth" using root deep by (cases "summaries d") auto
  have all: "\<forall>x \<in> fst ` set (walk_from d depth s). summary_exists d x"
    using walk_exists [OF wfs ex] by blast
  have small: "cap < 2 ^ 32" using cap by (simp add: MAX_EXPAND_TOKEN_CAP_def)
  have "expand_loop env read d depth True cap \<lparr>wk_frontier = [(s, 0)], wk_seen = [s], wk_out = [], wk_used = 0\<rparr>
      = Inr ([] @ walk_text env read d depth True (walk_from d depth s))"
    using all counts small fits by (subst expand_loop_fit [OF refl refl]) simp_all
  then have eq: "lcm_expand env read d c
      \<lparr>xa_summary_id = s, xa_depth = Some depth, xa_include_messages = Some True, xa_token_cap = Some cap\<rparr>
      = Inr (walk_text env read d depth True (walk_from d depth s))"
    using root cap pos by (auto simp: lcm_expand_def expand_def unwrap_or_def list_ex_iff min_absorb1)
  have "s \<in> fst ` set (walk_from d depth s)"
    using visits_frontier [of "[(s, 0)]" d depth "[s]"] by force
  then obtain y l where y: "(y, l) \<in> set (walk_from d depth s)" "(y, mr_id row) \<in> set (summary_messages d)"
    using walk_reaches [OF wfs links ex deep cov] by blast
  have "sublist (message_block row) (node_text env read d depth True (y, l))"
    using typed_kinds(1) [OF wfs links y(2)] walk_level [OF wfs ex deep y(1)] row y(2)
    by (intro node_text_source) (simp_all add: source_rows_def)
  moreover have "sublist (node_text env read d depth True (y, l))
      (walk_text env read d depth True (walk_from d depth s))"
    unfolding walk_text_def by (rule sublist_concat_map [OF y(1)])
  ultimately show ?thesis using eq by (blast intro: sublist_order.order_trans)
qed

section \<open>A sample: an answer compacted behind a summary\<close>

definition answered_db :: db where
  "answered_db = empty_db\<lparr>conversations := [\<lparr>cv_id = 1, cv_name = ''general''\<rparr>],
     messages := [sample_row 1 ''assistant'', sample_row 2 ''user''],
     parts := [text_part 1 0 [], text_part 2 0 []],
     context_items := [message_item 1 0 1, message_item 1 1 2],
     next_conversation_id := 2, next_message_id := 3\<rparr>"

definition condensed_db :: db where
  "condensed_db = answered_db\<lparr>
     summaries := [sample_summary_row sample_id1 [''assistant''] 3],
     summary_messages := [(sample_id1, 1)],
     context_items := [message_item 1 1 2, summary_item 1 0 sample_id1]\<rparr>"

lemma answered_pushes:
  "bind_res (push_message_sync [] 1 (Assistant []) None (snd (ensure_conversation ''general'' empty_db)))
     (push_message_sync [] 1 (User []) None) = Inr answered_db"
  by code_simp

lemma answered_chunks:
  "load_leaf_chunks answered_db 1 sample_cfg = Inr [[sample_chunk_row 0 1 (Assistant [])]]"
proof -
  have "message_items answered_db 1 = [(0, sample_row 1 ''assistant''), (1, sample_row 2 ''user'')]"
    by code_simp
  moreover have "reconstruct_row answered_db (sample_row 1 ''assistant'') = Inr (Assistant [])"
    by code_simp
  ultimately show ?thesis
    by (simp add: load_leaf_chunks_def sample_limits pinned_ordinal_def max_opt_def sample_chunk_row_def)
qed

lemma answered_write:
  "write_leaf_summary sample_env [] 1 [sample_chunk_row 0 1 (Assistant [])]
     \<lparr>eo_content = sample_text [''assistant''], eo_level = Deterministic, eo_input_tokens = 0,
       eo_output_tokens = 3\<rparr> answered_db = Inr condensed_db"
  by code_simp

lemma answered_run: "sample_run answered_db = Some (Inr \<lparr>ev_before = 0, ev_after = 3\<rparr>, condensed_db, ())"
proof -
  have "token_estimate_sync answered_db 1 = 0" and "token_estimate_sync condensed_db 1 = 3" by code_simp+
  moreover have "chunk_messages [sample_chunk_row 0 1 (Assistant [])] = [Assistant []]"
    by (simp add: chunk_messages_def sample_chunk_row_def)
  moreover have "map_res (condensed_entry condensed_db) (items_of condensed_db 1) =
     Inr [Some (condensed_row_of 0 (sample_summary_row sample_id1 [''assistant''] 3)), None]"
    by code_simp
  then have "load_condensed_chunks condensed_db 1 sample_cfg = Inr []"
    using sample_limits(3) by (simp add: load_condensed_chunks_def collect_runs_def)
  ultimately show ?thesis
    using sample_outcome answered_write
    by (simp add: sample_run_def run_compaction_def answered_chunks sample_summary_def [symmetric] Let_def
        condensed_loop_done)
qed

lemma condensed_reached: "engine_run sample_env sample_cfg sample_summarize sample_chat 1 condensed_db"
proof -
  let ?d = "snd (ensure_conversation ''general'' empty_db)"
  have "wf_db ?d" "conversation_exists ?d 1" "items_of ?d 1 = []" "\<forall>r \<in> set (messages ?d). mr_conv r \<noteq> 1"
    "store_typed ?d" by code_simp+
  then have "engine_run sample_env sample_cfg sample_summarize sample_chat 1 ?d" by (rule engine_run.start)
  moreover obtain d1 where "push_message_sync [] 1 (Assistant []) None ?d = Inr d1"
    and "push_message_sync [] 1 (User []) None d1 = Inr answered_db"
    using answered_pushes by (auto simp: bind_res_Inr_iff)
  ultimately have "engine_run sample_env sample_cfg sample_summarize sample_chat 1 answered_db"
    by (meson engine_run.push)
  moreover have "pin_in_tail answered_db 1 sample_cfg" by code_simp
  ultimately show ?thesis
    by (rule engine_run.compact [OF _ _ _ answered_run [unfolded sample_run_def]]) simp
qed

section \<open>Claims\<close>

text \<open>
  C4: Nothing compacted is lost to the model. In every store the engine reaches by pushes and
  guarded compactions, each message of the conversation is still an item of its context, or
  lies behind a summary item from which \<^verbatim>\<open>lcm_expand\<close> reads it back: with the depth at least
  the number of summaries and a cap that the expansion fits in, the answer contains the
  message's full text.
\<close>

theorem compacted_messages_are_recoverable:
  assumes "engine_run env cfg summarize chat c d" and "0 < min_condensed_fanout cfg"
    and "row \<in> set (messages d)" and "mr_conv row = c"
  shows "(\<exists>ord. message_item c ord (mr_id row) \<in> set (items_of d c))
    \<or> (\<exists>ord s. summary_item c ord s \<in> set (items_of d c)
        \<and> (\<forall>depth cap. length (summaries d) \<le> depth \<and> cap \<le> MAX_EXPAND_TOKEN_CAP
             \<and> walk_weight env read d depth True (walk_from d depth s) \<le> cap
           \<longrightarrow> (\<exists>out. lcm_expand env read d c
                  \<lparr>xa_summary_id = s, xa_depth = Some depth, xa_include_messages = Some True,
                   xa_token_cap = Some cap\<rparr> = Inr out
                \<and> sublist (message_block row) out)))"
proof -
  have ok: "engine_ok c d" by (rule engine_run_ok [OF assms(1,2)])
  then have wf: "wf_db d" and typed: "store_typed d" and cov: "context_covers d c (mr_id row)"
    using assms(3,4) by (simp_all add: engine_ok_def)
  then obtain i where i: "i \<in> set (items_of d c)" "item_covers d (ci_item i) (mr_id row)"
    by (auto simp: context_covers_def)
  have conv: "ci_conv i = c" "item_owned d i"
    using i(1) typed by (auto simp: set_items_of store_typed_def list_all_iff)
  show ?thesis
  proof (cases "ci_item i")
    case (MessageItem m)
    then have "i = message_item c (ci_ordinal i) (mr_id row)"
      using i(2) conv by (cases i) (simp add: item_covers_def message_item_def)
    with i(1) show ?thesis by metis
  next
    case (SummaryItem s)
    then have "i = summary_item c (ci_ordinal i) s" and "covers d s (mr_id row)"
      and root: "\<exists>r \<in> set (summaries d). sr_id r = s \<and> sr_conv r = c"
      using i(2) conv
      by (auto simp: item_covers_def item_owned_def list_ex_iff summary_item_def intro!: context_item.equality)
    then show ?thesis
      using i(1) expand_covers [OF wf typed _ assms(3) root] by metis
  qed
qed

theorem compacted_messages_are_recoverable_witness:
  "\<exists>out. lcm_expand sample_env (\<lambda>_. Inl ''gone'') condensed_db 1
     \<lparr>xa_summary_id = sample_id1, xa_depth = Some 1, xa_include_messages = Some True,
      xa_token_cap = Some 5000\<rparr> = Inr out
   \<and> sublist (message_block (sample_row 1 ''assistant'')) out"
proof -
  have row: "sample_row 1 ''assistant'' \<in> set (messages condensed_db)" by code_simp
  have conv: "mr_conv (sample_row 1 ''assistant'') = 1" by (simp add: sample_row_def)
  have items: "items_of condensed_db 1 = [summary_item 1 0 sample_id1, message_item 1 1 2]" by code_simp
  have sums: "length (summaries condensed_db) = 1" by code_simp
  have w: "walk_weight sample_env (\<lambda>_. Inl ''gone'') condensed_db 1 True (walk_from condensed_db 1 sample_id1) \<le> 5000"
    by code_simp
  from compacted_messages_are_recoverable [OF condensed_reached sample_limits(4) row conv,
      where read = "\<lambda>_. Inl ''gone''"] sums w
  show ?thesis
    by (auto simp: items summary_item_def message_item_def MAX_EXPAND_TOKEN_CAP_def sample_row_def)
qed


section \<open>The cap counts the contents, not the headings\<close>

definition bare_summary :: "string \<Rightarrow> summary_kind \<Rightarrow> int \<Rightarrow> summary_row" where
  "bare_summary s kind depth =
     \<lparr>sr_id = s, sr_conv = 1, sr_kind = kind, sr_depth = depth, sr_content = ''ok'', sr_tokens = 0,
      sr_earliest = [], sr_latest = [], sr_desc_count = 0, sr_desc_tokens = 0, sr_source_tokens = 0,
      sr_model = [], sr_created = []\<rparr>"

definition wide_db :: db where
  "wide_db = empty_db\<lparr>conversations := [\<lparr>cv_id = 1, cv_name = ''general''\<rparr>],
     summaries := [bare_summary ''sum_a'' Leaf 0, bare_summary ''sum_b'' Leaf 0,
       bare_summary ''sum_c'' Leaf 0, bare_summary ''sum_r'' Condensed 1],
     summary_parents := [(''sum_a'', ''sum_r''), (''sum_b'', ''sum_r''), (''sum_c'', ''sum_r'')],
     next_conversation_id := 2\<rparr>"

definition wide_args :: expand_args where
  "wide_args = \<lparr>xa_summary_id = ''sum_r'', xa_depth = None, xa_include_messages = None,
     xa_token_cap = Some 14\<rparr>"

abbreviation no_payloads :: "string \<Rightarrow> string + string" where
  "no_payloads \<equiv> \<lambda>_. Inl ''gone''"

lemma wide_rows: "find_summary wide_db ''sum_r'' = Some (bare_summary ''sum_r'' Condensed 1)"
  "find_summary wide_db ''sum_a'' = Some (bare_summary ''sum_a'' Leaf 0)"
  "find_summary wide_db ''sum_b'' = Some (bare_summary ''sum_b'' Leaf 0)"
  "find_summary wide_db ''sum_c'' = Some (bare_summary ''sum_c'' Leaf 0)"
  by code_simp+
lemma wide_ids: "child_ids wide_db ''sum_r'' = [''sum_a'',''sum_b'',''sum_c'']"
  by code_simp
lemma wide_chunks: 
  "estimate_tokens (summary_chunk (bare_summary ''sum_r'' Condensed 1) 0) \<le> 14"
  "estimate_tokens (summary_chunk (bare_summary ''sum_a'' Leaf 0) 1) \<le> 14"
  "estimate_tokens (summary_chunk (bare_summary ''sum_b'' Leaf 0) 1) \<le> 14"
  "estimate_tokens (summary_chunk (bare_summary ''sum_c'' Leaf 0) 1) \<le> 14"
  by code_simp+
lemma wide_walk: "walk_from wide_db 1 ''sum_r'' = [(''sum_r'',0),(''sum_c'',1),(''sum_b'',1),(''sum_a'',1)]"
  by code_simp
lemma bare_simps: "sr_tokens (bare_summary s k n) = 0" "sr_kind (bare_summary s k n) = k" by (simp_all add: bare_summary_def)
lemma wide_text: "3 * 14 \<le> estimate_tokens (walk_text sample_env no_payloads wide_db 1 False [(''sum_r'',0),(''sum_c'',1),(''sum_b'',1),(''sum_a'',1)])"
  by code_simp
lemma wide_root: "list_ex (\<lambda>r. sr_id r = ''sum_r'' \<and> sr_conv r = 1) (summaries wide_db)"
  by code_simp
lemma wide_expansion: "lcm_expand sample_env no_payloads wide_db 1 wide_args = Inr (walk_text sample_env no_payloads wide_db 1 False (walk_from wide_db 1 ''sum_r''))"
  unfolding wide_walk
  by (simp add: lcm_expand_def expand_def wide_root wide_args_def unwrap_or_def expand_loop.simps expand_step_def wide_rows wide_ids bare_simps to_u32_def u32_add_def MAX_EXPAND_TOKEN_CAP_def wide_chunks [THEN leD, unfolded One_nat_def] Let_def walk_text_def node_text_def node_rows_def node_chunk_def)
text \<open>
  The cap is no bound on the answer. A chunk is checked with its heading but charged
  only the stored token count of its content, so headings are free: here an expansion under a
  cap of 14 tokens returns, without a truncation notice, an answer of three times that size.
\<close>

theorem expansion_exceeds_its_cap:
  "wf_db wide_db \<and> store_typed wide_db
   \<and> lcm_expand sample_env no_payloads wide_db 1 wide_args =
        Inr (walk_text sample_env no_payloads wide_db 1 False (walk_from wide_db 1 ''sum_r''))
   \<and> 3 * 14 \<le> estimate_tokens
        (walk_text sample_env no_payloads wide_db 1 False (walk_from wide_db 1 ''sum_r''))"
proof (intro conjI)
  show "wf_db wide_db" "store_typed wide_db" by code_simp+
  show "3 * 14 \<le> estimate_tokens
      (walk_text sample_env no_payloads wide_db 1 False (walk_from wide_db 1 ''sum_r''))"
    unfolding wide_walk by (rule wide_text)
qed (rule wide_expansion)


end
