(* ===== verification/Lcm_Search_Claims.thy ===== *)
theory Lcm_Search_Claims
  imports Lcm_Search Lcm_Expand_Claims
begin

text \<open>
  What \<open>lcm_grep\<close> answers: rows of the active conversation only, how many of them, and no
  raw query-syntax error of the full-text index.
\<close>

section \<open>How many rows, and whose\<close>

lemma scan_rows_spec:
  "scan_rows n p rs = Inr out \<Longrightarrow> set out \<subseteq> set rs \<and> length out \<le> n"
proof (induction n p rs arbitrary: out rule: scan_rows.induct)
  case (3 n p r rs)
  show ?case
  proof (cases "p r")
    case (Inl e)
    with "3.prems" show ?thesis by simp
  next
    case (Inr b)
    then show ?thesis
    proof (cases b)
      case True
      with Inr "3.prems" obtain rest where "scan_rows n p rs = Inr rest" "out = r # rest"
        by (auto simp: bind_res_Inr_iff)
      with "3.IH"(1) [of b rest] Inr True show ?thesis by auto
    next
      case False
      with Inr "3.prems" "3.IH"(2) [of b out] show ?thesis by auto
    qed
  qed
qed simp_all

lemma match_rows_spec:
  "match_rows se mode pattern text limit rows = Inr out \<Longrightarrow> set out \<subseteq> set rows \<and> length out \<le> limit"
  using scan_rows_spec [where rs = rows and n = limit and out = out]
  by (auto simp: match_rows_def split: if_splits search_mode.splits sum.splits)

lemma grep_messages_spec:
  "grep_messages se d c pattern mode limit = Inr hits \<Longrightarrow>
     set hits \<subseteq> message_hit ` set (conversation_messages d c) \<and> length hits \<le> limit"
  by (auto simp: grep_messages_def bind_res_Inr_iff dest!: match_rows_spec intro!: imageI)

lemma grep_summaries_spec:
  "grep_summaries se d c pattern mode limit = Inr hits \<Longrightarrow>
     set hits \<subseteq> summary_hit ` set (conversation_summaries d c) \<and> length hits \<le> limit"
  by (auto simp: grep_summaries_def bind_res_Inr_iff dest!: match_rows_spec intro!: imageI)

definition tables_of :: "search_scope \<Rightarrow> nat" where
  "tables_of scope = (if scope = InBoth then 2 else 1)"

definition own_hit :: "db \<Rightarrow> int \<Rightarrow> search_scope \<Rightarrow> string \<Rightarrow> bool" where
  "own_hit d c scope h \<longleftrightarrow>
     (scope \<noteq> InSummaries \<and> h \<in> message_hit ` set (conversation_messages d c))
     \<or> (scope \<noteq> InMessages \<and> h \<in> summary_hit ` set (conversation_summaries d c))"

lemma grep_tables_spec:
  assumes "grep_tables se d c mode scope limit pattern = Inr hits"
  shows "length hits \<le> tables_of scope * limit \<and> list_all (own_hit d c scope) hits"
proof -
  obtain ms ss where hits: "hits = ms @ ss"
    and ms: "(if scope \<in> {InMessages, InBoth} then grep_messages se d c pattern mode limit else Inr []) = Inr ms"
    and ss: "(if scope \<in> {InSummaries, InBoth} then grep_summaries se d c pattern mode limit else Inr []) = Inr ss"
    using assms by (auto simp: grep_tables_def bind_res_Inr_iff)
  have 1: "length ms \<le> limit" "\<forall>h \<in> set ms. scope \<noteq> InSummaries \<and> h \<in> message_hit ` set (conversation_messages d c)"
    using ms grep_messages_spec [of se d c pattern mode limit ms] by (auto split: if_splits)
  have 2: "length ss \<le> limit" "\<forall>h \<in> set ss. scope \<noteq> InMessages \<and> h \<in> summary_hit ` set (conversation_summaries d c)"
    using ss grep_summaries_spec [of se d c pattern mode limit ss] by (auto split: if_splits)
  have "length hits \<le> tables_of scope * limit"
    using 1(1) 2(1) ms ss hits by (cases scope) (simp_all add: tables_of_def)
  moreover have "list_all (own_hit d c scope) hits"
    using 1(2) 2(2) by (auto simp: hits list_all_iff own_hit_def)
  ultimately show ?thesis by simp
qed

lemma grep_hits_from:
  "grep_hits se d c pattern mode scope limit = Inr hits \<Longrightarrow>
     \<exists>q. grep_tables se d c mode scope limit q = Inr hits"
  by (auto simp: grep_hits_def split: sum.splits if_splits)

text \<open>The only errors of the table searches are SQLite's.\<close>

lemma scan_rows_error: "scan_rows n p rs = Inl e \<Longrightarrow> \<exists>m. e = exec_err m"
  by (induction n p rs rule: scan_rows.induct)
    (auto simp: bind_res_Inl_iff split: sum.splits bool.splits)

lemma match_rows_error: "match_rows se mode pattern text limit rows = Inl e \<Longrightarrow> \<exists>m. e = exec_err m"
  by (auto simp: match_rows_def split: if_splits search_mode.splits sum.splits dest: scan_rows_error)

lemma grep_messages_error: "grep_messages se d c pattern mode limit = Inl e \<Longrightarrow> \<exists>m. e = exec_err m"
  using match_rows_error by (auto simp: grep_messages_def bind_res_Inl_iff)

lemma grep_summaries_error: "grep_summaries se d c pattern mode limit = Inl e \<Longrightarrow> \<exists>m. e = exec_err m"
  using match_rows_error by (auto simp: grep_summaries_def bind_res_Inl_iff)

lemma grep_tables_error:
  assumes "grep_tables se d c mode scope limit pattern = Inl e"
  shows "\<exists>m. e = SqliteFailed ''lcm'' m"
proof -
  have "grep_messages se d c pattern mode limit = Inl e \<or> grep_summaries se d c pattern mode limit = Inl e"
    using assms by (auto simp: grep_tables_def bind_res_Inl_iff split: if_splits)
  then show ?thesis
    using grep_messages_error grep_summaries_error unfolding exec_err_def by blast
qed

section \<open>Claims\<close>

text \<open>
  C10: A search of the tables answers with messages and summaries of the active conversation
  only, and with at most \<open>limit\<close> of each; the limit is at most 200 whatever the arguments
  say. The scope \<open>both\<close> searches two tables, so it may return twice the limit.
\<close>

theorem grep_stays_in_the_conversation:
  assumes "grep_hits se d c pattern mode scope (grep_limit args) = Inr hits"
  shows "length hits \<le> tables_of scope * grep_limit args \<and> grep_limit args \<le> 200
    \<and> list_all (own_hit d c scope) hits"
  using grep_hits_from [OF assms] grep_tables_spec by (auto simp: grep_limit_def MAX_GREP_LIMIT_def)

definition match_all :: search_env where
  "match_all = \<lparr>fts = (\<lambda>_. Inr (\<lambda>_. True)), regexp = (\<lambda>_ _. Inr True), regex_new = (\<lambda>_. None),
     search_lines = (\<lambda>_ _. Inr []), payload_path = (\<lambda>f. f)\<rparr>"

definition one_hit :: grep_args where
  "one_hit = \<lparr>ga_pattern = ''e'', ga_mode = None, ga_scope = None, ga_limit = Some 1\<rparr>"

lemma one_hit_answer:
  "grep_hits match_all condensed_db 1 ''e'' FtsMode InBoth (grep_limit one_hit) =
     Inr [message_hit (sample_row 1 ''assistant''), summary_hit (sample_summary_row sample_id1 [''assistant''] 3)]"
proof -
  have "conversation_messages condensed_db 1 = [sample_row 1 ''assistant'', sample_row 2 ''user'']"
    and "conversation_summaries condensed_db 1 = [sample_summary_row sample_id1 [''assistant''] 3]"
    by code_simp+
  then show ?thesis
    by (simp add: grep_hits_def grep_tables_def grep_messages_def grep_summaries_def match_rows_def
        match_all_def one_hit_def grep_limit_def MAX_GREP_LIMIT_def unwrap_or_def)
qed

theorem grep_stays_in_the_conversation_witness:
  "\<exists>hits. grep_hits match_all condensed_db 1 ''e'' FtsMode InBoth (grep_limit one_hit) = Inr hits
   \<and> length hits = 2 \<and> length hits \<le> tables_of InBoth * grep_limit one_hit \<and> grep_limit one_hit = 1"
  using grep_stays_in_the_conversation [OF one_hit_answer] one_hit_answer
  by (simp add: one_hit_def grep_limit_def MAX_GREP_LIMIT_def unwrap_or_def)


end
