(* ===== verification/Spec2Isabelle.thy ===== *)
theory Spec2Isabelle
  imports Agent_Guards_Correct Agent_Stuck Agent_Limits Agent_Exchange Agent_Correct Lcm_Engine_Correct Flat_Correct Exec_Tool File_Edit_Correct File_Read Git_Checkout_Correct GitHub_Prs_Delivery GitHub_Issues_Correct Memory_Distill_Claims Agent_Actor_Samples Lcm_Search_Claims
begin

text \<open>
  Verification of kitaebot, an autonomous coding agent in Rust: a daemon whose channels
  (GitHub, Linear, Telegram, a socket) send turns to an agent loop, which talks to a language
  model, runs its tool calls and keeps the conversation in a context engine. The models are
  translated from \<^verbatim>\<open>src/src\<close>; each definition names its function, and the theorems about it
  stand in the theory named \<open>_Correct\<close> or next to it.

  Conventions. A Rust string is its UTF-8 byte string (\<open>char list\<close>, one \<open>char\<close> per byte);
  counters are \<open>nat\<close> or \<open>int\<close> where the code cannot reach its bounds, and the places where
  it saturates or wraps say so. A struct is a record, an enum a datatype, a \<open>Result\<close> a sum
  with the error on the left. \<open>async\<close> code that mutates state is an action (theory \<open>Action\<close>):
  a function from the state to a result and the new state, so that an error keeps what was
  done before it; \<open>hoare\<close> triples have one postcondition for a return and one for an error.
  Whatever the source does not contain is an argument: the provider, the regular-expression
  engine, the shell tokenizer, JSON text, floating-point numbers, the file system, SQLite's
  failures, the git process, the GitHub REST API, clocks and sleeping. Where a theorem needs
  something of them it is a named hypothesis or the field of a host record.

  Shared theories. \<open>Prelude\<close> (lists, folds, result type), \<open>Rust_Text\<close>, \<open>Rust_Lines\<close>,
  \<open>Rust_Path\<close> (the parts of \<open>str\<close> and \<open>Path\<close> the program uses), \<open>Json\<close>, \<open>Ordered_Map\<close>
  (\<open>BTreeMap\<close>, with the dictionary laws as a locale), \<open>Errors\<close> (\<^verbatim>\<open>error.rs\<close>), \<open>Message\<close>
  (\<^verbatim>\<open>types.rs\<close>), \<open>Names\<close> (\<^verbatim>\<open>context/names.rs\<close>), \<open>Safety\<close> (\<^verbatim>\<open>safety.rs\<close>).

  Context engines (\<^verbatim>\<open>context/\<close>). \<open>Context_Engine\<close> is the trait, with the laws of an engine
  as a locale that the flat, the ephemeral and the LCM engine interpret; \<open>Context_Config\<close> is
  its configuration. The LCM engine keeps every message in a database and a context of
  items (messages and summaries) per conversation: \<open>Lcm_Store\<close> (tables, push, repair),
  \<open>Lcm_Summarize\<close> (the three-level escalation), \<open>Lcm_Compaction\<close> (choosing and writing
  chunks), \<open>Lcm_Assemble\<close>, \<open>Lcm_Transcript\<close>, \<open>Lcm_Engine\<close>. \<open>Lcm_Items\<close>, \<open>Lcm_Chunks\<close>,
  \<open>Lcm_Writes\<close>, \<open>Lcm_Cycle\<close>, \<open>Lcm_Leaf_Pass\<close>, \<open>Lcm_Run\<close> and \<open>Lcm_Layout\<close> build up, in this
  order, what one write, one pass, one cycle and a run of cycles do to the context;
  \<open>Lcm_Correct\<close>, \<open>Lcm_Repair\<close> and \<open>Lcm_Engine_Correct\<close> state the results: a cycle terminates,
  protects the latest user message and the fresh tail, loses nothing in the layout the
  engine keeps, and opening a conversation answers its dangling tool calls. The condensed
  pass is a loop with fuel; \<open>compaction_fuel\<close> is one more than the number of context items,
  and enough because every pass that goes on shrinks the context. \<open>Flat_Engine\<close>,
  \<open>Flat_Correct\<close>: the flat and the ephemeral engine and their session files.

  The agent loop (\<^verbatim>\<open>agent/mod.rs\<close>, \<^verbatim>\<open>agent/hints.rs\<close>, \<^verbatim>\<open>activity.rs\<close>). \<open>Agent_Guards\<close>
  (repeat detector, strikes, hints), \<open>Agent_Turn\<close> (the whole loop over any engine),
  \<open>Agent_Env\<close> and \<open>Agent_Lcm\<close> (the loop on the ephemeral engine and on LCM).
  \<open>Agent_Protocol\<close>: each tool call is answered, in order; \<open>Agent_Metering\<close>: a turn bills
  what it drew; \<open>Agent_Limits\<close>, \<open>Agent_Stuck\<close>: what ends a turn; \<open>Agent_Guards_Correct\<close>:
  the counters against counting in the history; \<open>Agent_Correct\<close>, \<open>Agent_Exchange\<close>: turns on
  the program's own engines.

  Tools. \<open>Path_Guard\<close> (\<^verbatim>\<open>tools/path.rs\<close>): no file tool leaves the workspace or writes a file
  of the daemon. \<open>Exec_Rules\<close>, \<open>Exec_Policy\<close>, \<open>Exec_Tool\<close> (\<^verbatim>\<open>tools/exec.rs\<close>,
  \<^verbatim>\<open>tools/bwrap.rs\<close>): which commands are refused, where they run; the parents of a path are
  walked with the number of its segments as fuel, which is all it has. \<open>File_Edit\<close>,
  \<open>File_Edit_Correct\<close>, \<open>File_Read\<close> (\<^verbatim>\<open>tools/file_edit.rs\<close>, \<^verbatim>\<open>file_write.rs\<close>,
  \<^verbatim>\<open>file_read.rs\<close>).

  Channels. \<open>Git_Checkout\<close>, \<open>Git_Checkout_Correct\<close> (\<^verbatim>\<open>tools/git/checkout.rs\<close>,
  \<^verbatim>\<open>channel/execution_checkout.rs\<close>, \<^verbatim>\<open>channel/github/review_checkout.rs\<close>): names stay in
  their area and a reset comes after parking. \<open>GitHub_Types\<close>, \<open>GitHub_Prs\<close>,
  \<open>GitHub_Prs_Poll\<close> (\<^verbatim>\<open>channel/github/prs.rs\<close>): the pull-request poller, with crash recovery
  in \<open>GitHub_Prs_Correct\<close> over the locale \<open>poll_invariant\<close> and the delivery of comments in
  \<open>GitHub_Prs_Delivery\<close>. \<open>GitHub_Issues\<close>, \<open>GitHub_Issues_Correct\<close>
  (\<^verbatim>\<open>channel/github/issues.rs\<close>): the issue poller.

  The LCM tools (\<^verbatim>\<open>context/lcm/tools.rs\<close>). \<open>Lcm_Expand\<close> is \<^verbatim>\<open>lcm_expand\<close>, a walk down the
  summaries under a depth and a token cap, with its \<open>u32\<close> counter; \<open>Lcm_Search\<close> is
  \<^verbatim>\<open>lcm_grep\<close> and \<^verbatim>\<open>lcm_describe\<close>. \<open>Lcm_Expand_Correct\<close> compares the walk with one that has no
  budget; \<open>Lcm_Expand_Claims\<close> joins it with the compaction cycle (every compacted message can
  be read back), and \<open>Lcm_Search_Claims\<close> bounds a search. That a store has typed links and
  exact token counts is an invariant of compaction (\<open>store_typed\<close> in \<open>Lcm_Writes\<close>).

  Memory (\<^verbatim>\<open>memory/\<close>). \<open>Memory_Distill\<close>: the index injected into the prompt and a distillation
  pass, which reads each session after its watermark, runs a turn and advances the
  watermarks. \<open>Memory_Distill_Correct\<close> states it over the locale \<open>event_log\<close>;
  \<open>Memory_Distill_Lcm\<close> is the interpretation on the LCM engine, \<open>Memory_Distill_Claims\<close> what
  follows: each message is folded once, and no session is starved.

  The actor (\<^verbatim>\<open>agent/actor.rs\<close>, \<^verbatim>\<open>agent/handle.rs\<close>, \<^verbatim>\<open>agent/escalation.rs\<close>,
  \<^verbatim>\<open>commands.rs\<close>, \<^verbatim>\<open>dispatch.rs\<close>). \<open>Agent_Actor\<close> is the handling of one envelope, built on the
  turn loop and on distillation, and the mailbox as a step relation; an arrival during a turn
  is a step between the turn and what follows it. \<open>Agent_Keeps\<close> is the frame rule for turns,
  \<open>Agent_Actor_Correct\<close> the order of answers, draining, task keys and the retry rule;
  \<open>Agent_Actor_Engines\<close> routes messages between sessions over the locale \<open>session_host\<close>,
  interpreted on LCM and on the flat engine; \<open>Agent_Actor_Samples\<close> has the concrete runs.
  Not modelled, and why. Wire formats, HTTP and sockets (\<^verbatim>\<open>clients\<close>, \<^verbatim>\<open>channel/socket.rs\<close>,
  \<^verbatim>\<open>channel/telegram.rs\<close>), process supervision and sandboxing system calls
  (\<^verbatim>\<open>tools/cli_runner.rs\<close>, \<^verbatim>\<open>sandbox.rs\<close>, \<^verbatim>\<open>confine.rs\<close>, \<^verbatim>\<open>tools/direnv.rs\<close>,
  \<^verbatim>\<open>tools/mcp.rs\<close>) and startup (\<^verbatim>\<open>main.rs\<close>, \<^verbatim>\<open>runtime.rs\<close>, \<^verbatim>\<open>daemon.rs\<close>) are input and
  output whose behaviour the source does not determine. Reports and statistics
  (\<^verbatim>\<open>context/stats.rs\<close>, \<^verbatim>\<open>usage.rs\<close>, \<^verbatim>\<open>context/lcm/report.rs\<close>) are SQL and formatting. The
  remaining parts are listed with their reason in the manifest of this development.
\<close>

end
